(* ===== verification/Prelude.thy ===== *)
theory Prelude
  imports Main "HOL-Library.Word"
begin

text \<open>
  Shared vocabulary of the development: the machine integer types of the C sources, pointers
  as integer addresses, the bit-level lemmas on words that the codecs need, the byte-array
  view of C buffers (a pointer to bytes is a total function from the index to the byte), and
  the result enumeration \<open>CoAP_Result_t\<close> that nearly every operation of the stack returns.
\<close>

unbundle bit_operations_syntax

section \<open>Machine integers and pointers\<close>

type_synonym u8 = "8 word"
type_synonym u16 = "16 word"
type_synonym u32 = "32 word"
type_synonym u64 = "64 word"

text \<open>Addresses are integers, so that the pointer arithmetic and the pointer comparisons of
  the sources can be written as they stand. \<open>NULL\<close> is the address 0.\<close>

type_synonym ptr = int

abbreviation (input) NULL :: ptr where
  "NULL \<equiv> 0"

text \<open>Conversion of an integer to \<open>int16_t\<close> (two's complement wrap-around).\<close>

definition s16 :: "int \<Rightarrow> int" where
  "s16 i = (i + 32768) mod 65536 - 32768"

lemma s16_id: "- 32768 \<le> i \<Longrightarrow> i < 32768 \<Longrightarrow> s16 i = i"
  by (simp add: s16_def)

lemma s16_range: "- 32768 \<le> s16 i" "s16 i < 32768"
  by (simp_all add: s16_def)

section \<open>Collections of rewrite rules\<close>

lemma distinct_map_hd: "distinct (map f (x # xs)) \<Longrightarrow> z \<in> set xs \<Longrightarrow> f z \<noteq> f x"
  by (metis distinct.simps(2) image_eqI list.set_map list.simps(9))

named_theorems word_nat "unat of the word operations the codecs use"
named_theorems mask_simps "numeral bit masks as mask n"

lemma mask_numerals [mask_simps]:
  "(255 :: 'a::len word) = mask 8" "(31 :: 'a::len word) = mask 5"
  "(15 :: 'a::len word) = mask 4" "(7 :: 'a::len word) = mask 3" "(3 :: 'a::len word) = mask 2"
  by (simp_all add: mask_eq_exp_minus_1)

lemma unat_ucast [word_nat]:
  "unat (ucast (x :: 'a::len word) :: 'b::len word) = unat x mod 2 ^ LENGTH('b)"
  by (simp add: unsigned_ucast_eq take_bit_eq_mod)

lemma unat_drop_bit [word_nat]:
  "unat (drop_bit n (x :: 'a::len word)) = unat x div 2 ^ n"
proof -
  have "unat (drop_bit n x) = drop_bit n (unat (take_bit LENGTH('a) x))"
    by (simp only: unsigned_drop_bit_eq unsigned_take_bit_eq)
  then show ?thesis by (simp add: drop_bit_eq_div)
qed

lemma unat_and_mask [word_nat]:
  "unat ((x :: 'a::len word) AND mask n) = unat x mod 2 ^ n"
  unfolding take_bit_eq_mask [symmetric] unsigned_take_bit_eq by (rule take_bit_eq_mod)

lemma unat_lt_2p: "unat (x :: 'a::len word) < 2 ^ LENGTH('a)"
  by (rule unsigned_less)

text \<open>Differences of unsigned values are computed in \<open>int\<close> by the C promotion rules.\<close>

lemma int_diff_less:
  "uint a - uint b < uint c \<longleftrightarrow> unat a < unat b + unat c"
  "uint a - uint b < 2 \<longleftrightarrow> unat a < unat b + 2"
  unfolding uint_nat by linarith+

lemma unat_u8_lt [simp]: "unat (x :: u8) < 256"
  using unat_lt_2p [of x] by simp

lemma unat_u16_lt [simp]: "unat (x :: u16) < 65536"
  using unat_lt_2p [of x] by simp

lemma unat_add_u16: "unat a + unat b < 65536 \<Longrightarrow> unat (a + b :: u16) = unat a + unat b"
  by (simp add: unat_word_ariths)

lemma ucast_ucast_u8_u16 [simp]: "(ucast (ucast (b :: u8) :: u16) :: u8) = b"
  by (rule bit_word_eqI) (simp add: bit_simps)

lemma u16_bytes:
  "push_bit 8 (ucast (ucast (drop_bit 8 x) :: u8)) OR ucast (ucast (x AND 255) :: u8) = (x :: u16)"
  unfolding mask_simps by (rule bit_word_eqI) (auto simp: bit_simps)

section \<open>C byte arrays\<close>

text \<open>A pointer into a byte buffer is the function from the index to the byte stored there.
  It is total: an index past the end of the buffer reads whatever lies behind it, which is how
  an out-of-bounds read of the sources shows up in the model. \<open>bytes_at\<close> is what
  \<open>memcpy\<close> copies, \<open>write_at\<close> is the buffer after a run of stores.\<close>

type_synonym bytes = "nat \<Rightarrow> u8"

definition bytes_at :: "(nat \<Rightarrow> 'a) \<Rightarrow> nat \<Rightarrow> nat \<Rightarrow> 'a list" where
  "bytes_at src off n = map (\<lambda>i. src (off + i)) [0..<n]"

definition write_at :: "(nat \<Rightarrow> 'a) \<Rightarrow> nat \<Rightarrow> 'a list \<Rightarrow> nat \<Rightarrow> 'a" where
  "write_at d off bs = (\<lambda>i. if off \<le> i \<and> i < off + length bs then bs ! (i - off) else d i)"

named_theorems array_simps "stores into and copies from byte arrays"

lemma length_bytes_at [simp]: "length (bytes_at src off n) = n"
  by (simp add: bytes_at_def)

lemma nth_bytes_at [simp]: "i < n \<Longrightarrow> bytes_at src off n ! i = src (off + i)"
  by (simp add: bytes_at_def)

lemma bytes_at_0 [simp]: "bytes_at src off 0 = []"
  by (simp add: bytes_at_def)

lemma bytes_at_Suc: "bytes_at src off (Suc n) = src off # bytes_at src (Suc off) n"
  by (rule nth_equalityI) (auto simp: nth_Cons split: nat.splits)

lemma bytes_at_add:
  "bytes_at src off (m + n) = bytes_at src off m @ bytes_at src (off + m) n"
  by (rule nth_equalityI) (auto simp: nth_append add.assoc)

lemma bytes_at_append:
  "bytes_at src off (length (xs @ ys)) = xs @ ys \<longleftrightarrow>
     bytes_at src off (length xs) = xs \<and> bytes_at src (off + length xs) (length ys) = ys"
  by (simp add: bytes_at_add)

lemma bytes_at_cong:
  "(\<And>i. i < n \<Longrightarrow> src (off + i) = src' (off + i)) \<Longrightarrow> bytes_at src off n = bytes_at src' off n"
  by (simp add: bytes_at_def)

lemma bytes_at_eq_iff:
  "bytes_at src off (length bs) = bs \<longleftrightarrow> (\<forall>i < length bs. src (off + i) = bs ! i)"
  by (metis length_bytes_at nth_bytes_at nth_equalityI)

lemma write_at_Nil [array_simps]: "write_at d off [] = d"
  by (rule ext) (auto simp: write_at_def)

lemma write_at_append [array_simps]:
  "write_at (write_at d off xs) (off + length xs) ys = write_at d off (xs @ ys)"
  by (rule ext) (auto simp: write_at_def nth_append)

lemma write_at_snoc [array_simps]:
  "(write_at d off xs)(off + length xs := b) = write_at d off (xs @ [b])"
  by (rule ext) (auto simp: write_at_def nth_append)

lemma write_at_upd [array_simps]:
  "j < length xs \<Longrightarrow> (write_at d off xs)(off + j := b) = write_at d off (xs[j := b])"
  by (rule ext) (auto simp: write_at_def nth_list_update)

lemma bytes_at_write_at [simp]: "bytes_at (write_at d off bs) off (length bs) = bs"
  by (rule nth_equalityI) (auto simp: write_at_def)

lemma write_at_outside: "i < off \<or> off + length bs \<le> i \<Longrightarrow> write_at d off bs i = d i"
  by (auto simp: write_at_def)

section \<open>Result codes\<close>

datatype CoAP_Result_t =
    COAP_OK
  | COAP_NOT_FOUND
  | COAP_PARSE_DATAGRAM_TOO_SHORT
  | COAP_PARSE_UNKOWN_COAP_VERSION
  | COAP_PARSE_MESSAGE_FORMAT_ERROR
  | COAP_PARSE_TOO_MANY_OPTIONS
  | COAP_PARSE_TOO_LONG_OPTION
  | COAP_PARSE_TOO_MUCH_PAYLOAD
  | COAP_PACK_TOO_MANY_OPTIONS
  | COAP_PACK_TOO_LONG_OPTION
  | COAP_ERR_ARGUMENT
  | COAP_ERR_SOCKET
  | COAP_ERR_NETWORK
  | COAP_ERR_OUT_OF_MEMORY
  | COAP_ERR_TOO_LONG_URI_PATH
  | COAP_ERR_NOT_FOUND
  | COAP_ERR_WRONG_OPTION
  | COAP_ERR_EXISTING
  | COAP_TRUE
  | COAP_FALSE
  | COAP_ERR_WRONG_REQUEST
  | COAP_BAD_OPTION_VAL
  | COAP_BAD_OPTION_LEN
  | COAP_REMOVED
  | COAP_ERR_UNKNOWN
  | COAP_ERR_REMOTE_RST
  | COAP_ERR_OUT_OF_ATTEMPTS
  | COAP_ERR_TIMEOUT
  | COAP_WAITING
  | COAP_HOLDING_BACK
  | COAP_RETRY

end
