(* ===== verification/Mem_Spec.thy ===== *)
theory Mem_Spec
  imports Prelude
begin

text \<open>
  The interface between the CoAP stack and its memory allocator
  (\<open>interface/mem/coap_mem.h\<close>). The stack is written against six functions only, and the
  build can replace their implementation (\<open>LOBARO_COAP_USE_EXTERNAL_MEMORY_ALLOCATOR\<close>), so
  the operations of the stack take them as the record \<open>mem_ops\<close>. The locale
  \<open>coap_allocator\<close> states what the stack relies on: a heap is a partial map from the
  address of each live buffer to its usable size, and \<open>rep m h\<close> says that allocator state
  \<open>m\<close> represents heap \<open>h\<close>. The theory \<open>Coap_Mem\<close> interprets it on the model of the
  BGET allocator of the repository.
\<close>

section \<open>The operations\<close>

record 'm mem_ops =
  coap_mem_get :: "'m \<Rightarrow> int \<Rightarrow> ptr \<times> 'm"
  coap_mem_get0 :: "'m \<Rightarrow> int \<Rightarrow> ptr \<times> 'm"
  coap_mem_release :: "'m \<Rightarrow> ptr \<Rightarrow> 'm"
  coap_mem_size :: "'m \<Rightarrow> ptr \<Rightarrow> int"
  coap_mem_buf_lowEnd :: "'m \<Rightarrow> ptr"
  coap_mem_buf_highEnd :: "'m \<Rightarrow> ptr"

type_synonym heap = "ptr \<rightharpoonup> int"

text \<open>The largest request for which no intermediate result of the allocator leaves the
  range of \<open>int16_t\<close>.\<close>

definition MAX_REQ :: int where
  "MAX_REQ = 32760"

text \<open>\<open>heap_ext h ps h'\<close>: heap \<open>h'\<close> is \<open>h\<close> with the buffers \<open>ps\<close> allocated in
  addition. It is the ownership statement of the development: an operation that takes \<open>h\<close> to
  a heap with \<open>heap_ext h ps h'\<close> and hands out an object made of the buffers \<open>ps\<close> leaks
  nothing, and releasing \<open>ps\<close> restores \<open>h\<close>.\<close>

definition heap_ext :: "heap \<Rightarrow> ptr list \<Rightarrow> heap \<Rightarrow> bool" where
  "heap_ext h ps h' \<longleftrightarrow> distinct ps \<and> set ps \<subseteq> dom h' \<and> dom h \<inter> set ps = {} \<and> h' |` (- set ps) = h"

lemma heap_ext_Nil [simp]: "heap_ext h [] h' \<longleftrightarrow> h' = h"
  by (auto simp: heap_ext_def)

lemma heap_ext_cong: "set ps = set qs \<Longrightarrow> distinct ps = distinct qs \<Longrightarrow> heap_ext h ps h' = heap_ext h qs h'"
  by (simp add: heap_ext_def)

lemma heap_ext_alloc:
  "heap_ext h ps h' \<Longrightarrow> h' p = None \<Longrightarrow> heap_ext h (p # ps) (h'(p \<mapsto> k))"
  by (auto simp: heap_ext_def restrict_map_def fun_eq_iff domIff split: if_splits) metis

lemma heap_ext_free:
  "heap_ext h (p # ps) h' \<Longrightarrow> heap_ext h ps (h'(p := None))"
  by (auto simp: heap_ext_def restrict_map_def fun_eq_iff domIff split: if_splits)

lemma heap_ext_restrict: "heap_ext h ps h' \<Longrightarrow> h' |` (- set ps) = h"
  by (simp add: heap_ext_def)

lemma heap_ext_live: "heap_ext h ps h' \<Longrightarrow> p \<in> set ps \<Longrightarrow> \<exists>k. h' p = Some k"
  by (auto simp: heap_ext_def)

text \<open>Pointwise, which is how composite objects are taken apart.\<close>

lemma heap_ext_iff:
  "heap_ext h ps h' \<longleftrightarrow> distinct ps \<and>
     (\<forall>x. if x \<in> set ps then h x = None \<and> h' x \<noteq> None else h' x = h x)"
  unfolding heap_ext_def restrict_map_def fun_eq_iff
  by (auto simp: domIff split: if_splits)

lemma heap_ext_mono: "heap_ext h ps h' \<Longrightarrow> h p = Some k \<Longrightarrow> h' p = Some k"
  by (metis heap_ext_iff option.distinct(1))

lemma heap_ext_append: "heap_ext h (ps @ qs) h'' \<longleftrightarrow> (\<exists>h'. heap_ext h qs h' \<and> heap_ext h' ps h'')"
proof
  assume "heap_ext h (ps @ qs) h''"
  then have "heap_ext h qs (h'' |` (- set ps)) \<and> heap_ext (h'' |` (- set ps)) ps h''"
    by (auto simp: heap_ext_iff restrict_map_def)
  then show "\<exists>h'. heap_ext h qs h' \<and> heap_ext h' ps h''" by blast
next
  assume "\<exists>h'. heap_ext h qs h' \<and> heap_ext h' ps h''"
  then obtain h' where "heap_ext h qs h'" "heap_ext h' ps h''" by blast
  then show "heap_ext h (ps @ qs) h''"
    unfolding heap_ext_iff by (smt (verit) Un_iff disjoint_iff distinct_append set_append)
qed

definition mem_area :: "'m mem_ops \<Rightarrow> 'm \<Rightarrow> ptr \<times> ptr" where
  "mem_area A m = (coap_mem_buf_lowEnd A m, coap_mem_buf_highEnd A m)"

section \<open>The laws\<close>

locale coap_allocator =
  fixes A :: "'m mem_ops"
    and rep :: "'m \<Rightarrow> heap \<Rightarrow> bool"
  assumes get_law: "rep m h \<Longrightarrow> 0 < n \<Longrightarrow> n \<le> MAX_REQ \<Longrightarrow> coap_mem_get A m n = (p, m') \<Longrightarrow>
      (p = NULL \<and> rep m' h) \<or> (p \<noteq> NULL \<and> h p = None \<and> (\<exists>k \<ge> n. rep m' (h(p \<mapsto> k))))"
    and get0_law: "rep m h \<Longrightarrow> 0 < n \<Longrightarrow> n \<le> MAX_REQ \<Longrightarrow> coap_mem_get0 A m n = (p, m') \<Longrightarrow>
      (p = NULL \<and> rep m' h) \<or> (p \<noteq> NULL \<and> h p = None \<and> (\<exists>k \<ge> n. rep m' (h(p \<mapsto> k))))"
    and release_law: "rep m h \<Longrightarrow> h p = Some k \<Longrightarrow> rep (coap_mem_release A m p) (h(p := None))"
    and release_NULL: "coap_mem_release A m NULL = m"
    and size_law: "rep m h \<Longrightarrow> h p = Some k \<Longrightarrow> coap_mem_size A m p = k \<and> 0 < k"
    and bounds_law: "rep m h \<Longrightarrow> h p = Some k \<Longrightarrow>
      coap_mem_buf_lowEnd A m \<le> p \<and> p + k \<le> coap_mem_buf_highEnd A m"
    and apart_law: "rep m h \<Longrightarrow> h p = Some k \<Longrightarrow> h q = Some l \<Longrightarrow> p < q \<Longrightarrow> p + k < q"
    and positive_law: "rep m h \<Longrightarrow> h p = Some k \<Longrightarrow> NULL < p"
    and area_get: "coap_mem_get A m n = (p, m') \<Longrightarrow> mem_area A m' = mem_area A m"
    and area_get0: "coap_mem_get0 A m n = (p, m') \<Longrightarrow> mem_area A m' = mem_area A m"
    and area_release: "mem_area A (coap_mem_release A m p) = mem_area A m"
begin

lemma NULL_law: "rep m h \<Longrightarrow> h NULL = None"
  using positive_law [of m h NULL] by (cases "h NULL") auto

lemma get_cases [consumes 4, case_names fail ok]:
  assumes "rep m h" "0 < n" "n \<le> MAX_REQ" "coap_mem_get A m n = (p, m')"
  obtains "p = NULL" "rep m' h"
  | k where "p \<noteq> NULL" "h p = None" "n \<le> k" "rep m' (h(p \<mapsto> k))"
  using get_law [OF assms] by blast

lemma get0_cases [consumes 4, case_names fail ok]:
  assumes "rep m h" "0 < n" "n \<le> MAX_REQ" "coap_mem_get0 A m n = (p, m')"
  obtains "p = NULL" "rep m' h"
  | k where "p \<noteq> NULL" "h p = None" "n \<le> k" "rep m' (h(p \<mapsto> k))"
  using get0_law [OF assms] by blast

text \<open>Releasing a set of live buffers in any order leaves the rest of the heap.\<close>

lemma release_all:
  assumes "rep m h" "distinct ps" "set ps \<subseteq> dom h"
  shows "rep (foldl (coap_mem_release A) m ps) (h |` (- set ps))"
  using assms
proof (induction ps arbitrary: m h)
  case Nil
  then show ?case by simp
next
  case (Cons p ps)
  then obtain k where "h p = Some k" by auto
  with Cons.prems have "rep (coap_mem_release A m p) (h(p := None))"
    by (blast intro: release_law)
  moreover have "distinct ps" "set ps \<subseteq> dom (h(p := None))"
    using Cons.prems by auto
  ultimately have "rep (foldl (coap_mem_release A) (coap_mem_release A m p) ps)
      ((h(p := None)) |` (- set ps))"
    by (rule Cons.IH)
  moreover have "(h(p := None)) |` (- set ps) = h |` (- set (p # ps))"
    by (auto simp: restrict_map_def)
  ultimately show ?case by simp
qed

lemma release_ext:
  assumes "rep m h'" "heap_ext h ps h'"
  shows "rep (foldl (coap_mem_release A) m ps) h"
  using release_all [OF assms(1), of ps] assms(2) by (auto simp: heap_ext_def)

lemma area_release_all [simp]: "mem_area A (foldl (coap_mem_release A) m ps) = mem_area A m"
  by (induction ps arbitrary: m) (simp_all add: area_release)

text \<open>A pointer into one live buffer lies outside every other one, even with the one-byte
  slack of the comparison \<open>buf > msg + size\<close> in \<open>bufferIsPartOfMsg\<close>.\<close>

lemma distinct_buffers:
  assumes "rep m h" "h p = Some k" "h q = Some l" "p \<noteq> q"
  shows "q < p \<or> p + k < q"
  using apart_law [OF assms(1-3)] assms(4) by linarith

end

section \<open>Room for further allocations\<close>

text \<open>\<open>room b m\<close>: requests succeed as long as their sizes, with \<open>ROOM_COST\<close> bytes for each of them, add up to at
  most \<open>b\<close> bytes. With this interface a result of exhausted memory is excluded where there is enough of it.\<close>

definition ROOM_COST :: int where
  "ROOM_COST = 16"

locale allocator_room =
  fixes A :: "'m mem_ops"
    and room :: "int \<Rightarrow> 'm \<Rightarrow> bool"
  assumes room_get: "room (sz + ROOM_COST + b) m \<Longrightarrow> 0 < sz \<Longrightarrow> sz \<le> MAX_REQ \<Longrightarrow> 0 \<le> b \<Longrightarrow>
      coap_mem_get A m sz = (p, m') \<Longrightarrow> p \<noteq> NULL \<and> room b m'"
    and room_get0: "room (sz + ROOM_COST + b) m \<Longrightarrow> 0 < sz \<Longrightarrow> sz \<le> MAX_REQ \<Longrightarrow> 0 \<le> b \<Longrightarrow>
      coap_mem_get0 A m sz = (p, m') \<Longrightarrow> p \<noteq> NULL \<and> room b m'"
    and room_less: "room b m \<Longrightarrow> a \<le> b \<Longrightarrow> room a m"

end
