(* ===== verification/Coap_Mem.thy ===== *)
theory Coap_Mem
  imports Mem_Spec "HOL-Library.While_Combinator"
begin

text \<open>
  The memory allocator of the stack, \<open>interface/mem/coap_mem.c\<close>: the BGET allocator in the
  configuration of the repository (\<open>SizeQuant\<close> 4, \<open>BestFit\<close>, \<open>BufStats\<close>, \<open>BufValid\<close>;
  no \<open>BECtl\<close>, no \<open>FreeWipe\<close>), with the wrapper functions \<open>coap_mem_get\<close> and so on. The pool
  lives in raw memory; the state keeps the header fields \<open>prevfree\<close> and \<open>bsize\<close> and the queue
  links \<open>flink\<close> and \<open>blink\<close> as functions of the address of the header. Pointers have 4 bytes.
  A failed \<open>assert\<close> of the sources prints a line and goes on; the state counts these lines, so
  that their absence can be proved.
\<close>

section \<open>State\<close>

record bget_state =
  prevfree :: "ptr \<Rightarrow> int"
  bsize :: "ptr \<Rightarrow> int"
  flink :: "ptr \<Rightarrow> ptr"
  blink :: "ptr \<Rightarrow> ptr"
  totalloc :: int
  numget :: int
  numrel :: int
  pMemArea :: ptr
  TotalBufBytes :: int
  assert_fails :: nat

text \<open>The address of the static variable \<open>freelist\<close>, the sentinel of the free list.\<close>

definition freelist :: ptr where
  "freelist = - 1"

definition sizeof_bhead :: int where "sizeof_bhead = 4"
definition QLSize :: int where "QLSize = 8"
definition SizeQuant :: int where "SizeQuant = 4"
definition SizeQ :: int where "SizeQ = (if SizeQuant > QLSize then SizeQuant else QLSize)"
definition ESent :: int where "ESent = - 32768"

lemmas bget_consts = sizeof_bhead_def QLSize_def SizeQuant_def SizeQ_def ESent_def

definition bget_assert :: "bool \<Rightarrow> bget_state \<Rightarrow> bget_state" where
  "bget_assert c m = (if c then m else m\<lparr>assert_fails := assert_fails m + 1\<rparr>)"

text \<open>Static initialisation: nothing in the pool, the sentinel linked to itself.\<close>

definition bget_init :: "bget_state" where
  "bget_init = \<lparr>prevfree = (\<lambda>_. 0), bsize = (\<lambda>_. 0), flink = (\<lambda>_. 0)(freelist := freelist),
     blink = (\<lambda>_. 0)(freelist := freelist), totalloc = 0, numget = 0, numrel = 0,
     pMemArea = NULL, TotalBufBytes = 0, assert_fails = 0\<rparr>"

section \<open>Free list\<close>

definition link_tail :: "ptr \<Rightarrow> bget_state \<Rightarrow> bget_state" where
  "link_tail b m0 =
     (let m0 = bget_assert (flink m0 (blink m0 freelist) = freelist) m0;
          m0 = bget_assert (blink m0 (flink m0 freelist) = freelist) m0;
          m1 = m0\<lparr>flink := (flink m0)(b := freelist)\<rparr>;
          m2 = m1\<lparr>blink := (blink m1)(b := blink m1 freelist)\<rparr>;
          m3 = m2\<lparr>blink := (blink m2)(freelist := b)\<rparr>
      in m3\<lparr>flink := (flink m3)(blink m3 b := b)\<rparr>)"

definition unlink_block :: "ptr \<Rightarrow> bget_state \<Rightarrow> bget_state" where
  "unlink_block b m0 =
     (let m0 = bget_assert (flink m0 (blink m0 b) = b) m0;
          m0 = bget_assert (blink m0 (flink m0 b) = b) m0;
          m1 = m0\<lparr>flink := (flink m0)(blink m0 b := flink m0 b)\<rparr>
      in m1\<lparr>blink := (blink m1)(flink m1 b := blink m1 b)\<rparr>)"

section \<open>Allocation\<close>

text \<open>The requested size rounded up to the allocation quantum, plus the header. The comparison
  with \<open>SizeQ\<close> is one of unsigned numbers.\<close>

definition alloc_size :: "int \<Rightarrow> int" where
  "alloc_size requested_size =
     (let size = (if 0 \<le> requested_size \<and> requested_size < SizeQ then SizeQ else requested_size);
          size = s16 ((size + (SizeQuant - 1)) div SizeQuant * SizeQuant)
      in s16 (size + sizeof_bhead))"

text \<open>The best-fit scan over the free list, and the scan that starts at its result. \<open>None\<close>
  stands for a loop that does not end.\<close>

definition best_fit :: "bget_state \<Rightarrow> int \<Rightarrow> ptr option" where
  "best_fit m sz =
     map_option snd (while_option (\<lambda>(b, best). b \<noteq> freelist)
       (\<lambda>(b, best). (flink m b,
          if bsize m b \<ge> sz \<and> (best = freelist \<or> bsize m b < bsize m best) then b else best))
       (flink m freelist, freelist))"

definition first_fit_from :: "bget_state \<Rightarrow> int \<Rightarrow> ptr \<Rightarrow> ptr option" where
  "first_fit_from m sz b = while_option (\<lambda>b. b \<noteq> freelist \<and> \<not> bsize m b \<ge> sz) (flink m) b"

text \<open>The two ways to allocate from a free buffer \<open>b\<close> that is big enough.\<close>

definition take_part :: "bget_state \<Rightarrow> ptr \<Rightarrow> int \<Rightarrow> ptr \<times> bget_state" where
  "take_part m0 b sz =
     (let ba = b + (bsize m0 b - sz);
          bn = ba + sz;
          m0 = bget_assert (prevfree m0 bn = bsize m0 b) m0;
          m1 = m0\<lparr>bsize := (bsize m0)(b := s16 (bsize m0 b - sz))\<rparr>;
          m2 = m1\<lparr>prevfree := (prevfree m1)(ba := bsize m1 b)\<rparr>;
          m3 = m2\<lparr>bsize := (bsize m2)(ba := s16 (- sz))\<rparr>;
          m4 = m3\<lparr>prevfree := (prevfree m3)(bn := 0)\<rparr>;
          m5 = m4\<lparr>totalloc := s16 (totalloc m4 + sz), numget := numget m4 + 1\<rparr>
      in (ba + sizeof_bhead, m5))"

definition take_whole :: "bget_state \<Rightarrow> ptr \<Rightarrow> ptr \<times> bget_state" where
  "take_whole m0 b =
     (let ba = b + bsize m0 b;
          m0 = bget_assert (prevfree m0 ba = bsize m0 b) m0;
          m1 = unlink_block b m0;
          m2 = m1\<lparr>totalloc := s16 (totalloc m1 + bsize m1 b), numget := numget m1 + 1\<rparr>;
          m3 = m2\<lparr>bsize := (bsize m2)(b := s16 (- bsize m2 b))\<rparr>;
          m4 = m3\<lparr>prevfree := (prevfree m3)(ba := 0)\<rparr>
      in (b + 4, m4))"

definition bget :: "bget_state \<Rightarrow> int \<Rightarrow> (ptr \<times> bget_state) option" where
  "bget m0 requested_size =
     (let m = bget_assert (requested_size > 0) m0;
          size = alloc_size requested_size
      in case best_fit m size of
           None \<Rightarrow> None
         | Some best \<Rightarrow>
             (case first_fit_from m size best of
                None \<Rightarrow> None
              | Some b \<Rightarrow>
                  if b = freelist then Some (NULL, m)
                  else if bsize m b - size > SizeQ + sizeof_bhead then Some (take_part m b size)
                  else Some (take_whole m b)))"

text \<open>\<open>bgetz\<close> clears the buffer as well; the contents of buffers are not part of this state. The
  branch for a header size of zero is for buffers acquired directly from the system, which this
  configuration does not have: \<open>bget\<close> leaves a negative size in the header.\<close>

definition bgetz :: "bget_state \<Rightarrow> int \<Rightarrow> (ptr \<times> bget_state) option" where
  "bgetz m0 sz =
     (case bget m0 sz of
        None \<Rightarrow> None
      | Some (buf, m) \<Rightarrow>
          if buf \<noteq> NULL then
            let rsize = s16 (- bsize m (buf - sizeof_bhead));
                rsize = s16 (rsize - sizeof_bhead)
            in Some (buf, bget_assert (rsize \<ge> sz) m)
          else Some (buf, m))"

section \<open>Release\<close>

text \<open>First half of \<open>brel\<close>: join the buffer with a free predecessor, or put it on the free
  list. Returns the header of the resulting free buffer.\<close>

definition brel_prev :: "bget_state \<Rightarrow> ptr \<Rightarrow> ptr \<times> bget_state" where
  "brel_prev m b =
     (if prevfree m b \<noteq> 0 then
        let size = bsize m b;
            m = bget_assert (bsize m (b - prevfree m b) = prevfree m b) m;
            b' = b - prevfree m b
        in (b', m\<lparr>bsize := (bsize m)(b' := s16 (bsize m b' - size))\<rparr>)
      else
        let m1 = link_tail b m
        in (b, m1\<lparr>bsize := (bsize m1)(b := s16 (- bsize m1 b))\<rparr>))"

text \<open>Second half: absorb a free successor, and tell the next buffer that it follows a free
  one.\<close>

definition brel_next :: "bget_state \<Rightarrow> ptr \<Rightarrow> bget_state" where
  "brel_next m b =
     (let bn = b + bsize m b;
          (m1, bn1) =
            (if bsize m bn > 0 then
               let m = bget_assert (prevfree m (bn + bsize m bn) = bsize m bn) m;
                   m' = unlink_block bn m;
                   m'' = m'\<lparr>bsize := (bsize m')(b := s16 (bsize m' b + bsize m' bn))\<rparr>
               in (m'', b + bsize m'' b)
             else (m, bn));
          m2 = bget_assert (bsize m1 bn1 < 0) m1
      in m2\<lparr>prevfree := (prevfree m2)(bn1 := bsize m2 b)\<rparr>)"

definition brel :: "bget_state \<Rightarrow> ptr \<Rightarrow> bget_state" where
  "brel m0 buf =
     (let b = buf - sizeof_bhead;
          m = m0\<lparr>numrel := numrel m0 + 1\<rparr>;
          m = bget_assert (buf \<noteq> NULL) m;
          m = bget_assert (bsize m b < 0) m;
          m = bget_assert (prevfree m (b - bsize m b) = 0) m;
          m = m\<lparr>totalloc := s16 (totalloc m + bsize m b)\<rparr>;
          m = bget_assert (totalloc m \<ge> 0) m;
          (b', m') = brel_prev m b
      in brel_next m' b')"

text \<open>\<open>bgetr\<close> moves a buffer; the number of bytes copied is the first component.\<close>

definition bgetr :: "bget_state \<Rightarrow> ptr \<Rightarrow> int \<Rightarrow> (int \<times> ptr \<times> bget_state) option" where
  "bgetr m0 buf sz =
     (case bget m0 sz of
        None \<Rightarrow> None
      | Some (nbuf, m) \<Rightarrow>
          if nbuf = NULL then Some (0, NULL, m)
          else if buf = NULL then Some (0, nbuf, m)
          else
            let b = buf - sizeof_bhead;
                osize = s16 (- bsize m b);
                osize = s16 (osize - sizeof_bhead);
                m = bget_assert (osize > 0) m
            in Some (if sz < osize then sz else osize, nbuf, brel m buf))"

section \<open>Pools and statistics\<close>

text \<open>The assertion compares unsigned numbers: a length below the header size fails it.\<close>

definition bpool :: "bget_state \<Rightarrow> ptr \<Rightarrow> int \<Rightarrow> bget_state" where
  "bpool m0 buf len0 =
     (let b = buf;
          len = s16 (len0 div SizeQuant * SizeQuant);
          m = bget_assert (0 \<le> len - sizeof_bhead \<and> len - sizeof_bhead \<le> - (ESent + 1)) m0;
          m = m\<lparr>prevfree := (prevfree m)(b := 0)\<rparr>;
          m = link_tail b m;
          len = s16 (len - sizeof_bhead);
          m = m\<lparr>bsize := (bsize m)(b := len)\<rparr>;
          bn = b + len;
          m = m\<lparr>prevfree := (prevfree m)(bn := len)\<rparr>
      in m\<lparr>bsize := (bsize m)(bn := ESent)\<rparr>)"

text \<open>\<open>bstats\<close>: \<open>(curalloc, totfree, maxfree, nget, nrel)\<close>.\<close>

definition bstats :: "bget_state \<Rightarrow> (int \<times> int \<times> int \<times> int \<times> int) option" where
  "bstats m =
     map_option (\<lambda>(b, totfree, maxfree). (totalloc m, totfree, maxfree, numget m, numrel m))
       (while_option (\<lambda>(b, totfree, maxfree). b \<noteq> freelist)
          (\<lambda>(b, totfree, maxfree). (flink m b, s16 (totfree + bsize m b),
             if bsize m b > maxfree then bsize m b else maxfree))
          (flink m freelist, 0, - 1))"

text \<open>\<open>bpoolv\<close> walks over the headers from the start of the pool to the end sentinel. An assertion
  that fails there is a result of the walk, not counted in \<open>assert_fails\<close>.\<close>

definition bpoolv :: "bget_state \<Rightarrow> ptr \<Rightarrow> bool option" where
  "bpoolv m buf =
     map_option snd (while_option (\<lambda>(b, ok). ok \<and> bsize m b \<noteq> ESent)
       (\<lambda>(b, ok).
          let bs = bsize m b in
          if bs < 0 then (b + s16 (- bs), True)
          else if bs \<le> 0 then (b, False)
          else if flink m (blink m b) \<noteq> b \<or> blink m (flink m b) \<noteq> b then (b, False)
          else (b + bs, True))
       (buf, True))"

section \<open>The interface functions\<close>

definition mem_lowEnd :: "bget_state \<Rightarrow> ptr" where
  "mem_lowEnd m = pMemArea m"

definition mem_highEnd :: "bget_state \<Rightarrow> ptr" where
  "mem_highEnd m = pMemArea m + (TotalBufBytes m - 1)"

definition coap_mem_init :: "bget_state \<Rightarrow> ptr \<Rightarrow> int \<Rightarrow> bget_state" where
  "coap_mem_init m pMemoryArea sz =
     (if pMemoryArea = NULL then m
      else let m = m\<lparr>pMemArea := pMemoryArea, TotalBufBytes := sz\<rparr>
           in bpool m (pMemArea m) (TotalBufBytes m))"

definition mem_release :: "bget_state \<Rightarrow> ptr \<Rightarrow> bget_state" where
  "mem_release m buf = (if buf = NULL then m else brel m buf)"

definition mem_size :: "bget_state \<Rightarrow> ptr \<Rightarrow> int" where
  "mem_size m buf =
     (if buf = NULL then 0
      else let size = bsize m (buf - sizeof_bhead)
           in if size < 0 then size * (- 1) - sizeof_bhead else 0)"

text \<open>The six functions the stack is written against. \<open>bget\<close> has a result on every pool
  (\<open>bget_total\<close> in \<open>Coap_Mem_Correct\<close>); the value for a scan that does not end is
  therefore never used.\<close>

definition returned :: "bget_state \<Rightarrow> (ptr \<times> bget_state) option \<Rightarrow> ptr \<times> bget_state" where
  "returned m r = (case r of None \<Rightarrow> (NULL, m) | Some x \<Rightarrow> x)"

definition bget_ops :: "bget_state mem_ops" where
  "bget_ops = \<lparr>coap_mem_get = (\<lambda>m n. returned m (bget m n)),
     coap_mem_get0 = (\<lambda>m n. returned m (bgetz m n)),
     coap_mem_release = mem_release, coap_mem_size = mem_size,
     coap_mem_buf_lowEnd = mem_lowEnd, coap_mem_buf_highEnd = mem_highEnd\<rparr>"

end
