(* ===== verification/Coap_Mem_Correct.thy ===== *)
theory Coap_Mem_Correct
  imports Coap_Mem "HOL-Library.Multiset"
begin

text \<open>
  Correctness of the allocator. The headers tile the pool from its start to the end sentinel,
  each header knows whether its predecessor is free, two free buffers are never adjacent, and
  the free buffers are exactly the nodes of the doubly linked free list (\<open>pool\<close>). Every
  operation keeps this invariant, no assertion of the sources ever fails, and the operations
  satisfy the laws of \<open>coap_allocator\<close>.
\<close>

section \<open>The doubly linked list\<close>

text \<open>\<open>lseg f b x xs z\<close>: from \<open>x\<close> the forward links run through \<open>xs\<close> to \<open>z\<close>, and the
  backward links run back.\<close>

fun lseg :: "(ptr \<Rightarrow> ptr) \<Rightarrow> (ptr \<Rightarrow> ptr) \<Rightarrow> ptr \<Rightarrow> ptr list \<Rightarrow> ptr \<Rightarrow> bool" where
  "lseg f b x [] z \<longleftrightarrow> f x = z \<and> b z = x"
| "lseg f b x (y # ys) z \<longleftrightarrow> f x = y \<and> b y = x \<and> lseg f b y ys z"

lemma lseg_append: "lseg f b x (xs @ y # ys) z \<longleftrightarrow> lseg f b x xs y \<and> lseg f b y ys z"
  by (induction xs arbitrary: x) auto

lemma lseg_ends: "lseg f b x xs z \<Longrightarrow> f (last (x # xs)) = z \<and> b z = last (x # xs)"
  by (induction xs arbitrary: x) auto

lemma lseg_hd: "lseg f b x xs z \<Longrightarrow> f x = hd (xs @ [z]) \<and> b (hd (xs @ [z])) = x"
  by (cases xs) auto

lemma lseg_cong:
  assumes "lseg f b x xs z" "\<And>u. u \<in> set (x # xs) \<Longrightarrow> f' u = f u" "\<And>u. u \<in> set (xs @ [z]) \<Longrightarrow> b' u = b u"
  shows "lseg f' b' x xs z"
  using assms by (induction xs arbitrary: x) auto

text \<open>The last link redirected to another end.\<close>

lemma lseg_redirect:
  assumes "lseg f b x xs z" "distinct (x # xs)" "z' \<notin> set xs"
    "f' = f(last (x # xs) := z')" "b' = b(z' := last (x # xs))"
  shows "lseg f' b' x xs z'"
  using assms
proof (induction xs arbitrary: x)
  case (Cons y ys)
  have "lseg f' b' y ys z'" using Cons.prems by (intro Cons.IH) auto
  moreover have "x \<noteq> last (y # ys)" using Cons.prems(2) by (metis distinct.simps(2) last_in_set list.discI)
  ultimately show ?case using Cons.prems by auto
qed simp

definition dll :: "bget_state \<Rightarrow> ptr list \<Rightarrow> bool" where
  "dll m fs \<longleftrightarrow> lseg (flink m) (blink m) freelist fs freelist \<and> distinct (freelist # fs)"

lemma dll_asserts:
  assumes "dll m fs"
  shows "flink m (blink m freelist) = freelist" "blink m (flink m freelist) = freelist"
    "x \<in> set fs \<Longrightarrow> flink m (blink m x) = x \<and> blink m (flink m x) = x"
proof -
  have l: "lseg (flink m) (blink m) freelist fs freelist" using assms by (simp add: dll_def)
  show "flink m (blink m freelist) = freelist" "blink m (flink m freelist) = freelist"
    using lseg_ends [OF l] lseg_hd [OF l] by simp_all
  assume "x \<in> set fs"
  then obtain us vs where "fs = us @ x # vs" by (metis split_list)
  with l have "lseg (flink m) (blink m) freelist us x" "lseg (flink m) (blink m) x vs freelist"
    by (simp_all add: lseg_append)
  then show "flink m (blink m x) = x \<and> blink m (flink m x) = x"
    using lseg_ends lseg_hd by metis
qed

lemma link_tail_dll:
  assumes d: "dll m fs" and b: "b \<notin> set fs" "b \<noteq> freelist"
  shows "dll (link_tail b m) (fs @ [b])"
    "link_tail b m = m\<lparr>flink := flink (link_tail b m), blink := blink (link_tail b m)\<rparr>"
proof -
  let ?l = "last (freelist # fs)"
  have l: "lseg (flink m) (blink m) freelist fs freelist" using d by (simp add: dll_def)
  have bl: "blink m freelist = ?l" "flink m ?l = freelist" using lseg_ends [OF l] by simp_all
  have lb: "?l \<noteq> b" using b by (metis last_in_set list.discI set_ConsD)
  have eq: "link_tail b m = m\<lparr>flink := (flink m)(b := freelist, ?l := b),
      blink := (blink m)(b := ?l, freelist := b)\<rparr>"
    using b(2) by (simp add: link_tail_def dll_asserts [OF d] bget_assert_def Let_def bl del: last.simps)
  have "lseg ((flink m)(?l := b)) ((blink m)(b := ?l)) freelist fs b"
    using l d b by (intro lseg_redirect [OF l]) (auto simp: dll_def)
  then have "lseg ((flink m)(b := freelist, ?l := b)) ((blink m)(b := ?l, freelist := b)) freelist fs b"
    using b d by (elim lseg_cong) (auto simp: dll_def)
  then show "dll (link_tail b m) (fs @ [b])"
    using d b lb by (simp add: eq dll_def lseg_append del: last.simps)
  show "link_tail b m = m\<lparr>flink := flink (link_tail b m), blink := blink (link_tail b m)\<rparr>"
    by (simp add: eq)
qed

lemma unlink_dll:
  assumes d: "dll m (us @ b # vs)"
  shows "dll (unlink_block b m) (us @ vs)"
    "unlink_block b m = m\<lparr>flink := flink (unlink_block b m), blink := blink (unlink_block b m)\<rparr>"
proof -
  let ?u = "last (freelist # us)" and ?v = "hd (vs @ [freelist])"
  have l: "lseg (flink m) (blink m) freelist us b" "lseg (flink m) (blink m) b vs freelist"
    and dist: "distinct (freelist # us @ b # vs)"
    using d by (simp_all add: dll_def lseg_append)
  have ends: "blink m b = ?u" "flink m b = ?v" "flink m ?u = b" "blink m ?v = b" using lseg_ends [OF l(1)] lseg_hd [OF l(2)] by simp_all
  have ub: "?u \<noteq> b" using dist by (metis Un_iff distinct.simps(2) distinct_append last_in_set
        list.discI not_distinct_conv_prefix set_ConsD set_append append_Cons disjoint_insert(1) list.simps(15))
  have eq: "unlink_block b m = m\<lparr>flink := (flink m)(?u := ?v), blink := (blink m)(?v := ?u)\<rparr>"
    using ub by (simp add: unlink_block_def bget_assert_def Let_def ends del: last.simps)
  show "unlink_block b m = m\<lparr>flink := flink (unlink_block b m), blink := blink (unlink_block b m)\<rparr>"
    by (simp add: eq)
  have left: "lseg ((flink m)(?u := ?v)) ((blink m)(?v := ?u)) freelist us ?v"
    using dist by (intro lseg_redirect [OF l(1)]) (cases vs; auto)+
  show "dll (unlink_block b m) (us @ vs)"
  proof (cases vs)
    case Nil
    then show ?thesis using left dist by (simp add: eq dll_def del: last.simps)
  next
    case (Cons v ws)
    have "lseg (flink m) (blink m) v ws freelist" using l(2) Cons by simp
    then have "lseg ((flink m)(?u := ?v)) ((blink m)(?v := ?u)) v ws freelist"
    proof (rule lseg_cong)
      have "?u \<in> set (freelist # us)" by (rule last_in_set) simp
      then show "((flink m)(?u := ?v)) w = flink m w" if "w \<in> set (v # ws)" for w
        using that dist Cons by auto
      show "((blink m)(?v := ?u)) w = blink m w" if "w \<in> set (ws @ [freelist])" for w
        using that dist Cons by auto
    qed
    then show ?thesis using left dist Cons by (simp add: eq dll_def lseg_append del: last.simps)
  qed
qed

section \<open>The headers tile the pool\<close>

text \<open>The layout of a pool is the list of its signed buffer sizes: positive for free buffers,
  negative for allocated ones. \<open>seg\<close> says that the headers from address \<open>a\<close> on describe such
  a list, \<open>tiles\<close> that the end sentinel follows.\<close>

abbreviation tot :: "int list \<Rightarrow> int" where
  "tot bs \<equiv> sum_list (map abs bs)"

fun lastpf :: "int \<Rightarrow> int list \<Rightarrow> int" where
  "lastpf pf [] = pf"
| "lastpf pf (s # bs) = lastpf (max s 0) bs"

fun seg :: "(ptr \<Rightarrow> int) \<Rightarrow> (ptr \<Rightarrow> int) \<Rightarrow> ptr \<Rightarrow> int \<Rightarrow> int list \<Rightarrow> bool" where
  "seg p z a pf [] \<longleftrightarrow> True"
| "seg p z a pf (s # bs) \<longleftrightarrow> z a = s \<and> p a = pf \<and> (s > 0 \<longrightarrow> pf = 0) \<and> 12 \<le> \<bar>s\<bar> \<and> 4 dvd s \<and>
     seg p z (a + \<bar>s\<bar>) (max s 0) bs"

definition tiles :: "(ptr \<Rightarrow> int) \<Rightarrow> (ptr \<Rightarrow> int) \<Rightarrow> ptr \<Rightarrow> int \<Rightarrow> int list \<Rightarrow> bool" where
  "tiles p z a pf bs \<longleftrightarrow> seg p z a pf bs \<and> z (a + tot bs) = ESent \<and> p (a + tot bs) = lastpf pf bs"

lemma tot_nonneg: "0 \<le> tot bs"
  by (induction bs) auto

lemma lastpf_append: "lastpf pf (xs @ ys) = lastpf (lastpf pf xs) ys"
  by (induction xs arbitrary: pf) auto

lemma lastpf_nonneg: "0 \<le> pf \<Longrightarrow> 0 \<le> lastpf pf xs"
  by (induction xs arbitrary: pf) auto

lemma seg_append: "seg p z a pf (xs @ ys) \<longleftrightarrow> seg p z a pf xs \<and> seg p z (a + tot xs) (lastpf pf xs) ys"
  by (induction xs arbitrary: a pf) (auto simp: add.assoc)

lemma tiles_append:
  "tiles p z a pf (xs @ ys) \<longleftrightarrow> seg p z a pf xs \<and> tiles p z (a + tot xs) (lastpf pf xs) ys"
  by (auto simp: tiles_def seg_append lastpf_append add.assoc)

lemma tiles_Cons:
  "tiles p z a pf (s # bs) \<longleftrightarrow> z a = s \<and> p a = pf \<and> (s > 0 \<longrightarrow> pf = 0) \<and> 12 \<le> \<bar>s\<bar> \<and> 4 dvd s \<and>
     tiles p z (a + \<bar>s\<bar>) (max s 0) bs"
  by (auto simp: tiles_def add.assoc)

lemma tiles_hd: "tiles p z a pf bs \<Longrightarrow> p a = pf \<and> (z a < 0 \<longleftrightarrow> bs = [] \<or> hd bs < 0)"
  by (cases bs) (auto simp: tiles_def ESent_def)

lemma seg_cong:
  "seg p z a pf bs \<Longrightarrow> (\<And>x. a \<le> x \<Longrightarrow> x < a + tot bs \<Longrightarrow> p' x = p x \<and> z' x = z x) \<Longrightarrow> seg p' z' a pf bs"
proof (induction bs arbitrary: a pf)
  case (Cons s bs)
  have "seg p' z' (a + \<bar>s\<bar>) (max s 0) bs"
    using Cons.prems by (intro Cons.IH) auto
  moreover have "a < a + tot (s # bs)" using Cons.prems(1) tot_nonneg [of bs] by auto
  ultimately show ?case using Cons.prems by auto
qed simp

lemma tiles_cong:
  assumes "tiles p z a pf bs" "\<And>x. a \<le> x \<Longrightarrow> p' x = p x \<and> z' x = z x"
  shows "tiles p' z' a pf bs"
  using assms seg_cong [of p z a pf bs p' z'] tot_nonneg [of bs] by (auto simp: tiles_def)

text \<open>The back pointer of the first header may change where this breaks no rule.\<close>

lemma tiles_setpf:
  assumes "tiles p z a pf bs" "pf' = 0 \<or> bs = [] \<or> hd bs < 0"
  shows "tiles (p(a := pf')) z a pf' bs"
proof (cases bs)
  case Nil
  with assms show ?thesis by (simp add: tiles_def)
next
  case (Cons s ys)
  have "tiles p z (a + \<bar>s\<bar>) (max s 0) ys" "12 \<le> \<bar>s\<bar>" using assms Cons by (auto simp: tiles_Cons)
  then have "tiles (p(a := pf')) z (a + \<bar>s\<bar>) (max s 0) ys" by (elim tiles_cong) auto
  with assms Cons show ?thesis by (auto simp: tiles_Cons)
qed

section \<open>Free buffers, live buffers\<close>

fun frees :: "ptr \<Rightarrow> int list \<Rightarrow> ptr list" where
  "frees a [] = []"
| "frees a (s # bs) = (if s > 0 then [a] else []) @ frees (a + \<bar>s\<bar>) bs"

fun heap_of :: "ptr \<Rightarrow> int list \<Rightarrow> heap" where
  "heap_of a [] = Map.empty"
| "heap_of a (s # bs) = (if s < 0 then (heap_of (a + \<bar>s\<bar>) bs)(a + 4 \<mapsto> - s - 4) else heap_of (a + \<bar>s\<bar>) bs)"

definition alloc_sum :: "int list \<Rightarrow> int" where
  "alloc_sum bs = sum_list (map (\<lambda>s. max (- s) 0) bs)"

lemma frees_append: "frees a (xs @ ys) = frees a xs @ frees (a + tot xs) ys"
  by (induction xs arbitrary: a) (auto simp: add.assoc)

lemma frees_split: "b \<in> set (frees a bs) \<Longrightarrow> \<exists>xs s ys. bs = xs @ s # ys \<and> b = a + tot xs \<and> s > 0"
proof (induction bs arbitrary: a)
  case (Cons s bs)
  show ?case
  proof (cases "b = a \<and> s > 0")
    case True
    then have "s # bs = [] @ s # bs \<and> b = a + tot [] \<and> s > 0" by simp
    then show ?thesis by blast
  next
    case False
    with Cons obtain xs t ys where "bs = xs @ t # ys" "b = a + \<bar>s\<bar> + tot xs" "t > 0"
      by (fastforce split: if_splits)
    then have "s # bs = (s # xs) @ t # ys \<and> b = a + tot (s # xs) \<and> t > 0" by simp
    then show ?thesis by blast
  qed
qed simp

lemma heap_of_split:
  "heap_of a bs p = Some k \<Longrightarrow> \<exists>xs s ys. bs = xs @ s # ys \<and> p = a + tot xs + 4 \<and> s < 0 \<and> k = - s - 4"
proof (induction bs arbitrary: a)
  case (Cons s bs)
  show ?case
  proof (cases "p = a + 4 \<and> s < 0")
    case True
    with Cons.prems have "s # bs = [] @ s # bs \<and> p = a + tot [] + 4 \<and> s < 0 \<and> k = - s - 4" by simp
    then show ?thesis by blast
  next
    case False
    with Cons obtain xs t ys where "bs = xs @ t # ys" "p = a + \<bar>s\<bar> + tot xs + 4" "t < 0" "k = - t - 4"
      by (fastforce split: if_splits)
    then have "s # bs = (s # xs) @ t # ys \<and> p = a + tot (s # xs) + 4 \<and> t < 0 \<and> k = - t - 4" by simp
    then show ?thesis by blast
  qed
qed simp

lemma heap_of_append: "heap_of a (xs @ ys) = heap_of (a + tot xs) ys ++ heap_of a xs"
  by (induction xs arbitrary: a) (simp_all add: algebra_simps)

text \<open>With sizes of at least 12 bytes, buffer addresses of a segment lie strictly inside it.\<close>

abbreviation big :: "int list \<Rightarrow> bool" where
  "big bs \<equiv> list_all (\<lambda>s. 12 \<le> \<bar>s\<bar>) bs"

lemma seg_big: "seg p z a pf bs \<Longrightarrow> big bs"
  by (induction bs arbitrary: a pf) auto

lemma heap_of_range: "big bs \<Longrightarrow> heap_of a bs q = Some k \<Longrightarrow> a + 4 \<le> q \<and> q + k \<le> a + tot bs \<and> 8 \<le> k"
proof (induction bs arbitrary: a)
  case (Cons s bs)
  show ?case
  proof (cases "q = a + 4 \<and> s < 0")
    case True
    with Cons.prems tot_nonneg [of bs] show ?thesis by auto
  next
    case False
    then have "heap_of (a + \<bar>s\<bar>) bs q = Some k" using Cons.prems(2) by (auto split: if_splits)
    with Cons have "a + \<bar>s\<bar> + 4 \<le> q \<and> q + k \<le> a + \<bar>s\<bar> + tot bs \<and> 8 \<le> k" by simp
    then show ?thesis using abs_ge_zero [of s] unfolding list.map sum_list.Cons by linarith
  qed
qed simp

lemma frees_range: "big bs \<Longrightarrow> b \<in> set (frees a bs) \<Longrightarrow> a \<le> b \<and> b < a + tot bs"
proof (induction bs arbitrary: a)
  case (Cons s bs)
  show ?case
  proof (cases "b = a \<and> s > 0")
    case True
    with Cons.prems tot_nonneg [of bs] show ?thesis by auto
  next
    case False
    then have "b \<in> set (frees (a + \<bar>s\<bar>) bs)" using Cons.prems(2) by (auto split: if_splits)
    with Cons have "a + \<bar>s\<bar> \<le> b \<and> b < a + \<bar>s\<bar> + tot bs" by simp
    then show ?thesis using abs_ge_zero [of s] unfolding list.map sum_list.Cons by linarith
  qed
qed simp

lemma alloc_sum_simps [simp]:
  "alloc_sum [] = 0" "alloc_sum (s # bs) = max (- s) 0 + alloc_sum bs"
  "alloc_sum (xs @ ys) = alloc_sum xs + alloc_sum ys"
  by (simp_all add: alloc_sum_def)

lemma alloc_sum_bounds: "0 \<le> alloc_sum bs" "alloc_sum bs \<le> tot bs"
  by (induction bs) auto

section \<open>The pool invariant\<close>

definition pool :: "bget_state \<Rightarrow> int list \<Rightarrow> ptr list \<Rightarrow> bool" where
  "pool m bs fs \<longleftrightarrow> tiles (prevfree m) (bsize m) (pMemArea m) 0 bs \<and> dll m fs \<and>
     mset fs = mset (frees (pMemArea m) bs) \<and> 0 < pMemArea m \<and> tot bs + 4 \<le> TotalBufBytes m \<and>
     TotalBufBytes m \<le> 32767 \<and> totalloc m = alloc_sum bs \<and> assert_fails m = 0"

lemma poolD:
  assumes "pool m bs fs"
  shows "tiles (prevfree m) (bsize m) (pMemArea m) 0 bs" "dll m fs"
    "mset fs = mset (frees (pMemArea m) bs)" "0 < pMemArea m" "tot bs + 4 \<le> TotalBufBytes m"
    "TotalBufBytes m \<le> 32767" "totalloc m = alloc_sum bs" "assert_fails m = 0"
    "set fs = set (frees (pMemArea m) bs)" "big bs"
  using assms mset_eq_setD seg_big by (auto simp: pool_def tiles_def)

text \<open>A buffer in the middle of the layout.\<close>

lemma pool_at:
  assumes "pool m (xs @ s # ys) fs" "b = pMemArea m + tot xs"
  shows "bsize m b = s" "prevfree m b = lastpf 0 xs" "s > 0 \<Longrightarrow> prevfree m b = 0" "12 \<le> \<bar>s\<bar>" "4 dvd s"
    "seg (prevfree m) (bsize m) (pMemArea m) 0 xs"
    "tiles (prevfree m) (bsize m) (b + \<bar>s\<bar>) (max s 0) ys"
  using poolD(1) [OF assms(1)] assms(2) by (auto simp: tiles_append tiles_Cons)

lemma pool_free:
  assumes "pool m bs fs" "b \<in> set fs"
  obtains xs s ys where "bs = xs @ s # ys" "b = pMemArea m + tot xs" "s > 0" "bsize m b = s"
proof -
  have "b \<in> set (frees (pMemArea m) bs)" using assms poolD(9) by blast
  then obtain xs s ys where *: "bs = xs @ s # ys" "b = pMemArea m + tot xs" "s > 0"
    using frees_split by blast
  moreover have "bsize m b = s" using pool_at(1) assms(1) * by simp
  ultimately show thesis by (rule that)
qed

lemma pool_small:
  assumes "pool m (xs @ s # ys) fs"
  shows "\<bar>s\<bar> \<le> 32763" "tot xs + \<bar>s\<bar> + tot ys \<le> 32763"
  using poolD(5,6) [OF assms] tot_nonneg [of xs] tot_nonneg [of ys] by simp_all

section \<open>Best fit\<close>

definition better :: "bget_state \<Rightarrow> int \<Rightarrow> ptr \<Rightarrow> ptr \<Rightarrow> ptr" where
  "better m sz best b = (if bsize m b \<ge> sz \<and> (best = freelist \<or> bsize m b < bsize m best) then b else best)"

lemma best_fit_loop:
  assumes "lseg (flink m) (blink m) x ys freelist" "freelist \<notin> set ys"
  shows "while_option (\<lambda>(b, best). b \<noteq> freelist)
       (\<lambda>(b, best). (flink m b,
          if bsize m b \<ge> sz \<and> (best = freelist \<or> bsize m b < bsize m best) then b else best))
       (flink m x, best) = Some (freelist, foldl (better m sz) best ys)"
  using assms
proof (induction ys arbitrary: x best)
  case Nil
  then show ?case by (subst while_option_unfold) simp
next
  case (Cons y ys)
  have "foldl (better m sz) best (y # ys) =
      foldl (better m sz) (if bsize m y \<ge> sz \<and> (best = freelist \<or> bsize m y < bsize m best) then y else best) ys"
    by (simp add: better_def)
  with Cons show ?case by (subst while_option_unfold) simp
qed

lemma foldl_better:
  assumes "freelist \<notin> set ys"
  shows "foldl (better m sz) best ys = best \<and> (\<forall>y \<in> set ys. sz \<le> bsize m y \<longrightarrow> best \<noteq> freelist \<and> bsize m best \<le> bsize m y) \<or>
    (let r = foldl (better m sz) best ys in r \<in> set ys \<and> sz \<le> bsize m r \<and>
      (best \<noteq> freelist \<longrightarrow> bsize m r \<le> bsize m best) \<and> (\<forall>y \<in> set ys. sz \<le> bsize m y \<longrightarrow> bsize m r \<le> bsize m y))"
  using assms
proof (induction ys arbitrary: best)
  case (Cons y ys)
  from Cons.prems have "freelist \<notin> set ys" "y \<noteq> freelist" by auto
  then show ?case
    using Cons.IH [of "better m sz best y"] by (auto simp: better_def Let_def split: if_splits)
qed simp

text \<open>The scan ends; it finds nothing exactly if no free buffer is big enough, and otherwise a
  smallest one that is.\<close>

lemma best_fit_cases [consumes 1, case_names none found]:
  assumes "pool m bs fs"
  obtains "best_fit m sz = Some freelist" "\<forall>b \<in> set fs. bsize m b < sz"
  | b where "best_fit m sz = Some b" "b \<in> set fs" "sz \<le> bsize m b" "b \<noteq> freelist"
      "\<forall>b' \<in> set fs. sz \<le> bsize m b' \<longrightarrow> bsize m b \<le> bsize m b'"
proof -
  have l: "lseg (flink m) (blink m) freelist fs freelist" "freelist \<notin> set fs"
    using poolD(2) [OF assms] by (simp_all add: dll_def)
  have eq: "best_fit m sz = Some (foldl (better m sz) freelist fs)"
    unfolding best_fit_def best_fit_loop [OF l] by simp
  show thesis
    using foldl_better [OF l(2), of m sz freelist] eq l(2) that unfolding Let_def by (metis not_le)
qed

lemma alloc_size_le:
  assumes "0 < n" "n \<le> MAX_REQ"
  shows "n + 4 \<le> alloc_size n" "12 \<le> alloc_size n" "4 dvd alloc_size n" "alloc_size n \<le> 32764"
    "alloc_size n \<le> max n 8 + 7"
proof -
  let ?k = "if n < 8 then 8 else n"
  define r where "r = (?k + 3) div 4 * 4"
  have r: "?k \<le> r" "r \<le> ?k + 3" "4 dvd r" by (auto simp: r_def)
  have r2: "r \<le> 32760"
  proof -
    have "(?k + 3) div 4 \<le> 32763 div 4" using assms by (intro zdiv_mono1) (auto simp: MAX_REQ_def)
    then show ?thesis by (simp add: r_def)
  qed
  have "s16 r = r" "s16 (r + 4) = r + 4" using r(1) r2 assms(1) by (auto intro!: s16_id split: if_splits)
  moreover have "(if 0 \<le> n \<and> n < SizeQ then SizeQ else n) = ?k" using assms(1) by (simp add: bget_consts)
  ultimately have "alloc_size n = r + 4"
    unfolding alloc_size_def Let_def by (simp add: bget_consts r_def)
  then show "n + 4 \<le> alloc_size n" "12 \<le> alloc_size n" "4 dvd alloc_size n" "alloc_size n \<le> 32764"
    "alloc_size n \<le> max n 8 + 7"
    using r r2 by (auto split: if_splits)
qed

section \<open>Allocation keeps the invariant\<close>

lemma take_part_pool:
  assumes pool: "pool m (xs @ s # ys) fs" and b: "b = pMemArea m + tot xs" and s: "0 < s"
    and sz: "12 \<le> sz" "4 dvd sz" "sz \<le> 32764" "12 < s - sz"
  obtains m' where "take_part m b sz = (b + (s - sz) + 4, m')" "pool m' (xs @ (s - sz) # (- sz) # ys) fs"
    "pMemArea m' = pMemArea m" "TotalBufBytes m' = TotalBufBytes m"
proof -
  note at = pool_at [OF pool b] and D = poolD [OF pool]
  let ?ba = "b + (s - sz)"
  define m' where "m' = m\<lparr>bsize := (bsize m)(b := s - sz, ?ba := - sz),
    prevfree := (prevfree m)(?ba := s - sz, b + s := 0), totalloc := totalloc m + sz, numget := numget m + 1\<rparr>"
  have small: "s \<le> 32763" "alloc_sum xs + alloc_sum ys + s \<le> 32763" "0 \<le> alloc_sum xs" "0 \<le> alloc_sum ys"
    using pool_small [OF pool] s alloc_sum_bounds(1) [of xs] alloc_sum_bounds(1) [of ys]
      alloc_sum_bounds(2) [of xs] alloc_sum_bounds(2) [of ys] by auto
  have s16: "s16 (s - sz) = s - sz" "s16 (- sz) = - sz" "s16 (totalloc m + sz) = totalloc m + sz"
    using small sz s D(7) by (auto intro!: s16_id)
  have nxt: "prevfree m (b + s) = s" using tiles_hd [OF at(7)] s by simp
  have "take_part m b sz = (?ba + 4, m')"
    using sz nxt at(1) by (simp add: take_part_def bget_assert_def Let_def s16 m'_def bget_consts)
  moreover have "pool m' (xs @ (s - sz) # (- sz) # ys) fs"
  proof -
    have "seg (prevfree m') (bsize m') (pMemArea m) 0 xs"
      using at(6) by (rule seg_cong) (use b sz s in \<open>auto simp: m'_def\<close>)
    moreover have "tiles (prevfree m') (bsize m') (b + s) 0 ys"
    proof -
      have "tiles ((prevfree m)(b + s := 0)) (bsize m) (b + s) 0 ys"
        using at(7) s by (intro tiles_setpf [where pf = s]) simp_all
      then show ?thesis by (rule tiles_cong) (use sz s in \<open>auto simp: m'_def\<close>)
    qed
    moreover have "prevfree m b = 0" "lastpf 0 xs = 0" using at(2,3) s by auto
    ultimately have "tiles (prevfree m') (bsize m') (pMemArea m) 0 (xs @ (s - sz) # (- sz) # ys)"
      using sz s at(5) b by (simp add: tiles_append tiles_Cons m'_def add.assoc)
    moreover have "frees (pMemArea m) (xs @ (s - sz) # (- sz) # ys) = frees (pMemArea m) (xs @ s # ys)"
      using sz s by (simp add: frees_append add.assoc)
    moreover have "dll m' fs" using D(2) by (simp add: dll_def m'_def)
    ultimately show ?thesis using D sz s by (simp add: pool_def m'_def)
  qed
  ultimately show thesis by (rule that) (simp_all add: m'_def)
qed

lemma take_whole_pool:
  assumes pool: "pool m (xs @ s # ys) fs" and b: "b = pMemArea m + tot xs" and s: "0 < s"
  obtains m' us vs where "take_whole m b = (b + 4, m')" "fs = us @ b # vs"
    "pool m' (xs @ (- s) # ys) (us @ vs)" "pMemArea m' = pMemArea m" "TotalBufBytes m' = TotalBufBytes m"
proof -
  note at = pool_at [OF pool b] and D = poolD [OF pool]
  have "b \<in> set fs" using D(9) s b by (simp add: frees_append)
  then obtain us vs where fs: "fs = us @ b # vs" by (metis split_list)
  note un = unlink_dll [OF D(2) [unfolded fs]]
  define m1 where "m1 = unlink_block b m"
  define m' where "m' = m1\<lparr>bsize := (bsize m)(b := - s), prevfree := (prevfree m)(b + s := 0),
    totalloc := totalloc m + s, numget := numget m + 1\<rparr>"
  have m1: "bsize m1 = bsize m" "prevfree m1 = prevfree m" "totalloc m1 = totalloc m" "numget m1 = numget m"
    "pMemArea m1 = pMemArea m" "TotalBufBytes m1 = TotalBufBytes m" "assert_fails m1 = assert_fails m"
    unfolding m1_def by (subst un(2), simp)+
  have small: "s \<le> 32763" "alloc_sum xs + alloc_sum ys + s \<le> 32763" "0 \<le> alloc_sum xs" "0 \<le> alloc_sum ys"
    using pool_small [OF pool] s alloc_sum_bounds(1) [of xs] alloc_sum_bounds(1) [of ys]
      alloc_sum_bounds(2) [of xs] alloc_sum_bounds(2) [of ys] by auto
  have s16: "s16 (- s) = - s" "s16 (totalloc m + s) = totalloc m + s"
    using small s D(7) by (auto intro!: s16_id)
  have nxt: "prevfree m (b + s) = s" using tiles_hd [OF at(7)] s by simp
  have eq: "take_whole m b = (b + 4, m')"
    using nxt at(1) by (simp add: take_whole_def bget_assert_def Let_def s16 m'_def m1_def [symmetric] m1)
  have "pool m' (xs @ (- s) # ys) (us @ vs)"
  proof -
    have "seg (prevfree m') (bsize m') (pMemArea m) 0 xs"
      using at(6) by (rule seg_cong) (use b s in \<open>auto simp: m'_def\<close>)
    moreover have "tiles (prevfree m') (bsize m') (b + s) 0 ys"
    proof -
      have "tiles ((prevfree m)(b + s := 0)) (bsize m) (b + s) 0 ys"
        using at(7) s by (intro tiles_setpf [where pf = s]) simp_all
      then show ?thesis by (rule tiles_cong) (use s in \<open>auto simp: m'_def\<close>)
    qed
    ultimately have "tiles (prevfree m') (bsize m') (pMemArea m) 0 (xs @ (- s) # ys)"
      using at s b by (simp add: tiles_append tiles_Cons m'_def)
    moreover have "mset (us @ vs) = mset (frees (pMemArea m) (xs @ (- s) # ys))"
    proof -
      have "mset (us @ b # vs) = mset (frees (pMemArea m) (xs @ s # ys))" using D(3) fs by simp
      then show ?thesis using s b by (simp add: frees_append)
    qed
    moreover have "dll m' (us @ vs)" using un(1) by (simp add: dll_def m'_def m1_def)
    ultimately show ?thesis using D s by (simp add: pool_def m'_def m1)
  qed
  with eq fs show thesis by (rule that) (simp_all add: m'_def m1)
qed

text \<open>Both ways of allocating add one live buffer to the heap and change no other.\<close>

lemma heap_of_new:
  assumes "big (xs @ ys)" "b = a + tot xs" "0 \<le> r" "12 \<le> sz" "r + sz = s"
  shows "heap_of a (xs @ s # ys) (b + r + 4) = None"
    "heap_of a (xs @ (if r = 0 then [] else [r]) @ (- sz) # ys) =
       (heap_of a (xs @ s # ys))(b + r + 4 \<mapsto> sz - 4)"
proof -
  have "heap_of a xs q = None" if "b + 4 \<le> q" for q
    using heap_of_range [of xs a q] assms(1,2) that by (cases "heap_of a xs q") auto
  moreover have "heap_of (b + s) ys q = None" if "q < b + s + 4" for q
    using heap_of_range [of ys "b + s" q] assms(1) that by (cases "heap_of (b + s) ys q") auto
  ultimately have none: "heap_of a xs (b + r + 4) = None" "heap_of (b + s) ys (b + r + 4) = None"
    using assms(3-5) by auto
  then show "heap_of a (xs @ s # ys) (b + r + 4) = None"
    using assms(3-5) by (simp add: heap_of_append map_add_None assms(2))
  show "heap_of a (xs @ (if r = 0 then [] else [r]) @ (- sz) # ys) =
       (heap_of a (xs @ s # ys))(b + r + 4 \<mapsto> sz - 4)"
    using assms(3-5) none(1) by (auto simp: heap_of_append assms(2) map_add_def fun_eq_iff algebra_simps split: option.splits)
qed

definition bget_rep :: "bget_state \<Rightarrow> heap \<Rightarrow> bool" where
  "bget_rep m h \<longleftrightarrow> (\<exists>bs fs. pool m bs fs \<and> h = heap_of (pMemArea m) bs)"

text \<open>The three ways in which \<open>bget\<close> returns: no free buffer is big enough, the new buffer is the end of
  the best free one, or it is all of it.\<close>

lemma bget_cases [consumes 3, case_names none part whole]:
  assumes pool: "pool m bs fs" and n: "0 < n" "n \<le> MAX_REQ"
  obtains "bget m n = Some (NULL, m)" "\<forall>b \<in> set fs. bsize m b < alloc_size n"
  | b xs s ys m' where "bs = xs @ s # ys" "b = pMemArea m + tot xs" "bsize m b = s" "best_fit m (alloc_size n) = Some b"
      "b \<in> set fs" "12 < s - alloc_size n" "bget m n = Some (b + (s - alloc_size n) + 4, m')"
      "pool m' (xs @ (s - alloc_size n) # (- alloc_size n) # ys) fs" "pMemArea m' = pMemArea m" "TotalBufBytes m' = TotalBufBytes m"
  | b xs s ys m' us vs where "bs = xs @ s # ys" "b = pMemArea m + tot xs" "bsize m b = s" "best_fit m (alloc_size n) = Some b"
      "b \<in> set fs" "alloc_size n \<le> s" "s - alloc_size n \<le> 12" "bget m n = Some (b + 4, m')"
      "pool m' (xs @ (- s) # ys) (us @ vs)" "pMemArea m' = pMemArea m" "TotalBufBytes m' = TotalBufBytes m"
proof -
  let ?sz = "alloc_size n"
  note al = alloc_size_le [OF n]
  have ok: "bget_assert (n > 0) m = m" using n(1) by (simp add: bget_assert_def)
  from pool show thesis
  proof (cases rule: best_fit_cases [where sz = ?sz])
    case none
    have "first_fit_from m ?sz freelist = Some freelist"
      unfolding first_fit_from_def by (subst while_option_unfold) simp
    then have "bget m n = Some (NULL, m)"
      using none(1) by (simp add: bget_def ok Let_def)
    then show thesis using none(2) that(1) by blast
  next
    case (found b)
    have "first_fit_from m ?sz b = Some b"
      unfolding first_fit_from_def by (subst while_option_unfold) (simp add: found(3))
    then have eq: "bget m n = (if bsize m b - ?sz > 12 then Some (take_part m b ?sz) else Some (take_whole m b))"
      using found by (simp add: bget_def ok Let_def bget_consts)
    obtain xs s ys where bs: "bs = xs @ s # ys" and b: "b = pMemArea m + tot xs" and s: "s > 0" "bsize m b = s"
      by (rule pool_free [OF pool found(2)])
    note pool' = pool [unfolded bs]
    show thesis
    proof (cases "12 < s - ?sz")
      case True
      with al(2-4) show thesis
        using that(2) [OF bs b s(2) found(1,2)] eq s(2) by (auto intro: take_part_pool [OF pool' b s(1)])
    next
      case False
      then show thesis
        using that(3) [OF bs b s(2) found(1,2)] found(3) eq s(2) by (auto intro: take_whole_pool [OF pool' b s(1)])
    qed
  qed
qed

lemma bget_total:
  assumes pool: "pool m bs fs" and n: "0 < n" "n \<le> MAX_REQ"
  obtains (none) "bget m n = Some (NULL, m)" "\<forall>b \<in> set fs. bsize m b < alloc_size n"
  | (some) p k m' bs' fs' where "bget m n = Some (p, m')" "pool m' bs' fs'"
      "heap_of (pMemArea m) bs p = None" "heap_of (pMemArea m) bs' = (heap_of (pMemArea m) bs)(p \<mapsto> k)"
      "n \<le> k" "p \<noteq> NULL" "pMemArea m' = pMemArea m" "TotalBufBytes m' = TotalBufBytes m" "bsize m' (p - 4) = - k - 4"
  using pool n
proof (cases rule: bget_cases)
  case none
  then show thesis by (rule that(1))
next
  let ?sz = "alloc_size n" and ?a = "pMemArea m"
  note al = alloc_size_le [OF n] and big = poolD(10) [OF pool]
  case (part b xs s ys m')
  have "0 < b" using part(2) poolD(4) [OF pool] tot_nonneg [of xs] by linarith
  moreover have "bsize m' (b + (s - ?sz)) = - ?sz"
    using pool_at(1) [of m' "xs @ [s - ?sz]" "- ?sz" ys fs] part(2,6,8,9) by (simp add: add.assoc)
  ultimately show thesis
    using that(2) [of "b + (s - ?sz) + 4" m' "xs @ (s - ?sz) # (- ?sz) # ys" fs "?sz - 4"]
      heap_of_new [of xs ys b ?a "s - ?sz" ?sz s] big part al by simp
next
  let ?a = "pMemArea m"
  note al = alloc_size_le [OF n] and big = poolD(10) [OF pool]
  case (whole b xs s ys m' us vs)
  have "0 < b" using whole(2) poolD(4) [OF pool] tot_nonneg [of xs] by linarith
  moreover have "bsize m' b = - s" using pool_at(1) [OF whole(9)] whole(2,10) by simp
  ultimately show thesis
    using that(2) [of "b + 4" m' "xs @ (- s) # ys" "us @ vs" "s - 4"]
      heap_of_new [of xs ys b ?a 0 s s] big whole al pool_at(4) [OF pool [unfolded whole(1)] whole(2)] by simp
qed

section \<open>Release keeps the invariant\<close>

text \<open>Between the two halves of \<open>brel\<close>: the released buffer, with a free predecessor joined
  to it, is a free buffer of size \<open>P\<close> at \<open>b\<close>, but the next header does not know it yet.\<close>

definition half_released :: "bget_state \<Rightarrow> int list \<Rightarrow> ptr \<Rightarrow> int \<Rightarrow> int list \<Rightarrow> ptr list \<Rightarrow> bool" where
  "half_released m xs b P ys fs \<longleftrightarrow> b = pMemArea m + tot xs \<and>
     seg (prevfree m) (bsize m) (pMemArea m) 0 xs \<and> lastpf 0 xs = 0 \<and> prevfree m b = 0 \<and>
     bsize m b = P \<and> 12 \<le> P \<and> 4 dvd P \<and> tiles (prevfree m) (bsize m) (b + P) 0 ys \<and> dll m fs \<and>
     mset fs = mset (frees (pMemArea m) xs @ [b] @ frees (b + P) ys) \<and> 0 < pMemArea m \<and>
     tot xs + P + tot ys + 4 \<le> TotalBufBytes m \<and> TotalBufBytes m \<le> 32767 \<and>
     totalloc m = alloc_sum xs + alloc_sum ys \<and> assert_fails m = 0"

lemma brel_prev_half:
  assumes pool: "pool m0 (xs @ s # ys) fs" and b: "b = pMemArea m0 + tot xs" and s: "s < 0"
    and m: "m = m0\<lparr>numrel := k, totalloc := totalloc m0 + s\<rparr>"
  obtains b' m' ws P fs' where "brel_prev m b = (b', m')" "half_released m' ws b' P ys fs'"
    "xs @ s # ys = ws @ (if lastpf 0 xs = 0 then [s] else [lastpf 0 xs, s]) @ ys" "P = lastpf 0 xs - s"
    "pMemArea m' = pMemArea m0" "TotalBufBytes m' = TotalBufBytes m0"
proof -
  note at = pool_at [OF pool b] and D = poolD [OF pool]
  have ys: "tiles (prevfree m0) (bsize m0) (b - s) 0 ys" using at(7) s by simp
  have tot: "tot xs - s + tot ys + 4 \<le> TotalBufBytes m0" using D(5) s by simp
  show thesis
  proof (cases "lastpf 0 xs = 0")
    case True
    have nb: "b \<notin> set fs"
    proof
      assume "b \<in> set fs"
      then have "b \<in> set (frees (pMemArea m0) xs) \<or> b \<in> set (frees (b - s) ys)"
        using D(9) s b by (auto simp: frees_append)
      with frees_range [of xs b "pMemArea m0"] frees_range [of ys b "b - s"] D(10) s b show False by auto
    qed
    have fl: "b \<noteq> freelist" using b D(4) tot_nonneg [of xs] by (simp add: freelist_def)
    have dm: "dll m fs" using D(2) by (simp add: m dll_def)
    note lt = link_tail_dll [OF dm nb fl]
    define m1 where "m1 = link_tail b m"
    have m1: "bsize m1 = bsize m0" "prevfree m1 = prevfree m0" "totalloc m1 = totalloc m0 + s"
      "pMemArea m1 = pMemArea m0" "TotalBufBytes m1 = TotalBufBytes m0" "assert_fails m1 = assert_fails m0"
      unfolding m1_def by (subst lt(2), simp add: m)+
    define m' where "m' = m1\<lparr>bsize := (bsize m0)(b := - s)\<rparr>"
    have "s16 (- s) = - s" using pool_small(1) [OF pool] s by (auto intro!: s16_id)
    then have eq: "brel_prev m b = (b, m')"
      using True at(1,2) by (simp add: brel_prev_def m m'_def m1_def [unfolded m, symmetric] m1)
    have "seg (prevfree m') (bsize m') (pMemArea m0) 0 xs"
      using at(6) by (rule seg_cong) (use b in \<open>auto simp: m'_def m1\<close>)
    moreover have "tiles (prevfree m') (bsize m') (b - s) 0 ys"
      using ys by (rule tiles_cong) (use s in \<open>auto simp: m'_def m1\<close>)
    moreover have "dll m' (fs @ [b])" using lt(1) by (simp add: dll_def m'_def m1_def)
    moreover have "mset (fs @ [b]) = mset (frees (pMemArea m0) xs @ [b] @ frees (b - s) ys)"
      using D(3) s b by (simp add: frees_append)
    ultimately have "half_released m' xs b (- s) ys (fs @ [b])"
      using at s b D True tot by (simp add: half_released_def m'_def m1)
    then show thesis using that [OF eq] True by (simp add: m'_def m1)
  next
    case False
    then obtain ws q where xs: "xs = ws @ [q]" by (cases xs rule: rev_cases) auto
    then have q: "lastpf 0 xs = q" "q > 0" using False by (auto simp: lastpf_append)
    let ?b = "b - q"
    have sw: "seg (prevfree m0) (bsize m0) (pMemArea m0) 0 ws" "lastpf 0 ws = 0" "bsize m0 ?b = q"
      "prevfree m0 ?b = 0" "4 dvd q" "12 \<le> q" and b': "?b = pMemArea m0 + tot ws"
      using at(6) q(2) b by (auto simp: xs seg_append)
    define m' where "m' = m\<lparr>bsize := (bsize m0)(?b := q - s)\<rparr>"
    have "s16 (q - s) = q - s" using pool_small [OF pool] tot_nonneg [of ws] tot_nonneg [of ys] q(2) s xs
      by (auto intro!: s16_id)
    then have eq: "brel_prev m b = (?b, m')"
      using at(1,2) q sw(3) by (simp add: brel_prev_def m m'_def bget_assert_def Let_def)
    have "seg (prevfree m') (bsize m') (pMemArea m0) 0 ws"
      using sw(1) by (rule seg_cong) (use b' in \<open>auto simp: m'_def m\<close>)
    moreover have "tiles (prevfree m') (bsize m') (b - s) 0 ys"
      using ys by (rule tiles_cong) (use s q in \<open>auto simp: m'_def m\<close>)
    moreover have "dll m' fs" using D(2) by (simp add: dll_def m'_def m)
    moreover have "mset fs = mset (frees (pMemArea m0) ws @ [?b] @ frees (b - s) ys)"
    proof -
      have "pMemArea m0 + tot xs - s = b - s" "pMemArea m0 + tot ws = ?b" using b b' by simp_all
      then show ?thesis using D(3) s q(2) by (simp add: frees_append xs)
    qed
    moreover have "b = pMemArea m0 + tot ws + q" using b' by simp
    ultimately have "half_released m' ws ?b (q - s) ys fs"
      using sw s D q tot at(5) by (simp add: half_released_def m'_def m xs algebra_simps)
    then show thesis using that [OF eq] False q xs by (simp add: m'_def m)
  qed
qed

lemma brel_next_pool:
  assumes half: "half_released m xs b P ys fs"
  obtains bs' fs' where "pool (brel_next m b) bs' fs'" "heap_of (pMemArea m) bs' = heap_of (pMemArea m) (xs @ P # ys)"
    "pMemArea (brel_next m b) = pMemArea m" "TotalBufBytes (brel_next m b) = TotalBufBytes m"
proof -
  have b: "b = pMemArea m + tot xs" and xs: "seg (prevfree m) (bsize m) (pMemArea m) 0 xs" "lastpf 0 xs = 0"
    and hd: "prevfree m b = 0" "bsize m b = P" "12 \<le> P" "4 dvd P" and ys: "tiles (prevfree m) (bsize m) (b + P) 0 ys"
    and dll: "dll m fs" and fs: "mset fs = mset (frees (pMemArea m) xs @ [b] @ frees (b + P) ys)"
    and D: "0 < pMemArea m" "tot xs + P + tot ys + 4 \<le> TotalBufBytes m" "TotalBufBytes m \<le> 32767"
      "totalloc m = alloc_sum xs + alloc_sum ys" "assert_fails m = 0"
    using half by (auto simp: half_released_def)
  have below: "seg p z (pMemArea m) 0 xs" if "\<And>x. x < b \<Longrightarrow> p x = prevfree m x \<and> z x = bsize m x" for p z
    using xs(1) by (rule seg_cong) (use b that in auto)
  show thesis
  proof (cases "ys = [] \<or> hd ys < 0")
    case True
    then have neg: "bsize m (b + P) < 0" using tiles_hd [OF ys] by simp
    then have eq: "brel_next m b = m\<lparr>prevfree := (prevfree m)(b + P := P)\<rparr>"
      by (simp add: brel_next_def hd bget_assert_def)
    have "tiles ((prevfree m)(b + P := P)) (bsize m) (b + P) P ys"
      using ys True by (intro tiles_setpf) auto
    then have "tiles ((prevfree m)(b + P := P)) (bsize m) (pMemArea m) 0 (xs @ P # ys)"
      using xs(2) hd b below [of "(prevfree m)(b + P := P)" "bsize m"] by (simp add: tiles_append tiles_Cons)
    then have "pool (brel_next m b) (xs @ P # ys) fs"
      unfolding eq using D dll fs hd(3) b by (simp add: pool_def dll_def frees_append)
    then show thesis by (rule that) (simp_all add: eq)
  next
    case False
    then obtain n zs where yz: "ys = n # zs" by (cases ys) auto
    have n: "bsize m (b + P) = n" "0 < n" "12 \<le> n" "4 dvd n"
      and zs: "tiles (prevfree m) (bsize m) (b + P + n) n zs"
      using ys False by (auto simp: yz tiles_Cons)
    have "b + P \<in> set fs" using fs n(2) mset_eq_setD [OF fs] by (simp add: yz)
    then obtain us vs where us: "fs = us @ (b + P) # vs" by (metis split_list)
    note un = unlink_dll [OF dll [unfolded us]]
    define m1 where "m1 = unlink_block (b + P) m"
    have m1: "bsize m1 = bsize m" "prevfree m1 = prevfree m" "totalloc m1 = totalloc m"
      "pMemArea m1 = pMemArea m" "TotalBufBytes m1 = TotalBufBytes m" "assert_fails m1 = assert_fails m"
      unfolding m1_def by (subst un(2), simp)+
    have nz: "zs = [] \<or> hd zs < 0"
      using zs n(2) by (cases zs) (auto simp: tiles_Cons)
    have "s16 (P + n) = P + n"
      using D(2,3) hd(3) n(2) tot_nonneg [of xs] tot_nonneg [of zs] by (auto simp: yz intro!: s16_id)
    moreover have "prevfree m (b + P + n) = n" "bsize m (b + P + n) < 0"
      using tiles_hd [OF zs] nz by simp_all
    moreover have "b + (P + n) \<noteq> b" using hd(3) n(2) by simp
    ultimately have eq: "brel_next m b = m1\<lparr>bsize := (bsize m)(b := P + n), prevfree := (prevfree m)(b + P + n := P + n)\<rparr>"
      using hd n(1,2) by (simp add: brel_next_def bget_assert_def Let_def m1_def [symmetric] m1 add.assoc)
    let ?p = "(prevfree m)(b + P + n := P + n)" and ?z = "(bsize m)(b := P + n)"
    have "tiles ?p (bsize m) (b + P + n) (P + n) zs" using zs nz by (intro tiles_setpf) auto
    then have "tiles ?p ?z (b + P + n) (P + n) zs" by (rule tiles_cong) (use hd n in auto)
    then have "tiles ?p ?z (pMemArea m) 0 (xs @ (P + n) # zs)"
      using xs(2) hd n b below [of ?p ?z] by (simp add: tiles_append tiles_Cons add.assoc)
    moreover have "mset (us @ vs) = mset (frees (pMemArea m) (xs @ (P + n) # zs))"
      using fs n(2) hd(3) b us by (simp add: yz frees_append add.assoc)
    moreover have "dll (brel_next m b) (us @ vs)" using un(1) by (simp add: eq dll_def m1_def)
    ultimately have "pool (brel_next m b) (xs @ (P + n) # zs) (us @ vs)"
      using D hd(3) n(2) by (simp add: pool_def eq m1 yz add.assoc)
    moreover have "heap_of (pMemArea m) (xs @ (P + n) # zs) = heap_of (pMemArea m) (xs @ P # ys)"
      using hd(3) n(2) by (simp add: heap_of_append yz add.assoc)
    ultimately show thesis by (rule that) (simp_all add: eq m1)
  qed
qed

lemma brel_pool:
  assumes pool: "pool m bs fs" and live: "heap_of (pMemArea m) bs p = Some k"
  obtains bs' fs' where "pool (brel m p) bs' fs'" "heap_of (pMemArea m) bs' = (heap_of (pMemArea m) bs)(p := None)"
    "pMemArea (brel m p) = pMemArea m" "TotalBufBytes (brel m p) = TotalBufBytes m"
proof -
  obtain xs s ys where bs: "bs = xs @ s # ys" and p: "p = pMemArea m + tot xs + 4" and s: "s < 0" "k = - s - 4"
    using heap_of_split [OF live] by blast
  define b where "b = pMemArea m + tot xs"
  note pool' = pool [unfolded bs] and at = pool_at [OF pool [unfolded bs] b_def] and D = poolD [OF pool]
  define m1 where "m1 = m\<lparr>numrel := numrel m + 1, totalloc := totalloc m + s\<rparr>"
  have sum: "0 \<le> totalloc m + s" "totalloc m + s \<le> 32767"
    using D(5-7) s(1) alloc_sum_bounds(2) [of bs] alloc_sum_bounds(1) [of xs] alloc_sum_bounds(1) [of ys]
    by (simp_all add: bs)
  have nb: "prevfree m (b - s) = 0" using tiles_hd [OF at(7)] s(1) by simp
  have "p \<noteq> NULL" using p D(4) tot_nonneg [of xs] by linarith
  then have eq: "brel m p = (case brel_prev m1 b of (b', m') \<Rightarrow> brel_next m' b')"
    using at(1) s(1) nb sum
    by (simp add: brel_def Let_def bget_consts p b_def [symmetric] bget_assert_def s16_id m1_def)
  obtain b' m' ws P fs' where half: "brel_prev m1 b = (b', m')" "half_released m' ws b' P ys fs'"
    and lay: "xs @ s # ys = ws @ (if lastpf 0 xs = 0 then [s] else [lastpf 0 xs, s]) @ ys" "P = lastpf 0 xs - s"
    and same: "pMemArea m' = pMemArea m" "TotalBufBytes m' = TotalBufBytes m"
    by (rule brel_prev_half [OF pool' b_def s(1) m1_def])
  obtain bs' fs'' where res: "pool (brel_next m' b') bs' fs''"
    "heap_of (pMemArea m') bs' = heap_of (pMemArea m') (ws @ P # ys)"
    "pMemArea (brel_next m' b') = pMemArea m'" "TotalBufBytes (brel_next m' b') = TotalBufBytes m'"
    by (rule brel_next_pool [OF half(2)])
  have "heap_of (pMemArea m) (ws @ P # ys) = heap_of (pMemArea m) (xs @ (- s) # ys)"
  proof (cases "lastpf 0 xs = 0")
    case True
    with lay show ?thesis by simp
  next
    case False
    with lay have xs: "xs = ws @ [lastpf 0 xs]" by simp
    moreover have "heap_of (pMemArea m) ((ws @ [q]) @ (- s) # ys) = heap_of (pMemArea m) (ws @ (q - s) # ys)"
      if "0 < q" for q
      using s(1) that by (simp add: heap_of_append algebra_simps)
    moreover have "0 < lastpf 0 xs" using False lastpf_nonneg [of 0 xs] by simp
    ultimately show ?thesis using lay(2) by metis
  qed
  moreover have "heap_of (pMemArea m) (xs @ (- s) # ys) = (heap_of (pMemArea m) bs)(p := None)"
    using heap_of_new [of xs ys b "pMemArea m" 0 "- s" "- s"] D(10) s(1) at(4)
    by (simp add: bs b_def p fun_upd_idem)
  ultimately have "heap_of (pMemArea m) bs' = (heap_of (pMemArea m) bs)(p := None)"
    using res(2) same(1) by simp
  then show thesis using res same eq half(1) by (intro that [of bs' fs'']) simp_all
qed

section \<open>The allocator interface\<close>

lemma bgetz_total:
  assumes "pool m bs fs" "0 < n" "n \<le> MAX_REQ"
  shows "bgetz m n = bget m n"
  using assms
proof (cases rule: bget_total)
  case none
  then show ?thesis by (simp add: bgetz_def)
next
  case (some p k m' bs' fs')
  have "heap_of (pMemArea m) bs' p = Some k" using some(4) by simp
  then have k: "k \<le> 32763"
    using heap_of_range [OF poolD(10) [OF some(2)]] poolD(5,6) [OF some(2)] some(5,7) assms(2)
    by (fastforce dest: heap_of_range [OF poolD(10) [OF some(2)]])
  then show ?thesis
    using some assms(2) by (simp add: bgetz_def Let_def bget_consts bget_assert_def s16_id)
qed

lemma bget_rep_get:
  assumes "bget_rep m h" "0 < n" "n \<le> MAX_REQ" "returned m (bget m n) = (p, m')"
  shows "(p = NULL \<and> bget_rep m' h) \<or> (p \<noteq> NULL \<and> h p = None \<and> (\<exists>k \<ge> n. bget_rep m' (h(p \<mapsto> k))))"
proof -
  obtain bs fs where pool: "pool m bs fs" and h: "h = heap_of (pMemArea m) bs"
    using assms(1) by (auto simp: bget_rep_def)
  from pool assms(2,3) show ?thesis
  proof (cases rule: bget_total)
    case none
    then show ?thesis using assms(1,4) by (simp add: returned_def)
  next
    case (some q k m1 bs1 fs1)
    then have "p = q" "m' = m1" using assms(4) by (simp_all add: returned_def)
    moreover have "bget_rep m1 (h(q \<mapsto> k))" using some(2,4,7) by (auto simp: bget_rep_def h)
    ultimately show ?thesis using some(3,5,6) by (auto simp: h)
  qed
qed

lemma bget_rep_live:
  assumes "bget_rep m h" "h p = Some k"
  shows "bsize m (p - 4) = - k - 4" "8 \<le> k" "pMemArea m + 4 \<le> p" "p + k + 4 \<le> pMemArea m + TotalBufBytes m" "0 < p"
proof -
  obtain bs fs where pool: "pool m bs fs" and h: "h = heap_of (pMemArea m) bs"
    using assms(1) by (auto simp: bget_rep_def)
  note r = heap_of_range [OF poolD(10) [OF pool] assms(2) [unfolded h]] and D = poolD [OF pool]
  obtain xs s ys where bs: "bs = xs @ s # ys" "p = pMemArea m + tot xs + 4" "s < 0" "k = - s - 4"
    using heap_of_split [OF assms(2) [unfolded h]] by blast
  then show "bsize m (p - 4) = - k - 4" using pool_at(1) pool by auto
  show "8 \<le> k" "pMemArea m + 4 \<le> p" "p + k + 4 \<le> pMemArea m + TotalBufBytes m" "0 < p"
    using r D(4,5) by auto
qed

lemma bget_rep_release:
  assumes "bget_rep m h" "h p = Some k"
  shows "bget_rep (coap_mem_release bget_ops m p) (h(p := None))"
proof -
  obtain bs fs where pool: "pool m bs fs" and h: "h = heap_of (pMemArea m) bs"
    using assms(1) by (auto simp: bget_rep_def)
  obtain bs' fs' where "pool (brel m p) bs' fs'" "heap_of (pMemArea m) bs' = h(p := None)"
    "pMemArea (brel m p) = pMemArea m"
    using brel_pool [OF pool] assms(2) h by metis
  then show ?thesis
    using bget_rep_live(5) [OF assms] by (auto simp: bget_ops_def mem_release_def bget_rep_def)
qed

lemma heap_of_apart:
  assumes "big bs" "heap_of a bs p = Some k" "heap_of a bs q = Some l" "p < q"
  shows "p + k < q"
  using assms
proof (induction bs arbitrary: a)
  case (Cons s bs)
  have "p + k < q" if "p = a + 4 \<and> s < 0"
  proof -
    have "k = - s - 4" using that Cons.prems(2) by simp
    moreover have "heap_of (a + \<bar>s\<bar>) bs q = Some l" using that Cons.prems(3,4) by (auto split: if_splits)
    then have "a + \<bar>s\<bar> + 4 \<le> q" using heap_of_range Cons.prems(1) by fastforce
    ultimately show ?thesis using that by simp
  qed
  moreover have "p + k < q" if p: "\<not> (p = a + 4 \<and> s < 0)"
  proof -
    have hp: "heap_of (a + \<bar>s\<bar>) bs p = Some k" using p Cons.prems(2) by (auto split: if_splits)
    then have "a + \<bar>s\<bar> + 4 \<le> p" using heap_of_range Cons.prems(1) by fastforce
    then have "q \<noteq> a + 4" using Cons.prems(4) abs_ge_zero [of s] by linarith
    then have "heap_of (a + \<bar>s\<bar>) bs q = Some l" using Cons.prems(3) by (auto split: if_splits)
    then show ?thesis using Cons.IH hp Cons.prems(1,4) by auto
  qed
  ultimately show ?case by blast
qed simp

lemma bget_rep_apart:
  "bget_rep m h \<Longrightarrow> h p = Some k \<Longrightarrow> h q = Some l \<Longrightarrow> p < q \<Longrightarrow> p + k < q"
  using heap_of_apart poolD(10) by (fastforce simp: bget_rep_def)

text \<open>No operation moves the pool.\<close>

lemma assert_area [simp]:
  "pMemArea (bget_assert c m) = pMemArea m" "TotalBufBytes (bget_assert c m) = TotalBufBytes m"
  by (simp_all add: bget_assert_def)

lemma link_area [simp]:
  "pMemArea (link_tail b m) = pMemArea m" "TotalBufBytes (link_tail b m) = TotalBufBytes m"
  "pMemArea (unlink_block b m) = pMemArea m" "TotalBufBytes (unlink_block b m) = TotalBufBytes m"
  by (simp_all add: link_tail_def unlink_block_def Let_def)

lemma bget_area:
  "bget m n = Some (p, m') \<Longrightarrow> pMemArea m' = pMemArea m \<and> TotalBufBytes m' = TotalBufBytes m"
  by (auto simp: bget_def take_part_def take_whole_def Let_def split: option.splits if_splits)

lemma bgetz_area:
  "bgetz m n = Some (p, m') \<Longrightarrow> pMemArea m' = pMemArea m \<and> TotalBufBytes m' = TotalBufBytes m"
  by (auto simp: bgetz_def Let_def dest!: bget_area split: option.splits if_splits)

lemma brel_next_area:
  "pMemArea (brel_next m b) = pMemArea m" "TotalBufBytes (brel_next m b) = TotalBufBytes m"
  unfolding brel_next_def by (cases "bsize m (b + bsize m b) > 0"; simp add: Let_def)+

lemma brel_prev_area:
  "pMemArea (snd (brel_prev m b)) = pMemArea m" "TotalBufBytes (snd (brel_prev m b)) = TotalBufBytes m"
  by (simp_all add: brel_prev_def Let_def)

lemma brel_area: "pMemArea (brel m p) = pMemArea m" "TotalBufBytes (brel m p) = TotalBufBytes m"
  unfolding brel_def Let_def case_prod_unfold by (simp_all add: brel_next_area brel_prev_area)

interpretation bget: coap_allocator bget_ops bget_rep
proof
  fix m m' :: bget_state and h n p k q l
  show "bget_rep m h \<Longrightarrow> 0 < n \<Longrightarrow> n \<le> MAX_REQ \<Longrightarrow> coap_mem_get bget_ops m n = (p, m') \<Longrightarrow>
      (p = NULL \<and> bget_rep m' h) \<or> (p \<noteq> NULL \<and> h p = None \<and> (\<exists>k \<ge> n. bget_rep m' (h(p \<mapsto> k))))"
    by (rule bget_rep_get) (simp_all add: bget_ops_def)
  show "bget_rep m h \<Longrightarrow> 0 < n \<Longrightarrow> n \<le> MAX_REQ \<Longrightarrow> coap_mem_get0 bget_ops m n = (p, m') \<Longrightarrow>
      (p = NULL \<and> bget_rep m' h) \<or> (p \<noteq> NULL \<and> h p = None \<and> (\<exists>k \<ge> n. bget_rep m' (h(p \<mapsto> k))))"
    using bget_rep_get [of m h n p m'] bgetz_total by (auto simp: bget_ops_def bget_rep_def)
  show "bget_rep (coap_mem_release bget_ops m p) (h(p := None))" if r: "bget_rep m h" and l: "h p = Some k"
    by (rule bget_rep_release [OF r l])
  show "coap_mem_release bget_ops m NULL = m"
    by (simp add: bget_ops_def mem_release_def)
  show "coap_mem_size bget_ops m p = k \<and> 0 < k" if r: "bget_rep m h" and l: "h p = Some k"
    using bget_rep_live [OF r l] by (simp add: bget_ops_def mem_size_def bget_consts)
  show "coap_mem_buf_lowEnd bget_ops m \<le> p \<and> p + k \<le> coap_mem_buf_highEnd bget_ops m"
    if r: "bget_rep m h" and l: "h p = Some k"
    using bget_rep_live [OF r l] by (simp add: bget_ops_def mem_lowEnd_def mem_highEnd_def)
  show "p + k < q" if "bget_rep m h" "h p = Some k" "h q = Some l" "p < q"
    using that by (rule bget_rep_apart)
  show "NULL < p" if r: "bget_rep m h" and l: "h p = Some k"
    using bget_rep_live [OF r l] by simp
  show "coap_mem_get bget_ops m n = (p, m') \<Longrightarrow> mem_area bget_ops m' = mem_area bget_ops m"
    using bget_area [of m n] by (auto simp: bget_ops_def mem_area_def mem_lowEnd_def mem_highEnd_def returned_def split: option.splits)
  show "coap_mem_get0 bget_ops m n = (p, m') \<Longrightarrow> mem_area bget_ops m' = mem_area bget_ops m"
    using bget_area [of m n] bgetz_area [of m n]
    by (auto simp: bget_ops_def mem_area_def mem_lowEnd_def mem_highEnd_def returned_def split: option.splits)
  show "mem_area bget_ops (coap_mem_release bget_ops m p) = mem_area bget_ops m"
    by (simp add: bget_ops_def mem_area_def mem_lowEnd_def mem_highEnd_def mem_release_def brel_area)
qed

section \<open>Initialisation, validation, statistics\<close>

lemma init_pool:
  assumes "0 < buf" "16 \<le> n" "n \<le> 32767"
  shows "pool (coap_mem_init bget_init buf n) [n div 4 * 4 - 4] [buf]"
proof -
  let ?l = "n div 4 * 4"
  have l: "16 \<le> ?l" "?l \<le> n" using assms(2) by auto
  have s: "s16 ?l = ?l" "s16 (?l - 4) = ?l - 4" using l assms(3) by (auto intro!: s16_id)
  have "4 dvd ?l - 4" by (intro dvd_diff) auto
  then show ?thesis
    using assms l s
    by (simp add: coap_mem_init_def bget_init_def bpool_def link_tail_def bget_assert_def Let_def bget_consts
        pool_def tiles_def dll_def freelist_def)
qed

lemma init_rep:
  assumes "0 < buf" "16 \<le> n" "n \<le> 32767"
  shows "bget_rep (coap_mem_init bget_init buf n) Map.empty"
proof -
  have "0 \<le> n div 4 * 4 - 4" using assms(2) by simp
  then show ?thesis using init_pool [OF assms] unfolding bget_rep_def by (intro exI) (auto simp: not_less)
qed

text \<open>The validator accepts every pool that satisfies the invariant.\<close>

lemma bpoolv_loop:
  assumes "tiles (prevfree m) (bsize m) a pf bs" "\<And>b. b \<in> set (frees a bs) \<Longrightarrow> flink m (blink m b) = b \<and> blink m (flink m b) = b"
    "tot bs \<le> 32767"
  shows "while_option (\<lambda>(b, ok). ok \<and> bsize m b \<noteq> ESent)
       (\<lambda>(b, ok).
          let bs = bsize m b in
          if bs < 0 then (b + s16 (- bs), True)
          else if bs \<le> 0 then (b, False)
          else if flink m (blink m b) \<noteq> b \<or> blink m (flink m b) \<noteq> b then (b, False)
          else (b + bs, True))
       (a, True) = Some (a + tot bs, True)"
  using assms
proof (induction bs arbitrary: a pf)
  case Nil
  then show ?case by (subst while_option_unfold) (simp add: tiles_def)
next
  case (Cons s bs)
  have s: "bsize m a = s" "12 \<le> \<bar>s\<bar>" "tiles (prevfree m) (bsize m) (a + \<bar>s\<bar>) (max s 0) bs" "\<bar>s\<bar> \<le> 32767"
    using Cons.prems tot_nonneg [of bs] by (auto simp: tiles_Cons)
  then have "s \<noteq> ESent" "s < 0 \<Longrightarrow> s16 (- s) = - s" by (auto simp: ESent_def intro!: s16_id)
  moreover note Cons.IH [OF s(3)] Cons.prems(2,3) s
  ultimately show ?case
    by (subst while_option_unfold) (auto simp: Let_def algebra_simps)
qed

lemma bpoolv_ok:
  assumes "pool m bs fs"
  shows "bpoolv m (pMemArea m) = Some True"
  using bpoolv_loop [OF poolD(1) [OF assms]] dll_asserts(3) [OF poolD(2) [OF assms]] poolD(5,6,9) [OF assms]
  by (simp add: bpoolv_def)

text \<open>The statistics: bytes in use (headers included), free bytes and the largest free buffer.\<close>

lemma bstats_loop:
  assumes "lseg (flink m) (blink m) x ys freelist" "freelist \<notin> set ys" "\<And>y. y \<in> set ys \<Longrightarrow> 0 < bsize m y"
    "0 \<le> t" "t + sum_list (map (bsize m) ys) \<le> 32767"
  shows "while_option (\<lambda>(b, totfree, maxfree). b \<noteq> freelist)
          (\<lambda>(b, totfree, maxfree). (flink m b, s16 (totfree + bsize m b),
             if bsize m b > maxfree then bsize m b else maxfree))
          (flink m x, t, mx) = Some (freelist, t + sum_list (map (bsize m) ys), foldl max mx (map (bsize m) ys))"
  using assms
proof (induction ys arbitrary: x t mx)
  case Nil
  then show ?case by (subst while_option_unfold) simp
next
  case (Cons y ys)
  have "0 \<le> sum_list (map (bsize m) ys)" using Cons.prems(3) by (intro sum_list_nonneg) (auto simp: less_imp_le)
  then have y: "s16 (t + bsize m y) = t + bsize m y" "0 \<le> t + bsize m y"
    using Cons.prems(3) [of y] Cons.prems(4,5) by (auto intro!: s16_id)
  have mx: "(if mx < bsize m y then bsize m y else mx) = max mx (bsize m y)" by auto
  have IH: "while_option (\<lambda>(b, totfree, maxfree). b \<noteq> freelist)
          (\<lambda>(b, totfree, maxfree). (flink m b, s16 (totfree + bsize m b),
             if bsize m b > maxfree then bsize m b else maxfree))
          (flink m y, t + bsize m y, max mx (bsize m y)) =
       Some (freelist, t + bsize m y + sum_list (map (bsize m) ys), foldl max (max mx (bsize m y)) (map (bsize m) ys))"
    using Cons.prems y(2) by (intro Cons.IH) auto
  show ?case
    by (subst while_option_unfold) (use Cons.prems(1,2) IH y(1) mx in \<open>simp add: add.assoc\<close>)
qed

lemma sum_frees:
  "seg p z a pf bs \<Longrightarrow> sum_list (map z (frees a bs)) + alloc_sum bs = tot bs"
  by (induction bs arbitrary: a pf) (auto simp: max_def)

lemma bstats_ok:
  assumes pool: "pool m bs fs"
  shows "bstats m = Some (alloc_sum bs, tot bs - alloc_sum bs, foldl max (- 1) (map (bsize m) fs), numget m, numrel m)"
proof -
  note D = poolD [OF pool]
  have l: "lseg (flink m) (blink m) freelist fs freelist" "freelist \<notin> set fs"
    using D(2) by (simp_all add: dll_def)
  have pos: "0 < bsize m b" if "b \<in> set fs" for b
    by (rule pool_free [OF pool that]) simp
  have "sum_list (map (bsize m) fs) = sum_list (map (bsize m) (frees (pMemArea m) bs))"
    using D(3) by (metis mset_map sum_mset_sum_list)
  then have sum: "sum_list (map (bsize m) fs) = tot bs - alloc_sum bs"
    using sum_frees [of "prevfree m" "bsize m" "pMemArea m" 0 bs] D(1) by (simp add: tiles_def)
  then have "0 + sum_list (map (bsize m) fs) \<le> 32767"
    using D(5,6) alloc_sum_bounds(1) [of bs] by linarith
  from bstats_loop [OF l pos order_refl this, of "- 1"]
  show ?thesis by (simp add: bstats_def sum D(7))
qed

section \<open>Room for further buffers\<close>

text \<open>A free buffer of more than \<open>b + 12\<close> bytes is enough for requests that cost \<open>b\<close> bytes, whatever the other
  free buffers are: each request is cut off it, or taken from a smaller one.\<close>

definition bget_room :: "int \<Rightarrow> bget_state \<Rightarrow> bool" where
  "bget_room b m \<longleftrightarrow> (\<exists>bs fs. pool m bs fs \<and> (\<exists>s \<in> set bs. 0 < s \<and> b + 12 < s))"

lemma bget_roomI: "pool m bs fs \<Longrightarrow> b \<in> set fs \<Longrightarrow> n + 12 < bsize m b \<Longrightarrow> bget_room n m"
  unfolding bget_room_def by (rule pool_free [of m bs fs b]) auto

lemma bget_room_small: "bget_room b m \<Longrightarrow> b < 32751"
proof -
  assume "bget_room b m"
  then obtain bs fs s where "pool m bs fs" "s \<in> set bs" "0 < s" "b + 12 < s" by (auto simp: bget_room_def)
  then obtain xs ys where "pool m (xs @ s # ys) fs" "0 < s" "b + 12 < s" by (metis split_list)
  with pool_small(1) [of m xs s ys fs] show "b < 32751" by linarith
qed

lemma bget_room_step:
  assumes "bget_room (sz + ROOM_COST + b) m" "0 < sz" "sz \<le> MAX_REQ" "0 \<le> b"
  obtains p m' where "bget m sz = Some (p, m')" "p \<noteq> NULL" "bget_room b m'"
proof -
  obtain bs fs t where pool: "pool m bs fs" and t: "t \<in> set bs" "sz + 16 + b + 12 < t"
    using assms(1) by (auto simp: bget_room_def ROOM_COST_def)
  note al = alloc_size_le [OF assms(2,3)]
  have u: "alloc_size sz \<le> sz + 14" using al(5) assms(2) by linarith
  have pos: "0 < pMemArea m + tot xs" for xs using poolD(4) [OF pool] tot_nonneg [of xs] by linarith
  from pool assms(2,3) show thesis
  proof (cases rule: bget_cases)
    case none
    obtain us vs where bs: "bs = us @ t # vs" using t(1) by (metis split_list)
    have "pMemArea m + tot us \<in> set fs" using poolD(9) [OF pool] t(2) assms(2,4) by (simp add: bs frees_append)
    moreover have "bsize m (pMemArea m + tot us) = t" using pool_at(1) pool bs by simp
    ultimately have "t < alloc_size sz" using none(2) by blast
    then show thesis using t(2) u assms(4) by linarith
  next
    case (part c xs s ys m')
    have "\<exists>t' \<in> set (xs @ (s - alloc_size sz) # (- alloc_size sz) # ys). 0 < t' \<and> b + 12 < t'"
    proof (cases "t = s")
      case True
      then show ?thesis using t(2) u assms(4) by (intro bexI [of _ "s - alloc_size sz"]) simp_all
    next
      case False
      then show ?thesis using t part(1) assms(2,4) by (intro bexI [of _ t]) auto
    qed
    with part(8) have "bget_room b m'" unfolding bget_room_def by blast
    then show thesis using that part(2,6,7) pos [of xs] by auto
  next
    case (whole c xs s ys m' us vs)
    have "t \<noteq> s" using t(2) u whole(7) assms(2,4) by linarith
    then have "t \<in> set (xs @ (- s) # ys)" using t(1) whole(1) by auto
    with whole(9) t(2) assms(2,4) have "bget_room b m'"
      unfolding bget_room_def by (intro exI [of _ "xs @ (- s) # ys"] exI [of _ "us @ vs"] conjI bexI [of _ t]) simp_all
    then show thesis using that whole(2,8) pos [of xs] by auto
  qed
qed

interpretation bget_space: allocator_room bget_ops bget_room
proof
  fix sz b m p m'
  assume r: "bget_room (sz + ROOM_COST + b) m" "0 < sz" "sz \<le> MAX_REQ" "0 \<le> b"
  obtain q m1 where g: "bget m sz = Some (q, m1)" "q \<noteq> NULL" "bget_room b m1" by (rule bget_room_step [OF r])
  then show "p \<noteq> NULL \<and> bget_room b m'" if "coap_mem_get bget_ops m sz = (p, m')"
    using that by (simp add: bget_ops_def returned_def)
  have "bgetz m sz = bget m sz" using r bgetz_total [of m _ _ sz] by (auto simp: bget_room_def)
  with g show "p \<noteq> NULL \<and> bget_room b m'" if "coap_mem_get0 bget_ops m sz = (p, m')"
    using that by (simp add: bget_ops_def returned_def)
next
  show "bget_room b m \<Longrightarrow> a \<le> b \<Longrightarrow> bget_room a m" for a b m
    unfolding bget_room_def by force
qed

end
