(* ===== verification/Options.thy ===== *)
theory Options
  imports Coap_Mem_Correct "HOL-Library.Multiset"
begin

text \<open>
  The option list of a message: \<open>coap_options.h\<close> and \<open>coap_options.c\<close>. A list node is one
  allocator buffer that holds the node and, right behind it, the option value; a node of the
  model is the record \<open>CoAP_option_t\<close> with the address of that buffer, and the linked list is
  the HOL list of its nodes. The operations take the allocator operations and the allocator
  state and return the new state.
\<close>

section \<open>Options and their numbers\<close>

definition OPT_NUM_URI_HOST :: u16 where [simp]: "OPT_NUM_URI_HOST = 3"
definition OPT_NUM_ETAG :: u16 where [simp]: "OPT_NUM_ETAG = 4"
definition OPT_NUM_OBSERVE :: u16 where [simp]: "OPT_NUM_OBSERVE = 6"
definition OPT_NUM_URI_PORT :: u16 where [simp]: "OPT_NUM_URI_PORT = 7"
definition OPT_NUM_URI_PATH :: u16 where [simp]: "OPT_NUM_URI_PATH = 11"
definition OPT_NUM_CONTENT_FORMAT :: u16 where [simp]: "OPT_NUM_CONTENT_FORMAT = 12"
definition OPT_NUM_URI_QUERY :: u16 where [simp]: "OPT_NUM_URI_QUERY = 15"
definition OPT_BLOCK2 :: u16 where [simp]: "OPT_BLOCK2 = 23"
definition OPT_BLOCK1 :: u16 where [simp]: "OPT_BLOCK1 = 27"
definition OPT_NUM_LOBARO_TOKEN_SAVE :: u16 where [simp]: "OPT_NUM_LOBARO_TOKEN_SAVE = 350"

definition KNOWN_OPTIONS :: "u16 list" where
  "KNOWN_OPTIONS = [OPT_NUM_URI_PATH, OPT_BLOCK2, OPT_BLOCK1, OPT_NUM_ETAG,
     OPT_NUM_CONTENT_FORMAT, OPT_NUM_URI_QUERY]"

definition MAX_OPTION_VALUE_SIZE :: u16 where [simp]: "MAX_OPTION_VALUE_SIZE = 1034"

record CoAP_option_t =
  opt_at :: ptr
  Number :: u16
  Length :: u16
  Value :: "u8 list"

text \<open>\<open>sizeof(CoAP_option_t)\<close> with 4-byte pointers: next, Number, Length, Value.\<close>

definition sizeof_CoAP_option_t :: int where
  "sizeof_CoAP_option_t = 12"

section \<open>Building lists\<close>

text \<open>The four assignments after each allocation (the \<open>fill data\<close> blocks).\<close>

definition fill_option :: "ptr \<Rightarrow> u16 \<Rightarrow> u8 list \<Rightarrow> u16 \<Rightarrow> CoAP_option_t" where
  "fill_option p OptNumber buf len =
     \<lparr>opt_at = p, Number = OptNumber, Length = len, Value = take (unat len) buf\<rparr>"

definition append_OptionToListEnd :: "'m mem_ops \<Rightarrow> 'm \<Rightarrow> CoAP_option_t list \<Rightarrow> u16 \<Rightarrow> u8 list \<Rightarrow> u16
    \<Rightarrow> CoAP_Result_t \<times> CoAP_option_t list \<times> 'm" where
  "append_OptionToListEnd A m L OptNumber buf len =
     (let (p, m') = coap_mem_get A m (s16 (sizeof_CoAP_option_t + uint len))
      in if p = NULL then (COAP_ERR_OUT_OF_MEMORY, L, m')
         else (COAP_OK, L @ [fill_option p OptNumber buf len], m'))"

text \<open>Insertion sorted by option number. In case 2 the list head is overwritten before the
  allocation result is tested, so on failure the caller's list is the empty one.\<close>

definition CoAP_AppendOptionToList :: "'m mem_ops \<Rightarrow> 'm \<Rightarrow> CoAP_option_t list \<Rightarrow> u16 \<Rightarrow> u8 list \<Rightarrow> u16
    \<Rightarrow> CoAP_Result_t \<times> CoAP_option_t list \<times> 'm" where
  "CoAP_AppendOptionToList A m L OptNumber buf len =
     (if L = [] then append_OptionToListEnd A m L OptNumber buf len
      else
        let before = takeWhile (\<lambda>p. Number p \<le> OptNumber) L;
            pOption = dropWhile (\<lambda>p. Number p \<le> OptNumber) L
        in if pOption = [] then append_OptionToListEnd A m L OptNumber buf len
           else if before = [] then
             (let (p, m') = coap_mem_get A m (s16 (sizeof_CoAP_option_t + uint len))
              in if p = NULL then (COAP_ERR_OUT_OF_MEMORY, [], m')
                 else (COAP_OK, fill_option p OptNumber buf len # pOption, m'))
           else
             (let (p, m') = coap_mem_get A m (s16 (sizeof_CoAP_option_t + uint len))
              in if p = NULL then (COAP_ERR_OUT_OF_MEMORY, L, m')
                 else (COAP_OK, before @ fill_option p OptNumber buf len # pOption, m')))"

definition CoAP_CopyOptionToList :: "'m mem_ops \<Rightarrow> 'm \<Rightarrow> CoAP_option_t list \<Rightarrow> CoAP_option_t
    \<Rightarrow> CoAP_Result_t \<times> CoAP_option_t list \<times> 'm" where
  "CoAP_CopyOptionToList A m L OptToCopy =
     CoAP_AppendOptionToList A m L (Number OptToCopy) (Value OptToCopy) (Length OptToCopy)"

section \<open>Removing and freeing\<close>

text \<open>Unlinks and frees the node at address \<open>pOptionToRemove\<close>, if it is in the list.\<close>

fun CoAP_RemoveOptionFromList :: "'m mem_ops \<Rightarrow> 'm \<Rightarrow> CoAP_option_t list \<Rightarrow> ptr
    \<Rightarrow> CoAP_Result_t \<times> CoAP_option_t list \<times> 'm" where
  "CoAP_RemoveOptionFromList A m [] pOptionToRemove = (COAP_OK, [], m)"
| "CoAP_RemoveOptionFromList A m (currP # rest) pOptionToRemove =
     (if opt_at currP = pOptionToRemove then (COAP_OK, rest, coap_mem_release A m (opt_at currP))
      else let (r, rest', m') = CoAP_RemoveOptionFromList A m rest pOptionToRemove
           in (r, currP # rest', m'))"

text \<open>The loop unlinks and frees the second node until only the first is left.\<close>

fun CoAP_FreeOptionList_loop :: "'m mem_ops \<Rightarrow> 'm \<Rightarrow> CoAP_option_t list \<Rightarrow> 'm" where
  "CoAP_FreeOptionList_loop A m [] = m"
| "CoAP_FreeOptionList_loop A m (pOption1 # rest) =
     CoAP_FreeOptionList_loop A (coap_mem_release A m (opt_at pOption1)) rest"

fun CoAP_FreeOptionList :: "'m mem_ops \<Rightarrow> 'm \<Rightarrow> CoAP_option_t list
    \<Rightarrow> CoAP_Result_t \<times> CoAP_option_t list \<times> 'm" where
  "CoAP_FreeOptionList A m [] = (COAP_OK, [], m)"
| "CoAP_FreeOptionList A m (begin_p # rest) =
     (let m1 = CoAP_FreeOptionList_loop A m rest;
          m2 = coap_mem_release A m1 (opt_at begin_p)
      in (COAP_OK, [], m2))"

section \<open>Checks on lists\<close>

fun CoAP_CheckForUnknownCriticalOption :: "CoAP_option_t list \<Rightarrow> u16" where
  "CoAP_CheckForUnknownCriticalOption [] = 0"
| "CoAP_CheckForUnknownCriticalOption (pOption # rest) =
     (let optKnown = list_ex (\<lambda>k. Number pOption = k) KNOWN_OPTIONS
      in if \<not> optKnown \<and> Number pOption AND 1 \<noteq> 0 then Number pOption
         else CoAP_CheckForUnknownCriticalOption rest)"

text \<open>Both arguments may be \<open>NULL\<close>.\<close>

fun CoAP_OptionsAreEqual :: "CoAP_option_t option \<Rightarrow> CoAP_option_t option \<Rightarrow> bool" where
  "CoAP_OptionsAreEqual None None = True"
| "CoAP_OptionsAreEqual None (Some OptB) = False"
| "CoAP_OptionsAreEqual (Some OptA) None = False"
| "CoAP_OptionsAreEqual (Some OptA) (Some OptB) =
     (if Length OptA \<noteq> Length OptB then False
      else if Number OptA \<noteq> Number OptB then False
      else list_all (\<lambda>i. Value OptA ! i = Value OptB ! i) [0..<unat (Length OptA)])"

section \<open>Packing\<close>

text \<open>Delta bytes and length bytes of one option, with the stores into the destination array
  as the code makes them: the nibble is or-ed into the start byte, the extension bytes are
  stored at the running offset. \<open>currDelta - 269\<close> cannot wrap where it is used.\<close>

definition pack_delta :: "bytes \<Rightarrow> u16 \<Rightarrow> u16 \<Rightarrow> u16 \<Rightarrow> bytes \<times> u16" where
  "pack_delta d OptStartOffset offset currDelta =
     (let s = unat OptStartOffset in
      if currDelta < 13 then (d(s := d s OR push_bit 4 (ucast currDelta)), offset)
      else if currDelta < 269 then
        (let d1 = d(s := d s OR push_bit 4 13)
         in (d1(unat offset := ucast currDelta - 13), offset + 1))
      else
        (let d1 = d(s := d s OR push_bit 4 14);
             d2 = d1(unat offset := ucast (drop_bit 8 (currDelta - 269)));
             offset2 = offset + 1;
             d3 = d2(unat offset2 := ucast ((currDelta - 269) AND 255))
         in (d3, offset2 + 1)))"

definition pack_length :: "bytes \<Rightarrow> u16 \<Rightarrow> u16 \<Rightarrow> u16 \<Rightarrow> bytes \<times> u16" where
  "pack_length d OptStartOffset offset optLength =
     (let s = unat OptStartOffset in
      if optLength < 13 then (d(s := d s OR ucast optLength), offset)
      else if optLength < 269 then
        (let d1 = d(s := d s OR 13)
         in (d1(unat offset := ucast optLength - 13), offset + 1))
      else
        (let d1 = d(s := d s OR 14);
             d2 = d1(unat offset := ucast (drop_bit 8 (optLength - 269)));
             offset2 = offset + 1;
             d3 = d2(unat offset2 := ucast ((optLength - 269) AND 255))
         in (d3, offset2 + 1)))"

fun pack_value :: "bytes \<Rightarrow> u16 \<Rightarrow> u8 list \<Rightarrow> bytes \<times> u16" where
  "pack_value d offset [] = (d, offset)"
| "pack_value d offset (v # vs) = pack_value (d(unat offset := v)) (offset + 1) vs"

definition pack_option :: "bytes \<Rightarrow> u16 \<Rightarrow> u16 \<Rightarrow> CoAP_option_t \<Rightarrow> bytes \<times> u16" where
  "pack_option d offset lastOptNumber pOption =
     (let currDelta = Number pOption - lastOptNumber;
          optLength = Length pOption;
          OptStartOffset = offset;
          offset1 = offset + 1;
          d1 = d(unat OptStartOffset := 0);
          (d2, offset2) = pack_delta d1 OptStartOffset offset1 currDelta;
          (d3, offset3) = pack_length d2 OptStartOffset offset2 optLength
      in pack_value d3 offset3 (take (unat optLength) (Value pOption)))"

fun pack_loop :: "bytes \<Rightarrow> u16 \<Rightarrow> u16 \<Rightarrow> CoAP_option_t list \<Rightarrow> bytes \<times> u16" where
  "pack_loop d offset lastOptNumber [] = (d, offset)"
| "pack_loop d offset lastOptNumber (pOption # next) =
     (let (d', offset') = pack_option d offset lastOptNumber pOption
      in pack_loop d' offset' (Number pOption) next)"

definition pack_OptionsFromList :: "bytes \<Rightarrow> CoAP_option_t list \<Rightarrow> CoAP_Result_t \<times> u16 \<times> bytes" where
  "pack_OptionsFromList pDestArr L =
     (if L = [] then (COAP_OK, 0, pDestArr)
      else let (d, offset) = pack_loop pDestArr 0 0 L in (COAP_OK, offset, d))"

text \<open>The size computation runs the same loop without the stores.\<close>

definition ext_count :: "u16 \<Rightarrow> u16" where
  "ext_count x = (if x < 13 then 0 else if x < 269 then 1 else 2)"

fun CoAP_NeededMem4PackOptions_loop :: "u16 \<Rightarrow> u16 \<Rightarrow> CoAP_option_t list \<Rightarrow> u16" where
  "CoAP_NeededMem4PackOptions_loop offset lastOptNumber [] = offset"
| "CoAP_NeededMem4PackOptions_loop offset lastOptNumber (pOption # next) =
     (let currDelta = Number pOption - lastOptNumber;
          optLength = Length pOption;
          offset1 = offset + 1;
          offset2 = offset1 + ext_count currDelta;
          offset3 = offset2 + ext_count optLength;
          offset4 = offset3 + optLength
      in CoAP_NeededMem4PackOptions_loop offset4 (Number pOption) next)"

definition CoAP_NeededMem4PackOptions :: "CoAP_option_t list \<Rightarrow> u16" where
  "CoAP_NeededMem4PackOptions L = (if L = [] then 0 else CoAP_NeededMem4PackOptions_loop 0 0 L)"

section \<open>Parsing\<close>

text \<open>Extended delta or length of an option: the value for the 4-bit field, and the offset
  behind the extension bytes; \<open>None\<close> for the reserved field value 15. The second byte is read
  at the index \<open>offset + 1\<close> of type \<open>int\<close>, the offset itself is a \<open>uint16_t\<close>.\<close>

definition parse_ext :: "bytes \<Rightarrow> u8 \<Rightarrow> u16 \<Rightarrow> (u16 \<times> u16) option" where
  "parse_ext srcArr field offset =
     (if field = 13 then Some (ucast (srcArr (unat offset)) + 13, offset + 1)
      else if field = 14 then
        Some ((push_bit 8 (ucast (srcArr (unat offset))) OR ucast (srcArr (unat offset + 1))) + 269,
              offset + 2)
      else if field = 15 then None
      else Some (ucast field, offset))"

text \<open>Result of parsing: the result code, the index of the first payload byte in
  \<open>srcArr\<close> (\<open>None\<close> for \<open>NULL\<close>), the option list and the allocator state. The fuel
  counts loop iterations.\<close>

type_synonym 'm parse_result = "CoAP_Result_t \<times> nat option \<times> CoAP_option_t list \<times> 'm"

fun parse_OptionsFromRaw_loop :: "nat \<Rightarrow> 'm mem_ops \<Rightarrow> 'm \<Rightarrow> bytes \<Rightarrow> u16 \<Rightarrow> u16 \<Rightarrow> u16
    \<Rightarrow> CoAP_option_t list \<Rightarrow> 'm parse_result option" where
  "parse_OptionsFromRaw_loop 0 A m srcArr srcLength offset lastOptionNumber L = None"
| "parse_OptionsFromRaw_loop (Suc fuel) A m srcArr srcLength offset lastOptionNumber L =
     (if \<not> offset < srcLength then Some (COAP_OK, None, L, m)
      else if srcArr (unat offset) = 255 then
        (if uint srcLength - uint offset < 2 then Some (COAP_PARSE_MESSAGE_FORMAT_ERROR, None, L, m)
         else Some (COAP_OK, Some (unat offset + 1), L, m))
      else
        let currOptDeltaField = drop_bit 4 (srcArr (unat offset));
            currOptLengthField = srcArr (unat offset) AND 15;
            offset1 = offset + 1
        in case parse_ext srcArr currOptDeltaField offset1 of
             None \<Rightarrow> Some (COAP_PARSE_MESSAGE_FORMAT_ERROR, None, L, m)
           | Some (currOptDelta, offset2) \<Rightarrow>
               (case parse_ext srcArr currOptLengthField offset2 of
                  None \<Rightarrow> Some (COAP_PARSE_MESSAGE_FORMAT_ERROR, None, L, m)
                | Some (currOptLength, offset3) \<Rightarrow>
                    if currOptLength > MAX_OPTION_VALUE_SIZE then
                      Some (COAP_PARSE_MESSAGE_FORMAT_ERROR, None, L, m)
                    else if uint srcLength - uint offset3 < uint currOptLength then
                      Some (COAP_PARSE_MESSAGE_FORMAT_ERROR, None, L, m)
                    else
                      let lastOptionNumber' = currOptDelta + lastOptionNumber;
                          (Res, L', m') = CoAP_AppendOptionToList A m L lastOptionNumber'
                             (bytes_at srcArr (unat offset3) (unat currOptLength)) currOptLength
                      in if Res \<noteq> COAP_OK then Some (Res, None, L', m')
                         else parse_OptionsFromRaw_loop fuel A m' srcArr srcLength
                                (offset3 + currOptLength) lastOptionNumber' L'))"

text \<open>Every iteration that continues consumes at least one byte, unless the 16-bit offset
  wraps around, so \<open>srcLength + 1\<close> iterations are enough up to a length of 65531
  (\<open>parse_loop_terminates\<close> below).\<close>

definition parse_OptionsFromRaw :: "'m mem_ops \<Rightarrow> 'm \<Rightarrow> bytes \<Rightarrow> u16 \<Rightarrow> CoAP_option_t list
    \<Rightarrow> 'm parse_result option" where
  "parse_OptionsFromRaw A m srcArr srcLength L =
     (if srcLength = 0 then Some (COAP_OK, None, L, m)
      else if srcArr 0 = 255 then Some (COAP_PARSE_MESSAGE_FORMAT_ERROR, None, L, m)
      else if L \<noteq> [] then Some (COAP_ERR_ARGUMENT, None, L, m)
      else parse_OptionsFromRaw_loop (Suc (unat srcLength)) A m srcArr srcLength 0 0 L)"

section \<open>List operations: ordering, contents, ownership\<close>

text \<open>Well-formed nodes carry as many value bytes as their length field says; \<open>opt_view\<close> is
  what a node means, without its address.\<close>

definition opt_wf :: "CoAP_option_t \<Rightarrow> bool" where
  "opt_wf p \<longleftrightarrow> length (Value p) = unat (Length p)"

definition opt_view :: "CoAP_option_t \<Rightarrow> u16 \<times> u8 list" where
  "opt_view p = (Number p, Value p)"

definition opts_wf :: "CoAP_option_t list \<Rightarrow> bool" where
  "opts_wf L \<longleftrightarrow> list_all opt_wf L \<and> sorted (map Number L)"

abbreviation opt_ptrs :: "CoAP_option_t list \<Rightarrow> ptr list" where
  "opt_ptrs L \<equiv> map opt_at L"

lemma fill_option_sel [simp]:
  "opt_at (fill_option p n buf len) = p" "Number (fill_option p n buf len) = n"
  "Length (fill_option p n buf len) = len" "Value (fill_option p n buf len) = take (unat len) buf"
  by (simp_all add: fill_option_def)

lemma opt_wf_fill [simp]: "opt_wf (fill_option p n buf len) \<longleftrightarrow> unat len \<le> length buf"
  by (auto simp: opt_wf_def)

text \<open>The insertion point as one expression: behind all options with a number that is not
  greater, so that options with equal numbers keep their order.\<close>

definition insert_option :: "CoAP_option_t \<Rightarrow> CoAP_option_t list \<Rightarrow> CoAP_option_t list" where
  "insert_option x L = takeWhile (\<lambda>p. Number p \<le> Number x) L @ x # dropWhile (\<lambda>p. Number p \<le> Number x) L"

lemma set_insert_option [simp]: "set (insert_option x L) = insert x (set L)"
  unfolding insert_option_def
  by (metis Un_insert_right list.simps(15) set_append takeWhile_dropWhile_id)

lemma mset_insert_option: "mset (insert_option x L) = add_mset x (mset L)"
  unfolding insert_option_def
  by (metis mset_append union_mset_add_mset_right mset.simps(2) takeWhile_dropWhile_id)

lemma sorted_insert_option:
  "sorted (map Number L) \<Longrightarrow> sorted (map Number (insert_option x L))"
  by (induction L) (auto simp: insert_option_def dest: set_takeWhileD set_dropWhileD order.trans)

lemma insert_option_last:
  "list_all (\<lambda>p. Number p \<le> Number x) L \<Longrightarrow> insert_option x L = L @ [x]"
  by (simp add: insert_option_def list_all_iff dropWhile_eq_Nil_conv takeWhile_eq_all_conv)

lemma heap_ext_mset: "mset ps = mset qs \<Longrightarrow> heap_ext h ps h' \<longleftrightarrow> heap_ext h qs h'"
  by (rule heap_ext_cong) (auto dest: mset_eq_setD mset_eq_imp_distinct_iff)

lemma heap_ext_insert_option:
  assumes "heap_ext h (opt_ptrs L) h'" "h' (opt_at x) = None"
  shows "heap_ext h (opt_ptrs (insert_option x L)) (h'(opt_at x \<mapsto> k))"
proof -
  have "mset (opt_ptrs (insert_option x L)) = mset (opt_at x # opt_ptrs L)"
    using mset_insert_option [of x L] by (metis image_mset_add_mset mset.simps(2) mset_map)
  then show ?thesis
    using heap_ext_alloc [OF assms, of k] heap_ext_mset by blast
qed

lemma opts_wf_insert: "opts_wf L \<Longrightarrow> opt_wf x \<Longrightarrow> opts_wf (insert_option x L)"
  by (simp add: opts_wf_def sorted_insert_option list_all_iff)

text \<open>One equation for all cases of the insertion: the outcome is decided by the allocation.\<close>

lemma append_cases:
  "CoAP_AppendOptionToList A m L n buf len =
     (let (p, m') = coap_mem_get A m (s16 (sizeof_CoAP_option_t + uint len))
      in if p = NULL then
           (COAP_ERR_OUT_OF_MEMORY, if L \<noteq> [] \<and> n < Number (hd L) then [] else L, m')
         else (COAP_OK, insert_option (fill_option p n buf len) L, m'))"
proof -
  let ?tw = "takeWhile (\<lambda>p. Number p \<le> n) L" and ?dw = "dropWhile (\<lambda>p. Number p \<le> n) L"
  have L: "?tw @ ?dw = L" by simp
  have tw: "?tw = [] \<longleftrightarrow> L = [] \<or> n < Number (hd L)"
    by (cases L) (auto simp: not_le)
  show ?thesis
  proof (cases "?dw = []")
    case True
    with L have "?tw = L" by simp
    with True tw show ?thesis
      by (auto simp: CoAP_AppendOptionToList_def append_OptionToListEnd_def insert_option_def
          simp del: dropWhile_eq_Nil_conv takeWhile_eq_all_conv split: prod.splits)
  next
    case False
    then have "L \<noteq> []" by auto
    with False tw L show ?thesis
      by (auto simp: CoAP_AppendOptionToList_def insert_option_def Let_def split: prod.splits)
  qed
qed

lemma FreeOptionList_eq:
  "CoAP_FreeOptionList A m L =
     (COAP_OK, [], foldl (coap_mem_release A) m (case L of [] \<Rightarrow> [] | x # xs \<Rightarrow> opt_ptrs xs @ [opt_at x]))"
proof -
  have "CoAP_FreeOptionList_loop A m xs = foldl (coap_mem_release A) m (opt_ptrs xs)" for xs
    by (induction xs arbitrary: m) auto
  then show ?thesis by (cases L) (auto simp: Let_def)
qed

lemma RemoveOption_eq:
  assumes "distinct (opt_ptrs L)"
  shows "CoAP_RemoveOptionFromList A m L p =
    (COAP_OK, filter (\<lambda>x. opt_at x \<noteq> p) L,
     if p \<in> set (opt_ptrs L) then coap_mem_release A m p else m)"
  using assms
proof (induction L)
  case (Cons a L)
  have "filter (\<lambda>x. opt_at x \<noteq> opt_at a) L = L"
    using Cons.prems by (metis (mono_tags, lifting) distinct.simps(2) filter_True image_eqI
        list.set_map list.simps(9))
  with Cons show ?case by auto
qed simp

text \<open>The number returned by the critical-option check.\<close>

lemma CheckForUnknownCriticalOption_find:
  "CoAP_CheckForUnknownCriticalOption L =
     (case find (\<lambda>p. Number p \<notin> set KNOWN_OPTIONS \<and> odd (Number p)) L of
        None \<Rightarrow> 0 | Some p \<Rightarrow> Number p)"
  by (induction L) (auto simp: list_ex_iff and_one_eq odd_iff_mod_2_eq_one Let_def)

lemma OptionsAreEqual_iff:
  assumes "opt_wf a" "opt_wf b"
  shows "CoAP_OptionsAreEqual (Some a) (Some b) \<longleftrightarrow> opt_view a = opt_view b"
  using assms
  by (auto simp: opt_wf_def opt_view_def list_all_iff word_unat_eq_iff intro: nth_equalityI)

context coap_allocator
begin

lemma append_spec [consumes 3, case_names fail ok]:
  assumes rep: "rep m h" and len: "sizeof_CoAP_option_t + uint len \<le> MAX_REQ"
    and app: "CoAP_AppendOptionToList A m L n buf len = (r, L', m')"
  obtains "r = COAP_ERR_OUT_OF_MEMORY" "rep m' h" "L' = (if L \<noteq> [] \<and> n < Number (hd L) then [] else L)"
  | p k where "r = COAP_OK" "p \<noteq> NULL" "h p = None" "rep m' (h(p \<mapsto> k))"
      "L' = insert_option (fill_option p n buf len) L"
proof -
  let ?sz = "sizeof_CoAP_option_t + uint len"
  have sz: "s16 ?sz = ?sz" "0 < ?sz"
    using len uint_ge_0 [of len]
    by (auto simp: sizeof_CoAP_option_t_def MAX_REQ_def intro!: s16_id add_pos_nonneg)
  obtain p m1 where get: "coap_mem_get A m ?sz = (p, m1)" by fastforce
  show thesis
    using rep sz(2) len get
  proof (cases rule: get_cases)
    case fail
    with app get sz(1) show thesis
      by (auto simp: append_cases split: if_splits intro: that(1))
  next
    case (ok k)
    with app get sz(1) show thesis
      by (auto simp: append_cases intro: that(2))
  qed
qed

lemma free_option_list:
  assumes "rep m h'" "heap_ext h (opt_ptrs L) h'"
  obtains m' where "CoAP_FreeOptionList A m L = (COAP_OK, [], m')" "rep m' h"
proof
  let ?ps = "case L of [] \<Rightarrow> [] | x # xs \<Rightarrow> opt_ptrs xs @ [opt_at x]"
  show "CoAP_FreeOptionList A m L = (COAP_OK, [], foldl (coap_mem_release A) m ?ps)"
    by (rule FreeOptionList_eq)
  have "heap_ext h ?ps h'"
    using assms(2) by (subst heap_ext_cong [where qs = "opt_ptrs L"]) (cases L; auto)+
  with assms(1) show "rep (foldl (coap_mem_release A) m ?ps) h"
    by (rule release_ext)
qed

end

context allocator_room
begin

lemma room_append:
  assumes "room (28 + uint len + b) m" "0 \<le> b" "sizeof_CoAP_option_t + uint len \<le> MAX_REQ"
  obtains p m' where "CoAP_AppendOptionToList A m L n buf len = (COAP_OK, insert_option (fill_option p n buf len) L, m')" "room b m'"
proof -
  let ?sz = "sizeof_CoAP_option_t + uint len"
  have sz: "0 < ?sz" "?sz + ROOM_COST + b = 28 + uint len + b"
    by (simp_all add: sizeof_CoAP_option_t_def ROOM_COST_def add_pos_nonneg)
  have s16: "s16 ?sz = ?sz" using sz(1) assms(3) by (intro s16_id) (simp_all add: MAX_REQ_def)
  obtain p m' where g: "coap_mem_get A m ?sz = (p, m')" by fastforce
  have "p \<noteq> NULL \<and> room b m'" by (rule room_get [OF _ sz(1) assms(3,2) g]) (unfold sz(2), rule assms(1))
  then show thesis using that [of p m'] by (simp add: append_cases s16 g)
qed

end

end
