(* ===== verification/Option_Codec.thy ===== *)
theory Option_Codec
  imports Options
begin

text \<open>
  Correctness of the option codec. \<open>encode_options\<close> is the reference encoding of RFC 7252,
  section 3.1, as a list function; \<open>pack_OptionsFromList\<close> is shown to store exactly that
  encoding, \<open>CoAP_NeededMem4PackOptions\<close> to compute its length, and
  \<open>parse_OptionsFromRaw\<close> to invert it, to terminate, and not to depend on bytes behind the
  end of the datagram.
\<close>

section \<open>Reference encoding\<close>

definition nibble :: "u16 \<Rightarrow> u8" where
  "nibble x = (if x < 13 then ucast x else if x < 269 then 13 else 14)"

definition ext_bytes :: "u16 \<Rightarrow> u8 list" where
  "ext_bytes x = (if x < 13 then [] else if x < 269 then [ucast x - 13]
     else [ucast (drop_bit 8 (x - 269)), ucast ((x - 269) AND 255)])"

definition encode_option :: "u16 \<Rightarrow> CoAP_option_t \<Rightarrow> u8 list" where
  "encode_option lastNum p =
     (push_bit 4 (nibble (Number p - lastNum)) OR nibble (Length p)) #
     ext_bytes (Number p - lastNum) @ ext_bytes (Length p) @ Value p"

fun encode_options :: "u16 \<Rightarrow> CoAP_option_t list \<Rightarrow> u8 list" where
  "encode_options lastNum [] = []"
| "encode_options lastNum (p # ps) = encode_option lastNum p @ encode_options (Number p) ps"

lemma length_ext_bytes: "length (ext_bytes x) = unat (ext_count x)"
  by (simp add: ext_bytes_def ext_count_def)

lemma length_encode_option:
  "opt_wf p \<Longrightarrow> length (encode_option lastNum p) =
     1 + unat (ext_count (Number p - lastNum)) + unat (ext_count (Length p)) + unat (Length p)"
  by (simp add: encode_option_def length_ext_bytes opt_wf_def)

lemma encode_options_ne: "L \<noteq> [] \<Longrightarrow> encode_options n L \<noteq> []"
  by (cases L) (simp_all add: encode_option_def)

section \<open>Packing stores the reference encoding\<close>

lemma unat_of_nat16: "n < 65536 \<Longrightarrow> unat (of_nat n :: u16) = n"
  by (simp add: unat_of_nat take_bit_eq_mod)

text \<open>The two kinds of stores of the packing loop: at the start byte of the current option,
  and at the running offset.\<close>

lemma start_read: "write_at d s (c # cs) s = c"
  by (simp add: write_at_def)

lemma start_store: "(write_at d s (c # cs))(s := b) = write_at d s (b # cs)"
  using write_at_upd [of 0 "c # cs" d s b] by simp

lemma cursor_store:
  "n = s + length xs \<Longrightarrow> (write_at d s xs)(n := b) = write_at d s (xs @ [b])"
  by (simp add: write_at_snoc)

lemma of_nat_inc: "(of_nat n + 1 :: u16) = of_nat (Suc n)" "(of_nat n + 2 :: u16) = of_nat (Suc (Suc n))"
  by simp_all

lemmas pack_store = start_read start_store cursor_store of_nat_inc unat_of_nat16

lemma pack_delta_write:
  assumes "n = s + length (b # es)" "n + length (ext_bytes x) < 65536"
  shows "pack_delta (write_at d s (b # es)) (of_nat s) (of_nat n) x =
    (write_at d s ((b OR push_bit 4 (nibble x)) # es @ ext_bytes x), of_nat (n + length (ext_bytes x)))"
  using assms
  by (auto simp: pack_delta_def nibble_def ext_bytes_def Let_def pack_store simp del: of_nat_Suc)

lemma pack_length_write:
  assumes "n = s + length (b # es)" "n + length (ext_bytes x) < 65536"
  shows "pack_length (write_at d s (b # es)) (of_nat s) (of_nat n) x =
    (write_at d s ((b OR nibble x) # es @ ext_bytes x), of_nat (n + length (ext_bytes x)))"
  using assms
  by (auto simp: pack_length_def nibble_def ext_bytes_def Let_def pack_store simp del: of_nat_Suc)

lemma pack_value_write:
  "n = s + length xs \<Longrightarrow> n + length vs < 65536 \<Longrightarrow>
   pack_value (write_at d s xs) (of_nat n) vs = (write_at d s (xs @ vs), of_nat (n + length vs))"
proof (induction vs arbitrary: xs n)
  case (Cons v vs)
  then show ?case
    using Cons.IH [of "Suc n" "xs @ [v]"] by (simp add: pack_store del: of_nat_Suc of_nat_add)
qed simp

lemma pack_option_write:
  assumes "opt_wf p" "s + length (encode_option lastNum p) < 65536"
  shows "pack_option d (of_nat s) lastNum p =
    (write_at d s (encode_option lastNum p), of_nat (s + length (encode_option lastNum p)))"
proof -
  have d: "d(s := 0) = write_at d s [0]"
    using write_at_snoc [of d s "[]" 0] by (simp add: write_at_Nil)
  show ?thesis
    using assms pack_delta_write [of "Suc s" s 0 "[]"]
    by (simp add: pack_option_def Let_def pack_store d pack_length_write pack_value_write
        encode_option_def opt_wf_def add.assoc del: of_nat_Suc of_nat_add)
qed

lemma pack_loop_write:
  assumes "list_all opt_wf L" "s + length (encode_options lastNum L) < 65536"
  shows "pack_loop d (of_nat s) lastNum L =
    (write_at d s (encode_options lastNum L), of_nat (s + length (encode_options lastNum L)))"
  using assms
proof (induction L arbitrary: d s lastNum)
  case Nil
  then show ?case by (simp add: write_at_Nil)
next
  case (Cons p L)
  then show ?case
    by (simp add: pack_option_write write_at_append add.assoc del: of_nat_add)
qed

lemma pack_OptionsFromList_write:
  assumes "list_all opt_wf L" "length (encode_options 0 L) < 65536"
  shows "pack_OptionsFromList d L =
    (COAP_OK, of_nat (length (encode_options 0 L)), write_at d 0 (encode_options 0 L))"
  using pack_loop_write [of L 0 0 d] assms
  by (simp add: pack_OptionsFromList_def write_at_Nil)

lemma NeededMem_length:
  assumes "list_all opt_wf L"
  shows "CoAP_NeededMem4PackOptions L = of_nat (length (encode_options 0 L))"
proof -
  have "CoAP_NeededMem4PackOptions_loop off lastNum L = off + of_nat (length (encode_options lastNum L))"
    for off lastNum
    using assms
    by (induction L arbitrary: off lastNum) (auto simp: length_encode_option Let_def ac_simps)
  then show ?thesis by (simp add: CoAP_NeededMem4PackOptions_def)
qed

section \<open>Parsing\<close>

subsection \<open>One option\<close>

text \<open>\<open>parse_head\<close> collects what one iteration of the parse loop reads of the option header:
  delta, length and the offset of the value; \<open>None\<close> when one of the format checks fails.\<close>

definition parse_head :: "bytes \<Rightarrow> u16 \<Rightarrow> u16 \<Rightarrow> (u16 \<times> u16 \<times> u16) option" where
  "parse_head srcArr srcLength offset =
     (case parse_ext srcArr (drop_bit 4 (srcArr (unat offset))) (offset + 1) of
        None \<Rightarrow> None
      | Some (delta, offset2) \<Rightarrow>
          (case parse_ext srcArr (srcArr (unat offset) AND 15) offset2 of
             None \<Rightarrow> None
           | Some (len, offset3) \<Rightarrow>
               if len > MAX_OPTION_VALUE_SIZE \<or> uint srcLength - uint offset3 < uint len then None
               else Some (delta, len, offset3)))"

lemma parse_loop_step:
  "parse_OptionsFromRaw_loop (Suc fuel) A m srcArr srcLength offset lastNum L =
     (if \<not> offset < srcLength then Some (COAP_OK, None, L, m)
      else if srcArr (unat offset) = 255 then
        (if uint srcLength - uint offset < 2 then Some (COAP_PARSE_MESSAGE_FORMAT_ERROR, None, L, m)
         else Some (COAP_OK, Some (unat offset + 1), L, m))
      else case parse_head srcArr srcLength offset of
        None \<Rightarrow> Some (COAP_PARSE_MESSAGE_FORMAT_ERROR, None, L, m)
      | Some (delta, len, offset3) \<Rightarrow>
          (case CoAP_AppendOptionToList A m L (delta + lastNum)
                  (bytes_at srcArr (unat offset3) (unat len)) len of
             (Res, L', m') \<Rightarrow>
               if Res \<noteq> COAP_OK then Some (Res, None, L', m')
               else parse_OptionsFromRaw_loop fuel A m' srcArr srcLength
                      (offset3 + len) (delta + lastNum) L'))"
  by (simp add: parse_head_def Let_def split: option.splits prod.splits)

declare parse_OptionsFromRaw_loop.simps(2) [simp del]

text \<open>The header takes one to five bytes, so for a source of at most 65531 bytes no offset
  wraps around and the value lies inside the source.\<close>

lemma parse_ext_offset:
  assumes "parse_ext srcArr field off = Some (x, off')" "unat off + 2 < 65536"
  shows "unat off \<le> unat off'" "unat off' \<le> unat off + 2"
  using assms
  by (auto simp: parse_ext_def unat_word_ariths split: if_splits)

lemma parse_head_bounds:
  assumes "parse_head srcArr srcLength offset = Some (delta, len, off3)"
    "offset < srcLength" "srcLength \<le> 65531"
  shows "unat offset < unat off3" "unat off3 + unat len \<le> unat srcLength" "len \<le> 1034"
proof -
  obtain off2 where e1: "parse_ext srcArr (drop_bit 4 (srcArr (unat offset))) (offset + 1) = Some (delta, off2)"
    and e2: "parse_ext srcArr (srcArr (unat offset) AND 15) off2 = Some (len, off3)"
    and ok: "\<not> len > 1034" "\<not> uint srcLength - uint off3 < uint len"
    using assms(1) by (auto simp: parse_head_def split: option.splits if_splits)
  have lt: "unat offset < 65531"
    using assms(2,3) by (simp add: word_less_nat_alt word_le_nat_alt)
  then have o1: "unat (offset + 1) = unat offset + 1"
    by (simp add: unat_word_ariths)
  have o2: "unat offset + 1 \<le> unat off2" "unat off2 \<le> unat offset + 3"
    using parse_ext_offset [OF e1] lt o1 by linarith+
  show "unat offset < unat off3"
    using parse_ext_offset(1) [OF e2] o2 lt by linarith
  show "len \<le> 1034" using ok(1) by (simp add: not_less)
  show "unat off3 + unat len \<le> unat srcLength"
    using ok(2) by (simp add: int_diff_less)
qed

subsection \<open>Termination\<close>

lemma parse_loop_terminates:
  assumes "srcLength \<le> 65531" "unat srcLength - unat offset < fuel"
  shows "\<exists>r. parse_OptionsFromRaw_loop fuel A m srcArr srcLength offset lastNum L = Some r"
  using assms
proof (induction fuel arbitrary: m offset lastNum L)
  case (Suc fuel)
  have "\<exists>r. parse_OptionsFromRaw_loop fuel A m' srcArr srcLength (off3 + len) n L' = Some r"
    if hd: "parse_head srcArr srcLength offset = Some (delta, len, off3)" and "offset < srcLength"
    for delta len off3 m' n L'
  proof -
    note b = parse_head_bounds [OF hd that(2) Suc.prems(1)]
    have "unat off3 + unat len < 65536"
      using b(2) unat_u16_lt [of srcLength] by linarith
    then have "unat (off3 + len) = unat off3 + unat len"
      by (simp add: unat_word_ariths)
    moreover have "unat offset < unat srcLength"
      using that(2) by (simp add: word_less_nat_alt)
    ultimately have "unat srcLength - unat (off3 + len) < fuel"
      using b Suc.prems(2) by linarith
    then show ?thesis using Suc.IH Suc.prems(1) by blast
  qed
  then show ?case
    by (auto simp: parse_loop_step split: option.splits prod.splits)
qed simp

subsection \<open>Bytes behind the end do not matter\<close>

definition ext_skip :: "u8 \<Rightarrow> nat" where
  "ext_skip field = (if field = 13 then 1 else if field = 14 then 2 else 0)"

lemma parse_ext_None: "parse_ext srcArr field off = None \<longleftrightarrow> field = 15"
  by (simp add: parse_ext_def)

lemma parse_ext_skip:
  assumes "parse_ext srcArr field off = Some (x, off')" "unat off + 2 < 65536"
  shows "unat off' = unat off + ext_skip field"
  using assms by (auto simp: parse_ext_def ext_skip_def unat_word_ariths split: if_splits)

lemma ext_skip_le: "ext_skip field \<le> 2"
  by (simp add: ext_skip_def)

lemma parse_ext_cong:
  assumes "\<And>i. unat off \<le> i \<Longrightarrow> i < unat off + ext_skip field \<Longrightarrow> src i = src' i"
  shows "parse_ext src field off = parse_ext src' field off"
  using assms by (simp add: parse_ext_def ext_skip_def)

lemma parse_head_cong:
  assumes agree: "\<And>i. i < unat srcLength \<Longrightarrow> src i = src' i"
    and lt: "offset < srcLength" and len: "srcLength \<le> 65531"
  shows "parse_head src srcLength offset = parse_head src' srcLength offset"
proof -
  let ?f1 = "drop_bit 4 (src (unat offset))" and ?f2 = "src (unat offset) AND 15"
  have same: "src' (unat offset) = src (unat offset)"
    using agree lt by (simp add: word_less_nat_alt)
  have "unat offset < 65531" using lt len by (simp add: word_less_nat_alt word_le_nat_alt)
  then have o1: "unat (offset + 1) = unat offset + 1" by (simp add: unat_word_ariths)
  have off3: "unat off3 = unat offset + 1 + ext_skip ?f1 + ext_skip ?f2"
    if "parse_ext s ?f1 (offset + 1) = Some (x, off2)" "parse_ext s' ?f2 off2 = Some (y, off3)"
    for s s' x off2 y off3
    using parse_ext_skip [OF that(1)] parse_ext_skip [OF that(2)] o1 \<open>unat offset < 65531\<close>
      ext_skip_le [of ?f1] by linarith
  show ?thesis
  proof (cases "unat offset + 1 + ext_skip ?f1 + ext_skip ?f2 \<le> unat srcLength")
    case True
    have e1: "parse_ext src ?f1 (offset + 1) = parse_ext src' ?f1 (offset + 1)"
      using True o1 by (intro parse_ext_cong agree) simp
    show ?thesis
    proof (cases "parse_ext src ?f1 (offset + 1)")
      case None
      with e1 show ?thesis by (simp add: parse_head_def same)
    next
      case (Some p)
      obtain x off2 where p: "p = (x, off2)" by fastforce
      have "parse_ext src ?f2 off2 = parse_ext src' ?f2 off2"
        using parse_ext_skip [OF Some [unfolded p]] True o1 \<open>unat offset < 65531\<close>
        by (intro parse_ext_cong agree) simp
      with Some e1 p show ?thesis by (simp add: parse_head_def same)
    qed
  next
    case False
    have "parse_head s srcLength offset = None" if eq: "s (unat offset) = src (unat offset)" for s
    proof (rule ccontr)
      assume "parse_head s srcLength offset \<noteq> None"
      then obtain delta n o3 where *: "parse_head s srcLength offset = Some (delta, n, o3)"
        by auto
      then obtain o2 where e: "parse_ext s ?f1 (offset + 1) = Some (delta, o2)" "parse_ext s ?f2 o2 = Some (n, o3)"
        unfolding parse_head_def eq by (auto split: option.splits if_splits)
      have "unat srcLength < unat o3" using False off3 [OF e] by linarith
      with parse_head_bounds(2) [OF * lt len] show False by simp
    qed
    then show ?thesis using same by simp
  qed
qed

lemma parse_loop_cong:
  assumes agree: "\<And>i. i < unat srcLength \<Longrightarrow> src i = src' i" and len: "srcLength \<le> 65531"
  shows "parse_OptionsFromRaw_loop fuel A m src srcLength offset lastNum L =
    parse_OptionsFromRaw_loop fuel A m src' srcLength offset lastNum L"
proof (induction fuel arbitrary: m offset lastNum L)
  case (Suc fuel)
  have val: "bytes_at src (unat o3) (unat n) = bytes_at src' (unat o3) (unat n)"
    if "parse_head src srcLength offset = Some (d, n, o3)" "offset < srcLength" for d n o3
    using parse_head_bounds(2) [OF that len] by (intro bytes_at_cong agree) simp
  have "src (unat offset) = src' (unat offset)" if "offset < srcLength"
    using agree that by (simp add: word_less_nat_alt)
  with val Suc.IH show ?case
    unfolding parse_loop_step
    by (auto simp: parse_head_cong [OF agree _ len] split: option.splits prod.splits)
qed simp

subsection \<open>Parsing inverts the encoding\<close>

lemma nibble_less: "nibble x < 15"
  by (auto simp: nibble_def word_less_nat_alt word_nat)

lemma take_bit_nibble: "(x :: u8) < 16 \<Longrightarrow> take_bit 4 x = x"
  unfolding word_unat_eq_iff unsigned_take_bit_eq
  by (simp only: take_bit_eq_mod) (simp add: word_less_nat_alt)

lemma pack_nibbles:
  assumes "(a :: u8) < 16" "b < 16"
  shows "drop_bit 4 (push_bit 4 a OR b) = a" "(push_bit 4 a OR b) AND 15 = b"
proof -
  have "a = take_bit 4 a" "b = take_bit 4 b"
    using assms by (simp_all add: take_bit_nibble)
  then have *: "bit a n \<Longrightarrow> n < 4" "bit b n \<Longrightarrow> n < 4" for n
    by (metis bit_take_bit_iff)+
  show "drop_bit 4 (push_bit 4 a OR b) = a"
    by (rule bit_word_eqI) (auto simp: bit_simps dest: *)
  show "(push_bit 4 a OR b) AND 15 = b"
    unfolding mask_simps by (rule bit_word_eqI) (auto simp: bit_simps dest: *)
qed

lemma nibble_byte:
  "drop_bit 4 (push_bit 4 (nibble x) OR nibble y) = nibble x"
  "(push_bit 4 (nibble x) OR nibble y) AND 15 = nibble y"
  "push_bit 4 (nibble x) OR nibble y \<noteq> (255 :: u8)"
proof -
  have lt: "nibble z < 16" for z
    using nibble_less [of z] by (simp add: word_less_nat_alt)
  show 1: "drop_bit 4 (push_bit 4 (nibble x) OR nibble y) = nibble x"
    and "(push_bit 4 (nibble x) OR nibble y) AND 15 = nibble y"
    by (rule pack_nibbles [OF lt lt])+
  show "push_bit 4 (nibble x) OR nibble y \<noteq> (255 :: u8)"
  proof
    assume "push_bit 4 (nibble x) OR nibble y = (255 :: u8)"
    with 1 have "nibble x = drop_bit 4 255" by simp
    with nibble_less [of x] show False by simp
  qed
qed

lemma ext_short:
  assumes "x < 13"
  shows "nibble x \<noteq> 13" "nibble x \<noteq> 14" "nibble x \<noteq> 15" "ucast (nibble x) = x"
  using assms by (auto simp: nibble_def word_unat_eq_iff word_nat word_less_nat_alt)

lemma ext_medium:
  assumes "13 \<le> x" "x < 269"
  shows "ucast (ucast x - 13 :: u8) + 13 = (x :: u16)"
proof -
  have x: "13 \<le> unat x" "unat x < 269"
    using assms by (simp_all add: word_less_nat_alt word_le_nat_alt)
  have "unat (ucast x - 13 :: u8) = unat x - 13"
  proof (cases "unat x < 256")
    case True
    with x show ?thesis by (simp add: unat_sub_if' word_nat)
  next
    case False
    then have "unat x mod 256 = unat x - 256"
      using x by (simp add: mod_if)
    with x False show ?thesis by (simp add: unat_sub_if' word_nat)
  qed
  with x show ?thesis
    by (simp add: word_unat_eq_iff unat_word_ariths word_nat)
qed

lemma parse_ext_encode:
  assumes "bytes_at src (unat off) (length (ext_bytes x)) = ext_bytes x"
  shows "parse_ext src (nibble x) off = Some (x, off + of_nat (length (ext_bytes x)))"
proof -
  consider "x < 13" | "13 \<le> x" "x < 269" | "269 \<le> x" by fastforce
  then show ?thesis
  proof cases
    case 1
    with ext_short [OF 1] show ?thesis by (simp add: parse_ext_def ext_bytes_def)
  next
    case 2
    then have "\<not> x < 13" by simp
    with 2 assms ext_medium [OF 2] show ?thesis
      by (simp add: parse_ext_def ext_bytes_def nibble_def bytes_at_def)
  next
    case 3
    then have "\<not> x < 13" "\<not> x < 269" by (auto simp: word_less_nat_alt word_le_nat_alt)
    with assms u16_bytes [of "x - 269"] show ?thesis
      by (simp add: parse_ext_def ext_bytes_def nibble_def bytes_at_def)
  qed
qed

text \<open>Where the encoding of an option lies in the source, one iteration reads it back.\<close>

definition value_offset :: "u16 \<Rightarrow> CoAP_option_t \<Rightarrow> nat" where
  "value_offset lastNum p = 1 + length (ext_bytes (Number p - lastNum)) + length (ext_bytes (Length p))"

lemma encode_option_split:
  assumes "bytes_at src off (length (encode_option lastNum p)) = encode_option lastNum p"
  shows "src off = push_bit 4 (nibble (Number p - lastNum)) OR nibble (Length p)"
    "bytes_at src (off + 1) (length (ext_bytes (Number p - lastNum))) = ext_bytes (Number p - lastNum)"
    "bytes_at src (off + 1 + length (ext_bytes (Number p - lastNum))) (length (ext_bytes (Length p)))
       = ext_bytes (Length p)"
    "bytes_at src (off + value_offset lastNum p) (length (Value p)) = Value p"
  using assms
  by (simp_all add: encode_option_def bytes_at_Suc bytes_at_add value_offset_def add.assoc)

lemma parse_head_encode:
  assumes enc: "bytes_at src (unat off) (length (encode_option lastNum p)) = encode_option lastNum p"
    and wf: "opt_wf p" and len: "Length p \<le> 1034"
    and fits: "unat off + length (encode_option lastNum p) \<le> unat srcLength"
  shows "parse_head src srcLength off =
      Some (Number p - lastNum, Length p, off + of_nat (value_offset lastNum p))"
    "unat (off + of_nat (value_offset lastNum p)) = unat off + value_offset lastNum p"
    "src (unat off) \<noteq> 255"
proof -
  let ?d = "ext_bytes (Number p - lastNum)" and ?l = "ext_bytes (Length p)"
  note s = encode_option_split [OF enc]
  have tot: "unat off + 1 + length ?d + length ?l + unat (Length p) \<le> unat srcLength"
    using fits wf by (simp add: encode_option_def opt_wf_def)
  have small: "unat off + k < 65536" if "k \<le> 1 + length ?d + length ?l" for k
    using tot that unat_u16_lt [of srcLength] by linarith
  have u: "unat (off + of_nat k) = unat off + k" if "k \<le> 1 + length ?d + length ?l" for k
    using small [OF that] by (simp add: unat_word_ariths unat_of_nat16)
  show v: "unat (off + of_nat (value_offset lastNum p)) = unat off + value_offset lastNum p"
    using u [of "value_offset lastNum p"] by (simp add: value_offset_def)
  show "src (unat off) \<noteq> 255"
    by (simp add: s(1) nibble_byte)
  have e1: "parse_ext src (nibble (Number p - lastNum)) (off + 1) =
      Some (Number p - lastNum, off + 1 + of_nat (length ?d))"
    using s(2) u [of 1] by (intro parse_ext_encode) simp
  have e2: "parse_ext src (nibble (Length p)) (off + 1 + of_nat (length ?d)) =
      Some (Length p, off + of_nat (value_offset lastNum p))"
    using s(3) u [of "1 + length ?d"] parse_ext_encode [of src "off + 1 + of_nat (length ?d)" "Length p"]
    by (simp add: value_offset_def add.assoc)
  have "\<not> uint srcLength - uint (off + of_nat (value_offset lastNum p)) < uint (Length p)"
    unfolding int_diff_less v using tot by (simp add: value_offset_def)
  moreover have "drop_bit 4 (src (unat off)) = nibble (Number p - lastNum)" "src (unat off) AND 15 = nibble (Length p)"
    by (simp_all only: s(1) nibble_byte)
  ultimately show "parse_head src srcLength off =
      Some (Number p - lastNum, Length p, off + of_nat (value_offset lastNum p))"
    using e1 e2 len by (simp add: parse_head_def not_less)
qed

text \<open>What stops the loop behind the last option: the end of the source, or a payload marker
  that is followed by at least one byte.\<close>

definition options_end :: "bytes \<Rightarrow> u16 \<Rightarrow> nat \<Rightarrow> nat option \<Rightarrow> bool" where
  "options_end src srcLength e pl \<longleftrightarrow>
     (pl = None \<and> e = unat srcLength) \<or>
     (pl = Some (e + 1) \<and> e + 1 < unat srcLength \<and> src e = 255)"

lemma parse_loop_end:
  assumes "options_end src srcLength (unat off) pl"
  shows "parse_OptionsFromRaw_loop (Suc fuel) A m src srcLength off lastNum L = Some (COAP_OK, pl, L, m)"
  using assms by (auto simp: parse_loop_step options_end_def word_less_nat_alt int_diff_less)

definition all_le :: "CoAP_option_t list \<Rightarrow> u16 \<Rightarrow> bool" where
  "all_le L n \<longleftrightarrow> list_all (\<lambda>p. Number p \<le> n) L"

definition encodable :: "CoAP_option_t list \<Rightarrow> bool" where
  "encodable L \<longleftrightarrow> opts_wf L \<and> list_all (\<lambda>p. Length p \<le> 1034) L"

lemma encode_options_length: "length K \<le> length (encode_options k K)"
  by (induction K arbitrary: k) (auto simp: encode_option_def intro: le_SucI trans_le_add2)

lemma encoded_start:
  assumes "L \<noteq> []" "bytes_at src 0 (length (encode_options 0 L)) = encode_options 0 L" "length (encode_options 0 L) \<le> unat srcLength"
  shows "src 0 \<noteq> 255" "srcLength \<noteq> 0"
proof -
  obtain p ps where L: "L = p # ps" using assms(1) by (cases L) auto
  have "bytes_at src 0 (length (encode_option 0 p)) = encode_option 0 p" using assms(2) by (simp add: L bytes_at_add)
  then have "src 0 = encode_option 0 p ! 0"
    by (metis add_0 encode_option_def length_greater_0_conv list.discI nth_bytes_at)
  then show "src 0 \<noteq> 255" by (simp add: encode_option_def nibble_byte)
  show "srcLength \<noteq> 0" using encode_options_ne [OF assms(1), of 0] assms(3) by auto
qed

lemma parse_loop_encoded_step:
  fixes off lastNum :: u16 and p :: CoAP_option_t
  defines "e \<equiv> encode_option lastNum p" and "off' \<equiv> off + of_nat (value_offset lastNum p) + Length p"
  assumes "opt_wf p" "Length p \<le> 1034" "bytes_at src (unat off) (length e) = e" "unat off + length e \<le> unat srcLength"
  shows "unat off' = unat off + length e"
    "parse_OptionsFromRaw_loop (Suc f) A m src srcLength off lastNum L =
      (case CoAP_AppendOptionToList A m L (Number p) (Value p) (Length p) of (r, L1, m1) \<Rightarrow>
        if r \<noteq> COAP_OK then Some (r, None, L1, m1)
        else parse_OptionsFromRaw_loop f A m1 src srcLength off' (Number p) L1)"
proof -
  let ?o3 = "off + of_nat (value_offset lastNum p)"
  note bs = assms(5) [unfolded e_def] and fits = assms(6)
  note hd = parse_head_encode [OF bs assms(3,4) assms(6) [unfolded e_def]]
  have le: "length e = value_offset lastNum p + unat (Length p)"
    using assms(3) by (simp add: e_def encode_option_def value_offset_def opt_wf_def)
  show "unat off' = unat off + length e"
    using hd(2) le fits unat_u16_lt [of srcLength] unat_add_u16 [of ?o3 "Length p"] unfolding off'_def by linarith
  have lt: "off < srcLength"
    using fits by (simp add: word_less_nat_alt le value_offset_def)
  have val: "bytes_at src (unat ?o3) (unat (Length p)) = Value p"
    using encode_option_split(4) [OF bs] hd(2) assms(3) by (simp add: opt_wf_def)
  show "parse_OptionsFromRaw_loop (Suc f) A m src srcLength off lastNum L =
      (case CoAP_AppendOptionToList A m L (Number p) (Value p) (Length p) of (r, L1, m1) \<Rightarrow>
        if r \<noteq> COAP_OK then Some (r, None, L1, m1)
        else parse_OptionsFromRaw_loop f A m1 src srcLength off' (Number p) L1)"
    using lt hd(1,3) by (simp add: parse_loop_step val off'_def split: prod.splits)
qed

context coap_allocator
begin

lemma parse_loop_encoded:
  assumes "rep m h'" "heap_ext h (opt_ptrs L0) h'" "all_le L0 lastNum"
    "encodable L" "\<forall>p \<in> set L. lastNum \<le> Number p"
    "bytes_at src (unat off) (length (encode_options lastNum L)) = encode_options lastNum L"
    "unat off + length (encode_options lastNum L) \<le> unat srcLength"
    "options_end src srcLength (unat off + length (encode_options lastNum L)) pl"
    "length L < fuel"
  shows "\<exists>r pl' L' m' h''. parse_OptionsFromRaw_loop fuel A m src srcLength off lastNum L0 = Some (r, pl', L', m') \<and>
     rep m' h'' \<and> heap_ext h (opt_ptrs L') h'' \<and>
     (r = COAP_OK \<and> pl' = pl \<and> map opt_view L' = map opt_view (L0 @ L) \<or> r = COAP_ERR_OUT_OF_MEMORY)"
  using assms
proof (induction L arbitrary: m h' L0 lastNum off fuel)
  case Nil
  then obtain f where "fuel = Suc f" by (cases fuel) auto
  moreover have "parse_OptionsFromRaw_loop (Suc f) A m src srcLength off lastNum L0 = Some (COAP_OK, pl, L0, m)"
    using Nil by (intro parse_loop_end) simp
  ultimately show ?case using Nil by auto
next
  case (Cons p L)
  then obtain f where f: "fuel = Suc f" "length L < f" by (cases fuel) auto
  let ?e = "encode_option lastNum p" and ?o3 = "off + of_nat (value_offset lastNum p)"
  have wf: "opt_wf p" "Length p \<le> 1034" "encodable L" "\<forall>q \<in> set L. Number p \<le> Number q"
    "lastNum \<le> Number p"
    using Cons.prems by (auto simp: encodable_def opts_wf_def)
  have bs: "bytes_at src (unat off) (length ?e) = ?e"
    "bytes_at src (unat off + length ?e) (length (encode_options (Number p) L)) = encode_options (Number p) L"
    using Cons.prems(6) by (simp_all add: bytes_at_add)
  have fits: "unat off + length ?e \<le> unat srcLength"
    using Cons.prems(7) by simp
  note step = parse_loop_encoded_step [OF wf(1,2) bs(1) fits]
  obtain r L1 m1 where app: "CoAP_AppendOptionToList A m L0 (Number p) (Value p) (Length p) = (r, L1, m1)"
    by (metis prod_cases3)
  note loop = step(2) [of f A m L0, unfolded app, simplified, folded f(1)]
  have sz: "sizeof_CoAP_option_t + uint (Length p) \<le> MAX_REQ"
    using wf(2) by (simp add: sizeof_CoAP_option_t_def MAX_REQ_def word_le_nat_alt uint_nat del: of_nat_unat)
  from Cons.prems(1) sz app show ?case
  proof (cases rule: append_spec)
    case fail
    have "L1 = L0"
      using fail(3) Cons.prems(3) wf(5) by (cases L0) (auto simp: all_le_def)
    with fail Cons.prems(2) loop show ?thesis by auto
  next
    case (ok q k)
    let ?x = "fill_option q (Number p) (Value p) (Length p)"
    have L1: "L1 = L0 @ [?x]"
      using ok(5) Cons.prems(3) wf(5) insert_option_last [of ?x L0]
      by (fastforce simp: all_le_def list_all_iff)
    have ext: "heap_ext h (opt_ptrs L1) (h'(q \<mapsto> k))"
      using heap_ext_insert_option [OF Cons.prems(2), of ?x k] ok(3,5) by simp
    have al: "all_le L1 (Number p)"
      using Cons.prems(3) wf(5) by (auto simp: L1 all_le_def list_all_iff)
    have view: "map opt_view L1 = map opt_view (L0 @ [p])"
      using wf(1) by (simp add: L1 opt_view_def opt_wf_def)
    show ?thesis
      using Cons.IH [OF ok(4) ext al wf(3,4) _ _ _ f(2), of "?o3 + Length p"] bs(2) Cons.prems(7,8) view
      by (simp add: loop ok(1) step(1) add.assoc [where 'a = nat])
  qed
qed

text \<open>For any input at all: unless memory runs out, the parsed list owns exactly what was
  allocated while parsing, and it is well-formed and sorted.\<close>

lemma parse_loop_owns:
  assumes "rep m h'" "heap_ext h (opt_ptrs L) h'" "opts_wf L" "srcLength \<le> 65531"
    "parse_OptionsFromRaw_loop fuel A m src srcLength off lastNum L = Some (r, pl, L', m')"
  shows "\<exists>h'' lost. rep m' h'' \<and> heap_ext h (opt_ptrs L' @ lost) h'' \<and> opts_wf L' \<and>
    (r \<noteq> COAP_ERR_OUT_OF_MEMORY \<longrightarrow> lost = [])"
  using assms
proof (induction fuel arbitrary: m h' off lastNum L)
  case (Suc fuel)
  show ?case
  proof (cases "off < srcLength \<and> src (unat off) \<noteq> 255 \<and> parse_head src srcLength off \<noteq> None")
    case False
    then have "L' = L" "m' = m"
      using Suc.prems(5) by (auto simp: parse_loop_step split: if_splits option.splits)
    with Suc.prems show ?thesis by (metis append_Nil2)
  next
    case True
    then obtain d n o3 where hd: "parse_head src srcLength off = Some (d, n, o3)" by auto
    have n: "n \<le> 1034" using parse_head_bounds(3) [OF hd _ Suc.prems(4)] True by simp
    let ?buf = "bytes_at src (unat o3) (unat n)"
    obtain r1 L1 m1 where app: "CoAP_AppendOptionToList A m L (d + lastNum) ?buf n = (r1, L1, m1)"
      by (metis prod_cases3)
    have step: "(if r1 \<noteq> COAP_OK then Some (r1, None, L1, m1)
        else parse_OptionsFromRaw_loop fuel A m1 src srcLength (o3 + n) (d + lastNum) L1) =
        Some (r, pl, L', m')"
      using Suc.prems(5) True hd app by (simp add: parse_loop_step)
    have sz: "sizeof_CoAP_option_t + uint n \<le> MAX_REQ"
      using n by (simp add: sizeof_CoAP_option_t_def MAX_REQ_def word_le_nat_alt uint_nat del: of_nat_unat)
    from Suc.prems(1) sz app show ?thesis
    proof (cases rule: append_spec)
      case fail
      then have eq: "r = COAP_ERR_OUT_OF_MEMORY" "m' = m1" "L' = L1" using step by simp_all
      have "heap_ext h (opt_ptrs L' @ (if L' = [] then opt_ptrs L else [])) h'" "opts_wf L'"
        using Suc.prems(2,3) fail(3) eq(3) by (auto simp: opts_wf_def)
      with fail(2) eq show ?thesis by blast
    next
      case (ok q k)
      have "heap_ext h (opt_ptrs L1) (h'(q \<mapsto> k))"
        using heap_ext_insert_option [OF Suc.prems(2), of "fill_option q (d + lastNum) ?buf n" k] ok(3,5)
        by simp
      moreover have "opts_wf L1"
        using Suc.prems(3) ok(5) by (simp add: opts_wf_insert)
      moreover have "parse_OptionsFromRaw_loop fuel A m1 src srcLength (o3 + n) (d + lastNum) L1 =
          Some (r, pl, L', m')"
        using step ok(1) by simp
      ultimately show ?thesis using Suc.IH [OF ok(4)] Suc.prems(4) by blast
    qed
  qed
qed simp

lemma parse_options_encoded:
  assumes rep: "rep m h" and L: "encodable L" "L \<noteq> []"
    and enc: "bytes_at src 0 (length (encode_options 0 L)) = encode_options 0 L"
    and fits: "length (encode_options 0 L) \<le> unat srcLength"
    and last: "options_end src srcLength (length (encode_options 0 L)) pl"
  obtains r pl' L' m' h' where "parse_OptionsFromRaw A m src srcLength [] = Some (r, pl', L', m')"
    "rep m' h'" "heap_ext h (opt_ptrs L') h'"
    "r = COAP_OK \<and> pl' = pl \<and> map opt_view L' = map opt_view L \<or> r = COAP_ERR_OUT_OF_MEMORY"
proof -
  note src = encoded_start [OF L(2) enc fits]
  have "length L < Suc (unat srcLength)" using encode_options_length [of L 0] fits by simp
  then obtain r pl' L1 m' h' where
    "parse_OptionsFromRaw_loop (Suc (unat srcLength)) A m src srcLength 0 0 [] = Some (r, pl', L1, m')"
    "rep m' h'" "heap_ext h (opt_ptrs L1) h'"
    "r = COAP_OK \<and> pl' = pl \<and> map opt_view L1 = map opt_view L \<or> r = COAP_ERR_OUT_OF_MEMORY"
    using parse_loop_encoded [OF rep, of h "[]" 0 L src 0 srcLength pl "Suc (unat srcLength)"] L enc fits last
    by (auto simp: all_le_def)
  then show thesis using that src by (simp add: parse_OptionsFromRaw_def)
qed

lemma parse_options_owns:
  assumes "rep m h" "srcLength \<le> 65531"
  obtains r pl L m' h' lost where "parse_OptionsFromRaw A m src srcLength [] = Some (r, pl, L, m')"
    "rep m' h'" "heap_ext h (opt_ptrs L @ lost) h'" "opts_wf L" "r \<noteq> COAP_ERR_OUT_OF_MEMORY \<Longrightarrow> lost = []"
proof (cases "srcLength = 0 \<or> src 0 = 255")
  case True
  then have "\<exists>r. parse_OptionsFromRaw A m src srcLength [] = Some (r, None, [], m)"
    by (auto simp: parse_OptionsFromRaw_def)
  then obtain r where "parse_OptionsFromRaw A m src srcLength [] = Some (r, None, [], m)" ..
  then show thesis
    by (rule that [of _ _ _ _ h "[]"]) (simp_all add: assms opts_wf_def)
next
  case False
  obtain r pl L m' where eq: "parse_OptionsFromRaw_loop (Suc (unat srcLength)) A m src srcLength 0 0 [] =
      Some (r, pl, L, m')"
    using parse_loop_terminates [OF assms(2), of 0 "Suc (unat srcLength)" A m src 0 "[]"] by auto
  have "opts_wf []" by (simp add: opts_wf_def)
  from parse_loop_owns [OF assms(1) _ this assms(2) eq, of h]
  obtain h' lost where "rep m' h'" "heap_ext h (opt_ptrs L @ lost) h'" "opts_wf L"
    "r \<noteq> COAP_ERR_OUT_OF_MEMORY \<longrightarrow> lost = []" by auto
  moreover have "parse_OptionsFromRaw A m src srcLength [] = Some (r, pl, L, m')"
    using False eq by (simp add: parse_OptionsFromRaw_def)
  ultimately show thesis using that by blast
qed

end

text \<open>The payload starts right behind a marker and is not empty.\<close>

lemma parse_loop_payload:
  assumes "parse_OptionsFromRaw_loop fuel A m src srcLength off lastNum L = Some (r, Some b, L', m')"
  shows "r = COAP_OK \<and> 0 < b \<and> b < unat srcLength \<and> src (b - 1) = 255"
  using assms
proof (induction fuel arbitrary: m off lastNum L)
  case (Suc fuel)
  then show ?case
    by (auto simp: parse_loop_step int_diff_less split: if_splits option.splits prod.splits)
qed simp

lemma parse_options_payload:
  assumes "parse_OptionsFromRaw A m src srcLength [] = Some (r, Some b, L', m')"
  shows "r = COAP_OK \<and> 0 < b \<and> b < unat srcLength \<and> src (b - 1) = 255"
  using assms by (intro parse_loop_payload) (auto simp: parse_OptionsFromRaw_def split: if_splits)

lemma parse_options_cong:
  assumes "\<And>i. i < unat srcLength \<Longrightarrow> src i = src' i" "srcLength \<le> 65531"
  shows "parse_OptionsFromRaw A m src srcLength L = parse_OptionsFromRaw A m src' srcLength L"
  using assms(1) [of 0] parse_loop_cong [OF assms]
  by (auto simp: parse_OptionsFromRaw_def unat_gt_0)

text \<open>An option costs no more room than 28 times the bytes it takes in the datagram.\<close>

text \<open>The bytes that storing the options of a list needs of a free buffer.\<close>

abbreviation opts_need :: "CoAP_option_t list \<Rightarrow> int" where
  "opts_need L \<equiv> \<Sum>p \<leftarrow> L. 28 + int (length (Value p))"

lemma opts_need_nonneg: "0 \<le> opts_need L"
  by (induction L) auto

context allocator_room
begin

lemma parse_loop_room:
  assumes "srcLength \<le> 65531" "room (28 * (int (unat srcLength) - int (unat off)) + b) m" "0 \<le> b" "unat off \<le> unat srcLength"
    and "parse_OptionsFromRaw_loop fuel A m src srcLength off lastNum L = Some (r, pl, L', m')"
  shows "r \<noteq> COAP_ERR_OUT_OF_MEMORY \<and> room b m'"
  using assms(2,4,5)
proof (induction fuel arbitrary: m off lastNum L)
  case (Suc fuel)
  have here: "room b m" by (rule room_less [OF Suc.prems(1)]) (use Suc.prems(2) in \<open>simp del: of_nat_unat\<close>)
  show ?case
  proof (cases "off < srcLength \<and> src (unat off) \<noteq> 255 \<and> parse_head src srcLength off \<noteq> None")
    case False
    then show ?thesis using Suc.prems(3) here by (auto simp: parse_loop_step split: if_splits option.splits)
  next
    case True
    then obtain delta len off3 where hd: "parse_head src srcLength off = Some (delta, len, off3)" by auto
    note bd = parse_head_bounds [OF hd conjunct1 [OF True] assms(1)]
    have "unat off3 + unat len < 65536" using bd(2) unat_u16_lt [of srcLength] by linarith
    then have u: "unat (off3 + len) = unat off3 + unat len" by (simp add: unat_word_ariths)
    have len: "uint len = int (unat len)" "unat len \<le> 1034" using bd(3) by (simp_all add: uint_nat word_le_nat_alt del: of_nat_unat)
    let ?b = "28 * (int (unat srcLength) - int (unat (off3 + len))) + b"
    have "room (28 + uint len + ?b) m"
      by (rule room_less [OF Suc.prems(1)]) (use bd(1,2) len u in \<open>simp del: of_nat_unat\<close>)
    then obtain p m1 where ap: "CoAP_AppendOptionToList A m L (delta + lastNum) (bytes_at src (unat off3) (unat len)) len =
        (COAP_OK, insert_option (fill_option p (delta + lastNum) (bytes_at src (unat off3) (unat len)) len) L, m1)" "room ?b m1"
      by (rule room_append) (use bd(2) u assms(3) len in \<open>simp_all add: sizeof_CoAP_option_t_def MAX_REQ_def del: of_nat_unat\<close>)
    show ?thesis
      by (rule Suc.IH [OF ap(2)]) (use Suc.prems(3) True hd ap(1) bd(2) u in \<open>simp_all add: parse_loop_step\<close>)
  qed
qed simp

lemma parse_options_room:
  assumes "srcLength \<le> 65531" "room (28 * int (unat srcLength) + b) m" "0 \<le> b"
    and "parse_OptionsFromRaw A m src srcLength [] = Some (r, pl, L', m')"
  shows "r \<noteq> COAP_ERR_OUT_OF_MEMORY \<and> room b m'"
proof (cases "srcLength = 0 \<or> src 0 = 255")
  case True
  then show ?thesis using assms(4) room_less [OF assms(2), of b] by (auto simp: parse_OptionsFromRaw_def split: if_splits)
next
  case False
  then show ?thesis
    using assms parse_loop_room [OF assms(1), of 0 b m "Suc (unat srcLength)" src 0 "[]" r pl L' m'] by (simp add: parse_OptionsFromRaw_def)
qed

text \<open>For an encoded list the options themselves tell how much room is needed.\<close>

lemma parse_loop_encoded_room:
  assumes "room (opts_need L + b) m" "0 \<le> b" "encodable L"
    "bytes_at src (unat off) (length (encode_options lastNum L)) = encode_options lastNum L"
    "unat off + length (encode_options lastNum L) \<le> unat srcLength"
    "options_end src srcLength (unat off + length (encode_options lastNum L)) pl" "length L < fuel"
  shows "\<exists>L' m'. parse_OptionsFromRaw_loop fuel A m src srcLength off lastNum L0 = Some (COAP_OK, pl, L', m') \<and> room b m'"
  using assms(1,3-)
proof (induction L arbitrary: m L0 lastNum off fuel)
  case Nil
  then show ?case by (cases fuel) (auto simp: parse_loop_end)
next
  case (Cons p L)
  then obtain f where f: "fuel = Suc f" "length L < f" by (cases fuel) auto
  let ?e = "encode_option lastNum p"
  have wf: "opt_wf p" "Length p \<le> 1034" "encodable L" using Cons.prems(2) by (auto simp: encodable_def opts_wf_def)
  have bs: "bytes_at src (unat off) (length ?e) = ?e"
    "bytes_at src (unat off + length ?e) (length (encode_options (Number p) L)) = encode_options (Number p) L"
    using Cons.prems(3) by (simp_all add: bytes_at_add)
  have fits: "unat off + length ?e \<le> unat srcLength" using Cons.prems(4) by simp
  note step = parse_loop_encoded_step [OF wf(1,2) bs(1) fits]
  have len: "uint (Length p) = int (length (Value p))" "length (Value p) \<le> 1034"
    using wf(1,2) by (simp_all add: opt_wf_def uint_nat word_le_nat_alt del: of_nat_unat)
  obtain q m1 where "CoAP_AppendOptionToList A m L0 (Number p) (Value p) (Length p) =
      (COAP_OK, insert_option (fill_option q (Number p) (Value p) (Length p)) L0, m1)" "room (opts_need L + b) m1"
    by (rule room_append [where len = "Length p" and b = "opts_need L + b" and m = m])
      (use Cons.prems(1) opts_need_nonneg [of L] assms(2) len in \<open>auto simp: sizeof_CoAP_option_t_def MAX_REQ_def add.assoc\<close>)
  then show ?case
    unfolding f(1) step(2) using Cons.IH [OF _ wf(3) _ _ _ f(2)] bs(2) Cons.prems(4,5)
    by (simp add: step(1) add.assoc [where 'a = nat])
qed

lemma parse_options_encoded_room:
  assumes "room (opts_need L + b) m" "0 \<le> b" "encodable L" "L \<noteq> []"
    "bytes_at src 0 (length (encode_options 0 L)) = encode_options 0 L" "length (encode_options 0 L) \<le> unat srcLength"
    "options_end src srcLength (length (encode_options 0 L)) pl"
  shows "\<exists>L' m'. parse_OptionsFromRaw A m src srcLength [] = Some (COAP_OK, pl, L', m') \<and> room b m'"
proof -
  have "length L < Suc (unat srcLength)" using encode_options_length [of L 0] assms(6) by simp
  then have "\<exists>L' m'. parse_OptionsFromRaw_loop (Suc (unat srcLength)) A m src srcLength 0 0 [] = Some (COAP_OK, pl, L', m') \<and> room b m'"
    using parse_loop_encoded_room [OF assms(1-3), of src 0 0 srcLength pl] assms(5-7) by simp
  moreover have "src 0 \<noteq> 255" "srcLength \<noteq> 0" using encoded_start [OF assms(4-6)] by simp_all
  ultimately show ?thesis by (simp add: parse_OptionsFromRaw_def)
qed

end

end
