(* ===== verification/Network.thy ===== *)
theory Network
  imports Prelude
begin

text \<open>
  Endpoints, packets and the socket pool: \<open>interface/network/net_Endpoint\<close>,
  \<open>net_Packet\<close> and \<open>net_Socket\<close>, and the socket creation of \<open>go_adapter.c\<close>. An address is
  the 16-byte union \<open>NetAddr_t\<close> seen through its member \<open>mem\<close>; the word views
  \<open>IPv6.u32\<close> and the byte view \<open>IPv4.u8\<close> are slices of it. A pointer to a socket is its index
  in the static pool.
\<close>

section \<open>Endpoints\<close>

datatype NetInterfaceType_t = IPV6 | IPV4 | BTLE | UART

definition NetAddr_MAX_LENGTH :: nat where [simp]: "NetAddr_MAX_LENGTH = 16"

record NetEp_t =
  NetType :: NetInterfaceType_t
  NetAddr :: "u8 list"
  NetPort :: u16

text \<open>\<open>u32 k\<close> is the memory of \<open>IPv6.u32[k]\<close>: two words are equal iff their four bytes are.\<close>

definition addr_u32 :: "u8 list \<Rightarrow> nat \<Rightarrow> u8 list" where
  "addr_u32 a k = take 4 (drop (4 * k) a)"

fun EpAreEqual :: "NetEp_t option \<Rightarrow> NetEp_t option \<Rightarrow> bool" where
  "EpAreEqual (Some ep_A) (Some ep_B) =
     (if NetType ep_A \<noteq> NetType ep_B then False
      else if NetPort ep_A \<noteq> NetPort ep_B then False
      else if NetType ep_A = IPV6 then
        \<not> (addr_u32 (NetAddr ep_A) 0 \<noteq> addr_u32 (NetAddr ep_B) 0
           \<or> addr_u32 (NetAddr ep_A) 1 \<noteq> addr_u32 (NetAddr ep_B) 1
           \<or> addr_u32 (NetAddr ep_A) 2 \<noteq> addr_u32 (NetAddr ep_B) 2
           \<or> addr_u32 (NetAddr ep_A) 3 \<noteq> addr_u32 (NetAddr ep_B) 3)
      else if NetType ep_A = IPV4 then
        \<not> (NetAddr ep_A ! 0 \<noteq> NetAddr ep_B ! 0 \<or> NetAddr ep_A ! 1 \<noteq> NetAddr ep_B ! 1
           \<or> NetAddr ep_A ! 2 \<noteq> NetAddr ep_B ! 2 \<or> NetAddr ep_A ! 3 \<noteq> NetAddr ep_B ! 3)
      else list_all (\<lambda>i. NetAddr ep_A ! i = NetAddr ep_B ! i) [0..<NetAddr_MAX_LENGTH])"
| "EpAreEqual _ _ = False"

text \<open>Every caller passes the addresses of two endpoint fields.\<close>

abbreviation ep_eq :: "NetEp_t \<Rightarrow> NetEp_t \<Rightarrow> bool" where
  "ep_eq a b \<equiv> EpAreEqual (Some a) (Some b)"

definition CopyEndpoints :: "NetEp_t \<Rightarrow> NetEp_t \<Rightarrow> NetEp_t" where
  "CopyEndpoints Destination Source = Source"

section \<open>Packets\<close>

datatype MetaInfo_t = META_INFO_NONE | META_INFO_RF_PATH (HopCount: u8) (RSSI: int)

record NetPacket_t =
  pData :: "u8 list"
  pk_size :: u16
  Sender :: NetEp_t
  Receiver :: NetEp_t
  MetaInfo :: MetaInfo_t

section \<open>Sockets\<close>

datatype NetReceiveCallback = RxCB_NULL | RxCB_CoAP_onNewPacketHandler

record NetSocket_t =
  Handle :: ptr
  ifID :: u8
  EpLocal :: NetEp_t
  EpRemote :: NetEp_t
  RxCB :: NetReceiveCallback
  Tx :: "(u8 \<Rightarrow> NetPacket_t \<Rightarrow> bool) option"
  Alive :: bool

definition MAX_ACTIVE_SOCKETS :: nat where [simp]: "MAX_ACTIVE_SOCKETS = 5"

record NetSocketCtrl_t =
  SocketMemory :: "NetSocket_t list"
  initDone :: bool

text \<open>The scan over the pool for the first entry with a property.\<close>

fun find_socket :: "(NetSocket_t \<Rightarrow> bool) \<Rightarrow> NetSocket_t list \<Rightarrow> nat \<Rightarrow> nat option" where
  "find_socket P [] i = None"
| "find_socket P (s # ss) i = (if P s then Some i else find_socket P ss (i + 1))"

definition init_sockets :: "NetSocketCtrl_t \<Rightarrow> NetSocketCtrl_t" where
  "init_sockets SocketCtrl =
     (if \<not> initDone SocketCtrl then
        SocketCtrl\<lparr>SocketMemory := map (\<lambda>s. s\<lparr>Alive := False\<rparr>) (SocketMemory SocketCtrl), initDone := True\<rparr>
      else SocketCtrl)"

definition AllocSocket :: "NetSocketCtrl_t \<Rightarrow> nat option \<times> NetSocketCtrl_t" where
  "AllocSocket SocketCtrl =
     (let S = init_sockets SocketCtrl
      in (find_socket (\<lambda>s. Alive s = False) (SocketMemory S) 0, S))"

definition GetFreeInterface :: "NetSocketCtrl_t \<Rightarrow> nat option \<times> NetSocketCtrl_t" where
  "GetFreeInterface SocketCtrl =
     (let S = init_sockets SocketCtrl
      in case find_socket (\<lambda>s. Alive s = False) (SocketMemory S) 0 of
           Some i \<Rightarrow> (Some i, S\<lparr>SocketMemory := (SocketMemory S)
                        [i := (SocketMemory S ! i)\<lparr>RxCB := RxCB_CoAP_onNewPacketHandler\<rparr>]\<rparr>)
         | None \<Rightarrow> (None, S))"

definition RetrieveSocket :: "NetSocketCtrl_t \<Rightarrow> ptr \<Rightarrow> nat option" where
  "RetrieveSocket SocketCtrl handle =
     find_socket (\<lambda>s. Alive s \<and> Handle s = handle) (SocketMemory SocketCtrl) 0"

definition RetrieveSocket2 :: "NetSocketCtrl_t \<Rightarrow> u8 \<Rightarrow> nat option" where
  "RetrieveSocket2 SocketCtrl i =
     find_socket (\<lambda>s. Alive s \<and> ifID s = i) (SocketMemory SocketCtrl) 0"

text \<open>\<open>CoAP_CreateInterfaceSocket\<close> of the Go adapter: the transmit function that it attaches
  is \<open>CoAP_SendPacket\<close>, whose work is done by the Go side (parameter \<open>CoAP_SendPacket\<close>).\<close>

definition CoAP_CreateInterfaceSocket :: "(u8 \<Rightarrow> NetPacket_t \<Rightarrow> bool) \<Rightarrow> NetSocketCtrl_t \<Rightarrow> u8
    \<Rightarrow> nat option \<times> NetSocketCtrl_t" where
  "CoAP_CreateInterfaceSocket CoAP_SendPacket S i =
     (case RetrieveSocket2 S i of
        Some _ \<Rightarrow> (None, S)
      | None \<Rightarrow>
          (case AllocSocket S of
             (None, S') \<Rightarrow> (None, S')
           | (Some k, S') \<Rightarrow>
               (let s = SocketMemory S' ! k;
                    s' = s\<lparr>EpLocal := (EpLocal s)\<lparr>NetType := IPV4, NetPort := 5683\<rparr>, ifID := i,
                           RxCB := RxCB_CoAP_onNewPacketHandler, Tx := Some CoAP_SendPacket,
                           Alive := True\<rparr>
                in (Some k, S'\<lparr>SocketMemory := (SocketMemory S')[k := s']\<rparr>))))"

section \<open>Lemmas\<close>

text \<open>Well-formed endpoints have a full address union.\<close>

definition ep_wf :: "NetEp_t \<Rightarrow> bool" where
  "ep_wf e \<longleftrightarrow> length (NetAddr e) = NetAddr_MAX_LENGTH"

text \<open>What identifies an endpoint: all 16 bytes, except that only the first four count for
  IPv4.\<close>

definition ep_key :: "NetEp_t \<Rightarrow> NetInterfaceType_t \<times> u16 \<times> u8 list" where
  "ep_key e = (NetType e, NetPort e, if NetType e = IPV4 then take 4 (NetAddr e) else NetAddr e)"

lemma addr_words_eq:
  assumes "length a = 16" "length b = 16"
  shows "a = b \<longleftrightarrow> addr_u32 a 0 = addr_u32 b 0 \<and> addr_u32 a 1 = addr_u32 b 1 \<and>
    addr_u32 a 2 = addr_u32 b 2 \<and> addr_u32 a 3 = addr_u32 b 3"
proof -
  have "x = addr_u32 x 0 @ addr_u32 x 1 @ addr_u32 x 2 @ addr_u32 x 3" if "length x = 16" for x :: "u8 list"
  proof -
    have "x = take 4 x @ take 4 (drop 4 x) @ take 4 (drop 8 x) @ drop 12 x"
      using append_take_drop_id [of 4 x] append_take_drop_id [of 4 "drop 4 x"]
        append_take_drop_id [of 4 "drop 8 x"] by simp
    with that show ?thesis by (simp add: addr_u32_def)
  qed
  with assms show ?thesis by metis
qed

lemma ep_eq_iff:
  assumes "ep_wf a" "ep_wf b"
  shows "ep_eq a b \<longleftrightarrow> ep_key a = ep_key b"
proof -
  have len: "length (NetAddr a) = 16" "length (NetAddr b) = 16"
    using assms by (simp_all add: ep_wf_def)
  have 4: "take 4 x = take 4 y \<longleftrightarrow> x ! 0 = y ! 0 \<and> x ! 1 = y ! 1 \<and> x ! 2 = y ! 2 \<and> x ! 3 = y ! 3"
    if "length x = 16" "length y = 16" for x y :: "u8 list"
    using that by (auto simp: list_eq_iff_nth_eq less_Suc_eq numeral_eq_Suc)
  have 16: "x = y \<longleftrightarrow> list_all (\<lambda>i. x ! i = y ! i) [0..<16]" if "length x = 16" "length y = 16" for x y :: "u8 list"
    using that by (auto simp: list_eq_iff_nth_eq list_all_iff)
  show ?thesis
    using addr_words_eq [OF len] 4 [OF len] 16 [OF len]
    by (cases "NetType a") (auto simp: ep_key_def)
qed

lemma ep_eq_refl [simp]: "ep_eq e e"
  by (simp add: list_all_iff)

declare EpAreEqual.simps [simp del]

lemma find_socket_Some:
  "find_socket P ss i = Some k \<Longrightarrow> i \<le> k \<and> k < i + length ss \<and> P (ss ! (k - i))"
proof (induction ss arbitrary: i)
  case (Cons s ss)
  then show ?case
    using Cons.IH [of "i + 1"] by (auto simp: nth_Cons' Suc_le_eq split: if_splits)
qed simp

lemma find_socket_first: "find_socket P ss i = Some k \<Longrightarrow> list_all (\<lambda>s. \<not> P s) (take (k - i) ss)"
proof (induction ss arbitrary: i)
  case (Cons s ss)
  then show ?case
    using Cons.IH [of "i + 1"] find_socket_Some [of P ss "i + 1" k] by (auto simp: take_Cons' split: if_splits)
qed simp

lemma find_socket_None: "find_socket P ss i = None \<longleftrightarrow> list_all (\<lambda>s. \<not> P s) ss"
  by (induction ss arbitrary: i) auto

lemma find_socket_cong:
  "list_all2 (\<lambda>s s'. P s = P s') ss ss' \<Longrightarrow> find_socket P ss i = find_socket P ss' i"
  by (induction ss ss' arbitrary: i rule: list_all2_induct) auto

lemma find_socket_only:
  assumes "list_all (\<lambda>s. \<not> P s) ss" "k < length ss" "P s'"
  shows "find_socket P (ss[k := s']) i = Some (i + k)"
  using assms
proof (induction ss arbitrary: i k)
  case (Cons s ss)
  then show ?case using Cons.IH [of "k - 1" "i + 1"] by (cases k) auto
qed simp

text \<open>A slot that is not alive becomes the live socket of interface \<open>i\<close>.\<close>

lemma RetrieveSocket2_open:
  assumes "RetrieveSocket2 S i = None" "k < length (SocketMemory S)" "\<not> Alive (SocketMemory S ! k)" "Alive s'" "ifID s' = i"
  shows "RetrieveSocket2 (S\<lparr>SocketMemory := (SocketMemory S)[k := s']\<rparr>) i = Some k"
    "j \<noteq> i \<Longrightarrow> RetrieveSocket2 (S\<lparr>SocketMemory := (SocketMemory S)[k := s']\<rparr>) j = RetrieveSocket2 S j"
proof -
  show "RetrieveSocket2 (S\<lparr>SocketMemory := (SocketMemory S)[k := s']\<rparr>) i = Some k"
    using assms find_socket_only [of "\<lambda>s. Alive s \<and> ifID s = i" "SocketMemory S" k s' 0]
    by (simp add: RetrieveSocket2_def find_socket_None)
  assume "j \<noteq> i"
  then have "list_all2 (\<lambda>s t. (Alive s \<and> ifID s = j) = (Alive t \<and> ifID t = j)) ((SocketMemory S)[k := s']) (SocketMemory S)"
    using assms by (auto simp: list_all2_conv_all_nth nth_list_update)
  then show "RetrieveSocket2 (S\<lparr>SocketMemory := (SocketMemory S)[k := s']\<rparr>) j = RetrieveSocket2 S j"
    by (simp add: RetrieveSocket2_def find_socket_cong)
qed

end
