(* ===== verification/Message.thy ===== *)
theory Message
  imports Option_Codec Network
begin

text \<open>
  CoAP messages: \<open>coap_message.h\<close> and \<open>coap_message.c\<close>. A message object is one allocator
  buffer; its payload lies in the same buffer behind the struct, in a buffer of its own, or in
  memory outside the allocator's area, and the pointer \<open>Payload\<close> tells which. The record keeps
  that pointer together with the bytes it points to (\<open>PayloadData\<close>). The 1 Hz clock
  \<open>hal_rtc_1Hz_Cnt\<close> is the argument \<open>now\<close>.
\<close>

section \<open>Types and codes\<close>

datatype CoAP_MessageType_t = CON | NON | ACK | RST

definition type_of_bits :: "u8 \<Rightarrow> CoAP_MessageType_t" where
  "type_of_bits b = (if b = 0 then CON else if b = 1 then NON else if b = 2 then ACK else RST)"

primrec bits_of_type :: "CoAP_MessageType_t \<Rightarrow> u8" where
  "bits_of_type CON = 0"
| "bits_of_type NON = 1"
| "bits_of_type ACK = 2"
| "bits_of_type RST = 3"

text \<open>A message code is a byte (the parser stores any byte whose class is not reserved), the
  enumeration names some of its values.\<close>

definition CODE :: "u8 \<Rightarrow> u8 \<Rightarrow> u8" where [simp]: "CODE cls code = push_bit 5 cls OR code"

definition EMPTY :: u8 where [simp]: "EMPTY = CODE 0 0"
definition REQ_GET :: u8 where [simp]: "REQ_GET = CODE 0 1"
definition REQ_POST :: u8 where [simp]: "REQ_POST = CODE 0 2"
definition REQ_PUT :: u8 where [simp]: "REQ_PUT = CODE 0 3"
definition REQ_DELETE :: u8 where [simp]: "REQ_DELETE = CODE 0 4"
definition RESP_SUCCESS_CREATED_2_01 :: u8 where [simp]: "RESP_SUCCESS_CREATED_2_01 = CODE 2 1"
definition RESP_SUCCESS_CONTENT_2_05 :: u8 where [simp]: "RESP_SUCCESS_CONTENT_2_05 = CODE 2 5"
definition RESP_ERROR_BAD_REQUEST_4_00 :: u8 where [simp]: "RESP_ERROR_BAD_REQUEST_4_00 = CODE 4 0"
definition RESP_BAD_OPTION_4_02 :: u8 where [simp]: "RESP_BAD_OPTION_4_02 = CODE 4 2"
definition RESP_NOT_FOUND_4_04 :: u8 where [simp]: "RESP_NOT_FOUND_4_04 = CODE 4 4"
definition RESP_METHOD_NOT_ALLOWED_4_05 :: u8 where [simp]: "RESP_METHOD_NOT_ALLOWED_4_05 = CODE 4 5"
definition RESP_INTERNAL_SERVER_ERROR_5_00 :: u8 where [simp]: "RESP_INTERNAL_SERVER_ERROR_5_00 = CODE 5 0"
definition RESP_SERVICE_UNAVAILABLE_5_03 :: u8 where [simp]: "RESP_SERVICE_UNAVAILABLE_5_03 = CODE 5 3"

definition MAX_PAYLOAD_SIZE :: u16 where [simp]: "MAX_PAYLOAD_SIZE = 256"
definition PREFERED_PAYLOAD_SIZE :: u16 where [simp]: "PREFERED_PAYLOAD_SIZE = 64"
definition COAP_VERSION :: u8 where [simp]: "COAP_VERSION = 1"

record CoAP_Message_t =
  msg_at :: ptr
  Timestamp :: u32
  Type :: CoAP_MessageType_t
  Code :: u8
  MessageID :: u16
  PayloadLength :: u16
  PayloadBufSize :: u16
  Token64 :: u64
  pOptionsList :: "CoAP_option_t list"
  Payload :: ptr
  PayloadData :: "u8 list"

text \<open>\<open>sizeof(CoAP_Message_t)\<close> with 4-byte pointers and 8-byte aligned \<open>uint64_t\<close>.\<close>

definition sizeof_CoAP_Message_t :: int where
  "sizeof_CoAP_Message_t = 40"

section \<open>Construction and classification\<close>

definition getTokenByteCount :: "u64 \<Rightarrow> u8" where
  "getTokenByteCount Token =
     (if Token = 0 then 0
      else if Token \<le> 0xff then 1
      else if Token \<le> 0xffff then 2
      else if Token \<le> 0xffffff then 3
      else if Token \<le> 0xffffffff then 4
      else if Token \<le> 0xffffffffff then 5
      else if Token \<le> 0xffffffffffff then 6
      else if Token \<le> 0xffffffffffffff then 7
      else 8)"

definition CoAP_InitToEmptyResetMsg :: "ptr \<Rightarrow> CoAP_Message_t" where
  "CoAP_InitToEmptyResetMsg p =
     \<lparr>msg_at = p, Timestamp = 0, Type = RST, Code = EMPTY, MessageID = 0, PayloadLength = 0,
      PayloadBufSize = 0, Token64 = 0, pOptionsList = [], Payload = NULL, PayloadData = []\<rparr>"

definition CoAP_MsgIsRequest :: "CoAP_Message_t \<Rightarrow> bool" where
  "CoAP_MsgIsRequest pMsg \<longleftrightarrow> Code pMsg \<noteq> EMPTY \<and> Code pMsg \<le> REQ_DELETE"

definition CoAP_MsgIsResponse :: "CoAP_Message_t \<Rightarrow> bool" where
  "CoAP_MsgIsResponse pMsg \<longleftrightarrow> Code pMsg \<noteq> EMPTY \<and> Code pMsg \<ge> RESP_SUCCESS_CREATED_2_01"

definition CoAP_MsgIsOlderThan :: "u32 \<Rightarrow> CoAP_Message_t \<Rightarrow> u32 \<Rightarrow> bool" where
  "CoAP_MsgIsOlderThan now pMsg timespan \<longleftrightarrow> now - Timestamp pMsg > timespan"

text \<open>A message with room for \<open>PayloadMaxSize\<close> zeroed payload bytes behind the struct. The
  safety check comes after the allocation and returns without releasing it.\<close>

definition CoAP_CreateMessage :: "'m mem_ops \<Rightarrow> 'm \<Rightarrow> CoAP_MessageType_t \<Rightarrow> u8 \<Rightarrow> u16
    \<Rightarrow> u8 list option \<Rightarrow> u16 \<Rightarrow> u16 \<Rightarrow> u64 \<Rightarrow> CoAP_Message_t option \<times> 'm" where
  "CoAP_CreateMessage A m ty code mid pPayloadInitialContent PayloadInitialContentLength PayloadMaxSize Token =
     (let (p, m') = coap_mem_get0 A m (s16 (sizeof_CoAP_Message_t + uint PayloadMaxSize)) in
      if p = NULL then (None, m')
      else if PayloadInitialContentLength > PayloadMaxSize then (None, m')
      else
        let msg = (CoAP_InitToEmptyResetMsg p)\<lparr>Type := ty, Code := code, MessageID := mid,
              Token64 := Token, Timestamp := 0, PayloadLength := PayloadInitialContentLength\<rparr>
        in if PayloadMaxSize \<noteq> 0 then
             let zeros = replicate (unat PayloadMaxSize) 0;
                 n = unat PayloadInitialContentLength;
                 buf = (case pPayloadInitialContent of None \<Rightarrow> zeros
                        | Some init \<Rightarrow> take n init @ drop n zeros)
             in (Some (msg\<lparr>PayloadBufSize := PayloadMaxSize, Payload := p + sizeof_CoAP_Message_t,
                   PayloadData := buf\<rparr>), m')
           else (Some msg, m'))"

definition CoAP_getRespMsgType :: "CoAP_Message_t \<Rightarrow> CoAP_MessageType_t" where
  "CoAP_getRespMsgType ReqMsg = (if Type ReqMsg = CON then ACK else NON)"

text \<open>The message-id counter \<open>MId\<close> and the token counter are static variables of
  \<open>CoAP_GetNextMid\<close> and \<open>CoAP_GenerateToken\<close>.\<close>

definition CoAP_GetNextMid :: "u16 \<Rightarrow> u16 \<times> u16" where
  "CoAP_GetNextMid MId = (MId + 1, MId + 1)"

definition CoAP_GenerateToken :: "u64 \<Rightarrow> u64 \<times> u64" where
  "CoAP_GenerateToken Token = (Token + 1, Token + 1)"

definition CoAP_getRespMsgID :: "u16 \<Rightarrow> CoAP_Message_t \<Rightarrow> u16 \<times> u16" where
  "CoAP_getRespMsgID MId ReqMsg =
     (if Type ReqMsg = CON then (MessageID ReqMsg, MId) else CoAP_GetNextMid MId)"

definition CoAP_AllocRespMsg :: "'m mem_ops \<Rightarrow> 'm \<Rightarrow> u16 \<Rightarrow> CoAP_Message_t \<Rightarrow> u8 \<Rightarrow> u16
    \<Rightarrow> CoAP_Message_t option \<times> 'm \<times> u16" where
  "CoAP_AllocRespMsg A m MId ReqMsg code PayloadMaxSize =
     (let (mid, MId') = CoAP_getRespMsgID MId ReqMsg;
          (msg, m') = CoAP_CreateMessage A m (CoAP_getRespMsgType ReqMsg) code mid None 0
                        PayloadMaxSize (Token64 ReqMsg)
      in (msg, m', MId'))"

section \<open>Freeing\<close>

definition bufferIsPartOfMsg :: "'m mem_ops \<Rightarrow> 'm \<Rightarrow> ptr \<Rightarrow> ptr \<Rightarrow> bool" where
  "bufferIsPartOfMsg A m buf pMsg \<longleftrightarrow> \<not> (buf < pMsg \<or> buf > pMsg + coap_mem_size A m pMsg)"

definition CoAP_free_MsgPayload :: "'m mem_ops \<Rightarrow> 'm \<Rightarrow> CoAP_Message_t \<Rightarrow> CoAP_Message_t \<times> 'm" where
  "CoAP_free_MsgPayload A m Msg =
     (if Payload Msg = NULL then (Msg, m)
      else if Payload Msg > coap_mem_buf_highEnd A m \<or> Payload Msg < coap_mem_buf_lowEnd A m then (Msg, m)
      else if bufferIsPartOfMsg A m (Payload Msg) (msg_at Msg) = False then
        (Msg\<lparr>Payload := NULL, PayloadBufSize := 0, PayloadData := []\<rparr>, coap_mem_release A m (Payload Msg))
      else (Msg, m))"

fun CoAP_free_Message :: "'m mem_ops \<Rightarrow> 'm \<Rightarrow> CoAP_Message_t option
    \<Rightarrow> CoAP_Result_t \<times> CoAP_Message_t option \<times> 'm" where
  "CoAP_free_Message A m None = (COAP_OK, None, m)"
| "CoAP_free_Message A m (Some Msg) =
     (let (_, opts, m1) = CoAP_FreeOptionList A m (pOptionsList Msg);
          (Msg', m2) = CoAP_free_MsgPayload A m1 (Msg\<lparr>pOptionsList := opts\<rparr>);
          m3 = coap_mem_release A m2 (msg_at Msg')
      in (COAP_OK, None, m3))"

section \<open>Payload\<close>

text \<open>The allocation of a bigger payload buffer is not checked: on failure \<open>memcpy\<close> writes
  through \<open>NULL\<close>, which has no defined outcome (\<open>None\<close>).\<close>

definition CoAP_addNewPayloadToMessage :: "'m mem_ops \<Rightarrow> 'm \<Rightarrow> CoAP_Message_t \<Rightarrow> u8 list \<Rightarrow> u16
    \<Rightarrow> (CoAP_Result_t \<times> CoAP_Message_t \<times> 'm) option" where
  "CoAP_addNewPayloadToMessage A m Msg data sz =
     (if sz > MAX_PAYLOAD_SIZE then Some (COAP_ERR_OUT_OF_MEMORY, Msg, m)
      else if sz \<noteq> 0 then
        (if PayloadBufSize Msg \<ge> sz then
           Some (COAP_OK, Msg\<lparr>PayloadData := take (unat sz) data @ drop (unat sz) (PayloadData Msg),
                              PayloadLength := sz\<rparr>, m)
         else
           let (Msg1, m1) = CoAP_free_MsgPayload A m Msg;
               (p, m2) = coap_mem_get A m1 (s16 (uint sz))
           in if p = NULL then None
              else Some (COAP_OK, Msg1\<lparr>Payload := p, PayloadBufSize := sz,
                           PayloadData := take (unat sz) data, PayloadLength := sz\<rparr>, m2))
      else
        let (Msg1, m1) = CoAP_free_MsgPayload A m Msg
        in Some (COAP_OK, Msg1\<lparr>PayloadLength := sz\<rparr>, m1))"

definition CoAP_addTextPayload :: "'m mem_ops \<Rightarrow> 'm \<Rightarrow> CoAP_Message_t \<Rightarrow> u8 list
    \<Rightarrow> (CoAP_Result_t \<times> CoAP_Message_t \<times> 'm) option" where
  "CoAP_addTextPayload A m Msg PayloadStr =
     CoAP_addNewPayloadToMessage A m Msg PayloadStr (of_nat (length PayloadStr))"

section \<open>Parsing a datagram\<close>

text \<open>The end of the parser (\<open>START_MSG_COPY_LABEL\<close>): one buffer for the struct and the payload,
  then the copy of both. \<open>pPayloadBegin\<close> is the index of the payload in \<open>srcArr\<close>.\<close>

definition START_MSG_COPY :: "'m mem_ops \<Rightarrow> 'm \<Rightarrow> u32 \<Rightarrow> bytes \<Rightarrow> CoAP_Message_t \<Rightarrow> nat option
    \<Rightarrow> CoAP_Result_t \<times> CoAP_Message_t option \<times> 'm" where
  "START_MSG_COPY A m now srcArr Msg pPayloadBegin =
     (let (p, m1) = coap_mem_get A m (s16 (sizeof_CoAP_Message_t + uint (PayloadLength Msg))) in
      if p = NULL then
        let (_, _, m2) = CoAP_FreeOptionList A m1 (pOptionsList Msg)
        in (COAP_ERR_OUT_OF_MEMORY, None, m2)
      else
        let rxedMsg = Msg\<lparr>msg_at := p\<rparr>;
            rxedMsg1 = (if PayloadLength Msg \<noteq> 0 then
                rxedMsg\<lparr>Payload := p + sizeof_CoAP_Message_t,
                  PayloadData := (case pPayloadBegin of None \<Rightarrow> []
                    | Some b \<Rightarrow> bytes_at srcArr b (unat (PayloadLength Msg)))\<rparr>
              else rxedMsg)
        in (COAP_OK, Some (rxedMsg1\<lparr>Timestamp := now\<rparr>), m1))"

definition parse_token :: "bytes \<Rightarrow> nat \<Rightarrow> nat \<Rightarrow> u64" where
  "parse_token srcArr offset TokenLength =
     foldl (\<lambda>t i. t OR push_bit (8 * i) (ucast (srcArr (offset + i)))) 0 [0..<TokenLength]"

text \<open>\<open>None\<close> only if the option loop runs out of fuel. The token length is not compared with
  the length of the datagram: \<open>srcArrLength - offset\<close> wraps around when the token does not fit.\<close>

definition CoAP_ParseMessageFromDatagram :: "'m mem_ops \<Rightarrow> 'm \<Rightarrow> u32 \<Rightarrow> bytes \<Rightarrow> u16
    \<Rightarrow> (CoAP_Result_t \<times> CoAP_Message_t option \<times> 'm) option" where
  "CoAP_ParseMessageFromDatagram A m now srcArr srcArrLength =
     (if srcArrLength < 4 then Some (COAP_PARSE_DATAGRAM_TOO_SHORT, None, m)
      else
        let Msg0 = CoAP_InitToEmptyResetMsg NULL;
            Version = drop_bit 6 (srcArr 0)
        in if Version \<noteq> COAP_VERSION then Some (COAP_PARSE_UNKOWN_COAP_VERSION, None, m)
        else
        let ty = type_of_bits (drop_bit 4 (srcArr 0 AND 0x30));
            TokenLength = srcArr 0 AND 15
        in if TokenLength > 8 then Some (COAP_PARSE_MESSAGE_FORMAT_ERROR, None, m)
        else
        let code = srcArr 1;
            codeClass = drop_bit 5 code
        in if codeClass = 1 \<or> codeClass = 6 \<or> codeClass = 7 then
             Some (COAP_PARSE_MESSAGE_FORMAT_ERROR, None, m)
        else
        let mid = push_bit 8 (ucast (srcArr 2)) OR ucast (srcArr 3);
            Msg1 = Msg0\<lparr>Type := ty, Code := code, MessageID := mid\<rparr>;
            offset = 4
        in if srcArrLength = offset then Some (START_MSG_COPY A m now srcArr Msg1 None)
        else
        let Msg2 = Msg1\<lparr>Token64 := parse_token srcArr 4 (unat TokenLength)\<rparr>;
            offset = offset + ucast TokenLength
        in if srcArrLength = offset then Some (START_MSG_COPY A m now srcArr Msg2 None)
        else
        (case parse_OptionsFromRaw A m (\<lambda>i. srcArr (unat offset + i)) (srcArrLength - offset) [] of
           None \<Rightarrow> None
         | Some (ParseOptionsResult, pl, opts, m1) \<Rightarrow>
             let pPayloadBegin = map_option (\<lambda>i. unat offset + i) pl in
             if ParseOptionsResult \<noteq> COAP_OK then
               let (_, _, m2) = CoAP_FreeOptionList A m1 opts in Some (ParseOptionsResult, None, m2)
             else
               let plen = (case pPayloadBegin of None \<Rightarrow> 0 | Some b \<Rightarrow> srcArrLength - of_nat b) in
               if pPayloadBegin \<noteq> None \<and> plen > MAX_PAYLOAD_SIZE then
                 let (_, _, m2) = CoAP_FreeOptionList A m1 opts in Some (COAP_PARSE_TOO_MUCH_PAYLOAD, None, m2)
               else
                 let Msg3 = Msg2\<lparr>pOptionsList := opts, PayloadLength := plen, PayloadBufSize := plen\<rparr>
                 in Some (START_MSG_COPY A m1 now srcArr Msg3 pPayloadBegin)))"

section \<open>Building and sending\<close>

definition CoAP_GetRawSizeOfMessage :: "CoAP_Message_t \<Rightarrow> int" where
  "CoAP_GetRawSizeOfMessage Msg =
     (let total = 4 + uint (CoAP_NeededMem4PackOptions (pOptionsList Msg)) in
      if Code Msg \<noteq> EMPTY then
        (if PayloadLength Msg \<noteq> 0 then total + (uint (PayloadLength Msg) + 1) else total)
        + uint (getTokenByteCount (Token64 Msg))
      else total)"

text \<open>A pointer to the element \<open>off\<close> of an array, and the array after a callee has written
  through such a pointer.\<close>

definition sub_at :: "bytes \<Rightarrow> nat \<Rightarrow> bytes" where
  "sub_at d off = (\<lambda>i. d (off + i))"

definition put_sub :: "bytes \<Rightarrow> nat \<Rightarrow> bytes \<Rightarrow> bytes" where
  "put_sub d off d' = (\<lambda>i. if i < off then d i else d' (i - off))"

definition CoAP_BuildDatagram :: "bytes \<Rightarrow> CoAP_Message_t \<Rightarrow> CoAP_Result_t \<times> u16 \<times> bytes \<times> CoAP_Message_t" where
  "CoAP_BuildDatagram destArr Msg0 =
     (let (Msg, TokenLength) =
            (if Code Msg0 = EMPTY then (Msg0\<lparr>PayloadLength := 0\<rparr>, 0)
             else (Msg0, getTokenByteCount (Token64 Msg0)));
          b0 = ((0 OR push_bit 6 (COAP_VERSION AND 3)) OR push_bit 4 (bits_of_type (Type Msg) AND 3))
               OR (TokenLength AND 15);
          d1 = destArr(0 := b0, 1 := Code Msg, 2 := ucast (drop_bit 8 (MessageID Msg)),
                       3 := ucast (MessageID Msg AND 0xff));
          offset1 = 4;
          d2 = foldl (\<lambda>d i. d(unat offset1 + i := ucast (drop_bit (8 * i) (Token64 Msg)) AND 0xff)) d1
                 [0..<unat TokenLength];
          offset2 = offset1 + ucast TokenLength;
          (d3, offset3) =
            (if pOptionsList Msg \<noteq> [] then
               let (_, OptionsRawByteCount, ds) = pack_OptionsFromList (sub_at d2 (unat offset2)) (pOptionsList Msg)
               in (put_sub d2 (unat offset2) ds, offset2 + OptionsRawByteCount)
             else (d2, offset2));
          (d4, offset4) =
            (if PayloadLength Msg \<noteq> 0 then
               let d = d3(unat offset3 := 0xff);
                   offset = offset3 + 1
               in (write_at d (unat offset) (take (unat (PayloadLength Msg)) (PayloadData Msg)),
                   offset + PayloadLength Msg)
             else (d3, offset3))
      in (COAP_OK, offset4, d4, Msg))"

text \<open>What sending returns: the result, the message (its time stamp changes), the packet
  handed to the transmit function, and the allocator state. \<open>buf\<close> and \<open>pked\<close> are the
  uninitialised contents of the buffer and of the packet variable. \<open>None\<close> stands for the
  undefined behaviour of dereferencing the \<open>NULL\<close> socket of an unknown interface.\<close>

type_synonym 'm send_result = "CoAP_Result_t \<times> CoAP_Message_t \<times> NetPacket_t option \<times> 'm"

definition CoAP_SendMsg :: "'m mem_ops \<Rightarrow> 'm \<Rightarrow> u32 \<Rightarrow> NetSocketCtrl_t \<Rightarrow> bytes \<Rightarrow> NetPacket_t
    \<Rightarrow> CoAP_Message_t \<Rightarrow> u8 \<Rightarrow> NetEp_t \<Rightarrow> 'm send_result option" where
  "CoAP_SendMsg A m now S buf pked Msg i Rcv =
     (case RetrieveSocket2 S i of
        None \<Rightarrow> None
      | Some k \<Rightarrow>
          let pSocket = SocketMemory S ! k in
          (case Tx pSocket of
             None \<Rightarrow> Some (COAP_NOT_FOUND, Msg, None, m)
           | Some SendPacket \<Rightarrow>
               let pked1 = pked\<lparr>Receiver := Rcv, Sender := EpLocal pSocket,
                                pk_size := of_int (CoAP_GetRawSizeOfMessage Msg)\<rparr>;
                   quick = pk_size pked1 \<le> 16;
                   (pd, m1) = (if quick then (NULL, m)
                               else coap_mem_get A m (s16 (uint (pk_size pked1))))
               in if \<not> quick \<and> pd = NULL then Some (COAP_ERR_OUT_OF_MEMORY, Msg, None, m1)
               else
                 let (_, bytesToSend, d, Msg1) = CoAP_BuildDatagram buf Msg;
                     pked2 = pked1\<lparr>pData := bytes_at d 0 (unat (pk_size pked1))\<rparr>;
                     m2 = (if quick then m1 else coap_mem_release A m1 pd)
                 in if SendPacket i pked2 then
                      Some (COAP_OK, Msg1\<lparr>Timestamp := now\<rparr>, Some pked2, m2)
                    else Some (COAP_ERR_NETWORK, Msg1, Some pked2, m2)))"

text \<open>The short messages live on the stack: they have no allocator buffer.\<close>

definition CoAP_SendEmptyAck :: "'m mem_ops \<Rightarrow> 'm \<Rightarrow> u32 \<Rightarrow> NetSocketCtrl_t \<Rightarrow> bytes \<Rightarrow> NetPacket_t
    \<Rightarrow> u16 \<Rightarrow> u8 \<Rightarrow> NetEp_t \<Rightarrow> 'm send_result option" where
  "CoAP_SendEmptyAck A m now S buf pked mid i Rcv =
     CoAP_SendMsg A m now S buf pked ((CoAP_InitToEmptyResetMsg NULL)\<lparr>Type := ACK, MessageID := mid\<rparr>) i Rcv"

definition CoAP_SendShortResp :: "'m mem_ops \<Rightarrow> 'm \<Rightarrow> u32 \<Rightarrow> NetSocketCtrl_t \<Rightarrow> bytes \<Rightarrow> NetPacket_t
    \<Rightarrow> CoAP_MessageType_t \<Rightarrow> u8 \<Rightarrow> u16 \<Rightarrow> u64 \<Rightarrow> u8 \<Rightarrow> NetEp_t \<Rightarrow> 'm send_result option" where
  "CoAP_SendShortResp A m now S buf pked ty code mid token i Rcv =
     CoAP_SendMsg A m now S buf pked
       ((CoAP_InitToEmptyResetMsg NULL)\<lparr>Type := ty, MessageID := mid, Code := code, Token64 := token\<rparr>) i Rcv"

definition CoAP_SendEmptyRST :: "'m mem_ops \<Rightarrow> 'm \<Rightarrow> u32 \<Rightarrow> NetSocketCtrl_t \<Rightarrow> bytes \<Rightarrow> NetPacket_t
    \<Rightarrow> u16 \<Rightarrow> u8 \<Rightarrow> NetEp_t \<Rightarrow> 'm send_result option" where
  "CoAP_SendEmptyRST A m now S buf pked mid i Rcv =
     CoAP_SendMsg A m now S buf pked ((CoAP_InitToEmptyResetMsg NULL)\<lparr>MessageID := mid\<rparr>) i Rcv"

end
