(* ===== verification/Message_Codec.thy ===== *)
theory Message_Codec
  imports Message
begin

text \<open>
  Correctness of the message codec and of sending. \<open>encode_message\<close> is the reference encoding
  of a message (RFC 7252, section 3); \<open>CoAP_BuildDatagram\<close> stores exactly these bytes,
  \<open>CoAP_GetRawSizeOfMessage\<close> predicts their number, \<open>CoAP_SendMsg\<close> hands them to the
  transmit function, and \<open>CoAP_ParseMessageFromDatagram\<close> reads them back.
\<close>

section \<open>Tokens\<close>

definition encode_token :: "u64 \<Rightarrow> u8 list" where
  "encode_token t = map (\<lambda>i. ucast (drop_bit (8 * i) t)) [0..<unat (getTokenByteCount t)]"

lemma getTokenByteCount_le: "unat (getTokenByteCount t) \<le> 8"
  by (simp add: getTokenByteCount_def)

lemma length_encode_token [simp]: "length (encode_token t) = unat (getTokenByteCount t)"
  by (simp add: encode_token_def)

text \<open>The counted bytes hold the whole token.\<close>

lemma getTokenByteCount_bound: "take_bit (8 * unat (getTokenByteCount t)) t = t"
proof -
  have "unat t < 2 ^ (8 * unat (getTokenByteCount t))"
    using unat_lt_2p [of t] by (simp add: getTokenByteCount_def word_le_nat_alt)
  then show ?thesis
    by (metis take_bit_nat_eq_self unsigned_take_bit_eq unsigned_word_eqI)
qed

lemma bit_parse_token:
  "bit (parse_token src off k) n \<longleftrightarrow> n < 64 \<and> n div 8 < k \<and> bit (src (off + n div 8)) (n mod 8)"
proof (induction k)
  case 0
  then show ?case by (simp add: parse_token_def)
next
  case (Suc k)
  have step: "parse_token src off (Suc k) = parse_token src off k OR push_bit (8 * k) (ucast (src (off + k)))"
    by (simp add: parse_token_def)
  have "bit (push_bit (8 * k) (ucast (src (off + k)) :: u64)) n \<longleftrightarrow>
      n < 64 \<and> n div 8 = k \<and> bit (src (off + k)) (n mod 8)"
  proof (cases "n div 8 = k")
    case True
    then have "n = 8 * k + n mod 8" by auto
    then have "8 * k \<le> n" "n - 8 * k = n mod 8" by linarith+
    then show ?thesis using True by (auto simp: bit_simps)
  next
    case False
    then have "n < 8 * k \<or> 8 \<le> n - 8 * k" by linarith
    then show ?thesis using False by (auto simp: bit_simps dest: bit_imp_le_length)
  qed
  then show ?case
    unfolding step bit_or_iff Suc.IH by (auto simp: less_Suc_eq)
qed

lemma parse_encode_token:
  assumes "bytes_at src off (length (encode_token t)) = encode_token t"
  shows "parse_token src off (unat (getTokenByteCount t)) = t"
proof (rule bit_word_eqI)
  fix n assume n: "n < LENGTH(64)"
  let ?k = "unat (getTokenByteCount t)"
  have src: "src (off + i) = ucast (drop_bit (8 * i) t)" if "i < ?k" for i
    using arg_cong [OF assms, where f = "\<lambda>bs. bs ! i"] that by (simp add: encode_token_def)
  have "bit t n \<longleftrightarrow> n < 8 * ?k \<and> bit t n"
    by (metis bit_take_bit_iff getTokenByteCount_bound)
  moreover have "n div 8 < ?k \<longleftrightarrow> n < 8 * ?k" by linarith
  moreover have "8 * (n div 8) + n mod 8 = n" by simp
  ultimately show "bit (parse_token src off ?k) n = bit t n"
    using n by (auto simp: bit_parse_token src bit_simps)
qed

section \<open>Building\<close>

definition msg_token :: "CoAP_Message_t \<Rightarrow> u8 list" where
  "msg_token Msg = (if Code Msg = EMPTY then [] else encode_token (Token64 Msg))"

definition msg_payload :: "CoAP_Message_t \<Rightarrow> u8 list" where
  "msg_payload Msg = (if Code Msg = EMPTY then [] else take (unat (PayloadLength Msg)) (PayloadData Msg))"

definition msg_header :: "CoAP_Message_t \<Rightarrow> u8 list" where
  "msg_header Msg =
     [0x40 OR push_bit 4 (bits_of_type (Type Msg)) OR of_nat (length (msg_token Msg)), Code Msg,
      ucast (drop_bit 8 (MessageID Msg)), ucast (MessageID Msg AND 0xff)]"

definition encode_payload :: "u8 list \<Rightarrow> u8 list" where
  "encode_payload pl = (if pl = [] then [] else 0xff # pl)"

definition encode_message :: "CoAP_Message_t \<Rightarrow> u8 list" where
  "encode_message Msg =
     msg_header Msg @ msg_token Msg @ encode_options 0 (pOptionsList Msg) @ encode_payload (msg_payload Msg)"

definition msg_wf :: "CoAP_Message_t \<Rightarrow> bool" where
  "msg_wf Msg \<longleftrightarrow> opts_wf (pOptionsList Msg) \<and> unat (PayloadLength Msg) \<le> length (PayloadData Msg)"

lemma length_msg_header [simp]: "length (msg_header Msg) = 4"
  by (simp add: msg_header_def)

lemma length_msg_payload:
  "msg_wf Msg \<Longrightarrow> length (msg_payload Msg) = (if Code Msg = EMPTY then 0 else unat (PayloadLength Msg))"
  by (simp add: msg_payload_def msg_wf_def)

lemma length_encode_message:
  "length (encode_message Msg) = 4 + length (msg_token Msg) + length (encode_options 0 (pOptionsList Msg)) +
     (if msg_payload Msg = [] then 0 else 1 + length (msg_payload Msg))"
  by (simp add: encode_message_def encode_payload_def)

lemma put_sub_write: "put_sub d off (write_at (sub_at d off) 0 bs) = write_at d off bs"
  by (rule ext) (auto simp: put_sub_def sub_at_def write_at_def)

lemma and_ff: "(x :: u8) AND 0xff = x"
  unfolding mask_simps by (rule bit_word_eqI) (simp add: bit_simps)

lemma write_token:
  fixes d :: bytes
  assumes "off = s + length xs"
  shows "foldl (\<lambda>d i. d(off + i := ucast (drop_bit (8 * i) (t :: u64)) AND 0xff)) (write_at d s xs) [0..<k] =
    write_at d s (xs @ map (\<lambda>i. ucast (drop_bit (8 * i) t)) [0..<k])"
proof (induction k)
  case 0
  then show ?case by simp
next
  case (Suc k)
  let ?ys = "xs @ map (\<lambda>i. ucast (drop_bit (8 * i) t)) [0..<k]"
  have "(write_at d s ?ys)(off + k := ucast (drop_bit (8 * k) t)) = write_at d s (?ys @ [ucast (drop_bit (8 * k) t)])"
    using write_at_snoc [of d s ?ys] assms by (simp add: add.assoc)
  with Suc show ?case by (simp add: and_ff del: fun_upd_apply)
qed

lemma header_writes:
  "d(0 := a, 1 := b, 2 := c, 3 := e) = write_at d 0 [a, b, c, e :: u8]"
  by (rule ext) (auto simp: write_at_def nth_Cons split: nat.splits)

lemma version_bits: "push_bit 6 (COAP_VERSION AND 3) = 0x40"
  "bits_of_type ty AND 3 = bits_of_type ty"
  by (simp, cases ty) simp_all

lemma tkl_mask: "getTokenByteCount t AND 15 = getTokenByteCount t"
  by (simp add: getTokenByteCount_def)

lemma pack_options_sub:
  assumes "list_all opt_wf L" "s + length xs + length (encode_options 0 L) < 65536" "L \<noteq> []"
    "off = s + length xs"
  shows "(let (_, n, ds) = pack_OptionsFromList (sub_at (write_at d s xs) off) L
          in (put_sub (write_at d s xs) off ds, of_nat off + n)) =
    (write_at d s (xs @ encode_options 0 L), of_nat (off + length (encode_options 0 L)))"
  using assms pack_OptionsFromList_write [of L]
  by (simp add: put_sub_write write_at_append)

lemma payload_write:
  assumes "length pl = unat (n :: u16)" "Suc (length xs) < 65536"
  shows "(let d' = (write_at d 0 xs)(unat (of_nat (length xs) :: u16) := b); offset = of_nat (length xs) + 1
     in (write_at d' (unat (offset :: u16)) pl, offset + n)) =
    (write_at d 0 (xs @ b # pl), of_nat (length (xs @ b # pl)))"
proof -
  have "unat (of_nat (length xs) + 1 :: u16) = Suc (length xs)" "unat (of_nat (length xs) :: u16) = length xs"
    using assms(2) unat_of_nat16 [of "Suc (length xs)"] by (simp_all only: of_nat_inc unat_of_nat16)
  then show ?thesis
    using assms(1) write_at_append [of d 0 "xs @ [b]" pl] write_at_snoc [of d 0 xs b]
    by (simp add: Let_def del: fun_upd_apply)
qed

lemma BuildDatagram_write:
  assumes wf: "msg_wf Msg" and len: "length (encode_message Msg) < 65536"
  shows "CoAP_BuildDatagram d Msg =
    (COAP_OK, of_nat (length (encode_message Msg)), write_at d 0 (encode_message Msg),
     if Code Msg = EMPTY then Msg\<lparr>PayloadLength := 0\<rparr> else Msg)"
proof -
  let ?M = "if Code Msg = EMPTY then Msg\<lparr>PayloadLength := 0\<rparr> else Msg"
  let ?tl = "if Code Msg = EMPTY then 0 else getTokenByteCount (Token64 Msg)"
  let ?t = "msg_header Msg @ msg_token Msg"
  let ?o = "?t @ encode_options 0 (pOptionsList Msg)"
  let ?b0 = "((0 OR push_bit 6 (COAP_VERSION AND 3)) OR push_bit 4 (bits_of_type (Type ?M) AND 3)) OR (?tl AND 15)"
  have tl: "unat ?tl = length (msg_token Msg)"
    by (simp add: msg_token_def)
  have b0: "?b0 = 0x40 OR push_bit 4 (bits_of_type (Type Msg)) OR of_nat (length (msg_token Msg))"
    unfolding tl [symmetric] version_bits by (simp add: version_bits(2) tkl_mask or.assoc)
  have hdr: "d(0 := ?b0, 1 := Code ?M, 2 := ucast (drop_bit 8 (MessageID ?M)), 3 := ucast (MessageID ?M AND 0xff))
      = write_at d 0 (msg_header Msg)"
    unfolding header_writes msg_header_def b0 by simp
  have tok: "foldl (\<lambda>d i. d(unat (4 :: u16) + i := ucast (drop_bit (8 * i) (Token64 ?M)) AND 0xff))
      (write_at d 0 (msg_header Msg)) [0..<unat ?tl] = write_at d 0 ?t"
    by (simp add: write_token msg_token_def encode_token_def)
  have lens: "length ?o < 65536"
    using len by (simp add: length_encode_message)
  have off2: "4 + ucast ?tl = (of_nat (length ?t) :: u16)"
    by (simp add: msg_token_def)
  have opt: "(if pOptionsList ?M \<noteq> [] then
        let (_, n, ds) = pack_OptionsFromList (sub_at (write_at d 0 ?t) (unat (of_nat (length ?t) :: u16))) (pOptionsList ?M)
        in (put_sub (write_at d 0 ?t) (unat (of_nat (length ?t) :: u16)) ds, of_nat (length ?t) + n)
      else (write_at d 0 ?t, of_nat (length ?t))) = (write_at d 0 ?o, of_nat (length ?o))"
    using wf lens pack_options_sub [of "pOptionsList Msg" 0 ?t "length ?t" d]
    by (auto simp: msg_wf_def opts_wf_def unat_of_nat16 add.assoc [where 'a = nat] simp del: of_nat_add)
  have pay: "(if PayloadLength ?M \<noteq> 0 then
        let d' = (write_at d 0 ?o)(unat (of_nat (length ?o) :: u16) := 0xff); offset = of_nat (length ?o) + 1
        in (write_at d' (unat offset) (take (unat (PayloadLength ?M)) (PayloadData ?M)), offset + PayloadLength ?M)
      else (write_at d 0 ?o, of_nat (length ?o))) =
      (write_at d 0 (encode_message Msg), of_nat (length (encode_message Msg)))"
  proof (cases "PayloadLength ?M = 0")
    case True
    then have "msg_payload Msg = []" by (auto simp: msg_payload_def)
    with True show ?thesis by (simp add: encode_message_def encode_payload_def)
  next
    case False
    then have ne: "Code Msg \<noteq> EMPTY" "PayloadLength Msg \<noteq> 0" by (auto split: if_splits)
    let ?pl = "take (unat (PayloadLength Msg)) (PayloadData Msg)"
    have pl: "length ?pl = unat (PayloadLength Msg)" using wf by (simp add: msg_wf_def)
    have enc: "encode_message Msg = ?o @ 0xff # ?pl"
      using ne pl by (auto simp: encode_message_def encode_payload_def msg_payload_def unat_eq_zero)
    have l: "Suc (length ?o) < 65536" using len enc by simp
    have M: "PayloadLength ?M = PayloadLength Msg" "PayloadData ?M = PayloadData Msg" using ne by simp_all
    show ?thesis
      unfolding M enc using ne payload_write [OF pl l] by (simp only: if_True not_False_eq_True)
  qed
  have start: "(if Code Msg = EMPTY then (Msg\<lparr>PayloadLength := 0\<rparr>, 0)
      else (Msg, getTokenByteCount (Token64 Msg))) = (?M, ?tl)"
    by simp
  show ?thesis
    by (simp only: CoAP_BuildDatagram_def start Let_def case_prod_conv hdr tok off2
        opt [unfolded Let_def] pay [unfolded Let_def])
qed

lemma RawSize_length:
  assumes "msg_wf Msg" "length (encode_message Msg) < 65536"
  shows "CoAP_GetRawSizeOfMessage Msg = int (length (encode_message Msg))"
proof -
  let ?n = "length (encode_options 0 (pOptionsList Msg))"
  have n: "?n < 65536" using assms(2) by (simp add: length_encode_message)
  have "CoAP_NeededMem4PackOptions (pOptionsList Msg) = of_nat ?n"
    using assms(1) by (simp add: NeededMem_length msg_wf_def opts_wf_def)
  then have "uint (CoAP_NeededMem4PackOptions (pOptionsList Msg)) = int ?n"
    using n unat_of_nat16 [OF n] by (simp only: uint_nat)
  moreover have "uint (PayloadLength Msg) = int (unat (PayloadLength Msg))"
    "uint (getTokenByteCount (Token64 Msg)) = int (unat (getTokenByteCount (Token64 Msg)))"
    unfolding uint_nat by simp_all
  ultimately show ?thesis
    using assms(1) length_msg_payload [OF assms(1)]
    by (auto simp: CoAP_GetRawSizeOfMessage_def Let_def length_encode_message msg_token_def
        unat_eq_zero simp del: of_nat_unat split: if_splits)
qed

section \<open>Ownership of a message\<close>

text \<open>The payload of a message is absent, lies outside the memory area, has a buffer of its own,
  or lies in the buffer of the message behind the struct. The buffers of a message are those of
  its options, of a payload of its own, and of the struct.\<close>

definition payload_placed :: "ptr \<times> ptr \<Rightarrow> heap \<Rightarrow> CoAP_Message_t \<Rightarrow> bool" where
  "payload_placed ar h Msg \<longleftrightarrow>
     Payload Msg = NULL \<or> Payload Msg < fst ar \<or> snd ar < Payload Msg \<or>
     Payload Msg \<in> dom h - {msg_at Msg} \<or>
     (\<exists>k. h (msg_at Msg) = Some k \<and> msg_at Msg < Payload Msg \<and> Payload Msg \<le> msg_at Msg + k)"

definition msg_ptrs :: "heap \<Rightarrow> CoAP_Message_t \<Rightarrow> ptr list" where
  "msg_ptrs h Msg = opt_ptrs (pOptionsList Msg) @
     (if Payload Msg \<in> dom h then [Payload Msg] else []) @ [msg_at Msg]"

definition msg_owned :: "ptr \<times> ptr \<Rightarrow> heap \<Rightarrow> CoAP_Message_t \<Rightarrow> heap \<Rightarrow> bool" where
  "msg_owned ar h Msg h' \<longleftrightarrow> heap_ext h (msg_ptrs h' Msg) h' \<and> payload_placed ar h' Msg"

context coap_allocator
begin

text \<open>Where the payload lies decides what \<open>CoAP_free_MsgPayload\<close> does.\<close>

lemma free_payload:
  assumes rep: "rep m h" and at: "h (msg_at Msg) = Some k" and pl: "payload_placed (mem_area A m) h Msg"
  shows "CoAP_free_MsgPayload A m Msg =
    (if Payload Msg \<in> dom h
     then (Msg\<lparr>Payload := NULL, PayloadBufSize := 0, PayloadData := []\<rparr>, coap_mem_release A m (Payload Msg))
     else (Msg, m))"
proof (cases "Payload Msg \<in> dom h")
  case True
  then obtain l where l: "h (Payload Msg) = Some l" by blast
  note b = bounds_law [OF rep l] size_law [OF rep l] size_law [OF rep at]
  have ne: "Payload Msg \<noteq> msg_at Msg"
  proof
    assume eq: "Payload Msg = msg_at Msg"
    with NULL_law [OF rep] l have "Payload Msg \<noteq> NULL" by auto
    with eq pl b bounds_law [OF rep at] show False
      by (simp add: payload_placed_def mem_area_def)
  qed
  have "Payload Msg \<noteq> NULL" using l NULL_law [OF rep] by force
  moreover have "\<not> bufferIsPartOfMsg A m (Payload Msg) (msg_at Msg)"
    using distinct_buffers [OF rep at l ne [symmetric]] b(3) unfolding bufferIsPartOfMsg_def by linarith
  moreover have "\<not> (Payload Msg > coap_mem_buf_highEnd A m \<or> Payload Msg < coap_mem_buf_lowEnd A m)"
    using b(1,2) by linarith
  ultimately show ?thesis
    using True by (simp only: CoAP_free_MsgPayload_def if_False if_True refl)
next
  case False
  then consider "Payload Msg = NULL"
    | "Payload Msg > coap_mem_buf_highEnd A m \<or> Payload Msg < coap_mem_buf_lowEnd A m"
    | "msg_at Msg < Payload Msg" "Payload Msg \<le> msg_at Msg + k"
    using pl at unfolding payload_placed_def mem_area_def by auto
  then show ?thesis
  proof cases
    case 3
    then have "bufferIsPartOfMsg A m (Payload Msg) (msg_at Msg)"
      using size_law [OF rep at] unfolding bufferIsPartOfMsg_def by linarith
    with False show ?thesis by (simp add: CoAP_free_MsgPayload_def)
  qed (use False in \<open>simp_all add: CoAP_free_MsgPayload_def\<close>)
qed

lemma free_message:
  assumes rep: "rep m h'" and own: "msg_owned (mem_area A m) h Msg h'"
  obtains m' where "CoAP_free_Message A m (Some Msg) = (COAP_OK, None, m')" "rep m' h"
    "mem_area A m' = mem_area A m"
proof -
  let ?pp = "if Payload Msg \<in> dom h' then [Payload Msg] else []"
  obtain h1 h2 where h1: "heap_ext h1 (opt_ptrs (pOptionsList Msg)) h'" and h2: "heap_ext h2 ?pp h1"
    and h: "heap_ext h [msg_at Msg] h2"
    using own unfolding msg_owned_def msg_ptrs_def heap_ext_append by blast
  obtain m1 where m1: "CoAP_FreeOptionList A m (pOptionsList Msg) = (COAP_OK, [], m1)" "rep m1 h1"
    using free_option_list [OF rep h1] .
  have ar: "mem_area A m1 = mem_area A m" using m1(1) by (auto simp: FreeOptionList_eq)
  obtain k where "h2 (msg_at Msg) = Some k" using heap_ext_live [OF h] by auto
  then have k: "h1 (msg_at Msg) = Some k" by (rule heap_ext_mono [OF h2])
  have "Payload Msg \<in> dom h1 \<longleftrightarrow> Payload Msg \<in> dom h'"
    using heap_ext_live [OF h2, of "Payload Msg"] heap_ext_mono [OF h1, of "Payload Msg"]
    by (cases "Payload Msg \<in> dom h'") (simp add: domIff, simp only: domIff, blast)
  note live = this heap_ext_mono [OF h1 k] k
  let ?M = "Msg\<lparr>pOptionsList := []\<rparr>"
  have "payload_placed (mem_area A m1) h1 ?M"
    using own live ar by (simp add: msg_owned_def payload_placed_def)
  then have fp: "CoAP_free_MsgPayload A m1 ?M = (if Payload Msg \<in> dom h1
     then (?M\<lparr>Payload := NULL, PayloadBufSize := 0, PayloadData := []\<rparr>, coap_mem_release A m1 (Payload Msg))
     else (?M, m1))"
    using free_payload [OF m1(2), of ?M k] k by simp
  define m2 where "m2 = (if Payload Msg \<in> dom h1 then coap_mem_release A m1 (Payload Msg) else m1)"
  have m2: "rep m2 h2" "mem_area A m2 = mem_area A m"
    using release_ext [OF m1(2) h2] live ar by (auto simp: m2_def area_release split: if_splits)
  have "CoAP_free_Message A m (Some Msg) = (COAP_OK, None, coap_mem_release A m2 (msg_at Msg))"
    using m1(1) fp by (simp add: m2_def)
  then show thesis
    by (rule that) (use release_ext [OF m2(1) h] m2(2) in \<open>simp_all add: area_release\<close>)
qed

text \<open>The final allocation of the parser.\<close>

lemma msg_copy_cases [consumes 3, case_names fail ok]:
  assumes rep: "rep m h'" and ext: "heap_ext h (opt_ptrs (pOptionsList Msg)) h'"
    and len: "PayloadLength Msg \<le> 256"
  obtains m' where "START_MSG_COPY A m now src Msg pl = (COAP_ERR_OUT_OF_MEMORY, None, m')" "rep m' h"
  | p k m' M where "START_MSG_COPY A m now src Msg pl = (COAP_OK, Some M, m')"
      "rep m' (h'(p \<mapsto> k))" "h' p = None" "p \<noteq> NULL" "sizeof_CoAP_Message_t + uint (PayloadLength Msg) \<le> k"
      "M = Msg\<lparr>msg_at := p, Timestamp := now,
         Payload := (if PayloadLength Msg \<noteq> 0 then p + sizeof_CoAP_Message_t else Payload Msg),
         PayloadData := (if PayloadLength Msg \<noteq> 0 then (case pl of None \<Rightarrow> []
             | Some b \<Rightarrow> bytes_at src b (unat (PayloadLength Msg))) else PayloadData Msg)\<rparr>"
proof -
  let ?n = "sizeof_CoAP_Message_t + uint (PayloadLength Msg)"
  have "uint (PayloadLength Msg) \<le> 256" using len by (simp add: word_le_def)
  then have n: "0 < ?n" "?n \<le> MAX_REQ" "s16 ?n = ?n"
    using uint_ge_0 [of "PayloadLength Msg"]
    by (auto simp: sizeof_CoAP_Message_t_def MAX_REQ_def intro!: s16_id add_pos_nonneg)
  obtain p m1 where get: "coap_mem_get A m ?n = (p, m1)" by fastforce
  show thesis
    using rep n(1,2) get
  proof (cases rule: get_cases)
    case fail
    obtain m2 where "CoAP_FreeOptionList A m1 (pOptionsList Msg) = (COAP_OK, [], m2)" "rep m2 h"
      using free_option_list [OF fail(2) ext] .
    with fail get n(3) that(1) show thesis by (simp add: START_MSG_COPY_def)
  next
    case (ok k)
    show thesis
      by (rule that(2) [OF _ ok(4) ok(2,1,3) refl])
        (use ok get n(3) in \<open>simp add: START_MSG_COPY_def Let_def\<close>)
  qed
qed

end

section \<open>Parsing\<close>

text \<open>The fixed header, and the position behind the token.\<close>

definition header_ok :: "bytes \<Rightarrow> bool" where
  "header_ok src \<longleftrightarrow> drop_bit 6 (src 0) = COAP_VERSION \<and> src 0 AND 15 \<le> 8 \<and> drop_bit 5 (src 1) \<notin> {1, 6, 7}"

definition token_end :: "bytes \<Rightarrow> nat" where
  "token_end src = 4 + unat (src 0 AND 15)"

definition parsed_header :: "bytes \<Rightarrow> CoAP_Message_t" where
  "parsed_header src = (CoAP_InitToEmptyResetMsg NULL)
     \<lparr>Type := type_of_bits (drop_bit 4 (src 0 AND 0x30)), Code := src 1,
      MessageID := push_bit 8 (ucast (src 2)) OR ucast (src 3),
      Token64 := parse_token src 4 (unat (src 0 AND 15))\<rparr>"

definition header_error :: "bytes \<Rightarrow> u16 \<Rightarrow> CoAP_Result_t option" where
  "header_error src n =
     (if n < 4 then Some COAP_PARSE_DATAGRAM_TOO_SHORT
      else if drop_bit 6 (src 0) \<noteq> COAP_VERSION then Some COAP_PARSE_UNKOWN_COAP_VERSION
      else if \<not> header_ok src then Some COAP_PARSE_MESSAGE_FORMAT_ERROR else None)"

lemma header_error_None: "header_error src n = None \<longleftrightarrow> \<not> n < 4 \<and> header_ok src"
  by (simp add: header_error_def header_ok_def)

lemma parse_bad_header:
  assumes "header_error src n = Some r"
  shows "CoAP_ParseMessageFromDatagram A m now src n = Some (r, None, m)"
proof -
  consider "n < 4" | "\<not> n < 4" "drop_bit 6 (src 0) \<noteq> COAP_VERSION"
    | "\<not> n < 4" "drop_bit 6 (src 0) = COAP_VERSION" "src 0 AND 15 > 8"
    | "\<not> n < 4" "drop_bit 6 (src 0) = COAP_VERSION" "\<not> src 0 AND 15 > 8"
      "drop_bit 5 (src 1) = 1 \<or> drop_bit 5 (src 1) = 6 \<or> drop_bit 5 (src 1) = 7"
    using assms by (auto simp: header_error_def header_ok_def split: if_splits)
  then show ?thesis
    by cases (use assms in \<open>simp_all only: CoAP_ParseMessageFromDatagram_def header_error_def header_ok_def Let_def
        if_True if_False simp_thms option.inject not_le [symmetric]\<close>; auto)+
qed

text \<open>With a good header and a token inside the datagram, the parser is a function of the
  token end, without wrap-around.\<close>

lemma parse_good_header:
  assumes "header_ok src" "token_end src \<le> unat n"
  shows "CoAP_ParseMessageFromDatagram A m now src n =
    (let e = token_end src; M = parsed_header src in
     if e = unat n then Some (START_MSG_COPY A m now src M None)
     else case parse_OptionsFromRaw A m (sub_at src e) (n - of_nat e) [] of
        None \<Rightarrow> None
      | Some (r, pl, opts, m1) \<Rightarrow>
          let plen = (case pl of None \<Rightarrow> 0 | Some b \<Rightarrow> n - of_nat (e + b)) in
          if r \<noteq> COAP_OK then Some (r, None, snd (snd (CoAP_FreeOptionList A m1 opts)))
          else if pl \<noteq> None \<and> plen > 256 then
            Some (COAP_PARSE_TOO_MUCH_PAYLOAD, None, snd (snd (CoAP_FreeOptionList A m1 opts)))
          else Some (START_MSG_COPY A m1 now src
            (M\<lparr>pOptionsList := opts, PayloadLength := plen, PayloadBufSize := plen\<rparr>)
            (map_option (\<lambda>b. e + b) pl)))"
proof -
  let ?e = "token_end src"
  have tkl: "unat (src 0 AND 15) \<le> 8" using assms(1) by (simp add: header_ok_def word_le_nat_alt)
  have off: "unat (4 + ucast (src 0 AND 15) :: u16) = ?e"
    using tkl by (simp add: token_end_def unat_word_ariths word_nat)
  then have off': "4 + ucast (src 0 AND 15) = (of_nat ?e :: u16)"
    by (metis of_nat_unat ucast_id)
  have len: "n = of_nat ?e \<longleftrightarrow> ?e = unat n" "n = 4 \<longleftrightarrow> unat n = 4" "\<not> n < 4"
    using off' off assms(2) by (auto simp: word_unat_eq_iff word_less_nat_alt token_end_def)
  have hdr: "\<not> drop_bit 6 (src 0) \<noteq> COAP_VERSION" "\<not> src 0 AND 15 > 8"
    "\<not> (drop_bit 5 (src 1) = 1 \<or> drop_bit 5 (src 1) = 6 \<or> drop_bit 5 (src 1) = 7)"
    using assms(1) by (auto simp: header_ok_def)
  have add: "map_option (\<lambda>i. ?e + i) pl \<noteq> None \<longleftrightarrow> pl \<noteq> None" for pl by auto
  show ?thesis
  proof (cases "unat n = 4")
    case True
    then have 0: "?e = 4" "unat (src 0 AND 15) = 0" using assms(2) by (simp_all add: token_end_def)
    have "parsed_header src = (CoAP_InitToEmptyResetMsg NULL)
       \<lparr>Type := type_of_bits (drop_bit 4 (src 0 AND 0x30)), Code := src 1,
        MessageID := push_bit 8 (ucast (src 2)) OR ucast (src 3)\<rparr>"
      by (simp add: parsed_header_def 0(2) parse_token_def CoAP_InitToEmptyResetMsg_def)
    with hdr len True 0 show ?thesis
      unfolding CoAP_ParseMessageFromDatagram_def by (simp add: Let_def)
  next
    case False
    have plen: "(case map_option (\<lambda>i. ?e + i) pl of None \<Rightarrow> 0 | Some b \<Rightarrow> n - of_nat b) =
        (case pl of None \<Rightarrow> 0 | Some b \<Rightarrow> n - of_nat (?e + b))" for pl
      by (cases pl) simp_all
    show ?thesis
      by (simp only: CoAP_ParseMessageFromDatagram_def Let_def len hdr False if_False off' off [unfolded off']
          plen add case_prod_unfold MAX_PAYLOAD_SIZE_def parsed_header_def sub_at_def)
  qed
qed

lemma unat_behind_token:
  assumes "token_end src \<le> unat (n :: u16)"
  shows "unat (n - of_nat (token_end src)) = unat n - token_end src" "n - of_nat (token_end src) \<le> 65531"
proof -
  have e: "unat (of_nat (token_end src) :: u16) = token_end src" "4 \<le> token_end src"
    using assms unat_u16_lt [of n] by (intro unat_of_nat16) (linarith, simp add: token_end_def)
  then have "(of_nat (token_end src) :: u16) \<le> n" using assms by (simp add: word_le_nat_alt)
  then show "unat (n - of_nat (token_end src)) = unat n - token_end src"
    using e by (simp add: unat_sub)
  moreover have "unat n - token_end src \<le> 65531" using e unat_u16_lt [of n] by linarith
  ultimately show "n - of_nat (token_end src) \<le> 65531" by (simp add: word_le_nat_alt)
qed

text \<open>Only the bytes of the datagram are read.\<close>

lemma msg_copy_cong:
  assumes "\<And>b i. pl = Some b \<Longrightarrow> i < unat (PayloadLength M) \<Longrightarrow> src (b + i) = src' (b + i)"
  shows "START_MSG_COPY A m now src M pl = START_MSG_COPY A m now src' M pl"
proof -
  have "(case pl of None \<Rightarrow> [] | Some b \<Rightarrow> bytes_at src b (unat (PayloadLength M))) =
      (case pl of None \<Rightarrow> [] | Some b \<Rightarrow> bytes_at src' b (unat (PayloadLength M)))"
    using assms by (auto intro: bytes_at_cong split: option.splits)
  then show ?thesis by (simp only: START_MSG_COPY_def)
qed

lemma parse_token_cong:
  "(\<And>i. i < off + k \<Longrightarrow> src i = src' i) \<Longrightarrow> parse_token src off k = parse_token src' off k"
  unfolding parse_token_def by (rule foldl_cong) simp_all

lemma parse_message_cong:
  assumes agree: "\<And>i. i < unat n \<Longrightarrow> src i = src' i" and tok: "header_ok src \<Longrightarrow> token_end src \<le> unat n"
  shows "CoAP_ParseMessageFromDatagram A m now src n = CoAP_ParseMessageFromDatagram A m now src' n"
proof (cases "header_error src n")
  case (Some r)
  have "header_error src' n = header_error src n"
    using agree [of 0] agree [of 1] by (auto simp: header_error_def header_ok_def word_less_nat_alt not_less)
  with Some show ?thesis by (simp only: parse_bad_header)
next
  case None
  then have 4: "4 \<le> unat n" and ok: "header_ok src"
    unfolding header_error_None by (simp_all add: word_less_nat_alt not_less)
  have hd: "src' 0 = src 0" "src' 1 = src 1" "src' 2 = src 2" "src' 3 = src 3"
    using agree 4 by simp_all
  have e: "token_end src \<le> unat n" "header_ok src'" "token_end src' = token_end src"
    using ok tok hd by (simp_all add: header_ok_def token_end_def)
  note u = unat_behind_token [OF e(1)]
  have ph: "parsed_header src' = parsed_header src"
  proof -
    have "parse_token src' 4 (unat (src 0 AND 15)) = parse_token src 4 (unat (src 0 AND 15))"
      using e(1) by (intro parse_token_cong agree [symmetric]) (simp add: token_end_def)
    then show ?thesis by (simp only: parsed_header_def hd)
  qed
  have po: "parse_OptionsFromRaw A m (sub_at src' (token_end src)) (n - of_nat (token_end src)) [] =
      parse_OptionsFromRaw A m (sub_at src (token_end src)) (n - of_nat (token_end src)) []"
    using agree u by (intro parse_options_cong) (simp_all add: sub_at_def)
  have pl: "src (token_end src + b + i) = src' (token_end src + b + i)"
    if "parse_OptionsFromRaw A m (sub_at src (token_end src)) (n - of_nat (token_end src)) [] = Some (r, Some b, L, m1)"
      "i < unat (n - of_nat (token_end src + b))" for r b L m1 i
  proof -
    have "b < unat n - token_end src" using parse_options_payload [OF that(1)] u(1) by simp
    then have "token_end src + b \<le> unat n" "token_end src + b < 65536"
      using unat_u16_lt [of n] by linarith+
    then have "unat (n - of_nat (token_end src + b)) = unat n - (token_end src + b)"
      using unat_of_nat16 [of "token_end src + b"] by (simp add: unat_sub word_le_nat_alt del: of_nat_add)
    with that(2) show ?thesis by (intro agree) linarith
  qed
  have cp: "START_MSG_COPY A m1 now src M (map_option (\<lambda>b. token_end src + b) pl') =
      START_MSG_COPY A m1 now src' M (map_option (\<lambda>b. token_end src + b) pl')"
    if "parse_OptionsFromRaw A m (sub_at src (token_end src)) (n - of_nat (token_end src)) [] = Some (r, pl', L, m1)"
      "PayloadLength M = (case pl' of None \<Rightarrow> 0 | Some b \<Rightarrow> n - of_nat (token_end src + b))" for r pl' L m1 M
    using pl that by (intro msg_copy_cong) (auto split: option.splits)
  have st: "START_MSG_COPY A m now src M None = START_MSG_COPY A m now src' M None" for M
    by (rule msg_copy_cong) simp
  note eqs = parse_good_header [OF ok e(1), of A m now] parse_good_header [OF e(2), unfolded e(3), OF e(1), of A m now]
  show ?thesis
  proof (cases "parse_OptionsFromRaw A m (sub_at src (token_end src)) (n - of_nat (token_end src)) []")
    case None
    then show ?thesis unfolding eqs ph po st Let_def by simp
  next
    case (Some x)
    then obtain r pl' L m1 where x: "parse_OptionsFromRaw A m (sub_at src (token_end src)) (n - of_nat (token_end src)) [] =
      Some (r, pl', L, m1)" by (cases x) auto
    show ?thesis
      unfolding eqs ph po st Let_def x option.case prod.case by (subst cp [OF x]) simp_all
  qed
qed

context coap_allocator
begin

lemma embedded_payload_owned:
  assumes rep: "rep m' (h'(p \<mapsto> k))" and ext: "heap_ext h (opt_ptrs (pOptionsList M)) h'"
    and new: "h' p = None" and k: "sizeof_CoAP_Message_t + uint (PayloadLength M) \<le> k"
    and at: "msg_at M = p" and pl: "Payload M = NULL \<or> Payload M = p + sizeof_CoAP_Message_t"
  shows "msg_owned ar h M (h'(p \<mapsto> k))"
proof -
  let ?h = "h'(p \<mapsto> k)"
  have "?h (p + sizeof_CoAP_Message_t) \<noteq> Some l" for l
  proof
    assume "?h (p + sizeof_CoAP_Message_t) = Some l"
    with apart_law [OF rep, of p k "p + sizeof_CoAP_Message_t" l]
    have "p + k < p + sizeof_CoAP_Message_t" by (simp add: sizeof_CoAP_Message_t_def)
    then show False using k uint_ge_0 [of "PayloadLength M"] by linarith
  qed
  then have "Payload M \<notin> dom ?h" using pl NULL_law [OF rep] unfolding domIff
    by (metis not_None_eq)
  moreover have "payload_placed ar ?h M"
    using pl at order_trans [OF _ k, of sizeof_CoAP_Message_t]
    unfolding payload_placed_def by (auto simp: sizeof_CoAP_Message_t_def)
  moreover have "heap_ext h (opt_ptrs (pOptionsList M) @ [p]) ?h"
    using heap_ext_alloc [OF ext new, of k]
    by (subst heap_ext_cong [where qs = "p # opt_ptrs (pOptionsList M)"]) auto
  ultimately show ?thesis by (simp only: msg_owned_def msg_ptrs_def at if_False append_Nil simp_thms)
qed

lemma msg_copy_owns:
  assumes "rep m h1" "heap_ext h (opt_ptrs (pOptionsList M)) h1" "PayloadLength M \<le> 256"
    "opts_wf (pOptionsList M)" "Payload M = NULL" "PayloadLength M \<noteq> 0 \<Longrightarrow> pl \<noteq> None"
  obtains (ok) N m' h' where "START_MSG_COPY A m now src M pl = (COAP_OK, Some N, m')"
      "rep m' h'" "msg_owned (mem_area A m') h N h'" "msg_wf N" "Timestamp N = now"
  | (fail) m' where "START_MSG_COPY A m now src M pl = (COAP_ERR_OUT_OF_MEMORY, None, m')" "rep m' h"
  using assms(1-3)
proof (cases rule: msg_copy_cases [of _ _ _ _ now src pl])
  case (fail m')
  then show thesis by (rule that(2))
next
  case (ok p k m' N)
  have "msg_owned (mem_area A m') h N (h1(p \<mapsto> k))"
    using ok assms(2,5) by (intro embedded_payload_owned) auto
  moreover have "msg_wf N" using ok(6) assms(4,6) by (auto simp: msg_wf_def)
  ultimately show thesis using that(1) ok(1,2,6) by simp
qed

text \<open>A parsed message owns exactly what the parser has allocated; a rejected datagram leaves
  the heap as it was.\<close>

lemma parse_owns:
  assumes rep: "rep m h" and tok: "header_ok src \<Longrightarrow> token_end src \<le> unat n"
  obtains (ok) M m' h' where
      "CoAP_ParseMessageFromDatagram A m now src n = Some (COAP_OK, Some M, m')"
      "rep m' h'" "msg_owned (mem_area A m') h M h'" "msg_wf M" "Timestamp M = now"
  | (fail) r m' where
      "CoAP_ParseMessageFromDatagram A m now src n = Some (r, None, m')"
      "r \<notin> {COAP_OK, COAP_ERR_OUT_OF_MEMORY}" "rep m' h"
  | (oom) m' h' lost where
      "CoAP_ParseMessageFromDatagram A m now src n = Some (COAP_ERR_OUT_OF_MEMORY, None, m')"
      "rep m' h'" "heap_ext h lost h'"
proof (cases "header_error src n")
  case (Some r)
  then have "r \<notin> {COAP_OK, COAP_ERR_OUT_OF_MEMORY}" by (auto simp: header_error_def split: if_splits)
  then show thesis using parse_bad_header [OF Some] rep by (intro fail)
next
  case None
  then have e: "token_end src \<le> unat n" and hd: "header_ok src" using tok by (simp_all add: header_error_None)
  note eq = parse_good_header [OF hd e, of A m now] and u = unat_behind_token [OF e]
  show thesis
  proof (cases "token_end src = unat n")
    case True
    have p: "pOptionsList (parsed_header src) = []" "PayloadLength (parsed_header src) = 0"
      "Payload (parsed_header src) = NULL"
      by (simp_all add: parsed_header_def CoAP_InitToEmptyResetMsg_def)
    show thesis
      using msg_copy_owns [of m h h "parsed_header src" None now src thesis] p rep ok oom [of _ h "[]"] eq True
      by (simp add: opts_wf_def)
  next
    case ne: False
    obtain r pl L m1 h1 lost where po: "parse_OptionsFromRaw A m (sub_at src (token_end src))
        (n - of_nat (token_end src)) [] = Some (r, pl, L, m1)"
      and m1: "rep m1 h1" "heap_ext h (opt_ptrs L @ lost) h1" "opts_wf L"
      and lost: "r \<noteq> COAP_ERR_OUT_OF_MEMORY \<Longrightarrow> lost = []"
      using parse_options_owns [OF rep u(2), of "sub_at src (token_end src)"] by blast
    obtain h2 where h2: "heap_ext h lost h2" "heap_ext h2 (opt_ptrs L) h1"
      using m1(2) unfolding heap_ext_append by blast
    obtain m2 where m2: "CoAP_FreeOptionList A m1 L = (COAP_OK, [], m2)" "rep m2 h2"
      using free_option_list [OF m1(1) h2(2)] .
    define plen where "plen = (case pl of None \<Rightarrow> 0 | Some b \<Rightarrow> n - of_nat (token_end src + b))"
    let ?M = "(parsed_header src)\<lparr>pOptionsList := L, PayloadLength := plen, PayloadBufSize := plen\<rparr>"
    have eq': "CoAP_ParseMessageFromDatagram A m now src n =
        (if r \<noteq> COAP_OK then Some (r, None, m2)
         else if pl \<noteq> None \<and> plen > 256 then Some (COAP_PARSE_TOO_MUCH_PAYLOAD, None, m2)
         else Some (START_MSG_COPY A m1 now src ?M (map_option (\<lambda>b. token_end src + b) pl)))"
      unfolding eq plen_def using ne po m2(1) by (simp add: Let_def)
    show thesis
    proof (cases "r = COAP_ERR_OUT_OF_MEMORY")
      case True
      then show thesis using eq' oom [OF _ m2(2) h2(1)] by simp
    next
      case r: False
      with lost h2(1) have [simp]: "h2 = h" by simp
      show thesis
      proof (cases "r \<noteq> COAP_OK \<or> pl \<noteq> None \<and> plen > 256")
        case True
        then obtain r' where "CoAP_ParseMessageFromDatagram A m now src n = Some (r', None, m2)"
          "r' \<notin> {COAP_OK, COAP_ERR_OUT_OF_MEMORY}"
          using eq' r by (cases "r = COAP_OK") auto
        then show thesis using m2(2) by (intro fail) simp_all
      next
        case False
        then have pl: "plen \<le> 256" "pl = None \<Longrightarrow> plen = 0"
          by (auto simp: plen_def)
        have M: "Payload ?M = NULL" by (simp add: parsed_header_def CoAP_InitToEmptyResetMsg_def)
        have "CoAP_ParseMessageFromDatagram A m now src n =
            Some (START_MSG_COPY A m1 now src ?M (map_option (\<lambda>b. token_end src + b) pl))"
          unfolding eq' using False by auto
        then show thesis
          using msg_copy_owns [of m1 h1 h ?M "map_option (\<lambda>b. token_end src + b) pl" now src thesis]
            m1(1,3) h2(2) ok oom [of _ h "[]"] pl M by auto
      qed
    qed
  qed
qed

end

section \<open>Parsing what was built\<close>

definition msg_view :: "CoAP_Message_t \<Rightarrow> CoAP_MessageType_t \<times> u8 \<times> u16 \<times> u64 \<times> (u16 \<times> u8 list) list \<times> u8 list" where
  "msg_view Msg = (Type Msg, Code Msg, MessageID Msg, Token64 Msg, map opt_view (pOptionsList Msg),
     take (unat (PayloadLength Msg)) (PayloadData Msg))"

text \<open>What of a message is put on the wire: an empty message has neither token nor payload there.\<close>

definition wire_view :: "CoAP_Message_t \<Rightarrow> CoAP_MessageType_t \<times> u8 \<times> u16 \<times> u64 \<times> (u16 \<times> u8 list) list \<times> u8 list" where
  "wire_view Msg = (Type Msg, Code Msg, MessageID Msg, if Code Msg = EMPTY then 0 else Token64 Msg,
     map opt_view (pOptionsList Msg), msg_payload Msg)"

text \<open>Which messages the parser refuses although they can be built, and with which result: reserved code
  classes, a payload without options (the parser refuses a payload marker in the place of the first
  option) and more than 256 bytes of payload.\<close>

definition receiver_refuses :: "CoAP_Message_t \<Rightarrow> CoAP_Result_t option" where
  "receiver_refuses Msg =
     (if drop_bit 5 (Code Msg) \<in> {1, 6, 7} then Some COAP_PARSE_MESSAGE_FORMAT_ERROR
      else if pOptionsList Msg = [] \<and> msg_payload Msg \<noteq> [] then Some COAP_PARSE_MESSAGE_FORMAT_ERROR
      else if 256 < length (msg_payload Msg) then Some COAP_PARSE_TOO_MUCH_PAYLOAD
      else None)"

lemma bytes_at_sub: "bytes_at (sub_at src e) off k = bytes_at src (e + off) k"
  by (simp add: bytes_at_def sub_at_def add.assoc)

lemma header_byte:
  assumes "k \<le> 8" and b: "b = 0x40 OR push_bit 4 (bits_of_type ty) OR (of_nat k :: u8)"
  shows "drop_bit 6 b = 1" "b AND 15 = of_nat k" "type_of_bits (drop_bit 4 (b AND 0x30)) = ty"
proof -
  have "k \<in> {0, 1, 2, 3, 4, 5, 6, 7, 8}" using assms(1) by auto
  then show "drop_bit 6 b = 1" "b AND 15 = of_nat k" "type_of_bits (drop_bit 4 (b AND 0x30)) = ty"
    unfolding b by (cases ty; auto simp: type_of_bits_def)+
qed

lemma parsed_header_encoded:
  assumes enc: "bytes_at src 0 (length (encode_message Msg)) = encode_message Msg"
  shows "header_ok src \<longleftrightarrow> drop_bit 5 (Code Msg) \<notin> {1, 6, 7}" "drop_bit 6 (src 0) = COAP_VERSION"
    "token_end src = 4 + length (msg_token Msg)"
    "parsed_header src = (CoAP_InitToEmptyResetMsg NULL)\<lparr>Type := Type Msg, Code := Code Msg,
       MessageID := MessageID Msg, Token64 := (if Code Msg = EMPTY then 0 else Token64 Msg)\<rparr>"
proof -
  let ?k = "length (msg_token Msg)"
  have k: "?k \<le> 8" using getTokenByteCount_le by (simp add: msg_token_def)
  have bs: "bytes_at src 0 4 = msg_header Msg" "bytes_at src 4 ?k = msg_token Msg"
    using enc by (simp_all add: encode_message_def bytes_at_add)
  have nth: "src i = msg_header Msg ! i" if "i < 4" for i
    using nth_bytes_at [of i 4 src 0] that bs(1) by simp
  note h0 = header_byte [OF k, of "src 0" "Type Msg"]
  have 0: "src 0 = 0x40 OR push_bit 4 (bits_of_type (Type Msg)) OR of_nat ?k" "src 1 = Code Msg"
    "src 2 = ucast (drop_bit 8 (MessageID Msg))" "src 3 = ucast (MessageID Msg AND 0xff)"
    by (simp_all add: nth msg_header_def)
  have uk: "unat (of_nat ?k :: u8) = ?k"
    using k by (simp add: unat_of_nat take_bit_eq_mod)
  then have le: "(of_nat ?k :: u8) \<le> 8" using k by (simp add: word_le_nat_alt)
  show "drop_bit 6 (src 0) = COAP_VERSION" using h0(1) [OF 0(1)] by simp
  then show "header_ok src \<longleftrightarrow> drop_bit 5 (Code Msg) \<notin> {1, 6, 7}" using h0 [OF 0(1)] le 0(2) by (simp add: header_ok_def)
  show "token_end src = 4 + ?k" by (simp add: token_end_def h0(2) [OF 0(1)] uk)
  have "parse_token src 4 ?k = (if Code Msg = EMPTY then 0 else Token64 Msg)"
    using bs(2) parse_encode_token [of src 4 "Token64 Msg"] by (cases "Code Msg = EMPTY") (simp_all add: msg_token_def parse_token_def)
  then show "parsed_header src = (CoAP_InitToEmptyResetMsg NULL)\<lparr>Type := Type Msg, Code := Code Msg,
       MessageID := MessageID Msg, Token64 := (if Code Msg = EMPTY then 0 else Token64 Msg)\<rparr>"
    using h0 [OF 0(1)] 0(2-4) u16_bytes [of "MessageID Msg"] by (simp add: parsed_header_def uk)
qed

context coap_allocator
begin

lemma msg_copy_view:
  assumes "rep m h1" "heap_ext h (opt_ptrs (pOptionsList M)) h1" "PayloadLength M \<le> 256"
    "Payload M = NULL" "PayloadData M = []"
    and data: "length data = unat (PayloadLength M)"
      "PayloadLength M \<noteq> 0 \<Longrightarrow> \<exists>b. pl = Some b \<and> bytes_at src b (length data) = data"
  obtains (ok) N m' h' where "START_MSG_COPY A m now src M pl = (COAP_OK, Some N, m')"
      "msg_view N = (Type M, Code M, MessageID M, Token64 M, map opt_view (pOptionsList M), data)"
      "rep m' h'" "msg_owned (mem_area A m') h N h'"
  | (oom) m' where "START_MSG_COPY A m now src M pl = (COAP_ERR_OUT_OF_MEMORY, None, m')" "rep m' h"
  using assms(1-3)
proof (cases rule: msg_copy_cases [of _ _ _ _ now src pl])
  case (fail m')
  then show thesis by (rule that(2))
next
  case (ok p k m' N)
  have "msg_owned (mem_area A m') h N (h1(p \<mapsto> k))"
    using ok assms(2,4) by (intro embedded_payload_owned) auto
  moreover have "msg_view N = (Type M, Code M, MessageID M, Token64 M, map opt_view (pOptionsList M), data)"
    using ok(6) data assms(5) by (cases "PayloadLength M = 0") (auto simp: msg_view_def)
  ultimately show thesis using that(1) ok(1,2) by simp
qed

text \<open>The part of the datagram behind the token.\<close>

lemma parse_encoded_tail:
  assumes rep: "rep m h" and hd: "header_ok src" and L: "encodable L" "L \<noteq> []"
    and n: "unat n = token_end src + length (encode_options 0 L) + length (encode_payload data)"
    and bs: "bytes_at (sub_at src (token_end src)) 0 (length (encode_options 0 L)) = encode_options 0 L"
      "bytes_at src (token_end src + length (encode_options 0 L)) (length (encode_payload data)) = encode_payload data"
  obtains (ok) M m' h' where "CoAP_ParseMessageFromDatagram A m now src n = Some (COAP_OK, Some M, m')"
      "msg_view M = (Type (parsed_header src), Code (parsed_header src), MessageID (parsed_header src),
         Token64 (parsed_header src), map opt_view L, data)" "rep m' h'" "msg_owned (mem_area A m') h M h'" "length data \<le> 256"
  | (big) m' where "CoAP_ParseMessageFromDatagram A m now src n = Some (COAP_PARSE_TOO_MUCH_PAYLOAD, None, m')"
      "rep m' h" "256 < length data"
  | (oom) m' where "CoAP_ParseMessageFromDatagram A m now src n = Some (COAP_ERR_OUT_OF_MEMORY, None, m')"
      "rep m' h"
proof -
  let ?e = "token_end src" and ?O = "encode_options 0 L" and ?P = "parsed_header src"
  have te: "?e \<le> unat n" using n by simp
  note u = unat_behind_token [OF te]
  define pl where "pl = (if data = [] then None else Some (length ?O + 1))"
  have last: "options_end (sub_at src ?e) (n - of_nat ?e) (length ?O) pl"
  proof (cases "data = []")
    case True
    then show ?thesis using n u(1) by (simp add: options_end_def pl_def encode_payload_def)
  next
    case False
    then have "src (?e + length ?O) = 255"
      using arg_cong [OF bs(2), where f = "\<lambda>xs. xs ! 0"] by (simp add: encode_payload_def)
    with False show ?thesis
      using n u(1) by (simp add: options_end_def pl_def encode_payload_def sub_at_def)
  qed
  obtain r pl' L' m1 h1 where po: "parse_OptionsFromRaw A m (sub_at src ?e) (n - of_nat ?e) [] = Some (r, pl', L', m1)"
    and m1: "rep m1 h1" "heap_ext h (opt_ptrs L') h1"
    and r: "r = COAP_OK \<and> pl' = pl \<and> map opt_view L' = map opt_view L \<or> r = COAP_ERR_OUT_OF_MEMORY"
    using n u(1) by (rule_tac parse_options_encoded [OF rep L bs(1) _ last]) simp_all
  have ne: "?e \<noteq> unat n" using n encode_options_ne [OF L(2)] by simp
  define plen where "plen = (case pl of None \<Rightarrow> 0 | Some b \<Rightarrow> n - of_nat (?e + b))"
  have plen: "unat plen = length data"
  proof (cases "data = []")
    case False
    then have "?e + (length ?O + 1) \<le> unat n" "unat n = ?e + (length ?O + 1) + length data"
      using n by (simp_all add: encode_payload_def)
    with False show ?thesis
      using unat_of_nat16 [of "?e + (length ?O + 1)"] unat_u16_lt [of n]
      by (simp add: plen_def pl_def unat_sub word_le_nat_alt del: of_nat_add of_nat_Suc)
  qed (simp add: plen_def pl_def)
  obtain m2 where free: "CoAP_FreeOptionList A m1 L' = (COAP_OK, [], m2)" "rep m2 h"
    using free_option_list [OF m1] .
  consider "r \<noteq> COAP_OK" | "r = COAP_OK" "256 < length data" | "r = COAP_OK" "length data \<le> 256" by linarith
  then show thesis
  proof cases
    case 1
    with r free po ne show thesis
      using parse_good_header [OF hd te, of A m now] by (intro oom) (simp_all add: Let_def)
  next
    case 2
    have "pl' = pl" "pl \<noteq> None" "256 < plen" using r 2 plen by (auto simp: pl_def word_less_nat_alt)
    then have "CoAP_ParseMessageFromDatagram A m now src n = Some (COAP_PARSE_TOO_MUCH_PAYLOAD, None, m2)"
      using ne 2(1) free(1) by (simp add: parse_good_header [OF hd te] Let_def po plen_def)
    then show thesis using free(2) 2(2) by (rule big)
  next
    case 3
    note True = 3(1)
    have le: "plen \<le> 256" using 3(2) plen by (simp add: word_le_nat_alt)
    let ?M = "?P\<lparr>pOptionsList := L', PayloadLength := plen, PayloadBufSize := plen\<rparr>"
    have "CoAP_ParseMessageFromDatagram A m now src n =
        Some (START_MSG_COPY A m1 now src ?M (map_option (\<lambda>b. ?e + b) pl))"
    proof -
      have "pl' = pl" "\<not> (pl \<noteq> None \<and> 256 < plen)" using r True le by (simp_all add: not_less)
      then show ?thesis
        using ne True by (simp only: parse_good_header [OF hd te] Let_def po plen_def [symmetric]
            if_False option.case prod.case simp_thms)
    qed
    moreover have "plen \<noteq> 0 \<Longrightarrow> \<exists>b. map_option (\<lambda>b. ?e + b) pl = Some b \<and> bytes_at src b (length data) = data"
      using plen bs(2) by (auto simp: pl_def encode_payload_def bytes_at_Suc add.assoc unat_eq_zero)
    ultimately show thesis
      using msg_copy_view [OF m1(1), of h ?M data "map_option (\<lambda>b. ?e + b) pl" src now thesis] m1(2) plen le r True 3(2)
        ok oom
      by (simp add: parsed_header_def CoAP_InitToEmptyResetMsg_def)
  qed
qed

lemma parse_encoded:
  assumes rep: "rep m h" and msg: "msg_wf Msg" "encodable (pOptionsList Msg)" "length (encode_message Msg) < 65536"
    and enc: "bytes_at src 0 (length (encode_message Msg)) = encode_message Msg"
    and n: "n = of_nat (length (encode_message Msg))"
  obtains (ok) M m' h' where "CoAP_ParseMessageFromDatagram A m now src n = Some (COAP_OK, Some M, m')"
      "receiver_refuses Msg = None" "msg_view M = wire_view Msg" "rep m' h'" "msg_owned (mem_area A m') h M h'"
  | (refused) r m' where "CoAP_ParseMessageFromDatagram A m now src n = Some (r, None, m')" "receiver_refuses Msg = Some r" "rep m' h"
  | (oom) m' where "CoAP_ParseMessageFromDatagram A m now src n = Some (COAP_ERR_OUT_OF_MEMORY, None, m')" "rep m' h"
proof -
  let ?O = "encode_options 0 (pOptionsList Msg)" and ?e = "4 + length (msg_token Msg)" and ?pl = "msg_payload Msg"
  note hd = parsed_header_encoded [OF enc]
  have em: "encode_message Msg = (msg_header Msg @ msg_token Msg) @ ?O @ encode_payload ?pl"
    by (simp add: encode_message_def)
  have un: "unat n = ?e + length ?O + length (encode_payload ?pl)"
    using unat_of_nat16 [OF msg(3)] by (simp add: n em)
  have te: "token_end src \<le> unat n" using hd(3) un by simp
  have bs: "bytes_at (sub_at src ?e) 0 (length ?O) = ?O"
    "bytes_at src (?e + length ?O) (length (encode_payload ?pl)) = encode_payload ?pl"
    using enc unfolding em bytes_at_append bytes_at_sub by simp_all
  consider "\<not> header_ok src" | "header_ok src" "pOptionsList Msg = []" "?pl = []" | "header_ok src" "pOptionsList Msg = []" "?pl \<noteq> []"
    | "header_ok src" "pOptionsList Msg \<noteq> []" by blast
  then show thesis
  proof cases
    case 1
    have "\<not> n < 4" using un by (simp add: word_less_nat_alt)
    with 1 have "header_error src n = Some COAP_PARSE_MESSAGE_FORMAT_ERROR" using hd(2) by (simp add: header_error_def)
    from parse_bad_header [OF this] show thesis by (rule refused) (use 1 hd(1) rep in \<open>simp_all add: receiver_refuses_def\<close>)
  next
    case 2
    with un hd(3) have "token_end src = unat n" by (simp add: encode_payload_def)
    then have "CoAP_ParseMessageFromDatagram A m now src n = Some (START_MSG_COPY A m now src (parsed_header src) None)"
      using parse_good_header [OF 2(1) te, of A m now] by (simp add: Let_def)
    then show thesis
      using msg_copy_view [OF rep, of h "parsed_header src" "[]" None src now thesis] ok oom 2 hd(1)
      by (simp add: hd(4) CoAP_InitToEmptyResetMsg_def wire_view_def receiver_refuses_def)
  next
    case 3
    have ne: "token_end src \<noteq> unat n" using 3 un hd(3) by (simp add: encode_payload_def)
    have "src ?e = 255" using bs(2) 3 by (simp add: encode_payload_def bytes_at_Suc)
    then have "parse_OptionsFromRaw A m (sub_at src (token_end src)) (n - of_nat (token_end src)) [] =
        Some (COAP_PARSE_MESSAGE_FORMAT_ERROR, None, [], m)"
      using ne unat_behind_token(1) [OF te] te by (auto simp: parse_OptionsFromRaw_def sub_at_def hd(3))
    then have "CoAP_ParseMessageFromDatagram A m now src n = Some (COAP_PARSE_MESSAGE_FORMAT_ERROR, None, m)"
      using ne by (simp add: parse_good_header [OF 3(1) te] Let_def)
    then show thesis by (rule refused) (use 3 hd(1) rep in \<open>simp_all add: receiver_refuses_def\<close>)
  next
    case 4
    have v: "wire_view Msg = (Type (parsed_header src), Code (parsed_header src), MessageID (parsed_header src),
         Token64 (parsed_header src), map opt_view (pOptionsList Msg), ?pl)" by (simp add: hd(4) wire_view_def)
    have f: "receiver_refuses Msg = (if 256 < length ?pl then Some COAP_PARSE_TOO_MUCH_PAYLOAD else None)"
      using 4 hd(1) by (simp add: receiver_refuses_def)
    show thesis
      by (rule parse_encoded_tail [OF rep 4(1) msg(2) 4(2), where data = ?pl and n = n and now = now])
        (use un bs hd(3) v f ok oom refused in \<open>auto simp: not_less\<close>)
  qed
qed

end

section \<open>Parsing with enough memory\<close>

context allocator_room
begin

lemma msg_copy_room:
  assumes "room (56 + uint (PayloadLength M) + b) m" "0 \<le> b" "PayloadLength M \<le> 256"
  obtains N m' where "START_MSG_COPY A m now src M pl = (COAP_OK, Some N, m')" "room b m'"
proof -
  let ?n = "sizeof_CoAP_Message_t + uint (PayloadLength M)"
  have "uint (PayloadLength M) \<le> 256" using assms(3) by (simp add: word_le_def)
  then have n: "0 < ?n" "?n \<le> MAX_REQ" "s16 ?n = ?n"
    by (auto simp: sizeof_CoAP_Message_t_def MAX_REQ_def intro!: s16_id add_pos_nonneg)
  obtain p m' where g: "coap_mem_get A m ?n = (p, m')" by fastforce
  have "p \<noteq> NULL \<and> room b m'"
    by (rule room_get [OF _ n(1,2) assms(2) g]) (use assms(1) in \<open>simp add: sizeof_CoAP_Message_t_def ROOM_COST_def\<close>)
  then show thesis using that n(3) g by (simp add: START_MSG_COPY_def Let_def)
qed

lemma parse_message_room:
  assumes "header_ok src \<Longrightarrow> token_end src \<le> unat n" "room (29 * int (unat n) + 56) m"
    and "CoAP_ParseMessageFromDatagram A m now src n = Some (r, M, m')"
  shows "r \<noteq> COAP_ERR_OUT_OF_MEMORY"
proof (cases "header_error src n")
  case (Some r')
  then show ?thesis using parse_bad_header [OF Some, of A m now] assms(3) by (auto simp: header_error_def split: if_splits)
next
  case None
  then have e: "token_end src \<le> unat n" and hd: "header_ok src" using assms(1) by (simp_all add: header_error_None)
  note eq = parse_good_header [OF hd e, of A m now] and u = unat_behind_token [OF e]
  let ?P = "parsed_header src"
  show ?thesis
  proof (cases "token_end src = unat n")
    case True
    have r: "room (56 + uint (PayloadLength ?P) + 0) m" "PayloadLength ?P = 0"
      using room_less [OF assms(2), of 56] by (simp_all add: parsed_header_def CoAP_InitToEmptyResetMsg_def)
    show ?thesis
      by (rule msg_copy_room [OF r(1), of now src None]) (use assms(3) eq True r(2) in simp_all)
  next
    case False
    obtain r1 pl L m1 where po: "parse_OptionsFromRaw A m (sub_at src (token_end src)) (n - of_nat (token_end src)) [] = Some (r1, pl, L, m1)"
      using assms(3) unfolding eq Let_def
      by (cases "parse_OptionsFromRaw A m (sub_at src (token_end src)) (n - of_nat (token_end src)) []") (use False in \<open>simp, metis prod_cases4\<close>)
    have "room (28 * int (unat (n - of_nat (token_end src))) + (56 + int (unat n))) m"
      by (rule room_less [OF assms(2)]) (use u(1) e in \<open>simp del: of_nat_unat\<close>)
    from parse_options_room [OF u(2) this _ po]
    have o: "r1 \<noteq> COAP_ERR_OUT_OF_MEMORY" "room (56 + int (unat n)) m1" by simp_all
    define plen where "plen = (case pl of None \<Rightarrow> 0 | Some b \<Rightarrow> n - of_nat (token_end src + b))"
    let ?M = "?P\<lparr>pOptionsList := L, PayloadLength := plen, PayloadBufSize := plen\<rparr>"
    have pl: "uint plen \<le> int (unat n)"
    proof (cases pl)
      case (Some b)
      have "b < unat (n - of_nat (token_end src))" using parse_options_payload [OF po [unfolded Some]] by simp
      then have "token_end src + b \<le> unat n" using u(1) by linarith
      then have "of_nat (token_end src + b) \<le> n"
        using unat_of_nat16 [of "token_end src + b"] unat_u16_lt [of n] by (simp only: word_le_nat_alt)
      then have "plen \<le> n" using Some by (simp only: plen_def option.case) (rule word_sub_le)
      then show ?thesis by (simp add: word_le_nat_alt uint_nat del: of_nat_unat)
    qed (simp add: plen_def)
    have eq': "CoAP_ParseMessageFromDatagram A m now src n =
        (if r1 \<noteq> COAP_OK then Some (r1, None, snd (snd (CoAP_FreeOptionList A m1 L)))
         else if pl \<noteq> None \<and> plen > 256 then Some (COAP_PARSE_TOO_MUCH_PAYLOAD, None, snd (snd (CoAP_FreeOptionList A m1 L)))
         else Some (START_MSG_COPY A m1 now src ?M (map_option (\<lambda>b. token_end src + b) pl)))"
      unfolding eq plen_def using False po by (simp add: Let_def)
    show ?thesis
    proof (cases "r1 \<noteq> COAP_OK \<or> pl \<noteq> None \<and> plen > 256")
      case True
      then show ?thesis using eq' o(1) assms(3) by (auto split: if_splits)
    next
      case ok: False
      have "plen \<le> 256" using ok by (cases pl) (auto simp: plen_def)
      moreover have "room (56 + uint (PayloadLength ?M) + 0) m1" using pl by (intro room_less [OF o(2)]) simp
      ultimately obtain N m2 where "START_MSG_COPY A m1 now src ?M (map_option (\<lambda>b. token_end src + b) pl) = (COAP_OK, Some N, m2)"
        by (rule_tac msg_copy_room [of ?M 0 m1 now src "map_option (\<lambda>b. token_end src + b) pl"]) simp_all
      then show ?thesis using assms(3) eq' ok by (auto split: if_splits)
    qed
  qed
qed

end

end
