(* ===== verification/Message_Ops.thy ===== *)
theory Message_Ops
  imports Message_Codec
begin

text \<open>
  Contracts of the message operations other than the codec: creation, payload replacement,
  sending. Each is stated once against the allocator interface: what the operation returns in
  every case, and which buffers it has taken or given back.
\<close>

section \<open>Creation\<close>

context coap_allocator
begin

lemma create_message:
  assumes rep: "rep m h" and max: "sizeof_CoAP_Message_t + uint mx \<le> MAX_REQ" and len: "n \<le> mx"
    and init: "case ini of None \<Rightarrow> True | Some bs \<Rightarrow> unat n \<le> length bs"
  obtains (ok) M m' h' where "CoAP_CreateMessage A m ty code mid ini n mx tok = (Some M, m')"
      "rep m' h'" "msg_owned (mem_area A m') h M h'" "msg_wf M" "pOptionsList M = []"
      "Type M = ty" "Code M = code" "MessageID M = mid" "Token64 M = tok" "PayloadLength M = n"
      "mx \<noteq> 0 \<Longrightarrow> take (unat n) (PayloadData M) = (case ini of None \<Rightarrow> replicate (unat n) 0 | Some bs \<Rightarrow> take (unat n) bs)"
  | (oom) m' where "CoAP_CreateMessage A m ty code mid ini n mx tok = (None, m')" "rep m' h"
proof -
  let ?n = "sizeof_CoAP_Message_t + uint mx"
  have s: "0 < ?n" "s16 ?n = ?n"
    using max uint_ge_0 [of mx] by (auto simp: sizeof_CoAP_Message_t_def MAX_REQ_def intro!: s16_id add_pos_nonneg)
  have nm: "unat n \<le> unat mx" using len by (simp add: word_le_nat_alt)
  obtain p m1 where get: "coap_mem_get0 A m ?n = (p, m1)" by fastforce
  from rep s(1) max get show thesis
  proof (cases rule: get0_cases)
    case fail
    then show thesis using oom [of m1] get s(2) by (simp add: CoAP_CreateMessage_def)
  next
    case (ok k)
    let ?M = "(CoAP_InitToEmptyResetMsg p)\<lparr>Type := ty, Code := code, MessageID := mid,
              Token64 := tok, Timestamp := 0, PayloadLength := n\<rparr>"
    let ?buf = "case ini of None \<Rightarrow> replicate (unat mx) 0
                        | Some bs \<Rightarrow> take (unat n) bs @ drop (unat n) (replicate (unat mx) 0)"
    define M where "M = (if mx \<noteq> 0 then ?M\<lparr>PayloadBufSize := mx, Payload := p + sizeof_CoAP_Message_t,
                   PayloadData := ?buf\<rparr> else ?M)"
    have eq: "CoAP_CreateMessage A m ty code mid ini n mx tok = (Some M, m1)"
      using get s(2) ok(1) len by (auto simp: CoAP_CreateMessage_def M_def Let_def not_le [symmetric])
    have M: "pOptionsList M = []" "Type M = ty" "Code M = code" "MessageID M = mid" "Token64 M = tok"
      "PayloadLength M = n" "msg_at M = p" "Payload M = NULL \<or> Payload M = p + sizeof_CoAP_Message_t"
      by (simp_all add: M_def CoAP_InitToEmptyResetMsg_def)
    have pd: "mx \<noteq> 0 \<Longrightarrow> take (unat n) (PayloadData M) = (case ini of None \<Rightarrow> replicate (unat n) 0 | Some bs \<Rightarrow> take (unat n) bs)"
      using nm init by (simp add: M_def split: option.splits)
    have "msg_wf M"
      using nm init len by (cases ini) (auto simp: msg_wf_def opts_wf_def M_def CoAP_InitToEmptyResetMsg_def)
    moreover have "uint n \<le> uint mx" using len by (simp add: word_le_def)
    then have "msg_owned (mem_area A m1) h M (h(p \<mapsto> k))"
      using ok(2-4) M by (intro embedded_payload_owned [OF ok(4)]) auto
    ultimately show thesis
      using that(1) [OF eq ok(4)] M pd by simp
  qed
qed

end

section \<open>Replacing the payload\<close>

context coap_allocator
begin

lemma free_payload_owned:
  assumes rep: "rep m h'" and own: "msg_owned (mem_area A m) h Msg h'"
  obtains M m1 h1 where "CoAP_free_MsgPayload A m Msg = (M, m1)" "rep m1 h1" "mem_area A m1 = mem_area A m"
    "heap_ext h (opt_ptrs (pOptionsList Msg) @ [msg_at Msg]) h1"
    "M = Msg \<or> M = Msg\<lparr>Payload := NULL, PayloadBufSize := 0, PayloadData := []\<rparr>"
    "payload_placed (mem_area A m1) h1 M" "Payload M \<notin> dom h1"
proof -
  let ?ps = "opt_ptrs (pOptionsList Msg) @ [msg_at Msg]"
  have ext: "heap_ext h (msg_ptrs h' Msg) h'" and pl: "payload_placed (mem_area A m) h' Msg"
    using own by (simp_all add: msg_owned_def)
  obtain k where k: "h' (msg_at Msg) = Some k"
    using heap_ext_live [OF ext, of "msg_at Msg"] by (auto simp: msg_ptrs_def)
  note free = free_payload [OF rep k pl]
  show thesis
  proof (cases "Payload Msg \<in> dom h'")
    case True
    then obtain l where l: "h' (Payload Msg) = Some l" by blast
    have "heap_ext h (Payload Msg # ?ps) h'"
      using ext True by (subst heap_ext_cong [where qs = "msg_ptrs h' Msg"]) (auto simp: msg_ptrs_def)
    then have "heap_ext h ?ps (h'(Payload Msg := None))" by (rule heap_ext_free)
    moreover note m1 = release_law [OF rep l]
    moreover have "NULL \<notin> dom (h'(Payload Msg := None))" using NULL_law [OF m1] unfolding domIff by simp
    moreover define N where "N = Msg\<lparr>Payload := NULL, PayloadBufSize := 0, PayloadData := []\<rparr>"
    moreover have "CoAP_free_MsgPayload A m Msg = (N, coap_mem_release A m (Payload Msg))"
      unfolding free N_def using True by (rule if_P)
    moreover have "Payload N = NULL" "payload_placed ar (h'(Payload Msg := None)) N" for ar
      by (simp_all add: N_def payload_placed_def)
    ultimately show thesis
      by (intro that [OF _ m1 area_release, of N]) (simp_all only: simp_thms)
  next
    case False
    then have "CoAP_free_MsgPayload A m Msg = (Msg, m)" "heap_ext h ?ps h'"
      using free ext by (simp_all only: msg_ptrs_def if_False append_Nil)
    then show thesis using False by (intro that [OF _ rep refl _ disjI1 [OF refl] pl])
  qed
qed

text \<open>After \<open>CoAP_addNewPayloadToMessage\<close> the payload is the given data, and the message still
  owns all its buffers; the only other outcomes are the size error and the unchecked allocation
  failure.\<close>

lemma add_payload:
  assumes rep: "rep m h'" and own: "msg_owned (mem_area A m) h Msg h'" and data: "unat sz \<le> length data"
  obtains (ok) M m1 h1 where "CoAP_addNewPayloadToMessage A m Msg data sz = Some (COAP_OK, M, m1)"
      "rep m1 h1" "msg_owned (mem_area A m1) h M h1" "PayloadLength M = sz"
      "take (unat sz) (PayloadData M) = take (unat sz) data" "pOptionsList M = pOptionsList Msg"
  | (big) "CoAP_addNewPayloadToMessage A m Msg data sz = Some (COAP_ERR_OUT_OF_MEMORY, Msg, m)" "sz > 256"
  | (oom) "CoAP_addNewPayloadToMessage A m Msg data sz = None" "PayloadBufSize Msg < sz"
proof -
  obtain M m1 h1 where fr: "CoAP_free_MsgPayload A m Msg = (M, m1)" and m1: "rep m1 h1" "mem_area A m1 = mem_area A m"
    and ext: "heap_ext h (opt_ptrs (pOptionsList Msg) @ [msg_at Msg]) h1"
    and M: "M = Msg \<or> M = Msg\<lparr>Payload := NULL, PayloadBufSize := 0, PayloadData := []\<rparr>"
    and pl: "payload_placed (mem_area A m1) h1 M" "Payload M \<notin> dom h1"
    by (rule free_payload_owned [OF rep own])
  have same: "pOptionsList M = pOptionsList Msg" "msg_at M = msg_at Msg" using M by auto
  consider "sz > 256" | "sz = 0" | "sz \<le> 256" "sz \<noteq> 0" "sz \<le> PayloadBufSize Msg"
    | "sz \<le> 256" "sz \<noteq> 0" "PayloadBufSize Msg < sz"
    by (metis not_le)
  then show thesis
  proof cases
    case 1
    then show thesis using big by (simp add: CoAP_addNewPayloadToMessage_def)
  next
    case 2
    have "msg_owned (mem_area A m1) h (M\<lparr>PayloadLength := 0\<rparr>) h1"
      using ext pl same by (simp add: msg_owned_def msg_ptrs_def payload_placed_def)
    with 2 show thesis
      using ok [of "M\<lparr>PayloadLength := 0\<rparr>" m1 h1] fr m1(1) same by (simp add: CoAP_addNewPayloadToMessage_def)
  next
    case 3
    let ?N = "Msg\<lparr>PayloadData := take (unat sz) data @ drop (unat sz) (PayloadData Msg), PayloadLength := sz\<rparr>"
    have "msg_owned (mem_area A m) h ?N h'"
      using own by (auto simp: msg_owned_def msg_ptrs_def payload_placed_def split: if_splits)
    with 3 show thesis
      using ok [of ?N m h'] rep data by (simp add: CoAP_addNewPayloadToMessage_def not_less)
  next
    case 4
    have u: "uint sz \<le> 256" "0 < uint sz" using 4(1,2) unat_gt_0 [of sz]
      unfolding uint_nat by (simp_all add: word_le_nat_alt del: of_nat_unat)
    then have sz: "s16 (uint sz) = uint sz" "uint sz \<le> MAX_REQ" by (auto simp: MAX_REQ_def intro!: s16_id)
    obtain p m2 where get: "coap_mem_get A m1 (uint sz) = (p, m2)" by fastforce
    from m1(1) u(2) sz(2) get show thesis
    proof (cases rule: get_cases)
      case fail
      with 4 get sz(1) fr show thesis
        using oom by (simp add: CoAP_addNewPayloadToMessage_def not_less not_le)
    next
      case got: (ok k)
      let ?N = "M\<lparr>Payload := p, PayloadBufSize := sz, PayloadData := take (unat sz) data, PayloadLength := sz\<rparr>"
      have "p \<noteq> msg_at Msg" using got(2) heap_ext_live [OF ext, of "msg_at Msg"] by auto
      then have "payload_placed (mem_area A m2) (h1(p \<mapsto> k)) ?N"
        using same by (simp add: payload_placed_def)
      moreover have "heap_ext h (msg_ptrs (h1(p \<mapsto> k)) ?N) (h1(p \<mapsto> k))"
        using heap_ext_alloc [OF ext got(2), of k] same
        by (subst heap_ext_cong [where qs = "p # opt_ptrs (pOptionsList Msg) @ [msg_at Msg]"]) (auto simp: msg_ptrs_def)
      ultimately have "msg_owned (mem_area A m2) h ?N (h1(p \<mapsto> k))" by (simp add: msg_owned_def)
      moreover have "\<not> sz > MAX_PAYLOAD_SIZE" "\<not> PayloadBufSize Msg \<ge> sz" using 4 by (simp_all add: not_less not_le)
      then have "CoAP_addNewPayloadToMessage A m Msg data sz = Some (COAP_OK, ?N, m2)"
        using 4(2) got(1) get sz(1) fr by (simp add: CoAP_addNewPayloadToMessage_def del: MAX_PAYLOAD_SIZE_def)
      ultimately show thesis
        using ok [of ?N m2 "h1(p \<mapsto> k)"] got(4) same by simp
    qed
  qed
qed

end

section \<open>Sending\<close>

text \<open>The packet that carries a message, and the message after sending.\<close>

definition packet_of :: "NetPacket_t \<Rightarrow> NetSocket_t \<Rightarrow> NetEp_t \<Rightarrow> CoAP_Message_t \<Rightarrow> NetPacket_t" where
  "packet_of pked s Rcv Msg = pked\<lparr>pData := encode_message Msg, pk_size := of_nat (length (encode_message Msg)),
     Sender := EpLocal s, Receiver := Rcv\<rparr>"

definition sent_msg :: "u32 \<Rightarrow> bool \<Rightarrow> CoAP_Message_t \<Rightarrow> CoAP_Message_t" where
  "sent_msg now sent Msg =
     (let M = (if Code Msg = EMPTY then Msg\<lparr>PayloadLength := 0\<rparr> else Msg)
      in if sent then M\<lparr>Timestamp := now\<rparr> else M)"

context coap_allocator
begin

lemma send_msg:
  assumes rep: "rep m h" and wf: "msg_wf Msg" and len: "int (length (encode_message Msg)) \<le> MAX_REQ"
    and sock: "RetrieveSocket2 S i = Some k" "Tx (SocketMemory S ! k) = Some send"
  obtains (sent) m' pk where "pk = packet_of pked (SocketMemory S ! k) Rcv Msg"
      "CoAP_SendMsg A m now S buf pked Msg i Rcv =
         Some (if send i pk then COAP_OK else COAP_ERR_NETWORK, sent_msg now (send i pk) Msg, Some pk, m')"
      "rep m' h" "mem_area A m' = mem_area A m"
  | (oom) m' where "CoAP_SendMsg A m now S buf pked Msg i Rcv = Some (COAP_ERR_OUT_OF_MEMORY, Msg, None, m')"
      "rep m' h" "16 < length (encode_message Msg)"
proof -
  let ?n = "length (encode_message Msg)"
  define pk where "pk = packet_of pked (SocketMemory S ! k) Rcv Msg"
  have n: "?n < 65536" using len by (simp add: MAX_REQ_def)
  have size: "of_int (CoAP_GetRawSizeOfMessage Msg) = (of_nat ?n :: u16)"
    using RawSize_length [OF wf n] by simp
  have un: "unat (of_nat ?n :: u16) = ?n" by (rule unat_of_nat16 [OF n])
  then have ui: "uint (of_nat ?n :: u16) = int ?n" unfolding uint_nat by simp
  have quick: "(of_nat ?n :: u16) \<le> 16 \<longleftrightarrow> ?n \<le> 16" by (simp add: word_le_nat_alt un)
  have s16: "s16 (int ?n) = int ?n" using len by (intro s16_id) (simp_all add: MAX_REQ_def)
  have pk': "pked\<lparr>Receiver := Rcv, Sender := EpLocal (SocketMemory S ! k), pk_size := of_nat ?n,
      pData := encode_message Msg\<rparr> = pk"
    by (simp add: pk_def packet_of_def)
  let ?send = "\<lambda>m2. Some (if send i pk then COAP_OK else COAP_ERR_NETWORK, sent_msg now (send i pk) Msg, Some pk, m2)"
  have eq: "CoAP_SendMsg A m now S buf pked Msg i Rcv =
     (let (pd, m1) = (if ?n \<le> 16 then (NULL, m) else coap_mem_get A m (int ?n)) in
      if \<not> ?n \<le> 16 \<and> pd = NULL then Some (COAP_ERR_OUT_OF_MEMORY, Msg, None, m1)
      else ?send (if ?n \<le> 16 then m1 else coap_mem_release A m1 pd))"
    unfolding CoAP_SendMsg_def size
    by (simp add: sock Let_def BuildDatagram_write [OF wf n] un ui s16 quick pk' sent_msg_def split: prod.splits)
  show thesis
  proof (cases "?n \<le> 16")
    case True
    then show thesis using sent [OF pk_def, of m] eq rep by simp
  next
    case False
    obtain pd m1 where get: "coap_mem_get A m (int ?n) = (pd, m1)" by fastforce
    have "0 < int ?n" using False by linarith
    from rep this len get show thesis
    proof (cases rule: get_cases)
      case fail
      then show thesis using oom [of m1] eq get False by simp
    next
      case (ok j)
      have "rep (coap_mem_release A m1 pd) ((h(pd \<mapsto> j))(pd := None))"
        by (rule release_law [OF ok(4)]) simp
      moreover have "(h(pd \<mapsto> j))(pd := None) = h" using ok(2) by auto
      ultimately show thesis
        using sent [OF pk_def, of "coap_mem_release A m1 pd"] eq get False ok(1) area_release area_get [OF get] by simp
    qed
  qed
qed

end

end
