(* ===== verification/Ownership.thy ===== *)
theory Ownership
  imports Message_Ops
begin

text \<open>
  Ownership of several objects at once. The stack keeps single buffers (interactions, resources,
  observers, options) and messages, which consist of several buffers. \<open>owns ar g os h\<close> says that
  heap \<open>h\<close> is heap \<open>g\<close> together with the buffers of the objects \<open>os\<close>, all of them distinct. The
  lemmas are the rules with which exchanges are followed from one operation to the next: objects
  can be reordered, taken out, put back, and an operation on one of them leaves the others alone.
\<close>

section \<open>Objects\<close>

datatype obj = OBuf ptr | OMsg CoAP_Message_t

primrec obj_ptrs :: "heap \<Rightarrow> obj \<Rightarrow> ptr list" where
  "obj_ptrs h (OBuf p) = [p]"
| "obj_ptrs h (OMsg M) = msg_ptrs h M"

primrec obj_placed :: "ptr \<times> ptr \<Rightarrow> heap \<Rightarrow> obj \<Rightarrow> bool" where
  "obj_placed ar h (OBuf p) \<longleftrightarrow> True"
| "obj_placed ar h (OMsg M) \<longleftrightarrow> payload_placed ar h M"

definition owns :: "ptr \<times> ptr \<Rightarrow> heap \<Rightarrow> obj list \<Rightarrow> heap \<Rightarrow> bool" where
  "owns ar g xs h \<longleftrightarrow> heap_ext g (concat (map (obj_ptrs h) xs)) h \<and> list_all (obj_placed ar h) xs"

lemma owns_Nil [simp]: "owns ar g [] h \<longleftrightarrow> h = g"
  by (simp add: owns_def)

lemma owns_OMsg [simp]: "owns ar g [OMsg M] h \<longleftrightarrow> msg_owned ar g M h"
  by (simp add: owns_def msg_owned_def)

lemma owns_OBuf: "owns ar g [OBuf p] h \<longleftrightarrow> heap_ext g [p] h"
  by (simp add: owns_def)

lemma mset_concat_map: "mset (concat (map f xs)) = (\<Sum>x \<in># mset xs. mset (f x))"
  by (induction xs) simp_all

lemma owns_mset: "mset xs = mset ys \<Longrightarrow> owns ar g xs h \<longleftrightarrow> owns ar g ys h"
  using heap_ext_mset [of "concat (map (obj_ptrs h) xs)" "concat (map (obj_ptrs h) ys)" g h] mset_eq_setD [of xs ys]
  by (simp add: owns_def list_all_iff mset_concat_map)

text \<open>Whether the payload is a buffer of its own does not change while the message is live.\<close>

lemma own_payload_in: "Payload M \<in> dom h \<Longrightarrow> Payload M \<in> set (msg_ptrs h M)"
  by (simp add: msg_ptrs_def)

lemma msg_ptrs_cong: "(Payload M \<in> dom h \<longleftrightarrow> Payload M \<in> dom h') \<Longrightarrow> msg_ptrs h M = msg_ptrs h' M"
  by (simp add: msg_ptrs_def)

lemma obj_below:
  assumes "set (obj_ptrs h x) \<subseteq> dom g" "g \<subseteq>\<^sub>m h" "obj_placed ar h x"
  shows "obj_ptrs g x = obj_ptrs h x \<and> obj_placed ar g x"
proof (cases x)
  case (OMsg M)
  have eq: "Payload M \<in> dom g \<longleftrightarrow> Payload M \<in> dom h"
    using assms(1) map_le_implies_dom_le [OF assms(2)] own_payload_in [of M h] OMsg by auto
  have "msg_at M \<in> dom g" using assms(1) OMsg by (simp add: msg_ptrs_def)
  then have "g (msg_at M) = h (msg_at M)" using assms(2) by (auto simp: map_le_def)
  then show ?thesis using msg_ptrs_cong [OF eq] eq assms(3) OMsg by (simp add: payload_placed_def)
qed simp

lemma objs_below:
  assumes "set (concat (map (obj_ptrs h) xs)) \<subseteq> dom g" "g \<subseteq>\<^sub>m h" "list_all (obj_placed ar h) xs"
  shows "concat (map (obj_ptrs g) xs) = concat (map (obj_ptrs h) xs) \<and> list_all (obj_placed ar g) xs"
proof -
  have "obj_ptrs g x = obj_ptrs h x \<and> obj_placed ar g x" if "x \<in> set xs" for x
    using that assms by (intro obj_below) (auto simp: list_all_iff)
  then show ?thesis by (simp add: list_all_iff cong: map_cong)
qed

lemma heap_ext_le: "heap_ext g ps h \<Longrightarrow> g \<subseteq>\<^sub>m h"
  by (auto simp: map_le_def dest: heap_ext_mono)

text \<open>Taking objects out.\<close>

lemma owns_split:
  assumes "owns ar g (xs @ ys) h"
  obtains g' where "owns ar g ys g'" "owns ar g' xs h"
proof -
  let ?X = "concat (map (obj_ptrs h) xs)" and ?Y = "concat (map (obj_ptrs h) ys)"
  obtain g' where g': "heap_ext g ?Y g'" "heap_ext g' ?X h"
    using assms by (auto simp: owns_def heap_ext_append)
  have "set ?Y \<subseteq> dom g'" using g'(1) by (simp add: heap_ext_def)
  from objs_below [OF this heap_ext_le [OF g'(2)], of ar] assms
  have "owns ar g ys g'" using g'(1) by (simp add: owns_def)
  moreover have "owns ar g' xs h" using g'(2) assms by (simp add: owns_def)
  ultimately show thesis by (rule that)
qed

context coap_allocator
begin

text \<open>Putting objects back: here the allocator has to guarantee that a new buffer does not lie
  inside an older message.\<close>

lemma obj_above:
  assumes rep: "rep m h" and le: "g \<subseteq>\<^sub>m h" and at: "set (obj_ptrs g x) \<subseteq> dom g" and ok: "obj_placed (mem_area A m) g x"
  shows "obj_ptrs h x = obj_ptrs g x \<and> obj_placed (mem_area A m) h x"
proof (cases x)
  case (OMsg M)
  obtain k where k: "g (msg_at M) = Some k" using at OMsg by (auto simp: msg_ptrs_def)
  then have kh: "h (msg_at M) = Some k" using le by (metis domI map_le_def)
  have eq: "Payload M \<in> dom g \<longleftrightarrow> Payload M \<in> dom h"
  proof
    assume "Payload M \<in> dom h"
    then obtain l where l: "h (Payload M) = Some l" by blast
    show "Payload M \<in> dom g"
    proof (rule ccontr)
      assume "Payload M \<notin> dom g"
      moreover have "Payload M \<noteq> NULL" using NULL_law [OF rep] l by auto
      moreover have "\<not> (Payload M < fst (mem_area A m) \<or> snd (mem_area A m) < Payload M)"
        using bounds_law [OF rep l] size_law [OF rep l] by (auto simp: mem_area_def)
      ultimately have "msg_at M < Payload M" "Payload M \<le> msg_at M + k"
        using ok OMsg k by (auto simp: payload_placed_def)
      then show False using apart_law [OF rep kh l] by linarith
    qed
  qed (use le in \<open>auto dest: map_le_implies_dom_le\<close>)
  then show ?thesis using msg_ptrs_cong [OF eq] ok OMsg k kh by (auto simp: payload_placed_def)
qed simp

lemma owns_join:
  assumes "rep m h" "owns (mem_area A m) g ys g'" "owns (mem_area A m) g' xs h"
  shows "owns (mem_area A m) g (xs @ ys) h"
proof -
  have le: "g' \<subseteq>\<^sub>m h" using assms(3) by (auto simp: owns_def intro: heap_ext_le)
  have Y: "set (concat (map (obj_ptrs g') ys)) \<subseteq> dom g'" using assms(2) by (simp add: owns_def heap_ext_def)
  have "obj_ptrs h y = obj_ptrs g' y \<and> obj_placed (mem_area A m) h y" if "y \<in> set ys" for y
    using that Y assms(2) by (intro obj_above [OF assms(1) le]) (auto simp: owns_def list_all_iff)
  then have "concat (map (obj_ptrs h) ys) = concat (map (obj_ptrs g') ys)" "list_all (obj_placed (mem_area A m) h) ys"
    by (simp_all add: list_all_iff cong: map_cong)
  then show ?thesis using assms(2,3) by (auto simp: owns_def heap_ext_append)
qed

text \<open>The frame rule: what is shown of an operation on the objects \<open>xs\<close> alone holds among others.\<close>

lemma owns_frame:
  assumes "owns (mem_area A m) g (xs @ zs) h"
    and "\<And>g'. owns (mem_area A m) g' xs h \<Longrightarrow> \<exists>h'. rep m' h' \<and> owns (mem_area A m') g' ys h'"
    and "mem_area A m' = mem_area A m"
  obtains h' where "rep m' h'" "owns (mem_area A m') g (ys @ zs) h'"
proof -
  obtain g' where g': "owns (mem_area A m) g zs g'" "owns (mem_area A m) g' xs h"
    using owns_split [OF assms(1)] .
  then obtain h' where "rep m' h'" "owns (mem_area A m') g' ys h'" using assms(2) by blast
  then show thesis using that owns_join [of m' h' g zs g' ys] g'(1) assms(3) by simp
qed

lemma owns_release:
  assumes "rep m h" "owns (mem_area A m) g (OBuf p # zs) h"
  obtains h' where "rep (coap_mem_release A m p) h'" "owns (mem_area A (coap_mem_release A m p)) g zs h'"
proof (rule owns_frame [of m g "[OBuf p]" zs h "coap_mem_release A m p" "[]"])
  show "\<exists>h'. rep (coap_mem_release A m p) h' \<and> owns (mem_area A (coap_mem_release A m p)) g' [] h'"
    if "owns (mem_area A m) g' [OBuf p] h" for g'
    using release_ext [OF assms(1), of g' "[p]"] that by (simp add: owns_OBuf)
qed (use assms that in \<open>simp_all add: area_release\<close>)

lemma owns_free_message:
  assumes "rep m h" "owns (mem_area A m) g (OMsg M # zs) h"
  obtains m' h' where "CoAP_free_Message A m (Some M) = (COAP_OK, None, m')" "rep m' h'"
    "mem_area A m' = mem_area A m" "owns (mem_area A m') g zs h'"
proof -
  obtain g' where g': "owns (mem_area A m) g zs g'" "msg_owned (mem_area A m) g' M h"
    by (rule owns_split [of "mem_area A m" g "[OMsg M]" zs h]) (use assms(2) in simp_all)
  obtain m' where "CoAP_free_Message A m (Some M) = (COAP_OK, None, m')" "rep m' g'" "mem_area A m' = mem_area A m"
    by (rule free_message [OF assms(1) g'(2)])
  then show thesis using that g'(1) by simp
qed

lemma owns_alloc:
  assumes "rep m h" "owns (mem_area A m) g zs h" "rep m' (h(p \<mapsto> k))" "h p = None" "mem_area A m' = mem_area A m"
  shows "owns (mem_area A m') g (OBuf p # zs) (h(p \<mapsto> k))"
proof -
  have "heap_ext h [p] (h(p \<mapsto> k))" using heap_ext_alloc [of h "[]" h p k] assms(4) by simp
  then show ?thesis
    using owns_join [OF assms(3), of g zs h "[OBuf p]"] assms(2,5) by (simp add: owns_OBuf)
qed

lemma area_CreateMessage: "CoAP_CreateMessage A m ty code mid ini n mx tok = (r, m') \<Longrightarrow> mem_area A m' = mem_area A m"
  by (auto simp: CoAP_CreateMessage_def Let_def split: prod.splits if_splits dest: area_get0)

lemma owns_create:
  assumes "rep m h" "owns (mem_area A m) g zs h" "CoAP_CreateMessage A m ty code mid ini n mx tok = (r, m')"
    and "sizeof_CoAP_Message_t + uint mx \<le> MAX_REQ" "n \<le> mx" "case ini of None \<Rightarrow> True | Some bs \<Rightarrow> unat n \<le> length bs"
  obtains (oom) "r = None" "rep m' h" "owns (mem_area A m') g zs h"
  | (ok) M h' where "r = Some M" "rep m' h'" "owns (mem_area A m') g (OMsg M # zs) h'" "msg_wf M" "pOptionsList M = []"
      "Type M = ty" "Code M = code" "MessageID M = mid" "Token64 M = tok" "PayloadLength M = n"
proof -
  note ar = area_CreateMessage [OF assms(3)]
  show thesis
  proof (rule create_message [OF assms(1,4-6), of ty code mid tok])
    fix M m1 h1
    assume M: "CoAP_CreateMessage A m ty code mid ini n mx tok = (Some M, m1)"
      "rep m1 h1" "msg_owned (mem_area A m1) h M h1" "msg_wf M" "pOptionsList M = []"
      "Type M = ty" "Code M = code" "MessageID M = mid" "Token64 M = tok" "PayloadLength M = n"
    have "owns (mem_area A m1) g ([OMsg M] @ zs) h1"
      by (rule owns_join [OF M(2)]) (use assms(2,3) M ar in simp_all)
    then show thesis using ok M assms(3) by simp
  next
    fix m1
    assume "CoAP_CreateMessage A m ty code mid ini n mx tok = (None, m1)" "rep m1 h"
    then show thesis using oom assms(2,3) ar by simp
  qed
qed

end

end
