(* ===== verification/Option_Types.thy ===== *)
theory Option_Types
  imports Message_Ops
begin

text \<open>
  The typed options under \<open>option-types/\<close>: ETag, Content-Format, Observe with the observer
  lists, and block-wise transfer with \<open>CoAP_SetPayload\<close>. The options of a message are changed
  through \<open>CoAP_AppendOptionToList\<close> and \<open>CoAP_RemoveOptionFromList\<close>.
\<close>

definition append_to_msg :: "'m mem_ops \<Rightarrow> 'm \<Rightarrow> CoAP_Message_t \<Rightarrow> u16 \<Rightarrow> u8 list \<Rightarrow> u16
    \<Rightarrow> CoAP_Result_t \<times> CoAP_Message_t \<times> 'm" where
  "append_to_msg A m msg n buf len =
     (let (r, L, m') = CoAP_AppendOptionToList A m (pOptionsList msg) n buf len
      in (r, msg\<lparr>pOptionsList := L\<rparr>, m'))"

section \<open>ETag\<close>

text \<open>The sum over the data is computed but not used.\<close>

definition AddETagOptionToMsg :: "'m mem_ops \<Rightarrow> 'm \<Rightarrow> CoAP_Message_t \<Rightarrow> u8 list
    \<Rightarrow> CoAP_Result_t \<times> CoAP_Message_t \<times> 'm" where
  "AddETagOptionToMsg A m msg data =
     (let hash = foldl (\<lambda>h b. h + ucast b) (0 :: u32) data;
          wBuf = [1, 2, 3, 4]
      in append_to_msg A m msg OPT_NUM_ETAG wBuf 4)"

fun GetETagOptionFromList :: "CoAP_option_t list \<Rightarrow> CoAP_Result_t \<times> u8 list" where
  "GetETagOptionFromList [] = (COAP_NOT_FOUND, [])"
| "GetETagOptionFromList (pOpts # next) =
     (if Number pOpts = OPT_NUM_ETAG then
        (if Length pOpts = 0 \<or> Length pOpts > 8 then (COAP_BAD_OPTION_LEN, [])
         else (COAP_OK, take (unat (Length pOpts)) (Value pOpts)))
      else GetETagOptionFromList next)"

definition GetETagOptionFromMsg :: "CoAP_Message_t \<Rightarrow> CoAP_Result_t \<times> u8 list" where
  "GetETagOptionFromMsg msg = GetETagOptionFromList (pOptionsList msg)"

function etag64_loop :: "nat \<Rightarrow> u8 list \<Rightarrow> u64 \<Rightarrow> u8 list \<times> nat" where
  "etag64_loop i wBuf val =
     (if i < 8 then
        let wBuf = wBuf @ [ucast (val AND 0xff)];
            val = drop_bit 8 val
        in if val = 0 then (wBuf, i) else etag64_loop (i + 1) wBuf val
      else (wBuf, i))"
  by pat_completeness auto
termination by (relation "measure (\<lambda>(i, _, _). 8 - i)") auto

declare etag64_loop.simps [simp del]

definition Add64BitETagOptionToMsg :: "'m mem_ops \<Rightarrow> 'm \<Rightarrow> CoAP_Message_t \<Rightarrow> u64
    \<Rightarrow> CoAP_Result_t \<times> CoAP_Message_t \<times> 'm" where
  "Add64BitETagOptionToMsg A m msg val =
     (let (wBuf, i) = etag64_loop 0 [] val
      in append_to_msg A m msg OPT_NUM_ETAG wBuf (of_nat (i + 1)))"

definition Get64BitETagOptionFromMsg :: "CoAP_Message_t \<Rightarrow> CoAP_Result_t \<times> u64 option" where
  "Get64BitETagOptionFromMsg msg =
     (let (res, wBuf) = GetETagOptionFromMsg msg
      in if res \<noteq> COAP_OK then (res, None)
         else (COAP_OK, Some (foldl (\<lambda>v i. v OR push_bit (i * 8) (ucast (wBuf ! i))) 0 [0..<length wBuf])))"

section \<open>Content-Format\<close>

definition COAP_CF_LINK_FORMAT :: u16 where [simp]: "COAP_CF_LINK_FORMAT = 40"

definition AddCfOptionToMsg :: "'m mem_ops \<Rightarrow> 'm \<Rightarrow> CoAP_Message_t \<Rightarrow> u16 \<Rightarrow> CoAP_Result_t \<times> CoAP_Message_t \<times> 'm" where
  "AddCfOptionToMsg A m msg cf =
     (let (_, msg', m') =
        (if cf = 0 then append_to_msg A m msg OPT_NUM_CONTENT_FORMAT [] 0
         else if cf \<le> 0xff then append_to_msg A m msg OPT_NUM_CONTENT_FORMAT [ucast cf] 1
         else append_to_msg A m msg OPT_NUM_CONTENT_FORMAT [ucast (cf AND 0xff), ucast (drop_bit 8 cf)] 2)
      in (COAP_OK, msg', m'))"

section \<open>Observe\<close>

definition OBSERVE_OPT_REGISTER :: u32 where [simp]: "OBSERVE_OPT_REGISTER = 0"
definition OBSERVE_OPT_DEREGISTER :: u32 where [simp]: "OBSERVE_OPT_DEREGISTER = 1"

definition AddObserveOptionToMsg :: "'m mem_ops \<Rightarrow> 'm \<Rightarrow> CoAP_Message_t \<Rightarrow> u32
    \<Rightarrow> CoAP_Result_t \<times> CoAP_Message_t \<times> 'm" where
  "AddObserveOptionToMsg A m msg val =
     (if val > 0xffff then
        append_to_msg A m msg OPT_NUM_OBSERVE
          [ucast (drop_bit 16 val AND 0xff), ucast (drop_bit 8 val AND 0xff), ucast (val AND 0xff)] 3
      else if val > 0xff then
        append_to_msg A m msg OPT_NUM_OBSERVE [ucast (drop_bit 8 val AND 0xff), ucast (val AND 0xff)] 2
      else if val > 0 then append_to_msg A m msg OPT_NUM_OBSERVE [ucast (val AND 0xff)] 1
      else append_to_msg A m msg OPT_NUM_OBSERVE [] 0)"

definition RemoveObserveOptionFromMsg :: "'m mem_ops \<Rightarrow> 'm \<Rightarrow> CoAP_Message_t
    \<Rightarrow> CoAP_Result_t \<times> CoAP_Message_t \<times> 'm" where
  "RemoveObserveOptionFromMsg A m msg =
     (case find (\<lambda>pOpt. Number pOpt = OPT_NUM_OBSERVE) (pOptionsList msg) of
        Some pOpt \<Rightarrow>
          let (_, L, m') = CoAP_RemoveOptionFromList A m (pOptionsList msg) (opt_at pOpt)
          in (COAP_OK, msg\<lparr>pOptionsList := L\<rparr>, m')
      | None \<Rightarrow> (COAP_NOT_FOUND, msg, m))"

definition UpdateObserveOptionInMsg :: "'m mem_ops \<Rightarrow> 'm \<Rightarrow> CoAP_Message_t \<Rightarrow> u32
    \<Rightarrow> CoAP_Result_t \<times> CoAP_Message_t \<times> 'm" where
  "UpdateObserveOptionInMsg A m msg val =
     (let (_, msg', m') = RemoveObserveOptionFromMsg A m msg
      in AddObserveOptionToMsg A m' msg' val)"

fun GetObserveOptionFromList :: "CoAP_option_t list \<Rightarrow> CoAP_Result_t \<times> u32" where
  "GetObserveOptionFromList [] = (COAP_NOT_FOUND, 0)"
| "GetObserveOptionFromList (pOpts # next) =
     (if Number pOpts = OPT_NUM_OBSERVE then
        (let v = (\<lambda>i. ucast (Value pOpts ! i) :: u32) in
         if Length pOpts = 0 then (COAP_OK, 0)
         else if Length pOpts = 1 then (COAP_OK, v 0)
         else if Length pOpts = 2 then (COAP_OK, push_bit 8 (v 0) OR v 1)
         else if Length pOpts = 3 then (COAP_OK, (push_bit 16 (v 0) OR push_bit 8 (v 1)) OR v 2)
         else (COAP_BAD_OPTION_VAL, 0))
      else GetObserveOptionFromList next)"

definition GetObserveOptionFromMsg :: "CoAP_Message_t \<Rightarrow> CoAP_Result_t \<times> u32" where
  "GetObserveOptionFromMsg msg = GetObserveOptionFromList (pOptionsList msg)"

section \<open>Observers\<close>

record CoAP_Observer_t =
  ob_at :: ptr
  Ep :: NetEp_t
  IfID :: u8
  FailCount :: u8
  Token :: u64
  pOptList :: "CoAP_option_t list"

definition sizeof_CoAP_Observer_t :: int where
  "sizeof_CoAP_Observer_t = 48"

text \<open>The fresh observer is all zero bytes.\<close>

definition zero_ep :: NetEp_t where
  "zero_ep = \<lparr>NetType = IPV6, NetAddr = replicate 16 0, NetPort = 0\<rparr>"

definition CoAP_AllocNewObserver :: "'m mem_ops \<Rightarrow> 'm \<Rightarrow> CoAP_Observer_t option \<times> 'm" where
  "CoAP_AllocNewObserver A m =
     (let (p, m') = coap_mem_get0 A m sizeof_CoAP_Observer_t
      in if p = NULL then (None, m')
         else (Some \<lparr>ob_at = p, Ep = zero_ep, IfID = 0, FailCount = 0, Token = 0, pOptList = []\<rparr>, m'))"

definition CoAP_FreeObserver :: "'m mem_ops \<Rightarrow> 'm \<Rightarrow> CoAP_Observer_t \<Rightarrow> CoAP_Result_t \<times> 'm" where
  "CoAP_FreeObserver A m pObserver =
     (let (_, _, m1) = CoAP_FreeOptionList A m (pOptList pObserver)
      in (COAP_OK, coap_mem_release A m1 (ob_at pObserver)))"

definition CoAP_AppendObserverToList :: "CoAP_Observer_t list \<Rightarrow> CoAP_Observer_t option
    \<Rightarrow> CoAP_Result_t \<times> CoAP_Observer_t list" where
  "CoAP_AppendObserverToList L pObserverToAdd =
     (case pObserverToAdd of None \<Rightarrow> (COAP_ERR_ARGUMENT, L) | Some p \<Rightarrow> (COAP_OK, L @ [p]))"

fun CoAP_UnlinkObserverFromList :: "'m mem_ops \<Rightarrow> 'm \<Rightarrow> CoAP_Observer_t list \<Rightarrow> ptr \<Rightarrow> bool
    \<Rightarrow> CoAP_Result_t \<times> CoAP_Observer_t list \<times> 'm" where
  "CoAP_UnlinkObserverFromList A m [] p FreeUnlinked = (COAP_OK, [], m)"
| "CoAP_UnlinkObserverFromList A m (currP # rest) p FreeUnlinked =
     (if ob_at currP = p then
        (COAP_OK, rest, if FreeUnlinked then snd (CoAP_FreeObserver A m currP) else m)
      else let (r, rest', m') = CoAP_UnlinkObserverFromList A m rest p FreeUnlinked
           in (r, currP # rest', m'))"

section \<open>Block-wise transfer\<close>

definition BLOCK_1 :: u16 where [simp]: "BLOCK_1 = 27"
definition BLOCK_2 :: u16 where [simp]: "BLOCK_2 = 23"
definition BLOCK_SIZE_16 :: u32 where [simp]: "BLOCK_SIZE_16 = 16"

record CoAP_blockwise_option_t =
  BlkType :: u16
  BlockSize :: u32
  MoreFlag :: bool
  BlockNum :: u32

text \<open>The scan for the highest bit of the block size divided by 16.\<close>

definition szx_bits :: "u32 \<Rightarrow> u32" where
  "szx_bits sz =
     (let szxCalc = (ucast (drop_bit 4 sz) :: u8)
      in case find (\<lambda>i. szxCalc AND push_bit i 1 \<noteq> 0) [6, 5, 4, 3, 2, 1, 0] of
           Some i \<Rightarrow> of_nat i
         | None \<Rightarrow> 0)"

definition blk_value :: "CoAP_blockwise_option_t \<Rightarrow> u32" where
  "blk_value blkOption =
     (let v = szx_bits (BlockSize blkOption);
          v = (if MoreFlag blkOption then v OR push_bit 3 1 else v)
      in v OR push_bit 4 (BlockNum blkOption))"

definition AddBlkOptionToMsg :: "'m mem_ops \<Rightarrow> 'm \<Rightarrow> CoAP_Message_t \<Rightarrow> CoAP_blockwise_option_t
    \<Rightarrow> CoAP_Result_t \<times> CoAP_Message_t \<times> 'm" where
  "AddBlkOptionToMsg A m msg blkOption =
     (let ty = BlkType blkOption in
      if ty \<noteq> BLOCK_1 \<and> ty \<noteq> BLOCK_2 then (COAP_ERR_WRONG_OPTION, msg, m)
      else if BlockNum blkOption = 0 \<and> BlockSize blkOption = BLOCK_SIZE_16 \<and> MoreFlag blkOption = False then
        append_to_msg A m msg ty [] 0
      else
        let v = blk_value blkOption in
        if BlockNum blkOption < 16 then append_to_msg A m msg ty [ucast v] 1
        else if BlockNum blkOption < 4096 then
          append_to_msg A m msg ty [ucast (drop_bit 8 v), ucast (v AND 0xff)] 2
        else append_to_msg A m msg ty [ucast (drop_bit 16 v), ucast (drop_bit 8 v), ucast (v AND 0xff)] 3)"

fun GetBlockOptionFromList :: "CoAP_option_t list \<Rightarrow> u16 \<Rightarrow> CoAP_blockwise_option_t
    \<Rightarrow> CoAP_Result_t \<times> CoAP_blockwise_option_t" where
  "GetBlockOptionFromList [] ty Blk = (COAP_ERR_NOT_FOUND, Blk)"
| "GetBlockOptionFromList (pOption # next) ty Blk =
     (if Number pOption = ty then
        (let ValLength = Length pOption;
             v = (\<lambda>i. ucast (Value pOption ! i) :: u32);
             Blk1 = Blk\<lparr>BlkType := ty\<rparr>
         in if ValLength > 3 then (COAP_PARSE_MESSAGE_FORMAT_ERROR, Blk1)
            else if ValLength = 0 then
              (COAP_OK, Blk1\<lparr>BlockNum := 0, BlockSize := BLOCK_SIZE_16, MoreFlag := False\<rparr>)
            else
              let OptionValue = (if ValLength = 1 then v 0
                    else if ValLength = 2 then push_bit 8 (v 0) OR v 1
                    else (push_bit 16 (v 0) OR push_bit 8 (v 1)) OR v 2);
                  SZX = OptionValue AND 7
              in if SZX = 7 then (COAP_PARSE_MESSAGE_FORMAT_ERROR, Blk1)
                 else (COAP_OK, Blk1\<lparr>BlockSize := push_bit (unat SZX + 4) 1,
                         MoreFlag := OptionValue AND 8 \<noteq> 0, BlockNum := drop_bit 4 OptionValue\<rparr>))
      else GetBlockOptionFromList next ty Blk)"

definition GetBlock1OptionFromMsg :: "CoAP_Message_t \<Rightarrow> CoAP_blockwise_option_t
    \<Rightarrow> CoAP_Result_t \<times> CoAP_blockwise_option_t" where
  "GetBlock1OptionFromMsg msg Blk = GetBlockOptionFromList (pOptionsList msg) BLOCK_1 Blk"

definition GetBlock2OptionFromMsg :: "CoAP_Message_t \<Rightarrow> CoAP_blockwise_option_t
    \<Rightarrow> CoAP_Result_t \<times> CoAP_blockwise_option_t" where
  "GetBlock2OptionFromMsg msg Blk = GetBlockOptionFromList (pOptionsList msg) BLOCK_2 Blk"

lemma length_RemoveOption:
  "p \<in> set L \<Longrightarrow> CoAP_RemoveOptionFromList A m L (opt_at p) = (r, L', m') \<Longrightarrow> length L' < length L"
proof (induction L arbitrary: L' m')
  case (Cons a L)
  then show ?case by (cases "opt_at a = opt_at p") (auto split: prod.splits)
qed simp

text \<open>The loop with the jump back to \<open>RESTART\<close> after every removal.\<close>

function remove_blocks_loop :: "'m mem_ops \<Rightarrow> 'm \<Rightarrow> CoAP_option_t list \<Rightarrow> u16 \<Rightarrow> bool
    \<Rightarrow> bool \<times> CoAP_option_t list \<times> 'm" where
  "remove_blocks_loop A m L ty found =
     (case find (\<lambda>pOption. Number pOption = ty) L of
        Some pOption \<Rightarrow>
          (case CoAP_RemoveOptionFromList A m L (opt_at pOption) of
             (_, L', m') \<Rightarrow> remove_blocks_loop A m' L' ty True)
      | None \<Rightarrow> (found, L, m))"
  by pat_completeness auto
termination
  by (relation "measure (\<lambda>(A, m, L, ty, found). length L)")
    (auto simp: find_Some_iff intro!: length_RemoveOption [OF _ sym])

declare remove_blocks_loop.simps [simp del]

definition RemoveAllBlockOptionsFromMsg :: "'m mem_ops \<Rightarrow> 'm \<Rightarrow> CoAP_Message_t \<Rightarrow> u16
    \<Rightarrow> CoAP_Result_t \<times> CoAP_Message_t \<times> 'm" where
  "RemoveAllBlockOptionsFromMsg A m msg ty =
     (let (found, L, m') = remove_blocks_loop A m (pOptionsList msg) ty False
      in (if found then COAP_OK else COAP_NOT_FOUND, msg\<lparr>pOptionsList := L\<rparr>, m'))"

text \<open>Payload from \<open>pPayload\<close> (its address and the bytes there), starting at byte \<open>off\<close>: the two
  branches \<open>payloadIsVolatile\<close> of \<open>CoAP_SetPayload\<close>. A failed allocation is not checked before
  the copy (\<open>None\<close>).\<close>

definition use_payload :: "'m mem_ops \<Rightarrow> 'm \<Rightarrow> CoAP_Message_t \<Rightarrow> ptr \<Rightarrow> u8 list \<Rightarrow> nat \<Rightarrow> int \<Rightarrow> bool
    \<Rightarrow> (CoAP_Message_t \<times> 'm) option" where
  "use_payload A m resp pPayload data off BytesToSend payloadIsVolatile =
     (let n = nat BytesToSend in
      if payloadIsVolatile then
        (let (resp1, m1, ok) =
               (if uint (PayloadBufSize resp) < BytesToSend then
                  let (r, m') = CoAP_free_MsgPayload A m resp;
                      (p, m'') = coap_mem_get A m' (s16 BytesToSend)
                  in (r\<lparr>Payload := p, PayloadBufSize := of_int BytesToSend, PayloadData := []\<rparr>, m'', p \<noteq> NULL)
                else (resp, m, True))
         in if \<not> ok then None
            else Some (resp1\<lparr>PayloadData := take n (drop off data) @ drop n (PayloadData resp1),
                             PayloadBufSize := of_int BytesToSend\<rparr>, m1))
      else Some (resp\<lparr>Payload := pPayload + int off, PayloadData := drop off data, PayloadBufSize := 0\<rparr>, m))"

definition block_not_existing :: "u8 list" where
  "block_not_existing = map (of_char :: char \<Rightarrow> u8) ''block not existing''"

definition CoAP_SetPayload :: "'m mem_ops \<Rightarrow> 'm \<Rightarrow> CoAP_Message_t option \<Rightarrow> CoAP_Message_t \<Rightarrow> ptr \<Rightarrow> u8 list
    \<Rightarrow> u16 \<Rightarrow> bool \<Rightarrow> (CoAP_Result_t \<times> CoAP_Message_t \<times> 'm) option" where
  "CoAP_SetPayload A m pMsgReq resp pPayload data payloadTotalSize payloadIsVolatile =
     (let B2opt = \<lparr>BlkType = BLOCK_2, BlockSize = 0, MoreFlag = False, BlockNum = 0\<rparr> in
      if payloadTotalSize = 0 then Some (COAP_OK, resp\<lparr>PayloadLength := 0\<rparr>, m)
      else
        let (res, B2) = (case pMsgReq of None \<Rightarrow> (COAP_ERR_NOT_FOUND, B2opt)
                         | Some req \<Rightarrow> GetBlock2OptionFromMsg req B2opt)
        in if res = COAP_OK then
             let B2a = (if BlockSize B2 > 256 then B2\<lparr>BlockSize := 256\<rparr> else B2);
                 pos = BlockSize B2a * BlockNum B2a;
                 TotalBytesLeft = uint payloadTotalSize - sint pos
             in if TotalBytesLeft \<le> 0 then
                  (case CoAP_addTextPayload A m resp block_not_existing of
                     None \<Rightarrow> None
                   | Some (_, resp1, m1) \<Rightarrow>
                       Some (COAP_ERR_WRONG_OPTION, resp1\<lparr>Code := RESP_BAD_OPTION_4_02\<rparr>, m1))
                else
                  let (BytesToSend, B2b) =
                        (if TotalBytesLeft > uint (BlockSize B2a)
                         then (uint (BlockSize B2a), B2a\<lparr>MoreFlag := True\<rparr>) else (TotalBytesLeft, B2a));
                      (_, resp1, m1) = RemoveAllBlockOptionsFromMsg A m resp BLOCK_2;
                      (_, resp2, m2) = AddBlkOptionToMsg A m1 resp1 B2b;
                      off = unat pos
                  in (case (if pPayload = Payload resp2 then
                              Some (resp2\<lparr>PayloadData := take (nat BytesToSend) (drop off (PayloadData resp2))
                                        @ drop (nat BytesToSend) (PayloadData resp2)\<rparr>, m2)
                            else use_payload A m2 resp2 pPayload data off BytesToSend payloadIsVolatile) of
                        None \<Rightarrow> None
                      | Some (resp3, m3) \<Rightarrow> Some (COAP_OK, resp3\<lparr>PayloadLength := of_int BytesToSend\<rparr>, m3))
           else
             let (BytesToSend, resp1, m1) =
                   (if payloadTotalSize > MAX_PAYLOAD_SIZE then
                      let (_, r, m') = AddBlkOptionToMsg A m resp
                            \<lparr>BlkType = BLOCK_2, BlockSize = 256, MoreFlag = True, BlockNum = 0\<rparr>
                      in (256, r, m')
                    else (uint payloadTotalSize, resp, m))
             in (case (if pPayload \<noteq> Payload resp1 then
                         use_payload A m1 resp1 pPayload data 0 BytesToSend payloadIsVolatile
                       else Some (resp1, m1)) of
                   None \<Rightarrow> None
                 | Some (resp2, m2) \<Rightarrow> Some (COAP_OK, resp2\<lparr>PayloadLength := of_int BytesToSend\<rparr>, m2)))"

end
