(* ===== verification/Uri.thy ===== *)
theory Uri
  imports Option_Types
begin

text \<open>
  URI options: \<open>option-types/coap_option_uri.c\<close>. C strings are byte lists without the
  terminating zero; a pointer into a string is the rest of the string from there. The result of
  every single \<open>CoAP_AppendOptionToList\<close> is ignored by the code, so an option for which there is
  no memory is left out.
\<close>

section \<open>From URI strings to options\<close>

abbreviation chr :: "char \<Rightarrow> u8" where
  "chr c \<equiv> of_char c"

text \<open>\<open>pCur\<close> points to the begin of the current part, which is \<open>cnt\<close> characters long.\<close>

fun ParseUriQuery_loop :: "'m mem_ops \<Rightarrow> 'm \<Rightarrow> CoAP_option_t list \<Rightarrow> u8 list \<Rightarrow> nat \<Rightarrow> u8 list
    \<Rightarrow> CoAP_Result_t \<times> CoAP_option_t list \<times> 'm" where
  "ParseUriQuery_loop A m L pCur cnt [] =
     (if cnt \<noteq> 0 then
        let (_, L', m') = CoAP_AppendOptionToList A m L OPT_NUM_URI_QUERY pCur (of_nat cnt) in (COAP_OK, L', m')
      else (COAP_OK, L, m))"
| "ParseUriQuery_loop A m L pCur cnt (c # QueryStr) =
     (if c = chr CHR ''&'' then
        (if cnt = 0 then ParseUriQuery_loop A m L (tl pCur) 0 QueryStr
         else
           let (_, L', m') = CoAP_AppendOptionToList A m L OPT_NUM_URI_QUERY pCur (of_nat cnt)
           in ParseUriQuery_loop A m' L' (drop (cnt + 1) pCur) 0 QueryStr)
      else ParseUriQuery_loop A m L pCur (cnt + 1) QueryStr)"

definition ParseUriQueryFromStringToOption :: "'m mem_ops \<Rightarrow> 'm \<Rightarrow> CoAP_option_t list \<Rightarrow> u8 list
    \<Rightarrow> CoAP_Result_t \<times> CoAP_option_t list \<times> 'm" where
  "ParseUriQueryFromStringToOption A m L QueryStr = ParseUriQuery_loop A m L QueryStr 0 QueryStr"

fun AppendUri_loop :: "'m mem_ops \<Rightarrow> 'm \<Rightarrow> CoAP_option_t list \<Rightarrow> u8 list \<Rightarrow> nat \<Rightarrow> u8 list
    \<Rightarrow> CoAP_Result_t \<times> CoAP_option_t list \<times> 'm" where
  "AppendUri_loop A m L pCur cnt [] =
     (if cnt \<noteq> 0 then
        let (_, L', m') = CoAP_AppendOptionToList A m L OPT_NUM_URI_PATH pCur (of_nat cnt) in (COAP_OK, L', m')
      else (COAP_OK, L, m))"
| "AppendUri_loop A m L pCur cnt (c # UriStr) =
     (if c = chr CHR ''/'' \<or> c = chr CHR '' '' \<or> c = chr CHR ''?'' then
        (if cnt = 0 then
           (if c = chr CHR ''?'' then ParseUriQueryFromStringToOption A m L UriStr
            else AppendUri_loop A m L (tl pCur) 0 UriStr)
         else
           let (_, L', m') = CoAP_AppendOptionToList A m L OPT_NUM_URI_PATH pCur (of_nat cnt)
           in if c = chr CHR ''?'' then ParseUriQueryFromStringToOption A m' L' UriStr
              else AppendUri_loop A m' L' (drop (cnt + 1) pCur) 0 UriStr)
      else AppendUri_loop A m L pCur (cnt + 1) UriStr)"

definition CoAP_AppendUriOptionsFromString :: "'m mem_ops \<Rightarrow> 'm \<Rightarrow> CoAP_option_t list \<Rightarrow> u8 list option
    \<Rightarrow> CoAP_Result_t \<times> CoAP_option_t list \<times> 'm" where
  "CoAP_AppendUriOptionsFromString A m L UriStr =
     (case UriStr of None \<Rightarrow> (COAP_ERR_ARGUMENT, L, m) | Some s \<Rightarrow> AppendUri_loop A m L s 0 s)"

definition CoAP_AddUriOptionsToMsgFromString :: "'m mem_ops \<Rightarrow> 'm \<Rightarrow> CoAP_Message_t \<Rightarrow> u8 list option
    \<Rightarrow> CoAP_Result_t \<times> CoAP_Message_t \<times> 'm" where
  "CoAP_AddUriOptionsToMsgFromString A m msg UriStr =
     (let (r, L, m') = CoAP_AppendUriOptionsFromString A m (pOptionsList msg) UriStr
      in (r, msg\<lparr>pOptionsList := L\<rparr>, m'))"

section \<open>Comparing paths\<close>

definition list_head :: "'a list \<Rightarrow> 'a option" where
  "list_head xs = (case xs of [] \<Rightarrow> None | x # _ \<Rightarrow> Some x)"

function CoAP_UriOptionsAreEqual :: "CoAP_option_t list \<Rightarrow> CoAP_option_t list \<Rightarrow> bool" where
  "CoAP_UriOptionsAreEqual OptListA OptListB =
     (if OptListA = [] \<and> OptListB = [] then True
      else
        let CurOptA = dropWhile (\<lambda>p. Number p \<noteq> OPT_NUM_URI_PATH) OptListA;
            CurOptB = dropWhile (\<lambda>p. Number p \<noteq> OPT_NUM_URI_PATH) OptListB
        in if \<not> CoAP_OptionsAreEqual (list_head CurOptA) (list_head CurOptB) then False
           else CoAP_UriOptionsAreEqual (tl CurOptA) (tl CurOptB))"
  by pat_completeness auto
termination
proof (relation "measure (\<lambda>(xs, ys). length xs + length ys)")
  fix xs ys a b :: "CoAP_option_t list"
  assume *: "\<not> (xs = [] \<and> ys = [])" "a = dropWhile (\<lambda>p. Number p \<noteq> OPT_NUM_URI_PATH) xs"
    "b = dropWhile (\<lambda>p. Number p \<noteq> OPT_NUM_URI_PATH) ys"
  then have "length a \<le> length xs" "length b \<le> length ys" by (simp_all add: length_dropWhile_le)
  with *(1) show "((tl a, tl b), xs, ys) \<in> measure (\<lambda>(xs, ys). length xs + length ys)"
    by (cases xs; cases ys) auto
qed simp

declare CoAP_UriOptionsAreEqual.simps [simp del]

section \<open>Query values\<close>

text \<open>The value behind a prefix and its length; \<open>None\<close> for \<open>NULL\<close>.\<close>

definition CoAP_GetUriQueryVal :: "CoAP_option_t option \<Rightarrow> u8 list \<Rightarrow> (u8 list \<times> u8) option" where
  "CoAP_GetUriQueryVal pUriOpt prefixStr =
     (case pUriOpt of None \<Rightarrow> None
      | Some opt \<Rightarrow>
          if Number opt \<noteq> OPT_NUM_URI_QUERY then None
          else if Length opt = 0 \<or> Length opt > 255 then None
          else if length prefixStr \<ge> unat (Length opt) then None
          else if \<not> list_all (\<lambda>i. Value opt ! i = prefixStr ! i) [0..<length prefixStr] then None
          else Some (drop (length prefixStr) (Value opt), ucast (Length opt) - of_nat (length prefixStr)))"

fun find_query_val :: "CoAP_option_t list \<Rightarrow> u8 list \<Rightarrow> (u8 list \<times> u8) option" where
  "find_query_val [] prefixStr = None"
| "find_query_val (pOpt # next) prefixStr =
     (case CoAP_GetUriQueryVal (Some pOpt) prefixStr of
        Some r \<Rightarrow> Some r | None \<Rightarrow> find_query_val next prefixStr)"

definition CoAP_GetUriQueryValFromMsg :: "CoAP_Message_t \<Rightarrow> u8 list \<Rightarrow> (u8 list \<times> u8) option" where
  "CoAP_GetUriQueryValFromMsg pMsg prefixStr = find_query_val (pOptionsList pMsg) prefixStr"

text \<open>The variable argument list is a list of strings; the result is the number of the first one
  that equals the value (an \<open>int8_t\<close>), or 0.\<close>

fun match_arg :: "u8 list \<Rightarrow> u8 \<Rightarrow> int \<Rightarrow> u8 list list \<Rightarrow> int" where
  "match_arg val ValLen i [] = 0"
| "match_arg val ValLen i (pStr # rest) =
     (if length pStr \<noteq> unat ValLen then match_arg val ValLen (i + 1) rest
      else if \<not> list_all (\<lambda>j. pStr ! j = val ! j) [0..<unat ValLen] then match_arg val ValLen (i + 1) rest
      else (i + 128) mod 256 - 128)"

definition CoAP_FindUriQueryVal :: "CoAP_option_t option \<Rightarrow> u8 list \<Rightarrow> u8 list list \<Rightarrow> int" where
  "CoAP_FindUriQueryVal pUriOpt prefixStr strs =
     (case CoAP_GetUriQueryVal pUriOpt prefixStr of
        None \<Rightarrow> 0 | Some (val, ValLen) \<Rightarrow> match_arg val ValLen 1 strs)"

text \<open>The digits from the last to the first.\<close>

fun atoi_loop :: "u32 \<Rightarrow> u32 \<Rightarrow> u8 list \<Rightarrow> u32" where
  "atoi_loop num mul [] = num"
| "atoi_loop num mul (c # cs) =
     (if c < chr CHR ''0'' \<or> c > chr CHR ''9'' then 0
      else atoi_loop (num + (ucast c - ucast (chr CHR ''0'')) * mul) (mul * 10) cs)"

definition CoAP_atoi :: "u8 list \<Rightarrow> u8 \<Rightarrow> u32" where
  "CoAP_atoi Str Len =
     (if Len > 10 then 0 else atoi_loop 0 1 (rev (take (unat Len) Str)))"

end
