(* ===== verification/Option_Types_Correct.thy ===== *)
theory Option_Types_Correct
  imports Option_Types
begin

text \<open>
  Correctness of the typed options: what is added to a message is what a receiver gets back
  (ETag, Observe, Block), the removal of Block options, and the block-wise slices of a payload
  that \<open>CoAP_SetPayload\<close> chooses.
\<close>

section \<open>Finding an option\<close>

abbreviation opt_find :: "u16 \<Rightarrow> CoAP_option_t list \<Rightarrow> CoAP_option_t option" where
  "opt_find n L \<equiv> find (\<lambda>p. Number p = n) L"

lemma opt_find_none_iff: "opt_find n L = None \<longleftrightarrow> n \<notin> Number ` set L"
  by (auto simp: find_None_iff)

text \<open>An inserted option is the first of its number, and the search for another number does not
  see it.\<close>

lemma find_append: "find P (xs @ ys) = (case find P xs of None \<Rightarrow> find P ys | Some x \<Rightarrow> Some x)"
  by (induction xs) auto

lemma opt_find_split:
  "opt_find n L = (case opt_find n (takeWhile P L) of None \<Rightarrow> opt_find n (dropWhile P L) | Some y \<Rightarrow> Some y)"
  by (metis find_append takeWhile_dropWhile_id)

lemma opt_find_insert_same: "opt_find (Number x) L = None \<Longrightarrow> opt_find (Number x) (insert_option x L) = Some x"
  using opt_find_split [of "Number x" L "\<lambda>p. Number p \<le> Number x"]
  by (simp add: insert_option_def find_append split: option.splits)

lemma opt_find_insert_other: "Number x \<noteq> n \<Longrightarrow> opt_find n (insert_option x L) = opt_find n L"
  unfolding insert_option_def find_append opt_find_split [of n L "\<lambda>p. Number p \<le> Number x"]
  by (simp split: option.splits)

lemma GetETag_find:
  "GetETagOptionFromList L = (case opt_find OPT_NUM_ETAG L of
     None \<Rightarrow> (COAP_NOT_FOUND, [])
   | Some p \<Rightarrow> if Length p = 0 \<or> Length p > 8 then (COAP_BAD_OPTION_LEN, [])
       else (COAP_OK, take (unat (Length p)) (Value p)))"
  by (induction L) auto

lemma GetObserve_find:
  "GetObserveOptionFromList L = (case opt_find OPT_NUM_OBSERVE L of
     None \<Rightarrow> (COAP_NOT_FOUND, 0) | Some p \<Rightarrow> GetObserveOptionFromList [p])"
  by (induction L) auto

lemma GetBlock_find:
  "GetBlockOptionFromList L ty Blk = (case opt_find ty L of
     None \<Rightarrow> (COAP_ERR_NOT_FOUND, Blk) | Some p \<Rightarrow> GetBlockOptionFromList [p] ty Blk)"
  by (induction L) auto

section \<open>Adding an option to a message\<close>

lemma append_to_msg_eq:
  "append_to_msg A m msg n buf len =
     (let (p, m') = coap_mem_get A m (s16 (sizeof_CoAP_option_t + uint len))
      in if p = NULL then
           (COAP_ERR_OUT_OF_MEMORY,
            msg\<lparr>pOptionsList := if pOptionsList msg \<noteq> [] \<and> n < Number (hd (pOptionsList msg)) then [] else pOptionsList msg\<rparr>, m')
         else (COAP_OK, msg\<lparr>pOptionsList := insert_option (fill_option p n buf len) (pOptionsList msg)\<rparr>, m'))"
  by (simp add: append_to_msg_def append_cases split: prod.splits)

text \<open>On success the new option is found under its number.\<close>

lemma append_to_msg_find:
  assumes "append_to_msg A m msg n buf len = (COAP_OK, msg', m')" "opt_find n (pOptionsList msg) = None"
    "unat len = length buf"
  shows "\<exists>p. opt_find n (pOptionsList msg') = Some \<lparr>opt_at = p, Number = n, Length = len, Value = buf\<rparr>"
proof -
  obtain p where "pOptionsList msg' = insert_option (fill_option p n buf len) (pOptionsList msg)"
    using assms(1) by (auto simp: append_to_msg_eq split: prod.splits if_splits)
  then have "opt_find n (pOptionsList msg') = Some (fill_option p n buf len)"
    using opt_find_insert_same [of "fill_option p n buf len" "pOptionsList msg"] assms(2) by simp
  then show ?thesis using assms(3) by (auto simp: fill_option_def)
qed

section \<open>ETag\<close>

definition le_bytes :: "nat \<Rightarrow> u64 \<Rightarrow> u8 list" where
  "le_bytes k v = map (\<lambda>i. ucast (drop_bit (8 * i) v)) [0..<k]"

lemma length_le_bytes [simp]: "length (le_bytes k v) = k"
  by (simp add: le_bytes_def)

lemma ucast_and_ff: "ucast ((x :: 'a::len word) AND 0xff) = (ucast x :: u8)"
  unfolding mask_simps by (rule bit_word_eqI) (auto simp: bit_simps dest: bit_imp_le_length)

lemma etag64_loop_eq:
  assumes "i < 8"
  shows "\<exists>j < 8. i \<le> j \<and> etag64_loop i (le_bytes i v) (drop_bit (8 * i) v) = (le_bytes (Suc j) v, j) \<and>
    drop_bit (8 * Suc j) v = 0"
  using assms
proof (induction "7 - i" arbitrary: i rule: less_induct)
  case less
  have app: "le_bytes i v @ [ucast (drop_bit (8 * i) v AND 0xff)] = le_bytes (Suc i) v"
    by (simp add: le_bytes_def ucast_and_ff)
  have d: "drop_bit 8 (drop_bit (8 * i) v) = drop_bit (8 * Suc i) v"
    by (simp add: drop_bit_drop_bit add.commute)
  have step: "etag64_loop i (le_bytes i v) (drop_bit (8 * i) v) =
      (if drop_bit (8 * Suc i) v = 0 then (le_bytes (Suc i) v, i)
       else etag64_loop (Suc i) (le_bytes (Suc i) v) (drop_bit (8 * Suc i) v))"
    unfolding etag64_loop.simps [of i] Let_def app d using less.prems by simp
  show ?case
  proof (cases "drop_bit (8 * Suc i) v = 0")
    case True
    then show ?thesis using less.prems step by (intro exI [of _ i]) simp
  next
    case False
    have i: "i < 7"
    proof (rule ccontr)
      assume "\<not> i < 7"
      with less.prems have "i = 7" by simp
      have "drop_bit 64 v = 0" by (rule bit_word_eqI) (auto simp: bit_simps dest: bit_imp_le_length)
      with False \<open>i = 7\<close> show False by simp
    qed
    then have "7 - Suc i < 7 - i" "Suc i < 8" by linarith+
    from less.hyps [OF this] obtain j where "j < 8" "Suc i \<le> j"
      "etag64_loop (Suc i) (le_bytes (Suc i) v) (drop_bit (8 * Suc i) v) = (le_bytes (Suc j) v, j)"
      "drop_bit (8 * Suc j) v = 0"
      by blast
    then show ?thesis using False step by (intro exI [of _ j]) simp
  qed
qed

lemma le_bytes_decode:
  assumes "drop_bit (8 * k) v = 0"
  shows "foldl (\<lambda>x i. x OR push_bit (i * 8) (ucast (le_bytes k v ! i))) 0 [0..<k] = v"
proof -
  have "foldl (\<lambda>x i. x OR push_bit (i * 8) (ucast (le_bytes k v ! i))) 0 [0..<k] = parse_token (\<lambda>i. le_bytes k v ! i) 0 k"
    by (simp add: parse_token_def mult.commute)
  also have "\<dots> = v"
  proof (rule bit_word_eqI)
    fix n assume n: "n < LENGTH(64)"
    have high: "\<not> bit v n" if "\<not> n div 8 < k"
    proof -
      have "8 * k \<le> n" using that by linarith
      then have "bit v n = bit (drop_bit (8 * k) v) (n - 8 * k)"
        by (simp add: bit_drop_bit_eq)
      then show ?thesis using assms by simp
    qed
    have low: "bit (le_bytes k v ! (n div 8)) (n mod 8) = bit v n" if "n div 8 < k"
      using that by (simp add: le_bytes_def bit_simps)
    show "bit (parse_token (\<lambda>i. le_bytes k v ! i) 0 k) n = bit v n"
      using n high low by (auto simp: bit_parse_token)
  qed
  finally show ?thesis .
qed

lemma etag64_roundtrip:
  assumes "Add64BitETagOptionToMsg A m msg val = (COAP_OK, msg', m')"
    "opt_find OPT_NUM_ETAG (pOptionsList msg) = None"
  shows "Get64BitETagOptionFromMsg msg' = (COAP_OK, Some val)"
proof -
  obtain j where j: "j < 8" "etag64_loop 0 [] val = (le_bytes (Suc j) val, j)" "drop_bit (8 * Suc j) val = 0"
    using etag64_loop_eq [of 0 val] by (auto simp: le_bytes_def)
  have len: "unat (of_nat (Suc j) :: u16) = Suc j"
    using j(1) by (intro unat_of_nat16) simp
  have app: "append_to_msg A m msg OPT_NUM_ETAG (le_bytes (Suc j) val) (of_nat (Suc j)) = (COAP_OK, msg', m')"
    using assms(1) by (simp add: Add64BitETagOptionToMsg_def j(2))
  obtain p where p: "opt_find OPT_NUM_ETAG (pOptionsList msg') =
      Some \<lparr>opt_at = p, Number = OPT_NUM_ETAG, Length = of_nat (Suc j), Value = le_bytes (Suc j) val\<rparr>"
    using append_to_msg_find [OF app assms(2)] len by auto
  have l: "(of_nat (Suc j) :: u16) \<noteq> 0" "\<not> (of_nat (Suc j) :: u16) > 8"
    using j(1) len by (auto simp: word_less_nat_alt word_unat_eq_iff simp del: of_nat_Suc)
  have "GetETagOptionFromMsg msg' = (COAP_OK, le_bytes (Suc j) val)"
    unfolding GetETagOptionFromMsg_def GetETag_find p
    using l len by (simp del: of_nat_Suc)
  then show ?thesis
    unfolding Get64BitETagOptionFromMsg_def using le_bytes_decode [OF j(3)] by simp
qed

section \<open>Big-endian values\<close>

text \<open>Observe and Block options carry unsigned numbers of up to three bytes in network order.\<close>

lemma be_bytes:
  fixes v :: u32
  shows "ucast (ucast v :: u8) = take_bit 8 v"
    "push_bit 8 (take_bit 8 (drop_bit 8 v)) OR take_bit 8 v = take_bit 16 v"
    "(push_bit 16 (take_bit 8 (drop_bit 16 v)) OR push_bit 8 (take_bit 8 (drop_bit 8 v))) OR take_bit 8 v = take_bit 24 v"
proof -
  show "ucast (ucast v :: u8) = take_bit 8 v"
    "push_bit 8 (take_bit 8 (drop_bit 8 v)) OR take_bit 8 v = take_bit 16 v"
    by (rule bit_word_eqI; auto simp: bit_simps)+
  show "(push_bit 16 (take_bit 8 (drop_bit 16 v)) OR push_bit 8 (take_bit 8 (drop_bit 8 v))) OR take_bit 8 v = take_bit 24 v"
    (is "?l = _")
  proof (rule bit_word_eqI)
    fix n assume "n < LENGTH(32)"
    then show "bit ?l n = bit (take_bit 24 v) n"
      by (cases "n < 16"; cases "n < 8") (auto simp: bit_simps not_less)
  qed
qed

lemma take_bit_u32: "unat (v :: u32) < 2 ^ k \<Longrightarrow> take_bit k v = v"
  by (metis take_bit_nat_eq_self unsigned_take_bit_eq unsigned_word_eqI)

lemma take_bit_le: "v \<le> 0xff \<Longrightarrow> take_bit 8 (v :: u32) = v" "v \<le> 0xffff \<Longrightarrow> take_bit 16 (v :: u32) = v"
  by (rule take_bit_u32; simp add: word_le_nat_alt)+

lemma observe_roundtrip:
  assumes add: "AddObserveOptionToMsg A m msg val = (COAP_OK, msg', m')"
    and none: "opt_find OPT_NUM_OBSERVE (pOptionsList msg) = None"
  shows "GetObserveOptionFromMsg msg' = (COAP_OK, take_bit 24 val)"
proof -
  have get: "GetObserveOptionFromMsg msg' =
      GetObserveOptionFromList [\<lparr>opt_at = 0, Number = OPT_NUM_OBSERVE, Length = len, Value = buf\<rparr>]"
    if app: "append_to_msg A m msg OPT_NUM_OBSERVE buf len = (COAP_OK, msg', m')" and len: "unat len = length buf" for len buf
  proof -
    obtain p where p: "opt_find OPT_NUM_OBSERVE (pOptionsList msg') =
        Some \<lparr>opt_at = p, Number = OPT_NUM_OBSERVE, Length = len, Value = buf\<rparr>"
      using append_to_msg_find [OF app none len] by blast
    show ?thesis
      unfolding GetObserveOptionFromMsg_def by (subst GetObserve_find) (simp add: p [simplified])
  qed
  consider "val > 0xffff" | "val \<le> 0xffff" "val > 0xff" | "val \<le> 0xff" "val > 0" | "val = 0"
    by (cases "val > 0xffff"; cases "val > 0xff"; cases "val = 0") (auto simp: word_gt_0 not_less)
  then show ?thesis
  proof cases
    case 1
    have "append_to_msg A m msg OPT_NUM_OBSERVE
        [ucast (drop_bit 16 val AND 0xff), ucast (drop_bit 8 val AND 0xff), ucast (val AND 0xff)] 3 = (COAP_OK, msg', m')"
      using add 1 by (simp add: AddObserveOptionToMsg_def)
    from get [OF this] show ?thesis by (simp add: ucast_and_ff be_bytes)
  next
    case 2
    have "append_to_msg A m msg OPT_NUM_OBSERVE [ucast (drop_bit 8 val AND 0xff), ucast (val AND 0xff)] 2 = (COAP_OK, msg', m')"
      using add 2 by (simp add: AddObserveOptionToMsg_def leD)
    moreover have "take_bit 24 val = val"
      using 2 by (intro take_bit_u32) (simp add: word_le_nat_alt)
    ultimately show ?thesis using get 2 by (simp add: ucast_and_ff be_bytes take_bit_le)
  next
    case 3
    have "append_to_msg A m msg OPT_NUM_OBSERVE [ucast (val AND 0xff)] 1 = (COAP_OK, msg', m')"
      using add 3 order.trans [OF 3(1), of "0xffff"] by (simp add: AddObserveOptionToMsg_def leD)
    moreover have "take_bit 24 val = val"
      using 3 by (intro take_bit_u32) (simp add: word_le_nat_alt)
    ultimately show ?thesis using get 3 by (simp add: ucast_and_ff be_bytes take_bit_le)
  next
    case 4
    have "append_to_msg A m msg OPT_NUM_OBSERVE [] 0 = (COAP_OK, msg', m')"
      using add 4 by (simp add: AddObserveOptionToMsg_def)
    from get [OF this] show ?thesis using 4 by simp
  qed
qed

section \<open>Block options\<close>

definition BLOCK_SIZES :: "u32 list" where
  "BLOCK_SIZES = [16, 32, 64, 128, 256, 512, 1024]"

lemma szx_bits_sizes:
  assumes "sz \<in> set BLOCK_SIZES"
  shows "push_bit (unat (szx_bits sz) + 4) 1 = sz" "szx_bits sz < 7" "szx_bits 16 = 0"
  using assms by (auto simp: BLOCK_SIZES_def szx_bits_def)

text \<open>The three fields of the option value do not overlap.\<close>

lemma blk_value_fields:
  assumes sz: "BlockSize B \<in> set BLOCK_SIZES" and num: "BlockNum B < 0x100000"
  shows "blk_value B AND 7 = szx_bits (BlockSize B)" "blk_value B AND 8 \<noteq> 0 \<longleftrightarrow> MoreFlag B"
    "drop_bit 4 (blk_value B) = BlockNum B"
proof -
  let ?s = "szx_bits (BlockSize B)"
  have s: "take_bit 3 ?s = ?s"
    using szx_bits_sizes(2) [OF sz] by (intro take_bit_u32) (simp add: word_less_nat_alt)
  have n: "take_bit 20 (BlockNum B) = BlockNum B"
    using num by (intro take_bit_u32) (simp add: word_less_nat_alt)
  have sbit: "bit ?s k \<Longrightarrow> k < 3" for k by (metis s bit_take_bit_iff)
  have nbit: "bit (BlockNum B) k \<Longrightarrow> k < 20" for k by (metis n bit_take_bit_iff)
  have b8: "bit (8 :: u32) k \<longleftrightarrow> k = 3" for k
    using bit_exp_iff [where 'a = u32, of 3 k] by auto
  have v: "bit (blk_value B) k \<longleftrightarrow> k < 32 \<and> (bit ?s k \<or> MoreFlag B \<and> k = 3 \<or> 4 \<le> k \<and> bit (BlockNum B) (k - 4))" for k
    using b8 [of k] by (auto simp: blk_value_def Let_def bit_or_iff bit_push_bit_iff dest: bit_imp_le_length)
  have "blk_value B AND 7 = take_bit 3 (blk_value B)"
    by (simp add: take_bit_eq_mask mask_eq_exp_minus_1)
  also have "\<dots> = ?s"
    using sbit by (intro bit_word_eqI) (auto simp: bit_take_bit_iff v)
  finally show "blk_value B AND 7 = ?s" .
  show "drop_bit 4 (blk_value B) = BlockNum B"
  proof (rule bit_word_eqI)
    fix k assume "k < LENGTH(32)"
    show "bit (drop_bit 4 (blk_value B)) k = bit (BlockNum B) k"
      unfolding bit_drop_bit_eq comp_def v [of "4 + k"] using sbit [of "4 + k"] nbit [of k] by auto
  qed
  have "blk_value B AND 8 \<noteq> 0 \<longleftrightarrow> bit (blk_value B) 3"
    using bit_iff_and_push_bit_not_eq_0 [of "blk_value B" 3] by simp
  then show "blk_value B AND 8 \<noteq> 0 \<longleftrightarrow> MoreFlag B"
    using sbit [of 3] unfolding v [of 3] by auto
qed

lemma blk_value_bound:
  assumes sz: "BlockSize B \<in> set BLOCK_SIZES" and num: "BlockNum B < 0x100000" "unat (BlockNum B) < 2 ^ k" "k \<le> 20"
  shows "take_bit (k + 4) (blk_value B) = blk_value B"
proof (rule take_bit_u32)
  have "unat (blk_value B) div 16 < 2 ^ k"
    using num(2) unfolding blk_value_fields(3) [OF sz num(1), symmetric] by (simp add: unat_drop_bit)
  then show "unat (blk_value B) < 2 ^ (k + 4)"
    by (simp add: power_add div_less_iff_less_mult)
qed

lemma block_roundtrip:
  assumes add: "AddBlkOptionToMsg A m msg B = (COAP_OK, msg', m')"
    and none: "opt_find (BlkType B) (pOptionsList msg) = None"
    and sz: "BlockSize B \<in> set BLOCK_SIZES" and num: "BlockNum B < 0x100000"
  shows "GetBlockOptionFromList (pOptionsList msg') (BlkType B) B0 = (COAP_OK, B)"
proof -
  let ?ty = "BlkType B" and ?v = "blk_value B"
  have get: "GetBlockOptionFromList (pOptionsList msg') ?ty B0 =
      GetBlockOptionFromList [\<lparr>opt_at = 0, Number = ?ty, Length = len, Value = buf\<rparr>] ?ty B0"
    if app: "append_to_msg A m msg ?ty buf len = (COAP_OK, msg', m')" and len: "unat len = length buf" for len buf
  proof -
    obtain p where p: "opt_find ?ty (pOptionsList msg') = Some \<lparr>opt_at = p, Number = ?ty, Length = len, Value = buf\<rparr>"
      using append_to_msg_find [OF app none len] by blast
    show ?thesis by (subst GetBlock_find) (simp add: p)
  qed
  have ty: "?ty = BLOCK_1 \<or> ?ty = BLOCK_2"
    using add by (auto simp: AddBlkOptionToMsg_def Let_def split: if_splits)
  have B: "B0\<lparr>BlkType := ?ty, BlockSize := push_bit (unat (?v AND 7) + 4) 1, MoreFlag := ?v AND 8 \<noteq> 0,
      BlockNum := drop_bit 4 ?v\<rparr> = B"
    using blk_value_fields [OF sz num] szx_bits_sizes [OF sz] by simp
  have s7: "?v AND 7 \<noteq> 7"
    using blk_value_fields(1) [OF sz num] szx_bits_sizes(2) [OF sz] by auto
  note addE = add [unfolded AddBlkOptionToMsg_def Let_def]
  consider (zero) "BlockNum B = 0" "BlockSize B = 16" "\<not> MoreFlag B"
    | (one) "\<not> (BlockNum B = 0 \<and> BlockSize B = 16 \<and> \<not> MoreFlag B)" "BlockNum B < 16"
    | (two) "\<not> BlockNum B < 16" "BlockNum B < 4096"
    | (three) "\<not> BlockNum B < 16" "\<not> BlockNum B < 4096" by blast
  then show ?thesis
  proof cases
    case zero
    then have "append_to_msg A m msg ?ty [] 0 = (COAP_OK, msg', m')"
      using addE ty by auto
    from get [OF this] zero show ?thesis by simp
  next
    case one
    then have "append_to_msg A m msg ?ty [ucast ?v] 1 = (COAP_OK, msg', m')"
      using addE ty by (auto split: if_splits)
    moreover have "take_bit 8 ?v = ?v"
      using blk_value_bound [OF sz num, of 4] one by (simp add: word_less_nat_alt)
    ultimately show ?thesis using get B s7 by (simp add: be_bytes Let_def)
  next
    case two
    then have "append_to_msg A m msg ?ty [ucast (drop_bit 8 ?v), ucast (?v AND 0xff)] 2 = (COAP_OK, msg', m')"
      using addE ty by (auto split: if_splits)
    moreover have "take_bit 16 ?v = ?v"
      using blk_value_bound [OF sz num, of 12] two by (simp add: word_less_nat_alt)
    ultimately show ?thesis using get B s7 by (simp add: be_bytes ucast_and_ff Let_def)
  next
    case three
    then have "append_to_msg A m msg ?ty [ucast (drop_bit 16 ?v), ucast (drop_bit 8 ?v), ucast (?v AND 0xff)] 3 = (COAP_OK, msg', m')"
      using addE ty by (auto split: if_splits)
    moreover have "take_bit 24 ?v = ?v"
      using blk_value_bound [OF sz num, of 20] num by (simp add: word_less_nat_alt)
    ultimately show ?thesis using get B s7 by (simp add: be_bytes ucast_and_ff Let_def)
  qed
qed

text \<open>What a block option of a request can say.\<close>

lemma be_value_bound:
  "unat (ucast (a :: u8) :: u32) < 2 ^ 24"
  "unat (push_bit 8 (ucast (a :: u8)) OR ucast (b :: u8) :: u32) < 2 ^ 24"
  "unat ((push_bit 16 (ucast (a :: u8)) OR push_bit 8 (ucast (b :: u8))) OR ucast (c :: u8) :: u32) < 2 ^ 24"
proof -
  have small: "unat v < 2 ^ 24" if "take_bit 24 v = v" for v :: u32
    using that by (metis take_bit_nat_less_exp unsigned_take_bit_eq)
  show "unat (ucast a :: u32) < 2 ^ 24" "unat (push_bit 8 (ucast a) OR ucast b :: u32) < 2 ^ 24"
    "unat ((push_bit 16 (ucast a) OR push_bit 8 (ucast b)) OR ucast c :: u32) < 2 ^ 24"
    by (rule small; rule bit_word_eqI; auto simp: bit_simps dest: bit_imp_le_length)+
qed

lemma szx_cases: "(s :: u32) = v AND 7 \<Longrightarrow> s \<noteq> 7 \<Longrightarrow> push_bit (unat s + 4) 1 \<in> set BLOCK_SIZES"
proof -
  assume s: "s = v AND 7" "s \<noteq> 7"
  have "v AND 7 = take_bit 3 v" by (simp add: take_bit_eq_mask mask_eq_exp_minus_1)
  then have "unat s = unat v mod 8" using s(1) by (simp only: unsigned_take_bit_eq) (simp add: take_bit_eq_mod)
  moreover have "unat s \<noteq> 7" using s(2) by (simp add: word_unat_eq_iff)
  ultimately have "unat s \<in> {0, 1, 2, 3, 4, 5, 6}" by auto
  then show ?thesis by (auto simp: BLOCK_SIZES_def)
qed

lemma GetBlock_range:
  assumes "GetBlockOptionFromList L ty B0 = (COAP_OK, B)"
  shows "BlockSize B \<in> set BLOCK_SIZES" "unat (BlockNum B) < 2 ^ 20" "BlockNum B < 0x100000"
proof -
  obtain p where get: "GetBlockOptionFromList [p] ty B0 = (COAP_OK, B)"
    using assms by (subst (asm) GetBlock_find) (auto split: option.splits)
  define v :: u32 where "v = (let v = \<lambda>i. ucast (Value p ! i) in if Length p = 1 then v 0
      else if Length p = 2 then push_bit 8 (v 0) OR v 1 else (push_bit 16 (v 0) OR push_bit 8 (v 1)) OR v 2)"
  have v: "unat v < 2 ^ 24"
    using be_value_bound unfolding v_def Let_def by simp
  have "B = B0\<lparr>BlkType := ty, BlockNum := 0, BlockSize := 16, MoreFlag := False\<rparr> \<or>
      v AND 7 \<noteq> 7 \<and> B = B0\<lparr>BlkType := ty, BlockSize := push_bit (unat (v AND 7) + 4) 1, MoreFlag := v AND 8 \<noteq> 0, BlockNum := drop_bit 4 v\<rparr>"
    using get by (auto simp: v_def Let_def split: if_splits)
  then show "BlockSize B \<in> set BLOCK_SIZES" and n: "unat (BlockNum B) < 2 ^ 20"
    using szx_cases [of "v AND 7" v] v by (auto simp: BLOCK_SIZES_def unat_drop_bit)
  then show "BlockNum B < 0x100000" by (simp add: word_less_nat_alt)
qed

section \<open>Removing options\<close>

lemma remove_blocks_eq:
  assumes "distinct (opt_ptrs L)"
  shows "remove_blocks_loop A m L ty found =
    (found \<or> ty \<in> Number ` set L, filter (\<lambda>p. Number p \<noteq> ty) L,
     foldl (coap_mem_release A) m (opt_ptrs (filter (\<lambda>p. Number p = ty) L)))"
  using assms
proof (induction A m L ty found rule: remove_blocks_loop.induct)
  case (1 A m L ty found)
  show ?case
  proof (cases "opt_find ty L")
    case None
    then have "filter (\<lambda>p. Number p \<noteq> ty) L = L" "filter (\<lambda>p. Number p = ty) L = []" "ty \<notin> Number ` set L"
      by (auto simp: find_None_iff filter_id_conv filter_empty_conv)
    then show ?thesis using None by (simp add: remove_blocks_loop.simps)
  next
    case (Some p)
    then obtain xs ys where L: "L = xs @ p # ys" "Number p = ty" "\<forall>x \<in> set xs. Number x \<noteq> ty"
      by (auto simp: find_Some_iff dest!: id_take_nth_drop) (metis id_take_nth_drop in_set_conv_nth length_take min_less_iff_conj nth_take)
    have rm: "CoAP_RemoveOptionFromList A m L (opt_at p) = (COAP_OK, xs @ ys, coap_mem_release A m (opt_at p))"
    proof -
      have keep: "filter (\<lambda>x. opt_at x \<noteq> opt_at p) zs = zs" if "opt_at p \<notin> opt_at ` set zs" for zs
        using that by (metis (mono_tags, lifting) filter_True image_eqI)
      have "opt_at p \<notin> opt_at ` set xs" "opt_at p \<notin> opt_at ` set ys"
        using "1.prems" by (auto simp: L)
      from keep [OF this(1)] keep [OF this(2)] show ?thesis
        using RemoveOption_eq [OF "1.prems", of A m "opt_at p"] by (simp add: L)
    qed
    have "remove_blocks_loop A m L ty found = remove_blocks_loop A (coap_mem_release A m (opt_at p)) (xs @ ys) ty True"
      using Some rm by (simp add: remove_blocks_loop.simps)
    also have "\<dots> = (True, filter (\<lambda>p. Number p \<noteq> ty) (xs @ ys),
        foldl (coap_mem_release A) (coap_mem_release A m (opt_at p)) (opt_ptrs (filter (\<lambda>p. Number p = ty) (xs @ ys))))"
      using "1.IH" [OF Some rm [symmetric] refl] "1.prems" L by (auto simp: rm)
    finally show ?thesis using L by simp
  qed
qed

section \<open>Payload slices\<close>

definition block_slice :: "nat \<Rightarrow> nat \<Rightarrow> 'a list \<Rightarrow> 'a list" where
  "block_slice sz n data = take sz (drop (sz * n) data)"

text \<open>The slices of all blocks, put together, are the data.\<close>

lemma concat_block_slices: "concat (map (\<lambda>n. block_slice sz n data) [0..<k]) = take (sz * k) data"
proof (induction k)
  case (Suc k)
  have "take (sz * Suc k) data = take (sz * k) data @ take sz (drop (sz * k) data)"
    by (metis add.commute mult_Suc_right take_add)
  with Suc show ?case by (simp add: block_slice_def)
qed simp

lemma append_to_msg_options:
  "append_to_msg A m msg n buf len = (r, msg', m') \<Longrightarrow> msg' = msg\<lparr>pOptionsList := pOptionsList msg'\<rparr>"
  by (auto simp: append_to_msg_def split: prod.splits)

lemma AddBlk_options:
  "AddBlkOptionToMsg A m msg B = (r, msg', m') \<Longrightarrow> msg' = msg\<lparr>pOptionsList := pOptionsList msg'\<rparr>"
  by (auto simp: AddBlkOptionToMsg_def Let_def split: if_splits dest: append_to_msg_options)

lemma RemoveAllBlock_options:
  "RemoveAllBlockOptionsFromMsg A m msg ty = (r, msg', m') \<Longrightarrow> msg' = msg\<lparr>pOptionsList := pOptionsList msg'\<rparr>"
  by (auto simp: RemoveAllBlockOptionsFromMsg_def split: prod.splits)

lemma use_payload_slice:
  assumes "use_payload A m resp pp data off n vol = Some (resp', m')" "0 \<le> n" "int off + n \<le> int (length data)"
  shows "take (nat n) (PayloadData resp') = take (nat n) (drop off data)"
  using assms by (auto simp: use_payload_def Let_def split: if_splits prod.splits)

definition block_of :: "CoAP_Message_t \<Rightarrow> CoAP_blockwise_option_t option" where
  "block_of req = (case GetBlock2OptionFromMsg req \<lparr>BlkType = BLOCK_2, BlockSize = 0, MoreFlag = False, BlockNum = 0\<rparr> of
     (r, B) \<Rightarrow> if r = COAP_OK then Some B else None)"

text \<open>The block size the server uses and the position of the block.\<close>

definition used_size :: "CoAP_blockwise_option_t \<Rightarrow> nat" where
  "used_size B = min 256 (unat (BlockSize B))"

lemma block_position:
  assumes B: "BlockSize B \<in> set BLOCK_SIZES" "unat (BlockNum B) < 2 ^ 20"
    and C: "C = (if BlockSize B > 256 then B\<lparr>BlockSize := 256\<rparr> else B)"
  shows "unat (BlockSize C) = used_size B" "BlockNum C = BlockNum B"
    "unat (BlockSize C * BlockNum C) = used_size B * unat (BlockNum B)"
    "sint (BlockSize C * BlockNum C) = int (used_size B * unat (BlockNum B))"
proof -
  show sz: "unat (BlockSize C) = used_size B" and n: "BlockNum C = BlockNum B"
    using C by (auto simp: used_size_def word_less_nat_alt min_def)
  have le: "used_size B \<le> 256" by (simp add: used_size_def)
  have "used_size B * unat (BlockNum B) \<le> 256 * 2 ^ 20"
    by (rule mult_le_mono [OF le]) (use B(2) in simp)
  then have b: "unat (BlockSize C) * unat (BlockNum C) < 2 ^ 31"
    by (simp add: sz n)
  then show u: "unat (BlockSize C * BlockNum C) = used_size B * unat (BlockNum B)"
    by (simp add: unat_word_ariths sz n)
  have "unat (BlockSize C * BlockNum C) < 2147483648" using b u sz n by simp
  then have "uint (BlockSize C * BlockNum C) < 2147483648"
    unfolding uint_nat by linarith
  then have "sint (BlockSize C * BlockNum C) = uint (BlockSize C * BlockNum C)"
    unfolding sint_uint by (intro signed_take_bit_int_eq_self) (simp_all add: order.trans [OF _ uint_ge_0])
  then show "sint (BlockSize C * BlockNum C) = int (used_size B * unat (BlockNum B))"
    using u by (simp add: uint_nat del: of_nat_unat)
qed

lemma block_of_Some:
  assumes "block_of req = Some B"
  shows "GetBlock2OptionFromMsg req \<lparr>BlkType = BLOCK_2, BlockSize = 0, MoreFlag = False, BlockNum = 0\<rparr> = (COAP_OK, B)"
    "BlockSize B \<in> set BLOCK_SIZES" "unat (BlockNum B) < 2 ^ 20"
proof -
  show g: "GetBlock2OptionFromMsg req \<lparr>BlkType = BLOCK_2, BlockSize = 0, MoreFlag = False, BlockNum = 0\<rparr> = (COAP_OK, B)"
    using assms by (auto simp: block_of_def split: prod.splits if_splits)
  show "BlockSize B \<in> set BLOCK_SIZES" "unat (BlockNum B) < 2 ^ 20"
    using GetBlock_range g unfolding GetBlock2OptionFromMsg_def by blast+
qed

text \<open>The branch of \<open>CoAP_SetPayload\<close> for a request with a Block2 option, with the position and the
  number of bytes as natural numbers. \<open>answer_block\<close> is the option of the response.\<close>

definition answer_block :: "CoAP_blockwise_option_t \<Rightarrow> nat \<Rightarrow> CoAP_blockwise_option_t" where
  "answer_block B len = B\<lparr>BlockSize := of_nat (used_size B),
     MoreFlag := MoreFlag B \<or> used_size B * unat (BlockNum B) + used_size B < len\<rparr>"

lemma set_payload_block2:
  assumes blk: "block_of req = Some B" and data: "length data < 65536" and noalias: "pp \<noteq> Payload resp"
    and pos: "pos = used_size B * unat (BlockNum B)" "pos < length data"
    and n: "n = min (used_size B) (length data - pos)"
  shows "CoAP_SetPayload A m (Some req) resp pp data (of_nat (length data)) vol =
    (case RemoveAllBlockOptionsFromMsg A m resp BLOCK_2 of (_, resp1, m1) \<Rightarrow>
     case AddBlkOptionToMsg A m1 resp1 (answer_block B (length data)) of (_, resp2, m2) \<Rightarrow>
     case use_payload A m2 resp2 pp data pos (int n) vol of None \<Rightarrow> None
     | Some (resp3, m3) \<Rightarrow> Some (COAP_OK, resp3\<lparr>PayloadLength := of_nat n\<rparr>, m3))"
proof -
  define C where "C = (if BlockSize B > 256 then B\<lparr>BlockSize := 256\<rparr> else B)"
  note P = block_position [OF block_of_Some(2,3) [OF blk] C_def]
  have len: "unat (of_nat (length data) :: u16) = length data" using data by (rule unat_of_nat16)
  then have ulen: "uint (of_nat (length data) :: u16) = int (length data)" "(of_nat (length data) :: u16) \<noteq> 0"
    using pos(2) by (auto simp: uint_nat word_unat_eq_iff simp del: of_nat_unat)
  have sz: "uint (BlockSize C) = int (used_size B)" "BlockSize C = of_nat (used_size B)"
    unfolding P(1) [symmetric] by simp_all
  have left: "uint (of_nat (length data) :: u16) - sint (BlockSize C * BlockNum C) = int (length data - pos)"
    using P(4) pos ulen(1) by (simp add: of_nat_diff)
  have base: "C = B\<lparr>BlockSize := of_nat (used_size B)\<rparr>"
    using sz(2) by (cases B) (auto simp: C_def split: if_splits)
  have more: "int (length data - pos) > int (used_size B) \<longleftrightarrow> used_size B * unat (BlockNum B) + used_size B < length data"
    using pos by linarith
  have C: "C\<lparr>MoreFlag := True\<rparr> = answer_block B (length data)" if "int (length data - pos) > int (used_size B)"
    using that unfolding more by (simp add: base answer_block_def)
  have C': "C = answer_block B (length data)" if "\<not> int (length data - pos) > int (used_size B)"
    using that unfolding more by (cases B) (simp add: base answer_block_def)
  have both: "(if int (length data - pos) > int (used_size B) then (int (used_size B), C\<lparr>MoreFlag := True\<rparr>)
      else (int (length data - pos), C)) = (int n, answer_block B (length data))"
    using C C' n by (auto simp: min_def)
  obtain r1 resp1 m1 where R: "RemoveAllBlockOptionsFromMsg A m resp BLOCK_2 = (r1, resp1, m1)"
    by (metis prod_cases3)
  obtain r2 resp2 m2 where D: "AddBlkOptionToMsg A m1 resp1 (answer_block B (length data)) = (r2, resp2, m2)"
    by (metis prod_cases3)
  have "Payload resp2 = Payload resp"
    using arg_cong [OF RemoveAllBlock_options [OF R], of Payload] arg_cong [OF AddBlk_options [OF D], of Payload] by simp
  then have al: "(pp = Payload resp2) = False" using noalias by simp
  have pos': "(int (length data - pos) \<le> 0) = False" using pos(2) by simp
  have ne: "((of_nat (length data) :: u16) = 0) = False" using ulen(2) by simp
  show ?thesis
    unfolding CoAP_SetPayload_def Let_def option.case block_of_Some(1) [OF blk] prod.case C_def [symmetric] left sz(1)
      both pos' ne if_False R D P(3) pos(1) [symmetric] al refl if_True nat_int
    by (simp split: option.splits prod.splits)
qed

lemma set_payload_slice:
  assumes blk: "block_of req = Some B" and data: "length data < 65536" and al: "pp \<noteq> Payload resp"
    and pos: "used_size B * unat (BlockNum B) < length data"
    and set: "CoAP_SetPayload A m (Some req) resp pp data (of_nat (length data)) vol = Some (r, resp', m')"
  shows "r = COAP_OK" "take (unat (PayloadLength resp')) (PayloadData resp') = block_slice (used_size B) (unat (BlockNum B)) data"
proof -
  let ?pos = "used_size B * unat (BlockNum B)"
  let ?n = "min (used_size B) (length data - ?pos)"
  obtain m2 resp2 resp3 where up: "use_payload A m2 resp2 pp data ?pos (int ?n) vol = Some (resp3, m')"
    and r: "r = COAP_OK" "resp' = resp3\<lparr>PayloadLength := of_nat ?n\<rparr>"
    using set unfolding set_payload_block2 [OF blk data al refl pos refl] by (auto split: prod.splits option.splits)
  have n: "unat (of_nat ?n :: u16) = ?n"
    by (rule unat_of_nat16) (simp add: used_size_def)
  have "take (nat (int ?n)) (PayloadData resp3) = take (nat (int ?n)) (drop ?pos data)"
    by (rule use_payload_slice [OF up]) (simp, use pos min.cobounded2 [of "used_size B" "length data - ?pos"] in linarith)
  moreover have "PayloadLength resp' = of_nat ?n" "PayloadData resp' = PayloadData resp3"
    by (simp_all add: r(2))
  ultimately have "take (unat (PayloadLength resp')) (PayloadData resp') = take ?n (drop ?pos data)"
    by (simp only: n nat_int)
  then show "take (unat (PayloadLength resp')) (PayloadData resp') = block_slice (used_size B) (unat (BlockNum B)) data"
    by (simp add: block_slice_def min_def)
  show "r = COAP_OK" by (rule r(1))
qed

lemma set_payload_wrong_eq:
  assumes blk: "block_of req = Some B" and data: "data \<noteq> []" "length data < 65536"
    and pos: "length data \<le> used_size B * unat (BlockNum B)"
  shows "CoAP_SetPayload A m (Some req) resp pp data (of_nat (length data)) vol =
    (case CoAP_addTextPayload A m resp block_not_existing of None \<Rightarrow> None
     | Some (_, resp1, m1) \<Rightarrow> Some (COAP_ERR_WRONG_OPTION, resp1\<lparr>Code := RESP_BAD_OPTION_4_02\<rparr>, m1))"
proof -
  define C where "C = (if BlockSize B > 256 then B\<lparr>BlockSize := 256\<rparr> else B)"
  note P = block_position [OF block_of_Some(2,3) [OF blk] C_def]
  have len: "unat (of_nat (length data) :: u16) = length data" using data(2) by (rule unat_of_nat16)
  then have ulen: "uint (of_nat (length data) :: u16) = int (length data)" "((of_nat (length data) :: u16) = 0) = False"
    using data(1) by (auto simp: uint_nat word_unat_eq_iff simp del: of_nat_unat)
  have left: "(uint (of_nat (length data) :: u16) - sint (BlockSize C * BlockNum C) \<le> 0) = True"
    unfolding ulen(1) P(4) eq_True using pos by linarith
  show ?thesis
    unfolding CoAP_SetPayload_def Let_def option.case block_of_Some(1) [OF blk] prod.case C_def [symmetric] left
      ulen(2) if_False if_True by simp
qed

lemma set_payload_wrong_block:
  assumes "block_of req = Some B" "data \<noteq> []" "length data < 65536" "length data \<le> used_size B * unat (BlockNum B)"
    and "CoAP_SetPayload A m (Some req) resp pp data (of_nat (length data)) vol = Some (r, resp', m')"
  shows "r = COAP_ERR_WRONG_OPTION" "Code resp' = RESP_BAD_OPTION_4_02"
  using set_payload_wrong_eq [OF assms(1-4), of A m resp pp vol] assms(5) by (auto split: option.splits)

text \<open>Without a Block2 option in the request the response carries the first 256 bytes at most.\<close>

lemma set_payload_first:
  assumes blk: "block_of req = None" and data: "data \<noteq> []" "length data < 65536" and al: "pp \<noteq> Payload resp"
    and set: "CoAP_SetPayload A m (Some req) resp pp data (of_nat (length data)) vol = Some (r, resp', m')"
  shows "r = COAP_OK" "take (unat (PayloadLength resp')) (PayloadData resp') = take 256 data"
proof -
  let ?n = "min 256 (length data)"
  have len: "unat (of_nat (length data) :: u16) = length data" using data(2) by (rule unat_of_nat16)
  then have ulen: "uint (of_nat (length data) :: u16) = int (length data)" "((of_nat (length data) :: u16) = 0) = False"
    "(of_nat (length data) :: u16) > 256 \<longleftrightarrow> length data > 256"
    using data(1) by (auto simp: uint_nat word_unat_eq_iff word_less_nat_alt simp del: of_nat_unat)
  have ok: "(fst (GetBlock2OptionFromMsg req \<lparr>BlkType = BLOCK_2, BlockSize = 0, MoreFlag = False, BlockNum = 0\<rparr>) = COAP_OK) = False"
    using blk by (auto simp: block_of_def split: prod.splits if_splits)
  obtain m2 resp2 resp3 where up: "use_payload A m2 resp2 pp data 0 (int ?n) vol = Some (resp3, m')"
    and r: "r = COAP_OK" "resp' = resp3\<lparr>PayloadLength := of_nat ?n\<rparr>"
  proof -
    have "Payload resp1 = Payload resp" if "AddBlkOptionToMsg A m resp D = (x, resp1, m1)" for D x resp1 m1
      using arg_cong [OF AddBlk_options [OF that], of Payload] by simp
    with set al show thesis
      using ok that ulen unfolding CoAP_SetPayload_def Let_def option.case
      by (auto simp: min_def split: prod.splits option.splits if_splits simp del: BLOCK_2_def)
  qed
  have n: "unat (of_nat ?n :: u16) = ?n"
    by (rule unat_of_nat16) simp
  have "take (nat (int ?n)) (PayloadData resp3) = take (nat (int ?n)) (drop 0 data)"
    by (rule use_payload_slice [OF up]) auto
  then show "take (unat (PayloadLength resp')) (PayloadData resp') = take 256 data"
    by (simp add: r(2) n [unfolded min_def] min_def len split: if_splits)
  show "r = COAP_OK" by (rule r(1))
qed

end
