(* ===== verification/Uri_Correct.thy ===== *)
theory Uri_Correct
  imports Uri Option_Types_Correct "HOL-Library.Sublist"
begin

text \<open>
  Correctness of the URI functions: the two string loops against a reference definition of the
  parts of a URI, the comparison of paths, and the conversion of numbers.
\<close>

section \<open>Parts of a URI\<close>

text \<open>The non-empty maximal runs of characters that are not delimiters.\<close>

function parts :: "('a \<Rightarrow> bool) \<Rightarrow> 'a list \<Rightarrow> 'a list list" where
  "parts D s =
     (case dropWhile D s of
        [] \<Rightarrow> []
      | c # t \<Rightarrow> takeWhile (\<lambda>x. \<not> D x) (c # t) # parts D (dropWhile (\<lambda>x. \<not> D x) (c # t)))"
  by pat_completeness auto
termination
proof (relation "measure (\<lambda>(D, s). length s)")
  fix D :: "'a \<Rightarrow> bool" and s c t
  assume d: "dropWhile D s = c # t"
  then have "\<not> D c" by (metis hd_dropWhile list.sel(1) list.distinct(1))
  then have "length (dropWhile (\<lambda>x. \<not> D x) (c # t)) \<le> length t"
    by (simp add: length_dropWhile_le)
  moreover have "length (c # t) \<le> length s" by (metis d length_dropWhile_le)
  ultimately show "((D, dropWhile (\<lambda>x. \<not> D x) (c # t)), D, s) \<in> measure (\<lambda>(D, s). length s)"
    by simp
qed simp

declare parts.simps [simp del]

definition uri_parts :: "u8 list \<Rightarrow> (u16 \<times> u8 list) list" where
  "uri_parts s =
     (let path = takeWhile (\<lambda>c. c \<noteq> chr CHR ''?'') s;
          query = tl (dropWhile (\<lambda>c. c \<noteq> chr CHR ''?'') s)
      in map (Pair OPT_NUM_URI_PATH) (parts (\<lambda>c. c = chr CHR ''/'' \<or> c = chr CHR '' '') path) @
         map (Pair OPT_NUM_URI_QUERY) (parts (\<lambda>c. c = chr CHR ''&'') query))"

fun append_parts :: "'m mem_ops \<Rightarrow> 'm \<Rightarrow> CoAP_option_t list \<Rightarrow> (u16 \<times> u8 list) list \<Rightarrow> CoAP_option_t list \<times> 'm" where
  "append_parts A m L [] = (L, m)"
| "append_parts A m L ((n, v) # ps) =
     (let (_, L', m') = CoAP_AppendOptionToList A m L n v (of_nat (length v)) in append_parts A m' L' ps)"

text \<open>The parts that are stored: those whose insertion answers \<open>COAP_OK\<close>.\<close>

fun stored_parts :: "'m mem_ops \<Rightarrow> 'm \<Rightarrow> CoAP_option_t list \<Rightarrow> (u16 \<times> u8 list) list \<Rightarrow> (u16 \<times> u8 list) list" where
  "stored_parts A m L [] = []"
| "stored_parts A m L ((n, v) # ps) =
     (let (r, L', m') = CoAP_AppendOptionToList A m L n v (of_nat (length v))
      in if r = COAP_OK then (n, v) # stored_parts A m' L' ps else stored_parts A m' L' ps)"

lemma subseq_stored_parts: "subseq (stored_parts A m L ps) ps"
  by (induction A m L ps rule: stored_parts.induct) (auto split: prod.splits)

lemma append_parts_append:
  "append_parts A m L (ps @ qs) = (case append_parts A m L ps of (L', m') \<Rightarrow> append_parts A m' L' qs)"
  by (induction A m L ps rule: append_parts.induct) (auto split: prod.splits)

text \<open>Only the counted characters of the current part are copied.\<close>

lemma append_prefix:
  "CoAP_AppendOptionToList A m L n (w @ s) (of_nat (length w)) = CoAP_AppendOptionToList A m L n w (of_nat (length w))"
proof -
  have "unat (of_nat (length w) :: u16) \<le> length w"
    by (simp add: unsigned_of_nat take_bit_nat_less_eq_self)
  then have "fill_option p n (w @ s) (of_nat (length w)) = fill_option p n w (of_nat (length w))" for p
    by (simp add: fill_option_def)
  then show ?thesis by (simp only: append_cases)
qed

section \<open>Runs of characters\<close>

lemma parts_delim: "D c \<Longrightarrow> parts D (c # s) = parts D s"
  by (subst parts.simps, subst (2) parts.simps) simp

lemma parts_Nil [simp]: "parts D [] = []"
  by (simp add: parts.simps)

lemma parts_run:
  assumes "\<forall>x \<in> set w. \<not> D x" "w \<noteq> []"
  shows "parts D w = [w]" "D c \<Longrightarrow> parts D (w @ c # s) = w # parts D s"
proof -
  obtain x w' where w: "w = x # w'" "\<not> D x" using assms by (cases w) auto
  have "takeWhile (\<lambda>x. \<not> D x) w = w" "dropWhile (\<lambda>x. \<not> D x) w = []"
    using assms by (auto simp: takeWhile_eq_all_conv)
  then show "parts D w = [w]"
    using w by (subst parts.simps) (simp del: dropWhile_eq_Nil_conv)
  show "parts D (w @ c # s) = w # parts D s" if "D c"
  proof -
    have "takeWhile (\<lambda>x. \<not> D x) (w @ c # s) = w" "dropWhile (\<lambda>x. \<not> D x) (w @ c # s) = c # s"
      using assms that by (auto simp: takeWhile_append2 dropWhile_append2)
    then have "parts D (w @ c # s) = w # parts D (c # s)"
      using w by (subst parts.simps) simp
    with that show ?thesis by (simp add: parts_delim)
  qed
qed

lemma query_loop_parts:
  assumes "\<forall>x \<in> set w. x \<noteq> chr CHR ''&''"
  shows "ParseUriQuery_loop A m L (w @ s) (length w) s =
    (COAP_OK, append_parts A m L (map (Pair OPT_NUM_URI_QUERY) (parts (\<lambda>c. c = chr CHR ''&'') (w @ s))))"
  using assms
proof (induction s arbitrary: w m L)
  case Nil
  then show ?case
    using parts_run(1) [of w "\<lambda>c. c = chr CHR ''&''"] by (cases "w = []") (auto split: prod.splits)
next
  case (Cons c s)
  show ?case
  proof (cases "c = chr CHR ''&''")
    case False
    have "\<forall>x \<in> set (w @ [c]). x \<noteq> chr CHR ''&''" using False Cons.prems by auto
    from Cons.IH [OF this] False show ?thesis by simp
  next
    case amp: True
    show ?thesis
    proof (cases "w = []")
      case True
      then show ?thesis using amp Cons.IH [of "[]"] by (simp add: parts_delim)
    next
      case False
      have p: "parts (\<lambda>c. c = chr CHR ''&'') (w @ c # s) = w # parts (\<lambda>c. c = chr CHR ''&'') s"
        using parts_run(2) [of w "\<lambda>c. c = chr CHR ''&''" c] Cons.prems False amp by blast
      show ?thesis
        unfolding p using False amp Cons.IH [of "[]"] by (simp add: append_prefix split: prod.splits)
    qed
  qed
qed

lemma uri_parts_step:
  assumes w: "\<forall>x \<in> set w. x \<noteq> chr CHR ''/'' \<and> x \<noteq> chr CHR '' '' \<and> x \<noteq> chr CHR ''?''"
  shows "w \<noteq> [] \<Longrightarrow> uri_parts w = [(OPT_NUM_URI_PATH, w)]"
    "w \<noteq> [] \<Longrightarrow> uri_parts (w @ chr CHR ''?'' # s) =
       (OPT_NUM_URI_PATH, w) # map (Pair OPT_NUM_URI_QUERY) (parts (\<lambda>c. c = chr CHR ''&'') s)"
    "uri_parts (chr CHR ''?'' # s) = map (Pair OPT_NUM_URI_QUERY) (parts (\<lambda>c. c = chr CHR ''&'') s)"
    "w \<noteq> [] \<Longrightarrow> c = chr CHR ''/'' \<or> c = chr CHR '' '' \<Longrightarrow> uri_parts (w @ c # s) = (OPT_NUM_URI_PATH, w) # uri_parts s"
    "c = chr CHR ''/'' \<or> c = chr CHR '' '' \<Longrightarrow> uri_parts (c # s) = uri_parts s" "uri_parts [] = []"
proof -
  let ?D = "\<lambda>c. c = chr CHR ''/'' \<or> c = chr CHR '' ''"
  have tw: "takeWhile (\<lambda>c. c \<noteq> chr CHR ''?'') (w @ t) = w @ takeWhile (\<lambda>c. c \<noteq> chr CHR ''?'') t"
    "dropWhile (\<lambda>c. c \<noteq> chr CHR ''?'') (w @ t) = dropWhile (\<lambda>c. c \<noteq> chr CHR ''?'') t" for t
    using w by (auto simp: takeWhile_append dropWhile_append)
  have nd: "\<forall>x \<in> set w. \<not> ?D x" using w by blast
  show "uri_parts w = [(OPT_NUM_URI_PATH, w)]" if "w \<noteq> []"
  proof -
    have "uri_parts (w @ []) = [(OPT_NUM_URI_PATH, w)]"
      unfolding uri_parts_def tw using parts_run(1) [OF nd that] by simp
    then show ?thesis by simp
  qed
  show "uri_parts (w @ chr CHR ''?'' # s) =
      (OPT_NUM_URI_PATH, w) # map (Pair OPT_NUM_URI_QUERY) (parts (\<lambda>c. c = chr CHR ''&'') s)" if "w \<noteq> []"
    unfolding uri_parts_def tw using parts_run(1) [OF nd that] by simp
  show "uri_parts (chr CHR ''?'' # s) = map (Pair OPT_NUM_URI_QUERY) (parts (\<lambda>c. c = chr CHR ''&'') s)"
    by (simp add: uri_parts_def)
  show "uri_parts (w @ c # s) = (OPT_NUM_URI_PATH, w) # uri_parts s" if ne: "w \<noteq> []" and c: "?D c"
  proof -
    have c': "c \<noteq> chr CHR ''?''" using c by auto
    show ?thesis
      unfolding uri_parts_def tw using c' parts_run(2) [OF nd ne c, of "takeWhile (\<lambda>c. c \<noteq> chr CHR ''?'') s"]
      by (simp add: Let_def)
  qed
  show "uri_parts (c # s) = uri_parts s" if c: "?D c"
  proof -
    have c': "c \<noteq> chr CHR ''?''" using c by auto
    show ?thesis
      unfolding uri_parts_def using c' parts_delim [of ?D c "takeWhile (\<lambda>c. c \<noteq> chr CHR ''?'') s", OF c]
      by (simp add: Let_def)
  qed
  show "uri_parts [] = []" by (simp add: uri_parts_def)
qed

lemma uri_loop_parts:
  assumes "\<forall>x \<in> set w. x \<noteq> chr CHR ''/'' \<and> x \<noteq> chr CHR '' '' \<and> x \<noteq> chr CHR ''?''"
  shows "AppendUri_loop A m L (w @ s) (length w) s = (COAP_OK, append_parts A m L (uri_parts (w @ s)))"
  using assms
proof (induction s arbitrary: w m L)
  case Nil
  then show ?case
    using uri_parts_step(1,6) [OF Nil] by (cases "w = []") (auto split: prod.splits)
next
  case (Cons c s)
  have qry: "ParseUriQueryFromStringToOption A m L s =
      (COAP_OK, append_parts A m L (map (Pair OPT_NUM_URI_QUERY) (parts (\<lambda>c. c = chr CHR ''&'') s)))" for m L
    unfolding ParseUriQueryFromStringToOption_def using query_loop_parts [of "[]" A m L s] by simp
  consider (char) "c \<noteq> chr CHR ''/''" "c \<noteq> chr CHR '' ''" "c \<noteq> chr CHR ''?''" | (query) "c = chr CHR ''?''"
    | (delim) "c = chr CHR ''/'' \<or> c = chr CHR '' ''" by blast
  then show ?case
  proof cases
    case char
    then have "\<forall>x \<in> set (w @ [c]). x \<noteq> chr CHR ''/'' \<and> x \<noteq> chr CHR '' '' \<and> x \<noteq> chr CHR ''?''"
      using Cons.prems by auto
    from Cons.IH [OF this] char show ?thesis by simp
  next
    case query
    show ?thesis
    proof (cases "w = []")
      case True
      then show ?thesis using query qry uri_parts_step(3) [of "[]" s] by simp
    next
      case False
      then show ?thesis
        unfolding query uri_parts_step(2) [OF Cons.prems False]
        using qry by (simp add: append_prefix split: prod.splits)
    qed
  next
    case delim
    show ?thesis
    proof (cases "w = []")
      case True
      then show ?thesis using delim Cons.IH [of "[]"] uri_parts_step(5) [of "[]" c s] by auto
    next
      case False
      then show ?thesis
        unfolding uri_parts_step(4) [OF Cons.prems False delim]
        using delim Cons.IH [of "[]"] by (auto simp: append_prefix split: prod.splits)
    qed
  qed
qed

lemma AppendUriOptions_parts:
  "CoAP_AppendUriOptionsFromString A m L (Some s) = (COAP_OK, append_parts A m L (uri_parts s))"
  unfolding CoAP_AppendUriOptionsFromString_def using uri_loop_parts [of "[]" A m L s] by simp

section \<open>Memory of the option list\<close>

lemma set_parts: "p \<in> set (parts D s) \<Longrightarrow> length p \<le> length s"
proof (induction D s rule: parts.induct)
  case (1 D s)
  show ?case
  proof (cases "dropWhile D s")
    case Nil
    then show ?thesis
      using "1.prems" by (subst (asm) parts.simps) (simp add: Nil del: dropWhile_eq_Nil_conv)
  next
    case (Cons c t)
    have len: "length (c # t) \<le> length s" by (metis Cons length_dropWhile_le)
    from "1.prems" Cons consider "p = takeWhile (\<lambda>x. \<not> D x) (c # t)" | "p \<in> set (parts D (dropWhile (\<lambda>x. \<not> D x) (c # t)))"
      by (subst (asm) parts.simps) auto
    then show ?thesis
    proof cases
      case 1
      show ?thesis unfolding 1 by (rule le_trans [OF length_takeWhile_le len])
    next
      case 2
      show ?thesis by (rule le_trans [OF "1.IH" [OF Cons 2] le_trans [OF length_dropWhile_le len]])
    qed
  qed
qed

lemma uri_parts_props:
  "sorted (map fst (uri_parts s))" "(n, v) \<in> set (uri_parts s) \<Longrightarrow> length v \<le> length s"
proof -
  have "map fst (map (Pair a) xs) = replicate (length xs) a" for a :: u16 and xs :: "u8 list list"
    by (induction xs) auto
  then show "sorted (map fst (uri_parts s))"
    by (simp add: uri_parts_def sorted_append)
  assume "(n, v) \<in> set (uri_parts s)"
  then have "length v \<le> length (takeWhile (\<lambda>c. c \<noteq> chr CHR ''?'') s) \<or> length v \<le> length (tl (dropWhile (\<lambda>c. c \<noteq> chr CHR ''?'') s))"
    by (auto simp: uri_parts_def Let_def dest: set_parts)
  then show "length v \<le> length s"
    using length_takeWhile_le [of "\<lambda>c. c \<noteq> chr CHR ''?''" s] length_dropWhile_le [of "\<lambda>c. c \<noteq> chr CHR ''?''" s] by auto
qed

context coap_allocator
begin

lemma append_parts_owns:
  assumes "rep m h'" "heap_ext h (opt_ptrs L) h'" "opts_wf L" "sorted (map fst ps)"
    "\<forall>(n, v) \<in> set ps. length v \<le> 32000 \<and> all_le L n"
  shows "\<exists>qs L' m' h''. append_parts A m L ps = (L', m') \<and> rep m' h'' \<and> heap_ext h (opt_ptrs L') h'' \<and>
    map opt_view L' = map opt_view L @ qs \<and> qs = stored_parts A m L ps \<and> opts_wf L'"
  using assms
proof (induction ps arbitrary: m h' L)
  case Nil
  then show ?case by auto
next
  case (Cons nv ps)
  obtain n v where nv: "nv = (n, v)" by fastforce
  have v: "length v \<le> 32000" "all_le L n" using Cons.prems(5) nv by auto
  have len: "unat (of_nat (length v) :: u16) = length v" using v(1) by (intro unat_of_nat16) simp
  obtain r L1 m1 where app: "CoAP_AppendOptionToList A m L n v (of_nat (length v)) = (r, L1, m1)"
    by (metis prod_cases3)
  have sz: "sizeof_CoAP_option_t + uint (of_nat (length v) :: u16) \<le> MAX_REQ"
    using len v(1) by (simp add: sizeof_CoAP_option_t_def MAX_REQ_def uint_nat del: of_nat_unat)
  have srt: "sorted (map fst ps)" "\<forall>(n', v') \<in> set ps. n \<le> n'"
    using Cons.prems(4) nv by auto
  from Cons.prems(1) sz app show ?case
  proof (cases rule: append_spec)
    case fail
    have "L1 = L" using fail(3) v(2) by (cases L) (auto simp: all_le_def)
    then obtain qs L' m' h'' where "append_parts A m1 L1 ps = (L', m')" "rep m' h''" "heap_ext h (opt_ptrs L') h''"
      "map opt_view L' = map opt_view L @ qs" "qs = stored_parts A m1 L1 ps" "opts_wf L'"
      using Cons.IH [OF fail(2) Cons.prems(2,3) srt(1)] Cons.prems(5) by auto
    then show ?thesis using app nv fail(1) by auto
  next
    case (ok p k)
    let ?x = "fill_option p n v (of_nat (length v))"
    have L1: "L1 = L @ [?x]"
      using ok(5) v(2) by (simp add: insert_option_last all_le_def)
    have ext: "heap_ext h (opt_ptrs L1) (h'(p \<mapsto> k))"
      using heap_ext_insert_option [OF Cons.prems(2), of ?x k] ok(3,5) by simp
    have wf: "opts_wf L1"
      using opts_wf_insert [OF Cons.prems(3), of ?x] ok(5) len by simp
    have le: "\<forall>(n', v') \<in> set ps. length v' \<le> 32000 \<and> all_le L1 n'"
      using Cons.prems(5) srt(2) by (auto simp: L1 all_le_def)
    obtain qs L' m' h'' where "append_parts A m1 L1 ps = (L', m')" "rep m' h''" "heap_ext h (opt_ptrs L') h''"
      "map opt_view L' = map opt_view L1 @ qs" "qs = stored_parts A m1 L1 ps" "opts_wf L'"
      using Cons.IH [OF ok(4) ext wf srt(1) le] by blast
    moreover have "opt_view ?x = (n, v)" using len by (simp add: opt_view_def)
    ultimately show ?thesis using app nv by (intro exI [of _ "(n, v) # qs"]) (auto simp: L1 ok(1))
  qed
qed

lemma uri_options_owned:
  assumes "rep m h" "length s \<le> 32000"
  obtains L m' h' where "CoAP_AppendUriOptionsFromString A m [] (Some s) = (COAP_OK, L, m')" "rep m' h'"
    "heap_ext h (opt_ptrs L) h'" "map opt_view L = stored_parts A m [] (uri_parts s)" "opts_wf L"
proof -
  have "\<forall>(n, v) \<in> set (uri_parts s). length v \<le> 32000 \<and> all_le [] n"
    using uri_parts_props(2) [of _ _ s] assms(2) by (fastforce simp: all_le_def)
  then show thesis
    using append_parts_owns [OF assms(1), of h "[]" "uri_parts s"] uri_parts_props(1) that
    by (auto simp: AppendUriOptions_parts opts_wf_def)
qed

end

text \<open>With 28 bytes and the length of its value for every part in one free buffer, all parts are stored.\<close>

abbreviation uri_need :: "(u16 \<times> u8 list) list \<Rightarrow> int" where
  "uri_need ps \<equiv> \<Sum>(n, v) \<leftarrow> ps. 28 + int (length v)"

lemma uri_need_nonneg: "0 \<le> uri_need ps"
  by (induction ps) auto

context allocator_room
begin

lemma stored_parts_all:
  assumes "room (uri_need ps) m" "\<forall>(n, v) \<in> set ps. length v \<le> 32000"
  shows "stored_parts A m L ps = ps"
  using assms
proof (induction ps arbitrary: m L)
  case (Cons nv ps)
  obtain n v where nv: "nv = (n, v)" by fastforce
  have len: "uint (of_nat (length v) :: u16) = int (length v)"
    using unat_of_nat16 [of "length v"] Cons.prems(2) nv by (simp add: uint_nat del: of_nat_unat)
  obtain p m' where "CoAP_AppendOptionToList A m L n v (of_nat (length v)) =
      (COAP_OK, insert_option (fill_option p n v (of_nat (length v))) L, m')" "room (uri_need ps) m'"
    by (rule room_append [where len = "of_nat (length v)" and b = "uri_need ps" and m = m])
      (use Cons.prems nv uri_need_nonneg [of ps] in \<open>auto simp: len sizeof_CoAP_option_t_def MAX_REQ_def\<close>)
  then show ?case using Cons nv by simp
qed simp

lemma uri_options_all:
  assumes "room (uri_need (uri_parts s)) m" "length s \<le> 32000"
  shows "stored_parts A m L (uri_parts s) = uri_parts s"
  using stored_parts_all [OF assms(1)] uri_parts_props(2) [of _ _ s] assms(2) by fastforce

end

section \<open>Equality of paths\<close>

definition uri_path :: "CoAP_option_t list \<Rightarrow> u8 list list" where
  "uri_path L = map Value (filter (\<lambda>p. Number p = OPT_NUM_URI_PATH) L)"

lemma uri_path_cases:
  obtains "dropWhile (\<lambda>p. Number p \<noteq> OPT_NUM_URI_PATH) L = []" "uri_path L = []"
  | x xs where "dropWhile (\<lambda>p. Number p \<noteq> OPT_NUM_URI_PATH) L = x # xs" "uri_path L = Value x # uri_path xs"
      "Number x = OPT_NUM_URI_PATH" "x \<in> set L" "set xs \<subseteq> set L"
proof (cases "dropWhile (\<lambda>p. Number p \<noteq> OPT_NUM_URI_PATH) L")
  case Nil
  then show ?thesis using that(1) by (simp add: uri_path_def filter_empty_conv)
next
  case (Cons x xs)
  have L: "L = takeWhile (\<lambda>p. Number p \<noteq> OPT_NUM_URI_PATH) L @ x # xs"
    by (metis Cons takeWhile_dropWhile_id)
  have x: "Number x = OPT_NUM_URI_PATH"
    using hd_dropWhile [of "\<lambda>p. Number p \<noteq> OPT_NUM_URI_PATH" L] unfolding Cons list.sel by blast
  have "filter (\<lambda>p. Number p = OPT_NUM_URI_PATH) (takeWhile (\<lambda>p. Number p \<noteq> OPT_NUM_URI_PATH) L) = []"
    by (auto simp: filter_empty_conv dest: set_takeWhileD)
  then have "uri_path L = Value x # uri_path xs"
    unfolding uri_path_def by (subst L) (use x in simp)
  then show ?thesis using that(2) [OF Cons _ x] L by (metis in_set_conv_decomp set_append set_subset_Cons subset_trans sup_ge2)
qed

lemma UriOptionsAreEqual_iff:
  assumes "list_all opt_wf L" "list_all opt_wf M"
  shows "CoAP_UriOptionsAreEqual L M \<longleftrightarrow> uri_path L = uri_path M"
  using assms
proof (induction L M rule: CoAP_UriOptionsAreEqual.induct)
  case (1 L M)
  show ?case
  proof (cases "L = [] \<and> M = []")
    case True
    then show ?thesis by (simp add: CoAP_UriOptionsAreEqual.simps)
  next
    case ne: False
    note step = CoAP_UriOptionsAreEqual.simps [of L M, unfolded if_not_P [OF ne] Let_def]
    show ?thesis
    proof (cases rule: uri_path_cases [of L]; cases rule: uri_path_cases [of M])
      assume *: "dropWhile (\<lambda>p. Number p \<noteq> OPT_NUM_URI_PATH) L = []" "uri_path L = []"
        "dropWhile (\<lambda>p. Number p \<noteq> OPT_NUM_URI_PATH) M = []" "uri_path M = []"
      then show ?thesis
        unfolding step * using CoAP_UriOptionsAreEqual.simps [of "[]" "[]"] by (simp add: list_head_def)
    next
      fix y ys
      assume *: "dropWhile (\<lambda>p. Number p \<noteq> OPT_NUM_URI_PATH) L = []" "uri_path L = []"
        "dropWhile (\<lambda>p. Number p \<noteq> OPT_NUM_URI_PATH) M = y # ys" "uri_path M = Value y # uri_path ys"
      then show ?thesis unfolding step * by (simp add: list_head_def)
    next
      fix x xs
      assume *: "dropWhile (\<lambda>p. Number p \<noteq> OPT_NUM_URI_PATH) L = x # xs" "uri_path L = Value x # uri_path xs"
        "dropWhile (\<lambda>p. Number p \<noteq> OPT_NUM_URI_PATH) M = []" "uri_path M = []"
      then show ?thesis unfolding step * by (simp add: list_head_def)
    next
      fix x xs y ys
      assume L: "dropWhile (\<lambda>p. Number p \<noteq> OPT_NUM_URI_PATH) L = x # xs" "uri_path L = Value x # uri_path xs"
          "Number x = OPT_NUM_URI_PATH" "x \<in> set L" "set xs \<subseteq> set L"
        and M: "dropWhile (\<lambda>p. Number p \<noteq> OPT_NUM_URI_PATH) M = y # ys" "uri_path M = Value y # uri_path ys"
          "Number y = OPT_NUM_URI_PATH" "y \<in> set M" "set ys \<subseteq> set M"
      have wf: "opt_wf x" "opt_wf y" "list_all opt_wf xs" "list_all opt_wf ys"
        using "1.prems" L(4,5) M(4,5) by (auto simp: list_all_iff)
      have eq: "CoAP_OptionsAreEqual (Some x) (Some y) \<longleftrightarrow> Value x = Value y"
        using OptionsAreEqual_iff [OF wf(1,2)] L(3) M(3) by (simp add: opt_view_def)
      have ih: "CoAP_UriOptionsAreEqual xs ys \<longleftrightarrow> uri_path xs = uri_path ys" if "Value x = Value y"
      proof -
        have "\<not> \<not> CoAP_OptionsAreEqual (list_head (x # xs)) (list_head (y # ys))"
          using that eq by (simp add: list_head_def)
        from "1.IH" [OF ne refl refl, unfolded L(1) M(1) list.sel, OF this wf(3,4)] show ?thesis .
      qed
      show ?thesis
        unfolding step L(1,2) M(1,2) using eq ih by (simp add: list_head_def del: CoAP_OptionsAreEqual.simps)
    qed
  qed
qed

section \<open>Numbers\<close>

fun dec_value :: "u8 list \<Rightarrow> nat" where
  "dec_value [] = 0"
| "dec_value (c # cs) = unat c - 48 + 10 * dec_value cs"

lemma atoi_loop_digits:
  "list_all (\<lambda>c. chr CHR ''0'' \<le> c \<and> c \<le> chr CHR ''9'') cs \<Longrightarrow>
   atoi_loop num mul cs = num + mul * of_nat (dec_value cs)"
proof (induction num mul cs rule: atoi_loop.induct)
  case (2 num mul c cs)
  have c: "48 \<le> c" "c \<le> 57" using "2.prems" by simp_all
  then have nl: "\<not> c < 48" "\<not> 57 < c" by (simp_all add: not_less)
  have d: "(ucast c - ucast (chr CHR ''0'') :: u32) = of_nat (unat c - 48)"
    using c(1) by (simp add: word_le_nat_alt of_nat_diff)
  have "atoi_loop num mul (c # cs) = atoi_loop (num + of_nat (unat c - 48) * mul) (mul * 10) cs"
    using nl d by simp
  also have "\<dots> = num + of_nat (unat c - 48) * mul + mul * 10 * of_nat (dec_value cs)"
    using "2.IH" "2.prems" nl d by simp
  finally show ?case by (simp add: algebra_simps)
qed simp

lemma atoi_loop_other:
  "\<not> list_all (\<lambda>c. chr CHR ''0'' \<le> c \<and> c \<le> chr CHR ''9'') cs \<Longrightarrow> atoi_loop num mul cs = 0"
  by (induction num mul cs rule: atoi_loop.induct) (auto simp: not_le)

text \<open>A string of decimal digits is read as its value; any other string as 0.\<close>

lemma atoi_value:
  assumes "Len \<le> 10" "unat Len \<le> length Str"
  shows "CoAP_atoi Str Len =
    (if list_all (\<lambda>c. chr CHR ''0'' \<le> c \<and> c \<le> chr CHR ''9'') (take (unat Len) Str)
     then of_nat (dec_value (rev (take (unat Len) Str))) else 0)"
  using assms atoi_loop_digits [of "rev (take (unat Len) Str)" 0 1] atoi_loop_other [of "rev (take (unat Len) Str)" 0 1]
  by (auto simp: CoAP_atoi_def not_less list_all_rev)

section \<open>Query values\<close>

lemma GetUriQueryVal_iff:
  assumes "opt_wf p"
  shows "CoAP_GetUriQueryVal (Some p) k = Some (v, n) \<longleftrightarrow>
    Number p = OPT_NUM_URI_QUERY \<and> Value p = k @ v \<and> v \<noteq> [] \<and> length (Value p) \<le> 255 \<and> n = of_nat (length v)"
proof -
  have len: "length (Value p) = unat (Length p)" using assms by (simp add: opt_wf_def)
  have big: "Length p > 255 \<longleftrightarrow> length (Value p) > 255" by (simp add: len word_less_nat_alt)
  have zero: "Length p = 0 \<longleftrightarrow> Value p = []" by (metis len length_0_conv unat_eq_0)
  have pre: "list_all (\<lambda>i. Value p ! i = k ! i) [0..<length k] \<longleftrightarrow> take (length k) (Value p) = k"
    if "length k < length (Value p)"
    using that unfolding list_eq_iff_nth_eq by (auto simp: list_all_iff)
  have cnt: "ucast (Length p) - of_nat (length k) = (of_nat (length (drop (length k) (Value p))) :: u8)"
    if "length k < length (Value p)"
    using that by (simp add: len of_nat_diff)
  show ?thesis
  proof (cases "length k < length (Value p)")
    case True
    have split: "take (length k) (Value p) = k \<and> v = drop (length k) (Value p) \<longleftrightarrow> Value p = k @ v"
      by (metis append_eq_conv_conj)
    have "v = drop (length k) (Value p) \<Longrightarrow> v \<noteq> []" using True by simp
    with True show ?thesis
      unfolding CoAP_GetUriQueryVal_def option.case big zero pre [OF True] cnt [OF True]
      unfolding len [symmetric] using split by auto
  next
    case False
    then show ?thesis
      unfolding CoAP_GetUriQueryVal_def option.case len [symmetric] by auto
  qed
qed

text \<open>The search over a message finds the first option with the prefix.\<close>

lemma find_query_val_first:
  "find_query_val L k = (case dropWhile (\<lambda>p. CoAP_GetUriQueryVal (Some p) k = None) L of
     [] \<Rightarrow> None | p # _ \<Rightarrow> CoAP_GetUriQueryVal (Some p) k)"
  by (induction L) (auto split: option.splits)

end
