(* ===== verification/Resource.thy ===== *)
theory Resource
  imports Uri
begin

text \<open>
  Resources and their observers: \<open>coap_resource.h\<close> and \<open>coap_resource.c\<close>. Resources are only
  ever appended to the list \<open>pResList\<close>, so a pointer to a resource is its index there. The
  handler and notifier function pointers name user code, except for the built-in handler of
  \<open>/.well-known/core\<close>.
\<close>

section \<open>Types\<close>

datatype CoAP_HandlerResult_t = HANDLER_OK | HANDLER_POSTPONE | HANDLER_ERROR

datatype handler_fn = WellKnown_fn | User_handler nat

record CoAP_ResOpts_t =
  Cf :: u16
  Flags :: u16
  ETag :: u16

definition RES_OPT_GET :: u16 where [simp]: "RES_OPT_GET = push_bit 1 1"
definition RES_OPT_POST :: u16 where [simp]: "RES_OPT_POST = push_bit 2 1"
definition RES_OPT_PUT :: u16 where [simp]: "RES_OPT_PUT = push_bit 3 1"
definition RES_OPT_DELETE :: u16 where [simp]: "RES_OPT_DELETE = push_bit 4 1"

text \<open>\<open>pDescription\<close> is the buffer with its text, \<open>None\<close> for \<open>NULL\<close>.\<close>

record CoAP_Res_t =
  res_at :: ptr
  pDescription :: "(ptr \<times> u8 list) option"
  UpdateCnt :: u32
  Options :: CoAP_ResOpts_t
  pUri :: "CoAP_option_t list"
  pListObservers :: "CoAP_Observer_t list"
  Handler :: "handler_fn option"
  Notifier :: "nat option"

definition sizeof_CoAP_Res_t :: int where
  "sizeof_CoAP_Res_t = 36"

section \<open>The resource list\<close>

definition CoAP_AppendResourceToList :: "CoAP_Res_t list \<Rightarrow> CoAP_Res_t option \<Rightarrow> CoAP_Result_t \<times> CoAP_Res_t list" where
  "CoAP_AppendResourceToList L pResToAdd =
     (case pResToAdd of None \<Rightarrow> (COAP_ERR_ARGUMENT, L) | Some p \<Rightarrow> (COAP_OK, L @ [p]))"

definition CoAP_FreeResource :: "'m mem_ops \<Rightarrow> 'm \<Rightarrow> CoAP_Res_t \<Rightarrow> CoAP_Result_t \<times> 'm" where
  "CoAP_FreeResource A m pResource =
     (let (_, _, m1) = CoAP_FreeOptionList A m (pUri pResource);
          m2 = coap_mem_release A m1 (case pDescription pResource of None \<Rightarrow> NULL | Some (p, _) \<Rightarrow> p)
      in (COAP_OK, coap_mem_release A m2 (res_at pResource)))"

fun find_resource :: "CoAP_Res_t list \<Rightarrow> CoAP_option_t list \<Rightarrow> nat \<Rightarrow> nat option" where
  "find_resource [] pUriToMatch i = None"
| "find_resource (pList # next) pUriToMatch i =
     (if CoAP_UriOptionsAreEqual (pUri pList) pUriToMatch then Some i
      else find_resource next pUriToMatch (i + 1))"

text \<open>Every caller searches the global list.\<close>

definition CoAP_FindResourceByUri :: "CoAP_Res_t list \<Rightarrow> CoAP_option_t list \<Rightarrow> nat option" where
  "CoAP_FindResourceByUri pResList pUriToMatch = find_resource pResList pUriToMatch 0"

text \<open>Returns the new list and member count as well. The allocation for the description is not
  checked before it is written (\<open>None\<close>).\<close>

definition CoAP_CreateResource :: "'m mem_ops \<Rightarrow> 'm \<Rightarrow> CoAP_Res_t list \<Rightarrow> u32 \<Rightarrow> u8 list \<Rightarrow> u8 list
    \<Rightarrow> CoAP_ResOpts_t \<Rightarrow> handler_fn option \<Rightarrow> nat option
    \<Rightarrow> (CoAP_Res_t option \<times> CoAP_Res_t list \<times> u32 \<times> 'm) option" where
  "CoAP_CreateResource A m pResList ResListMembers Uri Descr Opts pHandlerFkt pNotifierFkt =
     (let (p, m1) = coap_mem_get0 A m sizeof_CoAP_Res_t in
      if p = NULL then Some (None, pResList, ResListMembers, m1)
      else
        let (d, m2, ok) =
              (if Descr \<noteq> [] then
                 let (q, m') = coap_mem_get A m1 (s16 (int (length Descr) + 1))
                 in (Some (q, Descr), m', q \<noteq> NULL)
               else (None, m1, True))
        in if \<not> ok then None
        else
          let (_, uri, m3) = CoAP_AppendUriOptionsFromString A m2 [] (Some Uri);
              pRes = \<lparr>res_at = p, pDescription = d, UpdateCnt = 0, Options = Opts, pUri = uri,
                      pListObservers = [], Handler = pHandlerFkt, Notifier = pNotifierFkt\<rparr>;
              (_, L) = CoAP_AppendResourceToList pResList (Some pRes)
          in Some (Some pRes, L, ResListMembers + 1, m3))"

section \<open>Observers of a resource\<close>

fun find_observer :: "CoAP_Observer_t list \<Rightarrow> u8 \<Rightarrow> NetEp_t \<Rightarrow> u64 \<Rightarrow> CoAP_Observer_t option" where
  "find_observer [] i ep token = None"
| "find_observer (pObserver # next) i ep token =
     (if token = Token pObserver \<and> i = IfID pObserver \<and> ep_eq ep (Ep pObserver) then Some pObserver
      else find_observer next i ep token)"

definition CoAP_RemoveObserverFromResource :: "'m mem_ops \<Rightarrow> 'm \<Rightarrow> CoAP_Observer_t list \<Rightarrow> u8 \<Rightarrow> NetEp_t \<Rightarrow> u64
    \<Rightarrow> CoAP_Result_t \<times> CoAP_Observer_t list \<times> 'm" where
  "CoAP_RemoveObserverFromResource A m pObserverList i pRemoteEP token =
     (case find_observer pObserverList i pRemoteEP token of
        Some pObserver \<Rightarrow>
          let (_, L, m') = CoAP_UnlinkObserverFromList A m pObserverList (ob_at pObserver) True
          in (COAP_REMOVED, L, m')
      | None \<Rightarrow> (COAP_ERR_NOT_FOUND, pObserverList, m))"

section \<open>The resource directory\<close>

definition str :: "string \<Rightarrow> u8 list" where
  "str s = map of_char s"

fun dec :: "nat \<Rightarrow> u8 list" where
  "dec n = (if n < 10 then [of_nat (48 + n)] else dec (n div 10) @ [of_nat (48 + n mod 10)])"

declare dec.simps [simp del]

text \<open>The entry of one resource. A description that is \<open>NULL\<close> must not be printed (\<open>None\<close>).\<close>

definition wellknown_entry :: "CoAP_Res_t \<Rightarrow> u8 list option" where
  "wellknown_entry pList =
     (let uri = str ''<'' @ concat (map (\<lambda>opt. take (unat (Length opt)) (Value opt) @ str ''/'') (pUri pList)) in
      if Cf (Options pList) = COAP_CF_LINK_FORMAT then Some (uri @ str ''>,'')
      else case pDescription pList of
             None \<Rightarrow> None
           | Some (_, txt) \<Rightarrow>
               Some (uri @ str ''>;title='' @ [34] @ txt @ [34] @ str '';cf='' @ dec (unat (Cf (Options pList))) @
                 (if Notifier pList \<noteq> None then str '';obs,'' else str '','')))"

fun wellknown_text :: "CoAP_Res_t list \<Rightarrow> u8 list option" where
  "wellknown_text [] = Some []"
| "wellknown_text (pList # next) =
     (case wellknown_entry pList of None \<Rightarrow> None
      | Some s \<Rightarrow> (case wellknown_text next of None \<Rightarrow> None | Some t \<Rightarrow> Some (s @ t)))"

text \<open>The address of an array in a stack frame: not in the pool.\<close>

definition local_array :: ptr where
  "local_array = - 4"

text \<open>The text is written into a buffer of \<open>(ResListMembers + 1) * 64\<close> bytes without a check of
  its length; more text than that has no defined outcome (\<open>None\<close>).\<close>

definition WellKnown_GetHandler :: "'m mem_ops \<Rightarrow> 'm \<Rightarrow> CoAP_Res_t list \<Rightarrow> u32 \<Rightarrow> CoAP_Message_t \<Rightarrow> CoAP_Message_t
    \<Rightarrow> (CoAP_HandlerResult_t \<times> CoAP_Message_t \<times> 'm) option" where
  "WellKnown_GetHandler A m pResList ResListMembers pReq pResp =
     (if Code pReq \<noteq> REQ_GET then
        let errMsg = str ''CoAP GET only!'' in
        (case CoAP_SetPayload A m (Some pReq) (pResp\<lparr>Code := RESP_ERROR_BAD_REQUEST_4_00\<rparr>) local_array errMsg
                (of_nat (length errMsg)) True of
           None \<Rightarrow> None
         | Some (_, r, m') \<Rightarrow> Some (HANDLER_ERROR, r, m'))
      else
        let bufsize = s16 (uint ((ResListMembers + 1) * 64));
            (pStr, m1) = coap_mem_get0 A m bufsize
        in if pStr = NULL then Some (HANDLER_ERROR, pResp, m1)
        else
          (case wellknown_text pResList of
             None \<Rightarrow> None
           | Some txt \<Rightarrow>
               if int (length txt) + 1 > bufsize then None
               else
                 let s = takeWhile (\<lambda>c. c \<noteq> 0) txt in
                 (case CoAP_SetPayload A m1 (Some pReq) pResp pStr s (of_nat (length s)) True of
                    None \<Rightarrow> None
                  | Some (_, r, m2) \<Rightarrow>
                      let m3 = coap_mem_release A m2 pStr;
                          (_, r', m4) = AddCfOptionToMsg A m3 r COAP_CF_LINK_FORMAT
                      in Some (HANDLER_OK, r', m4))))"

definition CoAP_InitResources :: "'m mem_ops \<Rightarrow> 'm \<Rightarrow> CoAP_Res_t list \<Rightarrow> u32
    \<Rightarrow> (CoAP_Res_t option \<times> CoAP_Res_t list \<times> u32 \<times> 'm) option" where
  "CoAP_InitResources A m pResList ResListMembers =
     CoAP_CreateResource A m pResList ResListMembers (str ''/.well-known/core'') []
       \<lparr>Cf = COAP_CF_LINK_FORMAT, Flags = RES_OPT_GET, ETag = 0\<rparr> (Some WellKnown_fn) None"

end
