(* ===== verification/Holding.thy ===== *)
theory Holding
  imports Ownership Uri_Correct Resource "HOL-Library.Multiset"
begin

text \<open>
  Ownership without heaps. \<open>holds A rep m X\<close> says that the allocator in state \<open>m\<close> holds the objects
  of the multiset \<open>X\<close>: they are live, pairwise disjoint, and there may be other buffers. Every rule
  below has the objects that an operation does not touch as a part of the multiset, so that rules
  compose without side conditions. Buffers that nobody owns any more may be forgotten, which is
  what the paths on which the sources lose memory amount to.
\<close>

section \<open>Holding objects\<close>

definition holds :: "'m mem_ops \<Rightarrow> ('m \<Rightarrow> heap \<Rightarrow> bool) \<Rightarrow> 'm \<Rightarrow> obj multiset \<Rightarrow> bool" where
  "holds A rep m X \<longleftrightarrow> (\<exists>xs g h. mset xs = X \<and> rep m h \<and> owns (mem_area A m) g xs h)"

text \<open>The buffers of a list of options, of an optional message, of an observer.\<close>

definition opt_objs :: "CoAP_option_t list \<Rightarrow> obj multiset" where
  "opt_objs L = mset (map (\<lambda>p. OBuf (opt_at p)) L)"

lemma opt_objs_simps [simp]:
  "opt_objs [] = {#}" "opt_objs (p # L) = add_mset (OBuf (opt_at p)) (opt_objs L)"
  "opt_objs (L @ M) = opt_objs L + opt_objs M"
  by (simp_all add: opt_objs_def)

lemma opt_objs_insert [simp]: "opt_objs (insert_option x L) = add_mset (OBuf (opt_at x)) (opt_objs L)"
proof -
  have "opt_objs K = image_mset (\<lambda>p. OBuf (opt_at p)) (mset K)" for K by (simp add: opt_objs_def)
  then show ?thesis by (simp add: mset_insert_option)
qed

definition message_objs :: "CoAP_Message_t option \<Rightarrow> obj multiset" where
  "message_objs M = (case M of None \<Rightarrow> {#} | Some N \<Rightarrow> {#OMsg N#})"

lemma message_objs_simps [simp]: "message_objs None = {#}" "message_objs (Some M) = {#OMsg M#}"
  by (simp_all add: message_objs_def)

definition ob_objs :: "CoAP_Observer_t \<Rightarrow> obj multiset" where
  "ob_objs ob = add_mset (OBuf (ob_at ob)) (opt_objs (pOptList ob))"

definition obs_objs :: "CoAP_Observer_t list \<Rightarrow> obj multiset" where
  "obs_objs L = (\<Sum>ob \<in># mset L. ob_objs ob)"

lemma obs_objs_simps [simp]:
  "obs_objs [] = {#}" "obs_objs (ob # L) = ob_objs ob + obs_objs L" "obs_objs (L @ M) = obs_objs L + obs_objs M"
  by (simp_all add: obs_objs_def)

lemma holds_cong: "holds A rep m X \<Longrightarrow> X = Y \<Longrightarrow> holds A rep m Y"
  by simp

lemma owns_drop: "owns ar g (xs @ ys) h \<Longrightarrow> \<exists>g'. owns ar g' xs h"
  by (meson owns_split)

lemma holds_weaken:
  assumes "holds A rep m (X + Y)"
  shows "holds A rep m X"
proof -
  obtain xs g h where xs: "mset xs = X + Y" "rep m h" "owns (mem_area A m) g xs h" using assms by (auto simp: holds_def)
  obtain us vs where uv: "mset us = X" "mset vs = Y" by (metis ex_mset)
  then have "owns (mem_area A m) g (us @ vs) h" using owns_mset [of xs "us @ vs"] xs by simp
  then show ?thesis using owns_drop uv xs(2) by (fastforce simp: holds_def)
qed

lemma holds_add_weaken: "holds A rep m (add_mset x X) \<Longrightarrow> holds A rep m X"
  using holds_weaken [of A rep m X "{#x#}"] by simp

lemma owns_msg_options:
  "owns ar g (OMsg M # zs) h \<longleftrightarrow> owns ar g (OMsg (M\<lparr>pOptionsList := []\<rparr>) # map (\<lambda>p. OBuf (opt_at p)) (pOptionsList M) @ zs) h"
proof -
  let ?P = "concat (map (obj_ptrs h) zs)" and ?N = "M\<lparr>pOptionsList := []\<rparr>"
  have c: "concat (map (obj_ptrs h) (map (\<lambda>p. OBuf (opt_at p)) L)) = opt_ptrs L" for L by (induction L) auto
  have "mset (msg_ptrs h M @ ?P) = mset (msg_ptrs h ?N @ opt_ptrs (pOptionsList M) @ ?P)"
    by (simp add: msg_ptrs_def)
  then have "heap_ext g (msg_ptrs h M @ ?P) h \<longleftrightarrow> heap_ext g (msg_ptrs h ?N @ opt_ptrs (pOptionsList M) @ ?P) h"
    by (rule heap_ext_mset)
  then show ?thesis
    using c [of "pOptionsList M"] by (auto simp: owns_def payload_placed_def list_all_iff)
qed

lemma holds_msg_options:
  "holds A rep m (add_mset (OMsg M) X) \<longleftrightarrow> holds A rep m (add_mset (OMsg (M\<lparr>pOptionsList := []\<rparr>)) (opt_objs (pOptionsList M) + X))"
proof -
  have mem: "holds A rep m (mset ys) \<longleftrightarrow> (\<exists>g h. rep m h \<and> owns (mem_area A m) g ys h)" for ys
    using owns_mset unfolding holds_def by metis
  obtain zs where zs: "mset zs = X" by (metis ex_mset)
  show ?thesis
    using mem [of "OMsg M # zs"] mem [of "OMsg (M\<lparr>pOptionsList := []\<rparr>) # map (\<lambda>p. OBuf (opt_at p)) (pOptionsList M) @ zs"]
      owns_msg_options [of "mem_area A m" _ M zs] by (simp add: zs opt_objs_def)
qed

lemma holds_with_options:
  "holds A rep m (opt_objs L + add_mset (OMsg (M\<lparr>pOptionsList := []\<rparr>)) X) \<longleftrightarrow> holds A rep m (add_mset (OMsg (M\<lparr>pOptionsList := L\<rparr>)) X)"
  using holds_msg_options [of A rep m "M\<lparr>pOptionsList := L\<rparr>" X] by (simp add: ac_simps)

text \<open>Only the address, the options and the place of the payload matter.\<close>

lemma holds_msg_cong:
  assumes "holds A rep m (add_mset (OMsg M) X)" "msg_at N = msg_at M" "Payload N = Payload M" "pOptionsList N = pOptionsList M"
  shows "holds A rep m (add_mset (OMsg N) X)"
proof -
  obtain xs g h where xs: "mset xs = add_mset (OMsg M) X" "rep m h" "owns (mem_area A m) g xs h" using assms(1) by (auto simp: holds_def)
  obtain zs where zs: "mset zs = X" by (metis ex_mset)
  have "owns (mem_area A m) g (OMsg M # zs) h" using owns_mset [of xs "OMsg M # zs"] xs zs by simp
  moreover have "obj_ptrs h (OMsg N) = obj_ptrs h (OMsg M)" "obj_placed ar h (OMsg N) \<longleftrightarrow> obj_placed ar h (OMsg M)" for ar
    using assms(2-4) by (simp_all add: msg_ptrs_def payload_placed_def)
  ultimately have "owns (mem_area A m) g (OMsg N # zs) h" by (simp add: owns_def)
  then show ?thesis using xs(2) zs by (auto simp: holds_def intro!: exI [of _ "OMsg N # zs"])
qed

lemma holds_distinct: "holds A rep m (add_mset (OBuf p) (add_mset (OBuf q) X)) \<Longrightarrow> p \<noteq> q"
proof
  assume h: "holds A rep m (add_mset (OBuf p) (add_mset (OBuf q) X))" and "p = q"
  obtain zs where "mset zs = X" by (metis ex_mset)
  then have "\<exists>g h. owns (mem_area A m) g (OBuf p # OBuf q # zs) h"
    using h owns_mset [of _ "OBuf p # OBuf q # zs"] unfolding holds_def by fastforce
  then show False using \<open>p = q\<close> by (auto simp: owns_def heap_ext_def)
qed

section \<open>The operations\<close>

context coap_allocator
begin

text \<open>Every proof takes a list of the objects, with those in question in front.\<close>

lemma holdsI: "rep m h \<Longrightarrow> owns (mem_area A m) g xs h \<Longrightarrow> mset xs = X \<Longrightarrow> holds A rep m X"
  by (auto simp: holds_def)

lemma holdsE:
  assumes "holds A rep m (mset xs + X)"
  obtains zs g h where "mset zs = X" "rep m h" "owns (mem_area A m) g (xs @ zs) h"
proof -
  obtain ys g h where ys: "mset ys = mset xs + X" "rep m h" "owns (mem_area A m) g ys h" using assms by (auto simp: holds_def)
  obtain zs where zs: "mset zs = X" by (metis ex_mset)
  then have "owns (mem_area A m) g (xs @ zs) h" using owns_mset [of ys "xs @ zs"] ys by simp
  then show thesis by (rule that [OF zs ys(2)])
qed

lemma holds_get:
  assumes "holds A rep m X" "coap_mem_get A m n = (p, m')" "0 < n" "n \<le> MAX_REQ"
  shows "if p = NULL then holds A rep m' X else holds A rep m' (add_mset (OBuf p) X)"
proof -
  obtain zs g h where zs: "mset zs = X" "rep m h" "owns (mem_area A m) g ([] @ zs) h"
    by (rule holdsE [of m "[]" X]) (use assms(1) in auto)
  from zs(2) assms(3,4,2) show ?thesis
  proof (cases rule: get_cases)
    case fail
    then show ?thesis using zs area_get [OF assms(2)] by (auto intro: holdsI)
  next
    case (ok k)
    then have "owns (mem_area A m') g (OBuf p # zs) (h(p \<mapsto> k))"
      using zs by (intro owns_alloc [OF zs(2)]) (simp_all add: area_get [OF assms(2)])
    then show ?thesis using ok zs(1) by (auto intro: holdsI)
  qed
qed

lemma holds_get0:
  assumes "holds A rep m X" "coap_mem_get0 A m n = (p, m')" "0 < n" "n \<le> MAX_REQ"
  shows "if p = NULL then holds A rep m' X else holds A rep m' (add_mset (OBuf p) X)"
proof -
  obtain zs g h where zs: "mset zs = X" "rep m h" "owns (mem_area A m) g ([] @ zs) h"
    by (rule holdsE [of m "[]" X]) (use assms(1) in auto)
  from zs(2) assms(3,4,2) show ?thesis
  proof (cases rule: get0_cases)
    case fail
    then show ?thesis using zs area_get0 [OF assms(2)] by (auto intro: holdsI)
  next
    case (ok k)
    then have "owns (mem_area A m') g (OBuf p # zs) (h(p \<mapsto> k))"
      using zs by (intro owns_alloc [OF zs(2)]) (simp_all add: area_get0 [OF assms(2)])
    then show ?thesis using ok zs(1) by (auto intro: holdsI)
  qed
qed

lemma holds_release:
  assumes "holds A rep m (add_mset (OBuf p) X)"
  shows "holds A rep (coap_mem_release A m p) X"
proof -
  obtain zs g h where zs: "mset zs = X" "rep m h" "owns (mem_area A m) g (OBuf p # zs) h"
    by (rule holdsE [of m "[OBuf p]" X]) (use assms in auto)
  show ?thesis by (rule owns_release [OF zs(2,3)]) (use zs(1) in \<open>auto intro: holdsI\<close>)
qed

lemma holds_free_message:
  assumes "holds A rep m (message_objs M + X)"
  shows "holds A rep (snd (snd (CoAP_free_Message A m M))) X"
proof (cases M)
  case (Some N)
  obtain zs g h where zs: "mset zs = X" "rep m h" "owns (mem_area A m) g (OMsg N # zs) h"
    by (rule holdsE [of m "[OMsg N]" X]) (use assms Some in auto)
  show ?thesis unfolding Some
    by (rule owns_free_message [OF zs(2,3)]) (use zs(1) in \<open>auto simp del: CoAP_free_Message.simps intro: holdsI\<close>)
qed (use assms in simp)

text \<open>An operation on one message that is specified with \<open>msg_owned\<close>.\<close>

lemma holds_msgE:
  assumes "holds A rep m (add_mset (OMsg M) X)"
  obtains g h where "rep m h" "msg_owned (mem_area A m) g M h"
    "\<And>N m' h'. rep m' h' \<Longrightarrow> mem_area A m' = mem_area A m \<Longrightarrow> msg_owned (mem_area A m') g N h' \<Longrightarrow> holds A rep m' (add_mset (OMsg N) X)"
proof -
  obtain zs g h where zs: "mset zs = X" "rep m h" "owns (mem_area A m) g ([OMsg M] @ zs) h"
    by (rule holdsE [of m "[OMsg M]" X]) (use assms in auto)
  obtain g' where g': "owns (mem_area A m) g zs g'" "owns (mem_area A m) g' [OMsg M] h" by (rule owns_split [OF zs(3)])
  show thesis
  proof (rule that [OF zs(2)])
    show "msg_owned (mem_area A m) g' M h" using g'(2) by simp
    fix N m' h'
    assume "rep m' h'" "mem_area A m' = mem_area A m" "msg_owned (mem_area A m') g' N h'"
    then have "owns (mem_area A m') g ([OMsg N] @ zs) h'" using g'(1) by (intro owns_join [of m' h' g zs g']) simp_all
    then show "holds A rep m' (add_mset (OMsg N) X)" using \<open>rep m' h'\<close> zs(1) by (auto intro: holdsI)
  qed
qed

lemma holds_create:
  assumes "holds A rep m X" "CoAP_CreateMessage A m ty code mid ini n mx tok = (r, m')"
    and "sizeof_CoAP_Message_t + uint mx \<le> MAX_REQ" "n \<le> mx" "case ini of None \<Rightarrow> True | Some bs \<Rightarrow> unat n \<le> length bs"
  shows "holds A rep m' (message_objs r + X) \<and>
    (\<forall>M. r = Some M \<longrightarrow> msg_wf M \<and> pOptionsList M = [] \<and> PayloadLength M = n \<and> Type M = ty \<and> Code M = code \<and> NULL \<le> Payload M)"
proof -
  obtain zs g h where zs: "mset zs = X" "rep m h" "owns (mem_area A m) g ([] @ zs) h"
    by (rule holdsE [of m "[]" X]) (use assms(1) in auto)
  show ?thesis
  proof (rule owns_create [OF zs(2) zs(3) [simplified] assms(2-5)])
    fix M h'
    assume M: "r = Some M" "rep m' h'" "owns (mem_area A m') g (OMsg M # zs) h'" "msg_wf M" "pOptionsList M = []"
      "Type M = ty" "Code M = code" "MessageID M = mid" "Token64 M = tok" "PayloadLength M = n"
    have "msg_at M \<in> dom h'" using M(3) by (auto simp: owns_def heap_ext_def msg_ptrs_def)
    then have "NULL < msg_at M" using positive_law [OF M(2)] by blast
    moreover have "Payload M = NULL \<or> Payload M = msg_at M + sizeof_CoAP_Message_t"
      using assms(2) M(1) by (auto simp: CoAP_CreateMessage_def CoAP_InitToEmptyResetMsg_def Let_def split: prod.splits if_splits)
    ultimately have "NULL \<le> Payload M" by (auto simp: sizeof_CoAP_Message_t_def)
    then show ?thesis using M zs(1) by (auto intro: holdsI)
  qed (use zs(1) in \<open>auto intro: holdsI\<close>)
qed

section \<open>Options\<close>

lemma holds_append:
  assumes "holds A rep m (opt_objs L + X)" "CoAP_AppendOptionToList A m L n buf len = (r, L', m')"
    and "sizeof_CoAP_option_t + uint len \<le> MAX_REQ"
  shows "holds A rep m' (opt_objs L' + X)"
proof -
  have sz: "s16 (sizeof_CoAP_option_t + uint len) = sizeof_CoAP_option_t + uint len" "0 < sizeof_CoAP_option_t + uint len"
    using assms(3) uint_ge_0 [of len] by (auto simp: sizeof_CoAP_option_t_def MAX_REQ_def intro!: s16_id add_pos_nonneg)
  obtain p where g: "coap_mem_get A m (sizeof_CoAP_option_t + uint len) = (p, m')"
    and L': "L' = (if p = NULL then if L \<noteq> [] \<and> n < Number (hd L) then [] else L else insert_option (fill_option p n buf len) L)"
    using assms(2) by (auto simp: append_cases sz(1) split: prod.splits if_splits)
  have "if p = NULL then holds A rep m' (opt_objs L + X) else holds A rep m' (add_mset (OBuf p) (opt_objs L + X))"
    by (rule holds_get [OF assms(1) g sz(2) assms(3)])
  then show ?thesis
    using holds_weaken [of A rep m' X "opt_objs L"] by (auto simp: L' add.commute split: if_splits)
qed

lemma holds_release_all:
  "holds A rep m (image_mset OBuf (mset ps) + X) \<Longrightarrow> holds A rep (foldl (coap_mem_release A) m ps) X"
proof (induction ps arbitrary: m)
  case (Cons p ps)
  then show ?case using holds_release [of m p] by simp
qed simp

lemma holds_free_options:
  assumes "holds A rep m (opt_objs L + X)" "CoAP_FreeOptionList A m L = (r, L', m')"
  shows "holds A rep m' X"
proof -
  let ?ps = "case L of [] \<Rightarrow> [] | x # xs \<Rightarrow> opt_ptrs xs @ [opt_at x]"
  have "image_mset OBuf (mset ?ps) = opt_objs L"
    by (cases L) (simp_all add: opt_objs_def image_mset.compositionality comp_def)
  then have "holds A rep (foldl (coap_mem_release A) m ?ps) X" using holds_release_all [of m ?ps X] assms(1) by simp
  then show ?thesis using assms(2) by (simp add: FreeOptionList_eq)
qed

lemma holds_remove_option:
  assumes "holds A rep m (opt_objs L + X)" "CoAP_RemoveOptionFromList A m L p = (r, L', m')"
  shows "holds A rep m' (opt_objs L' + X) \<and> subseq L' L"
  using assms
proof (induction L arbitrary: X r L' m')
  case (Cons a L)
  show ?case
  proof (cases "opt_at a = p")
    case True
    then show ?thesis using Cons.prems holds_release [of m p] by auto
  next
    case False
    then obtain K where K: "CoAP_RemoveOptionFromList A m L p = (r, K, m')" "L' = a # K"
      using Cons.prems(2) by (auto split: prod.splits)
    have "holds A rep m (opt_objs L + add_mset (OBuf (opt_at a)) X)" using Cons.prems(1) by simp
    from Cons.IH [OF this K(1)] K(2) show ?thesis by auto
  qed
qed simp

lemma holds_FreeObserver:
  assumes "holds A rep m (ob_objs ob + X)"
  shows "holds A rep (snd (CoAP_FreeObserver A m ob)) X"
proof -
  obtain r L m1 where f: "CoAP_FreeOptionList A m (pOptList ob) = (r, L, m1)" by (metis prod_cases3)
  have "holds A rep m1 (add_mset (OBuf (ob_at ob)) X)"
    using assms holds_free_options [OF _ f] by (simp add: ob_objs_def)
  then show ?thesis using f by (simp add: CoAP_FreeObserver_def holds_release)
qed

lemma holds_UnlinkObserver:
  assumes "holds A rep m (obs_objs L + X)" "CoAP_UnlinkObserverFromList A m L p True = (r, L', m')"
  shows "holds A rep m' (obs_objs L' + X)"
  using assms
proof (induction L arbitrary: X r L' m')
  case (Cons ob L)
  show ?case
  proof (cases "ob_at ob = p")
    case True
    then show ?thesis using Cons.prems holds_FreeObserver [of m ob "obs_objs L + X"] by (auto simp: add.assoc)
  next
    case False
    then obtain K where K: "CoAP_UnlinkObserverFromList A m L p True = (r, K, m')" "L' = ob # K"
      using Cons.prems(2) by (auto split: prod.splits)
    have "holds A rep m (obs_objs L + (ob_objs ob + X))" using Cons.prems(1) by (simp add: ac_simps)
    from Cons.IH [OF this K(1)] K(2) show ?thesis by (simp add: ac_simps)
  qed
qed simp

lemma holds_RemoveObserver:
  assumes "holds A rep m (obs_objs L + X)" "CoAP_RemoveObserverFromResource A m L i ep tok = (r, L', m')"
  shows "holds A rep m' (obs_objs L' + X)"
  using assms holds_UnlinkObserver [OF assms(1)]
  by (auto simp: CoAP_RemoveObserverFromResource_def split: option.splits prod.splits)

end

section \<open>Sizes of messages\<close>

text \<open>An upper bound of the encoded size that does not depend on the order of the options. The
  messages of the stack stay below \<open>MAX_WEIGHT\<close>, so that the size of a datagram fits into the
  argument of the allocator.\<close>

definition opts_weight :: "CoAP_option_t list \<Rightarrow> nat" where
  "opts_weight L = (\<Sum>p \<leftarrow> L. 5 + unat (Length p))"

definition msg_weight :: "CoAP_Message_t \<Rightarrow> nat" where
  "msg_weight M = 13 + opts_weight (pOptionsList M) + unat (PayloadLength M)"

lemma opts_weight_simps [simp]:
  "opts_weight [] = 0" "opts_weight (p # L) = 5 + unat (Length p) + opts_weight L" "opts_weight (L @ M) = opts_weight L + opts_weight M"
  by (simp_all add: opts_weight_def)

lemma opts_weight_mset: "mset L = mset M \<Longrightarrow> opts_weight L = opts_weight M"
  unfolding opts_weight_def by (metis mset_map sum_mset_sum_list)

lemma opts_weight_insert [simp]: "opts_weight (insert_option x L) = 5 + unat (Length x) + opts_weight L"
  using opts_weight_mset [of "insert_option x L" "x # L"] by (simp add: mset_insert_option)

lemma opts_weight_subseq: "subseq L M \<Longrightarrow> opts_weight L \<le> opts_weight M"
  by (induction rule: list_emb.induct) auto

lemma opts_wf_subseq: "subseq L M \<Longrightarrow> opts_wf M \<Longrightarrow> opts_wf L \<and> set L \<subseteq> set M"
  by (induction rule: list_emb.induct) (auto simp: opts_wf_def)

lemma ext_count_le: "unat (ext_count x) \<le> 2"
  by (simp add: ext_count_def)

lemma encode_options_weight: "list_all opt_wf L \<Longrightarrow> length (encode_options n L) \<le> opts_weight L"
proof (induction L arbitrary: n)
  case (Cons p L)
  have "length (encode_option n p) \<le> 5 + unat (Length p)"
    using Cons.prems ext_count_le [of "Number p - n"] ext_count_le [of "Length p"] by (simp add: length_encode_option)
  then show ?case using Cons.IH [of "Number p"] Cons.prems by simp
qed simp

lemma encode_message_weight:
  assumes "msg_wf M"
  shows "length (encode_message M) \<le> msg_weight M"
proof -
  have "length (msg_token M) \<le> 8" by (simp add: msg_token_def getTokenByteCount_le)
  moreover have "length (encode_options 0 (pOptionsList M)) \<le> opts_weight (pOptionsList M)"
    using assms by (intro encode_options_weight) (simp add: msg_wf_def opts_wf_def)
  moreover have "length (msg_payload M) \<le> unat (PayloadLength M)" by (simp add: msg_payload_def)
  ultimately show ?thesis by (simp add: length_encode_message msg_weight_def)
qed

text \<open>Well formed, of bounded size, and without a pointer into a dead stack frame.\<close>

definition msg_fits :: "nat \<Rightarrow> CoAP_Message_t \<Rightarrow> bool" where
  "msg_fits b M \<longleftrightarrow> msg_wf M \<and> msg_weight M \<le> b \<and> Payload M \<noteq> local_array"

lemma msg_fits_mono: "msg_fits b M \<Longrightarrow> b \<le> c \<Longrightarrow> msg_fits c M"
  by (simp add: msg_fits_def)

lemma msg_fits_fields [simp]:
  "msg_fits b (M\<lparr>Type := ty\<rparr>) \<longleftrightarrow> msg_fits b M" "msg_fits b (M\<lparr>Code := c\<rparr>) \<longleftrightarrow> msg_fits b M"
  "msg_fits b (M\<lparr>MessageID := i\<rparr>) \<longleftrightarrow> msg_fits b M" "msg_fits b (M\<lparr>Timestamp := ti\<rparr>) \<longleftrightarrow> msg_fits b M"
  by (simp_all add: msg_fits_def msg_wf_def msg_weight_def)

context coap_allocator
begin

lemma holds_append_msg:
  assumes "holds A rep m (add_mset (OMsg M) X)" "append_to_msg A m M n buf len = (r, M', m')"
    and "unat len \<le> length buf" "unat len \<le> 1034" "msg_fits b M"
  shows "holds A rep m' (add_mset (OMsg M') X) \<and> msg_fits (b + 5 + unat len) M' \<and> (\<exists>L. M' = M\<lparr>pOptionsList := L\<rparr>)"
proof -
  obtain L where L: "CoAP_AppendOptionToList A m (pOptionsList M) n buf len = (r, L, m')" "M' = M\<lparr>pOptionsList := L\<rparr>"
    using assms(2) by (auto simp: append_to_msg_def split: prod.splits)
  have sz: "sizeof_CoAP_option_t + uint len \<le> MAX_REQ"
    using assms(4) by (simp add: sizeof_CoAP_option_t_def MAX_REQ_def uint_nat del: of_nat_unat)
  have "holds A rep m (opt_objs (pOptionsList M) + add_mset (OMsg (M\<lparr>pOptionsList := []\<rparr>)) X)"
    using assms(1) by (simp only: holds_with_options) simp
  from holds_append [OF this L(1) sz] have "holds A rep m' (add_mset (OMsg M') X)"
    by (simp only: holds_with_options L(2))
  moreover obtain p where p: "L = pOptionsList M \<or> L = [] \<or> L = insert_option (fill_option p n buf len) (pOptionsList M)"
    using L(1) by (auto simp: append_cases split: prod.splits if_splits)
  then have "opts_wf L" "opts_weight L \<le> opts_weight (pOptionsList M) + 5 + unat len"
    using assms(3,5) opts_wf_insert [of "pOptionsList M" "fill_option p n buf len"]
    by (auto simp: msg_fits_def msg_wf_def opts_wf_def)
  then have "msg_fits (b + 5 + unat len) M'"
    using assms(5) by (auto simp: msg_fits_def msg_wf_def msg_weight_def L(2))
  ultimately show ?thesis using L(2) by blast
qed

lemma holds_AddObserve:
  assumes "holds A rep m (add_mset (OMsg M) X)" "AddObserveOptionToMsg A m M v = (r, M', m')" "msg_fits b M"
  shows "holds A rep m' (add_mset (OMsg M') X) \<and> msg_fits (b + 8) M' \<and> (\<exists>L. M' = M\<lparr>pOptionsList := L\<rparr>)"
proof -
  obtain buf len where a: "append_to_msg A m M OPT_NUM_OBSERVE buf len = (r, M', m')" "unat len = length buf" "length buf \<le> 3"
    using assms(2) unfolding AddObserveOptionToMsg_def by (auto split: if_splits)
  from holds_append_msg [OF assms(1) a(1) _ _ assms(3)] a(2,3) msg_fits_mono [of "b + 5 + unat len" M' "b + 8"]
  show ?thesis by simp
qed

lemma holds_RemoveObserve:
  assumes "holds A rep m (add_mset (OMsg M) X)" "RemoveObserveOptionFromMsg A m M = (r, M', m')" "msg_fits b M"
  shows "holds A rep m' (add_mset (OMsg M') X) \<and> msg_fits b M' \<and> (\<exists>L. M' = M\<lparr>pOptionsList := L\<rparr>)"
proof (cases "find (\<lambda>pOpt. Number pOpt = OPT_NUM_OBSERVE) (pOptionsList M)")
  case None
  then show ?thesis using assms by (auto simp: RemoveObserveOptionFromMsg_def intro: exI [of _ "pOptionsList M"])
next
  case (Some p)
  then obtain r1 L where L: "CoAP_RemoveOptionFromList A m (pOptionsList M) (opt_at p) = (r1, L, m')" "M' = M\<lparr>pOptionsList := L\<rparr>"
    using assms(2) by (auto simp: RemoveObserveOptionFromMsg_def split: prod.splits)
  have "holds A rep m (opt_objs (pOptionsList M) + add_mset (OMsg (M\<lparr>pOptionsList := []\<rparr>)) X)"
    using assms(1) by (simp only: holds_with_options) simp
  from holds_remove_option [OF this L(1)]
  have "holds A rep m' (add_mset (OMsg M') X)" "subseq L (pOptionsList M)"
    by (simp_all only: holds_with_options L(2))
  moreover from this(2) have "msg_fits b M'"
    using assms(3) opts_weight_subseq [of L] opts_wf_subseq [of L] by (fastforce simp: msg_fits_def msg_wf_def msg_weight_def L(2))
  ultimately show ?thesis using L(2) by blast
qed

lemma holds_UpdateObserve:
  assumes "holds A rep m (add_mset (OMsg M) X)" "UpdateObserveOptionInMsg A m M v = (r, M', m')" "msg_fits b M"
  shows "holds A rep m' (add_mset (OMsg M') X) \<and> msg_fits (b + 8) M' \<and> (\<exists>L. M' = M\<lparr>pOptionsList := L\<rparr>)"
proof -
  obtain r1 M1 m1 where 1: "RemoveObserveOptionFromMsg A m M = (r1, M1, m1)" by (metis prod_cases3)
  then have 2: "AddObserveOptionToMsg A m1 M1 v = (r, M', m')" using assms(2) by (simp add: UpdateObserveOptionInMsg_def)
  note h = holds_RemoveObserve [OF assms(1) 1 assms(3)]
  from h obtain L where L: "M1 = M\<lparr>pOptionsList := L\<rparr>" by blast
  from h holds_AddObserve [OF _ 2, of X b] show ?thesis by (auto simp: L)
qed

end

end
