(* ===== verification/Holding_Resource.thy ===== *)
theory Holding_Resource
  imports Holding
begin

text \<open>
  Ownership of the operations on payloads and resources: \<open>CoAP_SetPayload\<close>, the handler of
  \<open>/.well-known/core\<close>, and the creation of resources.
\<close>

section \<open>Payloads\<close>

context coap_allocator
begin

lemma holds_set_payload:
  assumes "holds A rep m (add_mset (OBuf p) (add_mset (OMsg M) X))" "msg_at N = msg_at M" "pOptionsList N = pOptionsList M" "Payload N = p"
  shows "holds A rep m (add_mset (OMsg N) X)"
proof -
  obtain zs g h where zs: "mset zs = X" "rep m h" and o: "owns (mem_area A m) g ([OBuf p, OMsg M] @ zs) h"
    by (rule holdsE [of m "[OBuf p, OMsg M]" X]) (use assms(1) in auto)
  let ?Z = "concat (map (obj_ptrs h) zs)" and ?pl = "if Payload M \<in> dom h then [Payload M] else []"
  have ext: "heap_ext g (p # msg_ptrs h M @ ?Z) h" using o by (simp add: owns_def)
  then have p: "p \<in> dom h" "p \<noteq> msg_at M" by (auto simp: heap_ext_def msg_ptrs_def)
  have "mset (p # msg_ptrs h M @ ?Z) = mset ((msg_ptrs h N @ ?Z) @ ?pl)"
    using p(1) assms(2-4) by (simp add: msg_ptrs_def)
  then have "heap_ext g ((msg_ptrs h N @ ?Z) @ ?pl) h" using ext heap_ext_mset by blast
  then obtain g' where "heap_ext g' (msg_ptrs h N @ ?Z) h" unfolding heap_ext_append by blast
  then have "owns (mem_area A m) g' (OMsg N # zs) h"
    using o p assms(2,4) by (simp add: owns_def payload_placed_def)
  then show ?thesis using zs by (auto intro: holdsI)
qed

lemma holds_positive: "holds A rep m (add_mset (OBuf p) X) \<Longrightarrow> NULL < p"
proof -
  assume "holds A rep m (add_mset (OBuf p) X)"
  then have "holds A rep m (mset [OBuf p] + X)" by simp
  then obtain zs g h where "rep m h" "owns (mem_area A m) g ([OBuf p] @ zs) h" by (rule holdsE)
  then show ?thesis using positive_law [of m h p] by (auto simp: owns_def heap_ext_def)
qed

lemma holds_free_payload:
  assumes "holds A rep m (add_mset (OMsg M) X)" "CoAP_free_MsgPayload A m M = (M1, m1)"
  shows "holds A rep m1 (add_mset (OMsg M1) X) \<and>
    (M1 = M \<or> M1 = M\<lparr>Payload := NULL, PayloadBufSize := 0, PayloadData := []\<rparr>)"
proof (rule holds_msgE [OF assms(1)])
  fix g h
  assume gh: "rep m h" "msg_owned (mem_area A m) g M h"
    and put: "\<And>N m' h'. rep m' h' \<Longrightarrow> mem_area A m' = mem_area A m \<Longrightarrow> msg_owned (mem_area A m') g N h' \<Longrightarrow> holds A rep m' (add_mset (OMsg N) X)"
  obtain h1 where h1: "rep m1 h1" "mem_area A m1 = mem_area A m" "heap_ext g (opt_ptrs (pOptionsList M) @ [msg_at M]) h1"
    "M1 = M \<or> M1 = M\<lparr>Payload := NULL, PayloadBufSize := 0, PayloadData := []\<rparr>"
    "payload_placed (mem_area A m1) h1 M1" "Payload M1 \<notin> dom h1"
    by (rule free_payload_owned [OF gh]) (use assms(2) in auto)
  have "pOptionsList M1 = pOptionsList M" "msg_at M1 = msg_at M" using h1(4) by auto
  then have "msg_owned (mem_area A m1) g M1 h1" using h1(3,5,6) by (simp add: msg_owned_def msg_ptrs_def)
  then show ?thesis using put h1 by blast
qed

lemma holds_use_payload:
  assumes "holds A rep m (add_mset (OMsg M) X)" "use_payload A m M pp data off n True = Some (M', m')"
    and "0 < n" "n \<le> 256" "int off + n \<le> int (length data)" "Payload M \<noteq> local_array"
  shows "holds A rep m' (add_mset (OMsg M') X) \<and> pOptionsList M' = pOptionsList M \<and> nat n \<le> length (PayloadData M') \<and> Payload M' \<noteq> local_array"
proof -
  have sz: "s16 n = n" "n \<le> MAX_REQ" using assms(3,4) by (auto simp: MAX_REQ_def intro!: s16_id)
  have len: "nat n \<le> length (take (nat n) (drop off data))" using assms(3,5) by simp
  show ?thesis
  proof (cases "uint (PayloadBufSize M) < n")
    case True
    obtain M1 m1 where f: "CoAP_free_MsgPayload A m M = (M1, m1)" by fastforce
    obtain p where g: "coap_mem_get A m1 n = (p, m')" and p: "p \<noteq> NULL"
      and M': "M' = M1\<lparr>Payload := p, PayloadData := take (nat n) (drop off data), PayloadBufSize := of_int n\<rparr>"
      using assms(2) True f sz(1) by (auto simp: use_payload_def Let_def split: prod.splits if_splits)
    note h1 = holds_free_payload [OF assms(1) f]
    have h2: "holds A rep m' (add_mset (OBuf p) (add_mset (OMsg M1) X))"
      using holds_get [OF conjunct1 [OF h1] g assms(3) sz(2)] p by simp
    have "holds A rep m' (add_mset (OMsg M') X)" by (rule holds_set_payload [OF h2]) (simp_all add: M')
    then show ?thesis using h1 len holds_positive [OF h2] by (auto simp: M' local_array_def)
  next
    case False
    then have "M' = M\<lparr>PayloadData := take (nat n) (drop off data) @ drop (nat n) (PayloadData M), PayloadBufSize := of_int n\<rparr>" "m' = m"
      using assms(2) by (auto simp: use_payload_def Let_def)
    then show ?thesis using assms(1,6) len by (auto intro: holds_msg_cong)
  qed
qed

text \<open>What one block option adds.\<close>

lemma holds_AddBlk:
  assumes "holds A rep m (add_mset (OMsg M) X)" "AddBlkOptionToMsg A m M B = (r, M', m')" "msg_fits b M"
  shows "holds A rep m' (add_mset (OMsg M') X) \<and> msg_fits (b + 8) M' \<and> (\<exists>L. M' = M\<lparr>pOptionsList := L\<rparr>)"
proof (cases "M' = M \<and> m' = m")
  case True
  then show ?thesis using assms(1) msg_fits_mono [OF assms(3), of "b + 8"] by (auto intro: exI [of _ "pOptionsList M"])
next
  case False
  then obtain buf len where a: "append_to_msg A m M (BlkType B) buf len = (r, M', m')" "unat len = length buf" "length buf \<le> 3"
    using assms(2) unfolding AddBlkOptionToMsg_def Let_def by (auto split: if_splits)
  from holds_append_msg [OF assms(1) a(1) _ _ assms(3)] a(2,3) msg_fits_mono [of "b + 5 + unat len" M' "b + 8"]
  show ?thesis by simp
qed

lemma holds_remove_blocks:
  assumes "holds A rep m (opt_objs L + X)" "remove_blocks_loop A m L ty found = (f, L', m')"
  shows "holds A rep m' (opt_objs L' + X) \<and> subseq L' L"
  using assms
proof (induction L arbitrary: m found rule: length_induct)
  case (1 L)
  show ?case
  proof (cases "find (\<lambda>p. Number p = ty) L")
    case None
    then show ?thesis using 1(2,3) by (auto simp: remove_blocks_loop.simps)
  next
    case (Some p)
    obtain r K m1 where K: "CoAP_RemoveOptionFromList A m L (opt_at p) = (r, K, m1)" by (metis prod_cases3)
    have "p \<in> set L" using Some by (auto simp: find_Some_iff)
    then have "length K < length L" using K by (rule length_RemoveOption)
    moreover have "remove_blocks_loop A m1 K ty True = (f, L', m')" using 1(3) Some K by (simp add: remove_blocks_loop.simps)
    moreover note k = holds_remove_option [OF 1(2) K]
    ultimately have "holds A rep m' (opt_objs L' + X) \<and> subseq L' K" using 1(1) by blast
    then show ?thesis using k subseq_order.trans by blast
  qed
qed

lemma holds_RemoveAllBlock:
  assumes "holds A rep m (add_mset (OMsg M) X)" "RemoveAllBlockOptionsFromMsg A m M ty = (r, M', m')" "msg_fits b M"
  shows "holds A rep m' (add_mset (OMsg M') X) \<and> msg_fits b M' \<and> (\<exists>L. M' = M\<lparr>pOptionsList := L\<rparr>)"
proof -
  obtain f L where L: "remove_blocks_loop A m (pOptionsList M) ty False = (f, L, m')" "M' = M\<lparr>pOptionsList := L\<rparr>"
    using assms(2) by (auto simp: RemoveAllBlockOptionsFromMsg_def split: prod.splits)
  have "holds A rep m (opt_objs (pOptionsList M) + add_mset (OMsg (M\<lparr>pOptionsList := []\<rparr>)) X)"
    using assms(1) by (simp only: holds_with_options) simp
  from holds_remove_blocks [OF this L(1)]
  have "holds A rep m' (add_mset (OMsg M') X)" "subseq L (pOptionsList M)" by (simp_all only: holds_with_options L(2))
  moreover from this(2) have "msg_fits b M'"
    using assms(3) opts_weight_subseq [of L] opts_wf_subseq [of L] by (fastforce simp: msg_fits_def msg_wf_def msg_weight_def L(2))
  ultimately show ?thesis using L(2) by blast
qed

lemma holds_add_text:
  assumes "holds A rep m (add_mset (OMsg M) X)" "CoAP_addTextPayload A m M txt = Some (r, M', m')" "msg_fits b M" "length txt \<le> 256" "txt \<noteq> []"
  shows "holds A rep m' (add_mset (OMsg M') X) \<and> msg_fits (b + 256) M'"
proof -
  let ?n = "of_nat (length txt) :: u16"
  have n: "unat ?n = length txt" using assms(4) by (simp add: unat_of_nat16)
  then have n': "\<not> ?n > MAX_PAYLOAD_SIZE" "?n \<noteq> 0" "uint ?n = int (length txt)"
    using assms(4,5) by (auto simp: word_less_nat_alt uint_nat word_unat_eq_iff simp del: of_nat_unat)
  have sz: "s16 (uint ?n) = uint ?n" "uint ?n \<le> MAX_REQ" "0 < uint ?n" using assms(4,5) n'(3) by (auto simp: MAX_REQ_def intro!: s16_id)
  have call: "CoAP_addNewPayloadToMessage A m M txt ?n = Some (r, M', m')" using assms(2) by (simp add: CoAP_addTextPayload_def)
  have fits: "msg_fits (b + 256) M'" if "pOptionsList M' = pOptionsList M" "PayloadLength M' = ?n" "length txt \<le> length (PayloadData M')" "Payload M' \<noteq> local_array"
    using assms(3,4) that n by (simp add: msg_fits_def msg_wf_def msg_weight_def)
  show ?thesis
  proof (cases "PayloadBufSize M \<ge> ?n")
    case True
    then have "m' = m" "M' = M\<lparr>PayloadData := take (unat ?n) txt @ drop (unat ?n) (PayloadData M), PayloadLength := ?n\<rparr>"
      using call n' unfolding CoAP_addNewPayloadToMessage_def by auto
    moreover from this have "msg_fits (b + 256) M'" by (intro fits) (use assms(3) n in \<open>simp_all add: msg_fits_def\<close>)
    ultimately show ?thesis using assms(1) by (auto intro: holds_msg_cong)
  next
    case False
    obtain M1 m1 where f: "CoAP_free_MsgPayload A m M = (M1, m1)" by fastforce
    obtain p where g: "coap_mem_get A m1 (uint ?n) = (p, m')" and p: "p \<noteq> NULL"
      and M': "M' = M1\<lparr>Payload := p, PayloadBufSize := ?n, PayloadData := take (unat ?n) txt, PayloadLength := ?n\<rparr>"
      using call False f sz(1) n' unfolding CoAP_addNewPayloadToMessage_def by (auto split: prod.splits if_splits)
    note h1 = holds_free_payload [OF assms(1) f]
    have h2: "holds A rep m' (add_mset (OBuf p) (add_mset (OMsg M1) X))"
      using holds_get [OF conjunct1 [OF h1] g sz(3,2)] p by simp
    have "holds A rep m' (add_mset (OMsg M') X)" by (rule holds_set_payload [OF h2]) (simp_all add: M')
    moreover have "pOptionsList M1 = pOptionsList M" using h1 by auto
    then have "msg_fits (b + 256) M'" by (intro fits) (use n holds_positive [OF h2] in \<open>simp_all add: M' local_array_def\<close>)
    ultimately show ?thesis by blast
  qed
qed

text \<open>\<open>CoAP_SetPayload\<close> with data that are copied into the message.\<close>

lemma holds_payload_block:
  assumes "holds A rep m (add_mset (OMsg M) X)" "msg_fits b M" "use_payload A m M pp data off (int n) True = Some (M', m')"
    and "0 < n" "n \<le> 256" "off + n \<le> length data"
  shows "holds A rep m' (add_mset (OMsg (M'\<lparr>PayloadLength := of_nat n\<rparr>)) X) \<and> msg_fits (b + 256) (M'\<lparr>PayloadLength := of_nat n\<rparr>)"
proof -
  have u: "holds A rep m' (add_mset (OMsg M') X) \<and> pOptionsList M' = pOptionsList M \<and> nat (int n) \<le> length (PayloadData M') \<and> Payload M' \<noteq> local_array"
    by (rule holds_use_payload [OF assms(1,3)]) (use assms(2,4-6) in \<open>auto simp: msg_fits_def\<close>)
  then have "holds A rep m' (add_mset (OMsg (M'\<lparr>PayloadLength := of_nat n\<rparr>)) X)" by (auto intro: holds_msg_cong)
  moreover have "unat (of_nat n :: u16) = n" using assms(5) by (simp add: unat_of_nat16)
  ultimately show ?thesis using u assms(2,5) by (simp add: msg_fits_def msg_wf_def msg_weight_def)
qed

lemma holds_SetPayload_first:
  assumes "holds A rep m (add_mset (OMsg M) X)" "CoAP_SetPayload A m (Some req) M pp data (of_nat (length data)) True = Some (r, M', m')"
    and "msg_fits b M" "length data < 65536" "pp \<noteq> Payload M" "data \<noteq> []" "block_of req = None"
  shows "holds A rep m' (add_mset (OMsg M') X) \<and> msg_fits (b + 8 + 256) M'"
proof -
  have len: "unat (of_nat (length data) :: u16) = length data" using assms(4) by (rule unat_of_nat16)
  have ulen: "uint (of_nat (length data) :: u16) = int (length data)" "((of_nat (length data) :: u16) = 0) = False"
    "(of_nat (length data) :: u16) > 256 \<longleftrightarrow> length data > 256"
    using assms(6) len by (auto simp: uint_nat word_unat_eq_iff word_less_nat_alt simp del: of_nat_unat)
  have ok: "(fst (GetBlock2OptionFromMsg req \<lparr>BlkType = BLOCK_2, BlockSize = 0, MoreFlag = False, BlockNum = 0\<rparr>) = COAP_OK) = False"
    using assms(7) by (auto simp: block_of_def split: prod.splits if_splits)
  let ?B = "\<lparr>BlkType = BLOCK_2, BlockSize = 256, MoreFlag = True, BlockNum = 0\<rparr>"
  obtain r1 M1 m1 where D: "AddBlkOptionToMsg A m M ?B = (r1, M1, m1)" by (metis prod_cases3)
  define n where "n = min 256 (length data)"
  define M2 m2 where "M2 = (if length data > 256 then M1 else M)" and "m2 = (if length data > 256 then m1 else m)"
  have h2: "holds A rep m2 (add_mset (OMsg M2) X)" "msg_fits (b + 8) M2" "Payload M2 = Payload M"
    using holds_AddBlk [OF assms(1) D assms(3)] assms(1) msg_fits_mono [OF assms(3), of "b + 8"] by (auto simp: M2_def m2_def)
  obtain M3 where M3: "use_payload A m2 M2 pp data 0 (int n) True = Some (M3, m')" "M' = M3\<lparr>PayloadLength := of_nat n\<rparr>"
    using assms(2,5) ok ulen D h2(3) unfolding CoAP_SetPayload_def Let_def option.case M2_def m2_def n_def
    by (auto simp: min_def split: prod.splits option.splits if_splits simp del: BLOCK_2_def)
  show ?thesis using holds_payload_block [OF h2(1,2) M3(1)] assms(6) unfolding M3(2) by (simp add: n_def)
qed

lemma holds_SetPayload:
  assumes "holds A rep m (add_mset (OMsg M) X)" "CoAP_SetPayload A m (Some req) M pp data (of_nat (length data)) True = Some (r, M', m')"
    and "msg_fits b M" "length data < 65536" "pp \<noteq> Payload M"
  shows "holds A rep m' (add_mset (OMsg M') X) \<and> msg_fits (b + 264) M'"
proof -
  consider (empty) "data = []" | (none) "data \<noteq> []" "block_of req = None"
    | (wrong) B where "data \<noteq> []" "block_of req = Some B" "length data \<le> used_size B * unat (BlockNum B)"
    | (block) B where "block_of req = Some B" "used_size B * unat (BlockNum B) < length data" by fastforce
  then show ?thesis
  proof cases
    case empty
    then have "M' = M\<lparr>PayloadLength := 0\<rparr>" "m' = m" using assms(2) by (auto simp: CoAP_SetPayload_def)
    then show ?thesis using assms(1,3) by (auto intro: holds_msg_cong simp: msg_fits_def msg_wf_def msg_weight_def)
  next
    case none
    then show ?thesis using holds_SetPayload_first [OF assms] by (simp add: add.commute)
  next
    case (wrong B)
    obtain M1 where M1: "CoAP_addTextPayload A m M block_not_existing = Some (COAP_OK, M1, m') \<or> (\<exists>r. CoAP_addTextPayload A m M block_not_existing = Some (r, M1, m'))"
      "M' = M1\<lparr>Code := RESP_BAD_OPTION_4_02\<rparr>"
      using set_payload_wrong_eq [OF wrong(2,1) assms(4) wrong(3), of A m M pp True] assms(2) by (auto split: option.splits)
    then obtain r1 where "CoAP_addTextPayload A m M block_not_existing = Some (r1, M1, m')" by auto
    from holds_add_text [OF assms(1) this assms(3)] have "holds A rep m' (add_mset (OMsg M1) X) \<and> msg_fits (b + 256) M1"
      by (simp add: block_not_existing_def)
    then show ?thesis using M1(2) msg_fits_mono [of "b + 256" M1 "b + 264"] by (auto intro: holds_msg_cong)
  next
    case (block B)
    let ?n = "min (used_size B) (length data - used_size B * unat (BlockNum B))"
    note eq = set_payload_block2 [OF block(1) assms(4,5) refl block(2) refl, of A m True]
    obtain r1 M1 m1 where R: "RemoveAllBlockOptionsFromMsg A m M BLOCK_2 = (r1, M1, m1)" by (metis prod_cases3)
    obtain r2 M2 m2 where D: "AddBlkOptionToMsg A m1 M1 (answer_block B (length data)) = (r2, M2, m2)" by (metis prod_cases3)
    note h1 = holds_RemoveAllBlock [OF assms(1) R assms(3)]
    have h2: "holds A rep m2 (add_mset (OMsg M2) X)" "msg_fits (b + 8) M2"
      using holds_AddBlk [OF _ D, of X b] h1 by auto
    obtain M3 where M3: "use_payload A m2 M2 pp data (used_size B * unat (BlockNum B)) (int ?n) True = Some (M3, m')" "M' = M3\<lparr>PayloadLength := of_nat ?n\<rparr>"
      using assms(2) unfolding eq R D prod.case by (auto split: option.splits)
    have "0 < used_size B" using block_of_Some(2) [OF block(1)] by (auto simp: used_size_def BLOCK_SIZES_def)
    then show ?thesis using holds_payload_block [OF h2 M3(1)] block(2) unfolding M3(2) by (simp add: used_size_def min.coboundedI1 add.commute)
  qed
qed

section \<open>The resource directory\<close>

lemma holds_not_payload:
  assumes "holds A rep m (add_mset (OBuf p) (add_mset (OMsg M) X))"
  shows "p \<noteq> Payload M"
proof
  assume p: "p = Payload M"
  obtain zs g h where o: "owns (mem_area A m) g ([OBuf p, OMsg M] @ zs) h"
    by (rule holdsE [of m "[OBuf p, OMsg M]" X]) (use assms in auto)
  then have "p \<in> dom h" by (auto simp: owns_def heap_ext_def)
  with o p show False by (auto simp: owns_def heap_ext_def msg_ptrs_def)
qed

lemma holds_AddCf:
  assumes "holds A rep m (add_mset (OMsg M) X)" "AddCfOptionToMsg A m M cf = (r, M', m')" "msg_fits b M"
  shows "holds A rep m' (add_mset (OMsg M') X) \<and> msg_fits (b + 7) M'"
proof -
  obtain r1 buf len where a: "append_to_msg A m M OPT_NUM_CONTENT_FORMAT buf len = (r1, M', m')" "unat len = length buf" "length buf \<le> 2"
    using assms(2) unfolding AddCfOptionToMsg_def by (auto split: if_splits prod.splits)
  from holds_append_msg [OF assms(1) a(1) _ _ assms(3)] a(2,3) msg_fits_mono [of "b + 5 + unat len" M' "b + 7"]
  show ?thesis by simp
qed

lemma holds_WellKnown:
  assumes "holds A rep m (add_mset (OMsg M) X)" "WellKnown_GetHandler A m Rs n req M = Some (res, M', m')" "msg_fits b M" "unat n < 500"
  shows "holds A rep m' (add_mset (OMsg M') X) \<and> msg_fits (b + 271) M' \<and> res \<noteq> HANDLER_POSTPONE"
proof (cases "Code req = REQ_GET")
  case False
  let ?e = "str ''CoAP GET only!''" and ?M = "M\<lparr>Code := RESP_ERROR_BAD_REQUEST_4_00\<rparr>"
  obtain r where s: "CoAP_SetPayload A m (Some req) ?M local_array ?e (of_nat (length ?e)) True = Some (r, M', m')" "res = HANDLER_ERROR"
    using assms(2) False by (auto simp: WellKnown_GetHandler_def Let_def split: option.splits)
  have "holds A rep m (add_mset (OMsg ?M) X)" using assms(1) by (rule holds_msg_cong) simp_all
  from holds_SetPayload [OF this s(1), of b] assms(3)
  have "holds A rep m' (add_mset (OMsg M') X) \<and> msg_fits (b + 264) M'" by (simp add: str_def) (simp add: msg_fits_def)
  then show ?thesis using s(2) msg_fits_mono [of "b + 264" M' "b + 271"] by simp
next
  case True
  let ?b = "s16 (uint ((n + 1) * 64))"
  have "unat (n + 1) = unat n + 1" using assms(4) by (simp add: unat_word_ariths)
  then have "unat ((n + 1) * 64) = (unat n + 1) * 64" using assms(4) by (simp add: unat_word_ariths)
  then have "uint ((n + 1) * 64) = int ((unat n + 1) * 64)" by (simp add: uint_nat del: of_nat_unat)
  moreover have "s16 (int ((k + 1) * 64)) = int ((k + 1) * 64)" if "k < 500" for k using that by (intro s16_id) auto
  from this [OF assms(4)] have "s16 (int ((unat n + 1) * 64)) = int ((unat n + 1) * 64)" .
  ultimately have "?b = int ((unat n + 1) * 64)" by simp
  then have b: "0 < ?b" "?b \<le> MAX_REQ" using assms(4) by (auto simp: MAX_REQ_def simp del: of_nat_mult)
  obtain p m1 where g: "coap_mem_get0 A m ?b = (p, m1)" by fastforce
  note h1 = holds_get0 [OF assms(1) g b]
  show ?thesis
  proof (cases "p = NULL")
    case True
    then show ?thesis
      using assms(2,3) h1 g \<open>Code req = REQ_GET\<close> msg_fits_mono [OF assms(3), of "b + 271"] by (auto simp: WellKnown_GetHandler_def Let_def)
  next
    case False
    then obtain tx r2 M2 m2 where w: "wellknown_text Rs = Some tx" "\<not> int (length tx) + 1 > ?b"
      and s: "CoAP_SetPayload A m1 (Some req) M p (takeWhile (\<lambda>c. c \<noteq> 0) tx) (of_nat (length (takeWhile (\<lambda>c. c \<noteq> 0) tx))) True = Some (r2, M2, m2)"
      and c: "res = HANDLER_OK" "AddCfOptionToMsg A (coap_mem_release A m2 p) M2 COAP_CF_LINK_FORMAT = (COAP_OK, M', m')"
      using assms(2) True g by (auto simp: WellKnown_GetHandler_def AddCfOptionToMsg_def Let_def split: option.splits prod.splits if_splits)
    have h: "holds A rep m1 (add_mset (OMsg M) (add_mset (OBuf p) X))" using h1 False by (simp add: add_mset_commute)
    have "length (takeWhile (\<lambda>c. c \<noteq> 0) tx) < 65536"
      using w(2) b(2) length_takeWhile_le [of "\<lambda>c. c \<noteq> 0" tx] by (simp add: MAX_REQ_def)
    moreover have "p \<noteq> Payload M" using h1 False by (intro holds_not_payload [of m1 p M X]) simp
    ultimately have h2: "holds A rep m2 (add_mset (OMsg M2) (add_mset (OBuf p) X)) \<and> msg_fits (b + 264) M2"
      using holds_SetPayload [OF h s assms(3)] by blast
    then have "holds A rep (coap_mem_release A m2 p) (add_mset (OMsg M2) X)"
      by (intro holds_release) (simp add: add_mset_commute)
    from holds_AddCf [OF this c(2), of "b + 264"] h2 c(1) show ?thesis by (simp add: add.assoc)
  qed
qed

end

section \<open>Resources\<close>

definition res_objs :: "CoAP_Res_t \<Rightarrow> obj multiset" where
  "res_objs R = add_mset (OBuf (res_at R)) ((case pDescription R of None \<Rightarrow> {#} | Some (q, _) \<Rightarrow> {#OBuf q#}) +
     opt_objs (pUri R) + obs_objs (pListObservers R))"

definition ress_objs :: "CoAP_Res_t list \<Rightarrow> obj multiset" where
  "ress_objs L = (\<Sum>R \<in># mset L. res_objs R)"

lemma ress_objs_simps [simp]:
  "ress_objs [] = {#}" "ress_objs (R # L) = res_objs R + ress_objs L" "ress_objs (L @ M) = ress_objs L + ress_objs M"
  by (simp_all add: ress_objs_def)

text \<open>The observers of one resource among all objects.\<close>

lemma ress_objs_observers:
  assumes "k < length L"
  shows "\<exists>Y. (\<forall>obs c. ress_objs (L[k := (L ! k)\<lparr>UpdateCnt := c, pListObservers := obs\<rparr>]) = obs_objs obs + Y) \<and>
    ress_objs L = obs_objs (pListObservers (L ! k)) + Y"
proof (intro exI conjI allI)
  let ?R = "L ! k"
  let ?Y = "add_mset (OBuf (res_at ?R)) ((case pDescription ?R of None \<Rightarrow> {#} | Some (q, _) \<Rightarrow> {#OBuf q#}) + opt_objs (pUri ?R)) +
    ress_objs (take k L) + ress_objs (drop (Suc k) L)"
  have split: "L = take k L @ ?R # drop (Suc k) L" by (rule id_take_nth_drop [OF assms])
  show "ress_objs (L[k := ?R\<lparr>UpdateCnt := c, pListObservers := obs\<rparr>]) = obs_objs obs + ?Y" for obs c
    using assms by (simp add: upd_conv_take_nth_drop res_objs_def ac_simps)
  show "ress_objs L = obs_objs (pListObservers ?R) + ?Y"
    using arg_cong [OF split, of ress_objs] by (simp add: res_objs_def ac_simps)
qed

text \<open>The size of the options of a URI.\<close>

lemma parts_weight: "(\<Sum>p \<leftarrow> parts D s. 5 + length p) \<le> 6 * length s"
proof (induction D s rule: parts.induct)
  case (1 D s)
  show ?case
  proof (cases "dropWhile D s")
    case Nil
    then show ?thesis by (subst parts.simps) (simp del: dropWhile_eq_Nil_conv)
  next
    case (Cons c t)
    let ?r = "takeWhile (\<lambda>x. \<not> D x) (c # t)" and ?d = "dropWhile (\<lambda>x. \<not> D x) (c # t)"
    have "\<not> D c" using Cons by (metis hd_dropWhile list.sel(1) list.distinct(1))
    then have "1 \<le> length ?r" by simp
    moreover have "length ?r + length ?d = length (c # t)" by (metis length_append takeWhile_dropWhile_id)
    moreover have "length (c # t) \<le> length s" by (metis Cons length_dropWhile_le)
    moreover have "parts D s = ?r # parts D ?d" by (subst parts.simps) (simp only: Cons list.case)
    moreover have "(\<Sum>p \<leftarrow> parts D ?d. 5 + length p) \<le> 6 * length ?d" by (rule 1 [OF Cons])
    ultimately show ?thesis by simp
  qed
qed

lemma uri_parts_weight: "(\<Sum>(n, v) \<leftarrow> uri_parts s. 5 + length v) \<le> 6 * length s"
proof -
  let ?p = "takeWhile (\<lambda>c. c \<noteq> chr CHR ''?'') s" and ?q = "dropWhile (\<lambda>c. c \<noteq> chr CHR ''?'') s"
  have "length ?p + length ?q = length s" by (metis length_append takeWhile_dropWhile_id)
  then have "6 * length ?p + 6 * length (tl ?q) \<le> 6 * length s" by simp
  moreover have "(\<Sum>(n, v) \<leftarrow> uri_parts s. 5 + length v) =
      (\<Sum>p \<leftarrow> parts (\<lambda>c. c = chr CHR ''/'' \<or> c = chr CHR '' '') ?p. 5 + length p) + (\<Sum>p \<leftarrow> parts (\<lambda>c. c = chr CHR ''&'') (tl ?q). 5 + length p)"
    by (simp add: uri_parts_def Let_def comp_def)
  moreover note parts_weight [of "\<lambda>c. c = chr CHR ''/'' \<or> c = chr CHR '' ''" ?p] parts_weight [of "\<lambda>c. c = chr CHR ''&''" "tl ?q"]
  ultimately show ?thesis by linarith
qed

context coap_allocator
begin

lemma holds_append_parts:
  assumes "holds A rep m (opt_objs L + X)" "append_parts A m L ps = (L', m')" "\<forall>(n, v) \<in> set ps. length v \<le> 32000" "opts_wf L"
  shows "holds A rep m' (opt_objs L' + X) \<and> opts_wf L' \<and> opts_weight L' \<le> opts_weight L + (\<Sum>(n, v) \<leftarrow> ps. 5 + length v)"
  using assms
proof (induction ps arbitrary: m L)
  case (Cons nv ps)
  obtain n v where nv: "nv = (n, v)" by fastforce
  obtain r L1 m1 where a: "CoAP_AppendOptionToList A m L n v (of_nat (length v)) = (r, L1, m1)" by (metis prod_cases3)
  have len: "unat (of_nat (length v) :: u16) = length v" using Cons.prems(3) nv by (intro unat_of_nat16) auto
  have sz: "sizeof_CoAP_option_t + uint (of_nat (length v) :: u16) \<le> MAX_REQ"
    using Cons.prems(3) nv len by (simp add: sizeof_CoAP_option_t_def MAX_REQ_def uint_nat del: of_nat_unat)
  have h1: "holds A rep m1 (opt_objs L1 + X)" by (rule holds_append [OF Cons.prems(1) a sz])
  obtain p where p: "L1 = L \<or> L1 = [] \<or> L1 = insert_option (fill_option p n v (of_nat (length v))) L"
    using a by (auto simp: append_cases split: prod.splits if_splits)
  then have wf: "opts_wf L1" "opts_weight L1 \<le> opts_weight L + (5 + length v)"
    using Cons.prems(4) len opts_wf_insert [of L "fill_option p n v (of_nat (length v))"] by (auto simp: opts_wf_def)
  have "append_parts A m1 L1 ps = (L', m')" using Cons.prems(2) nv a by simp
  from Cons.IH [OF h1 this] Cons.prems(3) wf nv show ?case by auto
qed simp

lemma holds_uri:
  assumes "holds A rep m X" "CoAP_AppendUriOptionsFromString A m [] (Some s) = (r, L, m')" "length s \<le> 32000"
  shows "holds A rep m' (opt_objs L + X) \<and> opts_wf L \<and> opts_weight L \<le> 6 * length s"
proof -
  have a: "append_parts A m [] (uri_parts s) = (L, m')" using assms(2) by (simp add: AppendUriOptions_parts)
  have "\<forall>(n, v) \<in> set (uri_parts s). length v \<le> 32000" using uri_parts_props(2) [of _ _ s] assms(3) by fastforce
  from holds_append_parts [OF _ a this, of X] assms(1) uri_parts_weight [of s] show ?thesis by (simp add: opts_wf_def)
qed

lemma holds_CreateResource:
  assumes "holds A rep m (ress_objs L + X)" "CoAP_CreateResource A m L n uri d opts hf nt = Some (R, L', n', m')"
    and "length uri \<le> 32000" "length d \<le> 32000"
  shows "holds A rep m' (ress_objs L' + X) \<and>
    (L' = L \<and> n' = n \<or> n' = n + 1 \<and> (\<exists>R. L' = L @ [R] \<and> Handler R = hf \<and> Notifier R = nt))"
proof -
  obtain p m1 where g: "coap_mem_get0 A m sizeof_CoAP_Res_t = (p, m1)" by fastforce
  note h1 = holds_get0 [OF assms(1) g]
  show ?thesis
  proof (cases "p = NULL")
    case True
    then show ?thesis using assms(2) g h1 by (auto simp: CoAP_CreateResource_def sizeof_CoAP_Res_t_def MAX_REQ_def)
  next
    case p: False
    let ?n = "int (length d) + 1"
    have sz: "s16 ?n = ?n" "0 < ?n" "?n \<le> MAX_REQ" using assms(4) by (auto simp: MAX_REQ_def intro!: s16_id)
    obtain q m2 where q: "coap_mem_get A m1 ?n = (q, m2)" by fastforce
    have h2: "holds A rep m1 (add_mset (OBuf p) (ress_objs L + X))" using h1 p by (simp add: sizeof_CoAP_Res_t_def MAX_REQ_def)
    note h3 = holds_get [OF h2 q sz(2,3)]
    define ds where "ds = (if d = [] then None else Some (q, d))"
    define m3 where "m3 = (if d = [] then m1 else m2)"
    have qn: "d \<noteq> [] \<Longrightarrow> q \<noteq> NULL" using assms(2) g p q sz(1) by (auto simp: CoAP_CreateResource_def split: prod.splits if_splits)
    have h4: "holds A rep m3 ((case ds of None \<Rightarrow> {#} | Some (q, _) \<Rightarrow> {#OBuf q#}) + add_mset (OBuf p) (ress_objs L + X))"
      using h2 h3 qn by (auto simp: ds_def m3_def add_mset_commute)
    obtain r uo m4 where u: "CoAP_AppendUriOptionsFromString A m3 [] (Some uri) = (r, uo, m4)" by (metis prod_cases3)
    let ?R = "\<lparr>res_at = p, pDescription = ds, UpdateCnt = 0, Options = opts, pUri = uo, pListObservers = [], Handler = hf, Notifier = nt\<rparr>"
    from assms(2) g p q sz(1) qn u have L': "L' = L @ [?R]" "n' = n + 1" "m' = m4"
      by (auto simp: CoAP_CreateResource_def CoAP_AppendResourceToList_def ds_def m3_def Let_def split: prod.splits if_splits)
    have "opt_objs uo + ((case ds of None \<Rightarrow> {#} | Some (q, _) \<Rightarrow> {#OBuf q#}) + add_mset (OBuf p) (ress_objs L + X)) = ress_objs L' + X"
      unfolding L'(1) by (simp add: res_objs_def ac_simps)
    then have "holds A rep m' (ress_objs L' + X)" using conjunct1 [OF holds_uri [OF h4 u assms(3)]] L'(3) by (simp only:)
    then show ?thesis using L'(1,2) by auto
  qed
qed

end

end
