(* ===== verification/Interaction.thy ===== *)
theory Interaction
  imports Resource "HOL-Library.Monad_Syntax"
begin

text \<open>
  Interactions, the request and response exchanges in progress: \<open>coap_interaction.h\<close> and
  \<open>coap_interaction.c\<close>. The global variables of the stack form one record; an interaction is
  known by the address of its struct, an observer by the address of its struct, and a resource by
  its position in the resource list. Operations return \<open>None\<close> where the sources dereference
  \<open>NULL\<close> or freed memory. The clock \<open>hal_rtc_1Hz_Cnt\<close> is the argument \<open>now\<close>: it stands still
  during one call.
\<close>

section \<open>Types\<close>

datatype CoAP_InteractionRole_t =
  COAP_ROLE_NOT_SET | COAP_ROLE_SERVER | COAP_ROLE_NOTIFICATION | COAP_ROLE_CLIENT

datatype CoAP_InteractionState_t =
    COAP_STATE_NOT_SET
  | COAP_STATE_HANDLE_REQUEST
  | COAP_STATE_RESOURCE_POSTPONE_EMPTY_ACK_SENT
  | COAP_STATE_RESPONSE_SENT
  | COAP_STATE_READY_TO_NOTIFY
  | COAP_STATE_NOTIFICATION_SENT
  | COAP_STATE_READY_TO_REQUEST
  | COAP_STATE_WAITING_RESPONSE
  | COAP_STATE_HANDLE_RESPONSE
  | COAP_STATE_FINISHED

datatype CoAP_ReliabilityState_t = NOT_SET | ACK_SET | RST_SET

record CoAP_Interaction_t =
  ia_at :: ptr
  Role :: CoAP_InteractionRole_t
  State :: CoAP_InteractionState_t
  pRes :: "nat option"
  pObserver :: ptr
  RemoteEp :: NetEp_t
  ia_ifID :: u8
  UpdatePendingNotification :: bool
  RetransCounter :: u8
  AckTimeout :: u32
  SleepUntil :: u32
  pReqMsg :: "CoAP_Message_t option"
  ReqReliabilityState :: CoAP_ReliabilityState_t
  ReqMetaInfo :: MetaInfo_t
  pRespMsg :: "CoAP_Message_t option"
  RespReliabilityState :: CoAP_ReliabilityState_t
  RespMetaInfo :: MetaInfo_t
  RespCB :: "nat option"

definition sizeof_CoAP_Interaction_t :: int where
  "sizeof_CoAP_Interaction_t = 100"

definition ACK_TIMEOUT :: u32 where [simp]: "ACK_TIMEOUT = 2"

text \<open>The state of the stack: the allocator, the static counters of \<open>CoAP_GetNextMid\<close> and
  \<open>CoAP_GenerateToken\<close>, the interaction list \<open>CoAP.pInteractions\<close>, the resources, the sockets.
  \<open>Outbox\<close> records the packets handed to the transmit functions and \<open>Delivered\<close> the calls of
  response callbacks.\<close>

record 'm stack =
  mem :: 'm
  MId :: u16
  TokenCtr :: u64
  pInteractions :: "CoAP_Interaction_t list"
  pResList :: "CoAP_Res_t list"
  ResListMembers :: u32
  SocketCtrl :: NetSocketCtrl_t
  Outbox :: "(u8 \<times> NetPacket_t) list"
  Delivered :: "(nat \<times> CoAP_Message_t \<times> NetEp_t) list"

text \<open>What is outside the stack: the allocator, the handlers and notifiers of the application
  (which may change the response message and use the allocator), whether reception is blocked,
  and the contents of uninitialised memory.\<close>

record 'm env =
  ops :: "'m mem_ops"
  user_handler :: "nat \<Rightarrow> 'm \<Rightarrow> CoAP_Message_t \<Rightarrow> CoAP_Message_t option
     \<Rightarrow> (CoAP_HandlerResult_t \<times> CoAP_Message_t option \<times> 'm) option"
  user_notifier :: "nat \<Rightarrow> 'm \<Rightarrow> CoAP_Observer_t \<Rightarrow> CoAP_Message_t
     \<Rightarrow> (CoAP_HandlerResult_t \<times> CoAP_Message_t \<times> 'm) option"
  receiveBlocked :: bool
  stale_buf :: bytes
  stale_pked :: NetPacket_t

section \<open>Allocation and the interaction list\<close>

definition CoAP_AllocNewInteraction :: "'m env \<Rightarrow> 'm stack \<Rightarrow> CoAP_Interaction_t option \<times> 'm stack" where
  "CoAP_AllocNewInteraction E s =
     (let (p, m') = coap_mem_get0 (ops E) (mem s) sizeof_CoAP_Interaction_t in
      if p = NULL then (None, s\<lparr>mem := m'\<rparr>)
      else (Some \<lparr>ia_at = p, Role = COAP_ROLE_NOT_SET, State = COAP_STATE_NOT_SET, pRes = None,
              pObserver = NULL, RemoteEp = zero_ep, ia_ifID = 0, UpdatePendingNotification = False,
              RetransCounter = 0, AckTimeout = 0, SleepUntil = 0, pReqMsg = None,
              ReqReliabilityState = NOT_SET, ReqMetaInfo = META_INFO_NONE, pRespMsg = None,
              RespReliabilityState = NOT_SET, RespMetaInfo = META_INFO_NONE, RespCB = None\<rparr>,
            s\<lparr>mem := m'\<rparr>))"

definition CoAP_FreeInteraction :: "'m env \<Rightarrow> 'm stack \<Rightarrow> CoAP_Interaction_t \<Rightarrow> 'm stack" where
  "CoAP_FreeInteraction E s pInteraction =
     (let (_, _, m1) = CoAP_free_Message (ops E) (mem s) (pReqMsg pInteraction);
          (_, _, m2) = CoAP_free_Message (ops E) m1 (pRespMsg pInteraction)
      in s\<lparr>mem := coap_mem_release (ops E) m2 (ia_at pInteraction)\<rparr>)"

text \<open>Both unlink functions stop at the first interaction that meets their condition.\<close>

fun unlink_first :: "(CoAP_Interaction_t \<Rightarrow> bool) \<Rightarrow> CoAP_Interaction_t list
    \<Rightarrow> CoAP_Interaction_t option \<times> CoAP_Interaction_t list" where
  "unlink_first P [] = (None, [])"
| "unlink_first P (currP # rest) =
     (if P currP then (Some currP, rest)
      else let (r, rest') = unlink_first P rest in (r, currP # rest'))"

definition CoAP_UnlinkInteractionFromList :: "'m env \<Rightarrow> 'm stack \<Rightarrow> ptr \<Rightarrow> bool \<Rightarrow> CoAP_Result_t \<times> 'm stack" where
  "CoAP_UnlinkInteractionFromList E s p FreeUnlinked =
     (case unlink_first (\<lambda>currP. ia_at currP = p) (pInteractions s) of
        (None, _) \<Rightarrow> (COAP_OK, s)
      | (Some currP, L) \<Rightarrow>
          let s' = s\<lparr>pInteractions := L\<rparr>
          in (COAP_OK, if FreeUnlinked then CoAP_FreeInteraction E s' currP else s'))"

definition has_MsgID :: "u16 \<Rightarrow> CoAP_Interaction_t \<Rightarrow> bool" where
  "has_MsgID MsgID currP \<longleftrightarrow>
     (case pReqMsg currP of None \<Rightarrow> False | Some M \<Rightarrow> MessageID M = MsgID) \<or>
     (case pRespMsg currP of None \<Rightarrow> False | Some M \<Rightarrow> MessageID M = MsgID)"

definition CoAP_UnlinkInteractionFromListByID :: "'m env \<Rightarrow> 'm stack \<Rightarrow> u16 \<Rightarrow> u8 \<Rightarrow> NetEp_t \<Rightarrow> bool
    \<Rightarrow> CoAP_Result_t \<times> 'm stack" where
  "CoAP_UnlinkInteractionFromListByID E s MsgID i RstEp FreeUnlinked =
     (case unlink_first (\<lambda>currP. ia_ifID currP = i \<and> has_MsgID MsgID currP \<and> ep_eq (RemoteEp currP) RstEp)
             (pInteractions s) of
        (None, _) \<Rightarrow> (COAP_NOT_FOUND, s)
      | (Some currP, L) \<Rightarrow>
          let s' = s\<lparr>pInteractions := L\<rparr>
          in (COAP_OK, if FreeUnlinked then CoAP_FreeInteraction E s' currP else s'))"

definition CoAP_AppendInteractionToList :: "CoAP_Interaction_t list \<Rightarrow> CoAP_Interaction_t option
    \<Rightarrow> CoAP_Result_t \<times> CoAP_Interaction_t list" where
  "CoAP_AppendInteractionToList L pInteractionToAdd =
     (case pInteractionToAdd of None \<Rightarrow> (COAP_ERR_ARGUMENT, L) | Some p \<Rightarrow> (COAP_OK, L @ [p]))"

text \<open>The loop unlinks every occurrence of the node, then the node goes to the end.\<close>

definition CoAP_MoveInteractionToListEnd :: "CoAP_Interaction_t list \<Rightarrow> CoAP_Interaction_t
    \<Rightarrow> CoAP_Result_t \<times> CoAP_Interaction_t list" where
  "CoAP_MoveInteractionToListEnd L pInteractionToMove =
     (let (_, L') = CoAP_AppendInteractionToList
            (filter (\<lambda>currP. ia_at currP \<noteq> ia_at pInteractionToMove) L) (Some pInteractionToMove)
      in (COAP_OK, L'))"

definition CoAP_EnqueueLastInteraction :: "'m stack \<Rightarrow> CoAP_Interaction_t \<Rightarrow> 'm stack" where
  "CoAP_EnqueueLastInteraction s pIA =
     s\<lparr>pInteractions := snd (CoAP_MoveInteractionToListEnd (pInteractions s) pIA)\<rparr>"

definition CoAP_DeleteInteraction :: "'m env \<Rightarrow> 'm stack \<Rightarrow> ptr \<Rightarrow> CoAP_Result_t \<times> 'm stack" where
  "CoAP_DeleteInteraction E s p = CoAP_UnlinkInteractionFromList E s p True"

definition CoAP_ResetInteractionByID :: "'m env \<Rightarrow> 'm stack \<Rightarrow> u16 \<Rightarrow> u8 \<Rightarrow> NetEp_t \<Rightarrow> CoAP_Result_t \<times> 'm stack" where
  "CoAP_ResetInteractionByID E s MsgID i RstEp = CoAP_UnlinkInteractionFromListByID E s MsgID i RstEp True"

text \<open>A store through a pointer to an interaction of the list.\<close>

definition put_ia :: "'m stack \<Rightarrow> CoAP_Interaction_t \<Rightarrow> 'm stack" where
  "put_ia s ia = s\<lparr>pInteractions := map (\<lambda>x. if ia_at x = ia_at ia then ia else x) (pInteractions s)\<rparr>"

section \<open>Timers and lookup\<close>

definition CoAP_SetSleepInteraction :: "u32 \<Rightarrow> CoAP_Interaction_t \<Rightarrow> u32 \<Rightarrow> CoAP_Interaction_t" where
  "CoAP_SetSleepInteraction now pIA seconds = pIA\<lparr>SleepUntil := now + seconds\<rparr>"

fun backoff :: "nat \<Rightarrow> u32 \<Rightarrow> u32" where
  "backoff 0 waitTime = waitTime"
| "backoff (Suc i) waitTime = backoff i (waitTime * ACK_TIMEOUT)"

definition CoAP_EnableAckTimeout :: "u32 \<Rightarrow> CoAP_Interaction_t \<Rightarrow> u8 \<Rightarrow> CoAP_Interaction_t" where
  "CoAP_EnableAckTimeout now pIA retryNum = pIA\<lparr>AckTimeout := now + backoff (unat retryNum) ACK_TIMEOUT\<rparr>"

definition CoAP_GetLongestPendingInteraction :: "'m stack \<Rightarrow> CoAP_Interaction_t option" where
  "CoAP_GetLongestPendingInteraction s = list_head (pInteractions s)"

definition req_has_id :: "u16 \<Rightarrow> CoAP_Interaction_t \<Rightarrow> bool" where
  "req_has_id mId ia = (case pReqMsg ia of None \<Rightarrow> False | Some M \<Rightarrow> MessageID M = mId)"

text \<open>The loop of \<open>CoAP_GetInteractionByMessageID\<close> stops before the last element.\<close>

fun by_id_loop :: "u16 \<Rightarrow> CoAP_Interaction_t list \<Rightarrow> CoAP_Interaction_t option" where
  "by_id_loop mId (pList # pNext # rest) =
     (if req_has_id mId pList then Some pList else by_id_loop mId (pNext # rest))"
| "by_id_loop mId _ = None"

definition CoAP_GetInteractionByMessageID :: "'m stack \<Rightarrow> u16 \<Rightarrow> CoAP_Interaction_t option" where
  "CoAP_GetInteractionByMessageID s mId =
     (case pInteractions s of
        [] \<Rightarrow> None
      | pList # rest \<Rightarrow> if req_has_id mId pList then Some pList else by_id_loop mId (pList # rest))"

text \<open>Apply a received ACK or RST to the message it answers. Returns the interaction found.\<close>

definition resp_has_id :: "u16 \<Rightarrow> CoAP_Interaction_t \<Rightarrow> bool" where
  "resp_has_id mId ia = (case pRespMsg ia of None \<Rightarrow> False | Some M \<Rightarrow> MessageID M = mId)"

fun apply_state :: "CoAP_ReliabilityState_t \<Rightarrow> u16 \<Rightarrow> NetEp_t \<Rightarrow> CoAP_Interaction_t list
    \<Rightarrow> CoAP_Interaction_t option \<times> CoAP_Interaction_t list" where
  "apply_state stateToAdd mID fromEp [] = (None, [])"
| "apply_state stateToAdd mID fromEp (pList # next) =
     (if (Role pList = COAP_ROLE_SERVER \<or> Role pList = COAP_ROLE_NOTIFICATION) \<and>
         resp_has_id mID pList \<and> ep_eq fromEp (RemoteEp pList)
      then let ia = pList\<lparr>RespReliabilityState := stateToAdd\<rparr> in (Some ia, ia # next)
      else if Role pList = COAP_ROLE_CLIENT \<and> req_has_id mID pList \<and> ep_eq fromEp (RemoteEp pList)
      then let ia = pList\<lparr>ReqReliabilityState := stateToAdd\<rparr> in (Some ia, ia # next)
      else let (r, next') = apply_state stateToAdd mID fromEp next in (r, pList # next'))"

definition CoAP_ApplyReliabilityStateToInteraction :: "'m stack \<Rightarrow> CoAP_ReliabilityState_t \<Rightarrow> u16 \<Rightarrow> u8 \<Rightarrow> NetEp_t
    \<Rightarrow> CoAP_Interaction_t option \<times> 'm stack" where
  "CoAP_ApplyReliabilityStateToInteraction s stateToAdd mID i fromEp =
     (let (r, L) = apply_state stateToAdd mID fromEp (pInteractions s)
      in (r, s\<lparr>pInteractions := L\<rparr>))"

definition CoAP_AckInteractionByID :: "u16 \<Rightarrow> u8 \<Rightarrow> NetEp_t \<Rightarrow> CoAP_Result_t" where
  "CoAP_AckInteractionByID MsgID i fromEp = COAP_NOT_FOUND"

end
