(* ===== verification/Exchange.thy ===== *)
theory Exchange
  imports Interaction
begin

text \<open>
  Starting exchanges: the second half of \<open>coap_interaction.c\<close> (client requests, server
  interactions with duplicate detection, notifications of observers, registration and removal of
  observers) and \<open>CoAP_NotifyResourceObservers\<close> of \<open>coap_resource.c\<close>.
\<close>

section \<open>Sending from the stack\<close>

text \<open>\<open>CoAP_SendMsg\<close> and the short forms on the state of the stack; \<open>None\<close> for the interface of
  an unknown socket.\<close>

definition on_stack :: "u8 \<Rightarrow> 'm stack \<Rightarrow> 'm send_result option \<Rightarrow> (CoAP_Result_t \<times> CoAP_Message_t \<times> 'm stack) option" where
  "on_stack i s r =
     (case r of
        None \<Rightarrow> None
      | Some (res, Msg, pk, m') \<Rightarrow>
          Some (res, Msg, s\<lparr>mem := m', Outbox := Outbox s @ (case pk of None \<Rightarrow> [] | Some p \<Rightarrow> [(i, p)])\<rparr>))"

definition send :: "'m env \<Rightarrow> u32 \<Rightarrow> 'm stack \<Rightarrow> CoAP_Message_t \<Rightarrow> u8 \<Rightarrow> NetEp_t
    \<Rightarrow> (CoAP_Result_t \<times> CoAP_Message_t \<times> 'm stack) option" where
  "send E now s Msg i Rcv =
     on_stack i s (CoAP_SendMsg (ops E) (mem s) now (SocketCtrl s) (stale_buf E) (stale_pked E) Msg i Rcv)"

definition send_EmptyAck :: "'m env \<Rightarrow> u32 \<Rightarrow> 'm stack \<Rightarrow> u16 \<Rightarrow> u8 \<Rightarrow> NetEp_t
    \<Rightarrow> (CoAP_Result_t \<times> 'm stack) option" where
  "send_EmptyAck E now s mid i Rcv =
     map_option (\<lambda>(r, _, s'). (r, s'))
       (on_stack i s (CoAP_SendEmptyAck (ops E) (mem s) now (SocketCtrl s) (stale_buf E) (stale_pked E) mid i Rcv))"

definition send_EmptyRST :: "'m env \<Rightarrow> u32 \<Rightarrow> 'm stack \<Rightarrow> u16 \<Rightarrow> u8 \<Rightarrow> NetEp_t
    \<Rightarrow> (CoAP_Result_t \<times> 'm stack) option" where
  "send_EmptyRST E now s mid i Rcv =
     map_option (\<lambda>(r, _, s'). (r, s'))
       (on_stack i s (CoAP_SendEmptyRST (ops E) (mem s) now (SocketCtrl s) (stale_buf E) (stale_pked E) mid i Rcv))"

definition send_ShortResp :: "'m env \<Rightarrow> u32 \<Rightarrow> 'm stack \<Rightarrow> CoAP_MessageType_t \<Rightarrow> u8 \<Rightarrow> u16 \<Rightarrow> u64 \<Rightarrow> u8 \<Rightarrow> NetEp_t
    \<Rightarrow> (CoAP_Result_t \<times> 'm stack) option" where
  "send_ShortResp E now s ty code mid token i Rcv =
     map_option (\<lambda>(r, _, s'). (r, s'))
       (on_stack i s (CoAP_SendShortResp (ops E) (mem s) now (SocketCtrl s) (stale_buf E) (stale_pked E)
          ty code mid token i Rcv))"

definition next_mid :: "'m stack \<Rightarrow> u16 \<times> 'm stack" where
  "next_mid s = (let (mid, MId') = CoAP_GetNextMid (MId s) in (mid, s\<lparr>MId := MId'\<rparr>))"

definition free_msg :: "'m env \<Rightarrow> 'm stack \<Rightarrow> CoAP_Message_t option \<Rightarrow> 'm stack" where
  "free_msg E s Msg = (let (_, _, m') = CoAP_free_Message (ops E) (mem s) Msg in s\<lparr>mem := m'\<rparr>)"

section \<open>Client\<close>

definition CoAP_StartNewClientInteraction :: "'m env \<Rightarrow> 'm stack \<Rightarrow> CoAP_Message_t option \<Rightarrow> u8 \<Rightarrow> NetEp_t \<Rightarrow> nat option
    \<Rightarrow> CoAP_Result_t \<times> 'm stack" where
  "CoAP_StartNewClientInteraction E s pMsgReq i ServerEp cb =
     (case pMsgReq of
        None \<Rightarrow> (COAP_ERR_ARGUMENT, s)
      | Some req \<Rightarrow>
          if CoAP_MsgIsRequest req = False then (COAP_ERR_ARGUMENT, s)
          else
            (case CoAP_AllocNewInteraction E s of
               (None, s1) \<Rightarrow> (COAP_ERR_OUT_OF_MEMORY, s1)
             | (Some newIA, s1) \<Rightarrow>
                 let newIA = newIA\<lparr>pReqMsg := Some req, ia_ifID := i,
                       RemoteEp := CopyEndpoints (RemoteEp newIA) ServerEp, RespCB := cb,
                       Role := COAP_ROLE_CLIENT, State := COAP_STATE_READY_TO_REQUEST\<rparr>
                 in (COAP_OK, s1\<lparr>pInteractions := snd (CoAP_AppendInteractionToList (pInteractions s1) (Some newIA))\<rparr>)))"

text \<open>The message id and the token are arguments of the call of \<open>CoAP_CreateMessage\<close>: both
  counters advance whether or not the allocation succeeds.\<close>

definition CoAP_StartNewGetRequest :: "'m env \<Rightarrow> 'm stack \<Rightarrow> u8 list option \<Rightarrow> u8 \<Rightarrow> NetEp_t \<Rightarrow> nat option
    \<Rightarrow> CoAP_Result_t \<times> 'm stack" where
  "CoAP_StartNewGetRequest E s UriString i ServerEp cb =
     (let (mid, MId') = CoAP_GetNextMid (MId s);
          (token, TokenCtr') = CoAP_GenerateToken (TokenCtr s);
          (msg, m1) = CoAP_CreateMessage (ops E) (mem s) CON REQ_GET mid None 0 0 token;
          s1 = s\<lparr>mem := m1, MId := MId', TokenCtr := TokenCtr'\<rparr>
      in case msg of
           None \<Rightarrow> (COAP_ERR_OUT_OF_MEMORY, s1)
         | Some M \<Rightarrow>
             let (_, L, m2) = CoAP_AppendUriOptionsFromString (ops E) m1 (pOptionsList M) UriString
             in CoAP_StartNewClientInteraction E (s1\<lparr>mem := m2\<rparr>) (Some (M\<lparr>pOptionsList := L\<rparr>)) i ServerEp cb)"

section \<open>Server\<close>

text \<open>The duplicate of a request in the interaction list. A server interaction without request
  message would be dereferenced (outer \<open>None\<close>).\<close>

fun find_duplicate :: "CoAP_Interaction_t list \<Rightarrow> u16 \<Rightarrow> u8 \<Rightarrow> NetEp_t
    \<Rightarrow> (CoAP_Interaction_t \<times> CoAP_Message_t) option option" where
  "find_duplicate [] mid i ep = Some None"
| "find_duplicate (pIA # next) mid i ep =
     (if Role pIA = COAP_ROLE_SERVER \<and> ia_ifID pIA = i then
        (case pReqMsg pIA of
           None \<Rightarrow> None
         | Some req \<Rightarrow>
             if MessageID req = mid \<and> ep_eq (RemoteEp pIA) ep then Some (Some (pIA, req))
             else find_duplicate next mid i ep)
      else find_duplicate next mid i ep)"

definition CoAP_StartNewServerInteraction :: "'m env \<Rightarrow> u32 \<Rightarrow> 'm stack \<Rightarrow> CoAP_Message_t \<Rightarrow> nat option \<Rightarrow> u8 \<Rightarrow> NetPacket_t
    \<Rightarrow> (CoAP_Result_t \<times> 'm stack) option" where
  "CoAP_StartNewServerInteraction E now s pMsgReq res i pRawPckt =
     (if \<not> CoAP_MsgIsRequest pMsgReq then Some (COAP_ERR_ARGUMENT, s)
      else
        let pReqEp = Sender pRawPckt in
        (case find_duplicate (pInteractions s) (MessageID pMsgReq) i pReqEp of
           None \<Rightarrow> None
         | Some (Some (pIA, req)) \<Rightarrow>
             if Type req = CON \<and> State pIA = COAP_STATE_RESOURCE_POSTPONE_EMPTY_ACK_SENT then
               (case send_EmptyAck E now s (MessageID req) (ia_ifID pIA) (RemoteEp pIA) of
                  None \<Rightarrow> None
                | Some (_, s') \<Rightarrow> Some (COAP_ERR_EXISTING, s'))
             else Some (COAP_ERR_EXISTING, s)
         | Some None \<Rightarrow>
             (case CoAP_AllocNewInteraction E s of
                (None, s1) \<Rightarrow> Some (COAP_ERR_OUT_OF_MEMORY, s1)
              | (Some newIA, s1) \<Rightarrow>
                  let newIA = newIA\<lparr>ia_ifID := i, RespReliabilityState := NOT_SET, RespCB := None, pRes := res,
                        Role := COAP_ROLE_SERVER, State := COAP_STATE_HANDLE_REQUEST,
                        ReqMetaInfo := MetaInfo pRawPckt, ReqReliabilityState := NOT_SET,
                        pReqMsg := Some pMsgReq, RemoteEp := CopyEndpoints (RemoteEp newIA) pReqEp\<rparr>
                  in Some (COAP_OK, s1\<lparr>pInteractions :=
                       snd (CoAP_AppendInteractionToList (pInteractions s1) (Some newIA))\<rparr>))))"

section \<open>Observers of a resource of the stack\<close>

definition get_res :: "'m stack \<Rightarrow> nat option \<Rightarrow> CoAP_Res_t option" where
  "get_res s r = (case r of None \<Rightarrow> None | Some k \<Rightarrow> if k < length (pResList s) then Some (pResList s ! k) else None)"

definition put_observers :: "'m stack \<Rightarrow> nat \<Rightarrow> CoAP_Observer_t list \<Rightarrow> 'm stack" where
  "put_observers s k obs = s\<lparr>pResList := (pResList s)[k := (pResList s ! k)\<lparr>pListObservers := obs\<rparr>]\<rparr>"

definition CoAP_RemoveInteractionsObserver :: "'m env \<Rightarrow> 'm stack \<Rightarrow> CoAP_Interaction_t \<Rightarrow> u64
    \<Rightarrow> (CoAP_Result_t \<times> 'm stack) option" where
  "CoAP_RemoveInteractionsObserver E s pIA token =
     (case (pRes pIA, get_res s (pRes pIA)) of
        (Some k, Some R) \<Rightarrow>
          let (r, obs, m') = CoAP_RemoveObserverFromResource (ops E) (mem s) (pListObservers R)
                               (ia_ifID pIA) (RemoteEp pIA) token
          in Some (r, put_observers (s\<lparr>mem := m'\<rparr>) k obs)
      | _ \<Rightarrow> None)"

section \<open>Notifications\<close>

definition handler_code :: "CoAP_HandlerResult_t \<Rightarrow> int" where
  "handler_code r = (case r of HANDLER_OK \<Rightarrow> 0 | HANDLER_POSTPONE \<Rightarrow> 1 | HANDLER_ERROR \<Rightarrow> 2)"

text \<open>The pending notification of resource \<open>k\<close> to an observer is marked for update. Returns
  whether there is one (\<open>SameNotificationOngoing\<close>).\<close>

fun mark_pending :: "nat \<Rightarrow> CoAP_Observer_t \<Rightarrow> CoAP_Interaction_t list \<Rightarrow> bool \<times> CoAP_Interaction_t list" where
  "mark_pending k ob [] = (False, [])"
| "mark_pending k ob (pIA # next) =
     (if Role pIA = COAP_ROLE_NOTIFICATION \<and> pRes pIA = Some k \<and> ia_ifID pIA = IfID ob \<and> ep_eq (RemoteEp pIA) (Ep ob)
      then (True, pIA\<lparr>UpdatePendingNotification := True\<rparr> # next)
      else let (b, next') = mark_pending k ob next in (b, pIA # next'))"

text \<open>One turn of the loop over the observers of resource \<open>k\<close>, for an observer without pending
  notification. When the notifier answers with an error code the observer is removed and the loop
  goes on; the new interaction and its message are not released there.\<close>

definition notify_observer :: "'m env \<Rightarrow> 'm stack \<Rightarrow> nat \<Rightarrow> CoAP_Res_t \<Rightarrow> CoAP_Observer_t
    \<Rightarrow> (CoAP_Result_t \<times> 'm stack) option" where
  "notify_observer E s k R ob =
     (case CoAP_AllocNewInteraction E s of
        (None, s1) \<Rightarrow> Some (COAP_ERR_OUT_OF_MEMORY, s1)
      | (Some newIA, s1) \<Rightarrow>
          let (mid, s2) = next_mid s1;
              (msg, m3) = CoAP_CreateMessage (ops E) (mem s2) CON RESP_SUCCESS_CONTENT_2_05 mid None 0
                            PREFERED_PAYLOAD_SIZE (Token ob);
              s3 = s2\<lparr>mem := m3\<rparr>;
              newIA = newIA\<lparr>pRespMsg := msg\<rparr>
          in (case (msg, Notifier R) of
                (Some M, Some fn) \<Rightarrow>
                  (case user_notifier E fn (mem s3) ob M of
                     None \<Rightarrow> None
                   | Some (res, M1, m4) \<Rightarrow>
                       let s4 = s3\<lparr>mem := m4\<rparr> in
                       if handler_code res = 0 then
                         let newIA = newIA\<lparr>pRespMsg := Some M1, Role := COAP_ROLE_NOTIFICATION,
                               State := COAP_STATE_READY_TO_NOTIFY, RemoteEp := Ep ob, ia_ifID := IfID ob,
                               pRes := Some k, pObserver := ob_at ob\<rparr>
                         in if Code M1 \<ge> RESP_ERROR_BAD_REQUEST_4_00 then
                              CoAP_RemoveInteractionsObserver E s4 newIA (Token64 M1)
                            else
                              let (_, M2, m5) = AddObserveOptionToMsg (ops E) (mem s4) M1 (UpdateCnt R);
                                  M3 = (if Type M2 = NON \<and> UpdateCnt R mod 20 = 0 then M2\<lparr>Type := CON\<rparr> else M2);
                                  newIA = newIA\<lparr>pRespMsg := Some M3\<rparr>
                              in Some (COAP_OK, s4\<lparr>mem := m5, pInteractions :=
                                   snd (CoAP_AppendInteractionToList (pInteractions s4) (Some newIA))\<rparr>)
                       else Some (COAP_OK, CoAP_FreeInteraction E s4 (newIA\<lparr>pRespMsg := Some M1\<rparr>)))
              | _ \<Rightarrow> Some (COAP_OK, CoAP_FreeInteraction E s3 newIA)))"

text \<open>The observers that are still to be visited: the loop has already loaded the pointer to the
  next one when an observer is removed, so it must not be the removed one (\<open>None\<close>).\<close>

definition next_observers :: "'m stack \<Rightarrow> nat \<Rightarrow> CoAP_Observer_t list \<Rightarrow> CoAP_Observer_t list option" where
  "next_observers s k rest =
     (let live = (\<lambda>ob. ob_at ob \<in> set (map ob_at (pListObservers (pResList s ! k)))) in
      if rest = [] \<or> live (hd rest) then Some (filter live rest) else None)"

function notify_loop :: "'m env \<Rightarrow> 'm stack \<Rightarrow> nat \<Rightarrow> CoAP_Observer_t list \<Rightarrow> (CoAP_Result_t \<times> 'm stack) option" where
  "notify_loop E s k [] = Some (COAP_OK, s)"
| "notify_loop E s k (ob # rest) =
     (case mark_pending k ob (pInteractions s) of
        (True, L) \<Rightarrow> notify_loop E (s\<lparr>pInteractions := L\<rparr>) k rest
      | (False, _) \<Rightarrow>
          (case notify_observer E s k (pResList s ! k) ob of
             None \<Rightarrow> None
           | Some (r, s1) \<Rightarrow>
               if r = COAP_ERR_OUT_OF_MEMORY then Some (r, s1)
               else (case next_observers s1 k rest of
                       None \<Rightarrow> None
                     | Some rest' \<Rightarrow> notify_loop E s1 k rest')))"
  by pat_completeness auto
termination
  by (relation "measure (\<lambda>(E, s, k, obs). length obs)")
    (auto simp: next_observers_def Let_def less_Suc_eq_le length_filter_le split: if_splits)

declare notify_loop.simps [simp del]

definition CoAP_StartNotifyInteractions :: "'m env \<Rightarrow> 'm stack \<Rightarrow> nat \<Rightarrow> (CoAP_Result_t \<times> 'm stack) option" where
  "CoAP_StartNotifyInteractions E s k =
     (case get_res s (Some k) of None \<Rightarrow> None | Some R \<Rightarrow> notify_loop E s k (pListObservers R))"

definition CoAP_NotifyResourceObservers :: "'m env \<Rightarrow> 'm stack \<Rightarrow> nat \<Rightarrow> (CoAP_Result_t \<times> 'm stack) option" where
  "CoAP_NotifyResourceObservers E s k =
     (case get_res s (Some k) of
        None \<Rightarrow> None
      | Some R \<Rightarrow>
          let s1 = s\<lparr>pResList := (pResList s)[k := R\<lparr>UpdateCnt := UpdateCnt R + 1\<rparr>]\<rparr>
          in map_option (\<lambda>(_, s2). (COAP_OK, s2)) (CoAP_StartNotifyInteractions E s1 k))"

section \<open>Observe requests\<close>

text \<open>Copy of the Uri-Query and Observe options of the request. On failure the list built so far
  is returned with the result.\<close>

fun copy_obs_options :: "'m mem_ops \<Rightarrow> 'm \<Rightarrow> CoAP_option_t list \<Rightarrow> CoAP_option_t list
    \<Rightarrow> bool \<times> CoAP_option_t list \<times> 'm" where
  "copy_obs_options A m L [] = (True, L, m)"
| "copy_obs_options A m L (pOption # next) =
     (if Number pOption = OPT_NUM_URI_QUERY \<or> Number pOption = OPT_NUM_OBSERVE then
        (case CoAP_AppendOptionToList A m L (Number pOption) (Value pOption) (Length pOption) of
           (r, L', m') \<Rightarrow> if r \<noteq> COAP_OK then (False, L', m') else copy_obs_options A m' L' next)
      else copy_obs_options A m L next)"

text \<open>The first pending notification with the token of the request. A notification without
  response message would be dereferenced (outer \<open>None\<close>).\<close>

fun find_pending :: "CoAP_Interaction_t list \<Rightarrow> u64 \<Rightarrow> u8 \<Rightarrow> NetEp_t \<Rightarrow> CoAP_Interaction_t option option" where
  "find_pending [] token i ep = Some None"
| "find_pending (pIA # next) token i ep =
     (if Role pIA = COAP_ROLE_NOTIFICATION then
        (case pRespMsg pIA of
           None \<Rightarrow> None
         | Some M \<Rightarrow>
             if Token64 M = token \<and> ia_ifID pIA = i \<and> ep_eq (RemoteEp pIA) ep then Some (Some pIA)
             else find_pending next token i ep)
      else find_pending next token i ep)"

definition register_observer :: "'m env \<Rightarrow> 'm stack \<Rightarrow> nat \<Rightarrow> CoAP_Res_t \<Rightarrow> CoAP_Interaction_t \<Rightarrow> CoAP_Message_t
    \<Rightarrow> CoAP_Result_t \<times> 'm stack" where
  "register_observer E s k R pIA req =
     (case CoAP_AllocNewObserver (ops E) (mem s) of
        (None, m1) \<Rightarrow> (COAP_ERR_OUT_OF_MEMORY, s\<lparr>mem := m1\<rparr>)
      | (Some ob, m1) \<Rightarrow>
          let ob = ob\<lparr>Ep := RemoteEp pIA, IfID := ia_ifID pIA, Token := Token64 req\<rparr>;
              (ok, L, m2) = copy_obs_options (ops E) m1 (pOptList ob) (pOptionsList req);
              ob = ob\<lparr>pOptList := L\<rparr>
          in if \<not> ok then (COAP_ERR_OUT_OF_MEMORY, s\<lparr>mem := snd (CoAP_FreeObserver (ops E) m2 ob)\<rparr>)
             else
               let (obs, m3) =
                     (case find_observer (pListObservers R) (ia_ifID pIA) (RemoteEp pIA) (Token64 req) of
                        Some old \<Rightarrow>
                          let (_, obs, m') = CoAP_UnlinkObserverFromList (ops E) m2 (pListObservers R) (ob_at old) True
                          in (obs, m')
                      | None \<Rightarrow> (pListObservers R, m2));
                   (r, obs') = CoAP_AppendObserverToList obs (Some ob)
               in (r, put_observers (s\<lparr>mem := m3\<rparr>) k obs'))"

definition CoAP_HandleObservationInReq :: "'m env \<Rightarrow> 'm stack \<Rightarrow> CoAP_Interaction_t
    \<Rightarrow> (CoAP_Result_t \<times> 'm stack) option" where
  "CoAP_HandleObservationInReq E s pIA =
     (case (pRes pIA, get_res s (pRes pIA)) of
        (Some k, Some R) \<Rightarrow>
          if Notifier R = None then Some (COAP_ERR_NOT_FOUND, s)
          else (case pReqMsg pIA of
                  None \<Rightarrow> Some (COAP_ERR_ARGUMENT, s)
                | Some req \<Rightarrow>
                    let (res, obsVal) = GetObserveOptionFromMsg req in
                    if res \<noteq> COAP_OK then Some (res, s)
                    else if obsVal = OBSERVE_OPT_REGISTER then Some (register_observer E s k R pIA req)
                    else if obsVal = OBSERVE_OPT_DEREGISTER then
                      do {
                        (_, s1) \<leftarrow> CoAP_RemoveInteractionsObserver E s pIA (Token64 req);
                        pending \<leftarrow> find_pending (pInteractions s1) (Token64 req) (ia_ifID pIA) (RemoteEp pIA);
                        Some (COAP_ERR_NOT_FOUND,
                          case pending of None \<Rightarrow> s1 | Some ia \<Rightarrow> snd (CoAP_DeleteInteraction E s1 (ia_at ia)))
                      }
                    else Some (COAP_BAD_OPTION_VAL, s))
      | _ \<Rightarrow> None)"

end
