(* ===== verification/Stack.thy ===== *)
theory Stack
  imports Exchange
begin

text \<open>
  The stack: \<open>coap_main.c\<close> with the reception of packets and the work loop, and the receive
  functions of \<open>go_adapter.c\<close>. \<open>CoAP_doWork\<close> takes the first interaction of the list, makes one
  step of its state machine and moves it to the end of the list, keeps it first, or deletes it.
\<close>

definition HOLDTIME_AFTER_NON_TRANSACTION_END :: u32 where [simp]: "HOLDTIME_AFTER_NON_TRANSACTION_END = 0"
definition POSTPONE_WAIT_TIME_SEK :: u32 where [simp]: "POSTPONE_WAIT_TIME_SEK = 3"
definition POSTPONE_MAX_WAIT_TIME :: u32 where [simp]: "POSTPONE_MAX_WAIT_TIME = 30"
definition CLIENT_MAX_RESP_WAIT_TIME :: u32 where [simp]: "CLIENT_MAX_RESP_WAIT_TIME = 45"
definition MAX_RETRANSMIT :: int where [simp]: "MAX_RETRANSMIT = 4"

section \<open>Initialisation\<close>

text \<open>\<open>coap_mem_init\<close> belongs to the allocator; its effect is the argument \<open>init\<close>.\<close>

definition CoAP_Init :: "'m env \<Rightarrow> ('m \<Rightarrow> ptr \<Rightarrow> int \<Rightarrow> 'm) \<Rightarrow> 'm stack \<Rightarrow> ptr \<Rightarrow> int \<Rightarrow> (CoAP_Result_t \<times> 'm stack) option" where
  "CoAP_Init E init s pMemory MemorySize =
     (case CoAP_InitResources (ops E) (init (mem s) pMemory MemorySize) (pResList s) (ResListMembers s) of
        None \<Rightarrow> None
      | Some (_, L, n, m') \<Rightarrow> Some (COAP_OK, s\<lparr>mem := m', pResList := L, ResListMembers := n\<rparr>))"

text \<open>The static initialisation of the stack variables.\<close>

definition stack0 :: "'m \<Rightarrow> NetSocketCtrl_t \<Rightarrow> 'm stack" where
  "stack0 m S = \<lparr>mem = m, MId = 0, TokenCtr = 0xfa, pInteractions = [], pResList = [], ResListMembers = 0,
     SocketCtrl = S, Outbox = [], Delivered = []\<rparr>"

section \<open>Reception\<close>

text \<open>A separate response to one of our requests: the interactions with a client role are
  searched for the token; \<open>None\<close> if one has no request.\<close>

fun find_client :: "CoAP_Interaction_t list \<Rightarrow> u64 \<Rightarrow> NetEp_t \<Rightarrow> CoAP_Interaction_t option option" where
  "find_client [] token ep = Some None"
| "find_client (pIA # next) token ep =
     (if Role pIA = COAP_ROLE_CLIENT then
        (case pReqMsg pIA of
           None \<Rightarrow> None
         | Some req \<Rightarrow>
             if Token64 req = token \<and> ep_eq ep (RemoteEp pIA) then Some (Some pIA)
             else find_client next token ep)
      else find_client next token ep)"

text \<open>Attach a response to a client interaction, replacing an older one.\<close>

definition attach_response :: "'m env \<Rightarrow> 'm stack \<Rightarrow> CoAP_Interaction_t \<Rightarrow> CoAP_Message_t \<Rightarrow> CoAP_Interaction_t \<times> 'm stack" where
  "attach_response E s pIA pMsg =
     (let s1 = (if pRespMsg pIA \<noteq> None then free_msg E s (pRespMsg pIA) else s);
          ia = pIA\<lparr>pRespMsg := Some pMsg, State := COAP_STATE_HANDLE_RESPONSE\<rparr>
      in (ia, put_ia s1 ia))"

definition handle_separate_response :: "'m env \<Rightarrow> u32 \<Rightarrow> 'm stack \<Rightarrow> u8 \<Rightarrow> NetEp_t \<Rightarrow> CoAP_Message_t \<Rightarrow> 'm stack option" where
  "handle_separate_response E now s i sender pMsg =
     do {
       found \<leftarrow> find_client (pInteractions s) (Token64 pMsg) sender;
       case found of
         Some pIA \<Rightarrow>
           (let (ia, s1) =
                  (if State pIA = COAP_STATE_WAITING_RESPONSE \<or> State pIA = COAP_STATE_HANDLE_RESPONSE
                   then attach_response E s pIA pMsg else (pIA, s))
            in if Type pMsg = CON then
                 do {
                   (r, s2) \<leftarrow> send_ShortResp E now s1 ACK EMPTY (MessageID pMsg) (Token64 pMsg) i sender;
                   Some (if r = COAP_OK then put_ia s2 (ia\<lparr>RespReliabilityState := ACK_SET\<rparr>) else s2)
                 }
               else Some s1)
       | None \<Rightarrow>
           do {
             (_, s1) \<leftarrow> send_ShortResp E now s RST EMPTY (MessageID pMsg) (Token64 pMsg) i sender;
             Some (free_msg E s1 (Some pMsg))
           }
     }"

definition handle_piggyback :: "'m env \<Rightarrow> 'm stack \<Rightarrow> u8 \<Rightarrow> NetEp_t \<Rightarrow> CoAP_Message_t \<Rightarrow> 'm stack option" where
  "handle_piggyback E s i sender pMsg =
     (case CoAP_ApplyReliabilityStateToInteraction s ACK_SET (MessageID pMsg) i sender of
        (None, s1) \<Rightarrow> Some (free_msg E s1 (Some pMsg))
      | (Some pIA, s1) \<Rightarrow>
          if Code pMsg \<noteq> EMPTY \<and> Role pIA = COAP_ROLE_CLIENT then
            (case pReqMsg pIA of
               None \<Rightarrow> None
             | Some req \<Rightarrow>
                 if Token64 req = Token64 pMsg \<and> State pIA = COAP_STATE_WAITING_RESPONSE
                 then Some (snd (attach_response E s1 pIA pMsg))
                 else Some (free_msg E s1 (Some pMsg)))
          else Some (free_msg E s1 (Some pMsg)))"

definition handle_new_request :: "'m env \<Rightarrow> u32 \<Rightarrow> 'm stack \<Rightarrow> u8 \<Rightarrow> NetPacket_t \<Rightarrow> CoAP_Message_t \<Rightarrow> nat option \<Rightarrow> 'm stack option" where
  "handle_new_request E now s i pckt pMsg res =
     do {
       (r, s1) \<leftarrow> CoAP_StartNewServerInteraction E now s pMsg res i pckt;
       if r = COAP_OK then Some s1
       else if r = COAP_ERR_EXISTING then Some (free_msg E s1 (Some pMsg))
       else if r = COAP_ERR_OUT_OF_MEMORY then
         do {
           s2 \<leftarrow> (if Type pMsg = CON then
                    map_option snd (send_ShortResp E now s1 ACK RESP_INTERNAL_SERVER_ERROR_5_00
                      (MessageID pMsg) (Token64 pMsg) i (Sender pckt))
                  else Some s1);
           Some (free_msg E s2 (Some pMsg))
         }
       else Some (free_msg E s1 (Some pMsg))
     }"

text \<open>The handler behind the parser. \<open>free_msg\<close> of the parsed message is the label \<open>END\<close>.\<close>

definition unknown_resource :: "'m env \<Rightarrow> u32 \<Rightarrow> 'm stack \<Rightarrow> u8 \<Rightarrow> NetEp_t \<Rightarrow> CoAP_Message_t \<Rightarrow> 'm stack option" where
  "unknown_resource E now s i sender pMsg =
     do {
       s1 \<leftarrow> (if Type pMsg = CON then
                map_option snd (send_ShortResp E now s ACK RESP_NOT_FOUND_4_04 (MessageID pMsg) (Token64 pMsg) i sender)
              else
                let (mid, s') = next_mid s
                in map_option snd (send_ShortResp E now s' NON RESP_NOT_FOUND_4_04 mid (Token64 pMsg) i sender));
       Some (free_msg E s1 (Some pMsg))
     }"

definition bad_option :: "'m env \<Rightarrow> u32 \<Rightarrow> 'm stack \<Rightarrow> u8 \<Rightarrow> NetEp_t \<Rightarrow> CoAP_Message_t \<Rightarrow> 'm stack option" where
  "bad_option E now s i sender pMsg =
     do {
       s1 \<leftarrow> (if Type pMsg = CON then
                (if CoAP_MsgIsRequest pMsg
                 then map_option snd (send_ShortResp E now s ACK RESP_BAD_OPTION_4_02 (MessageID pMsg) (Token64 pMsg) i sender)
                 else map_option snd (send_EmptyRST E now s (MessageID pMsg) i sender))
              else Some s);
       Some (free_msg E s1 (Some pMsg))
     }"

definition dispatch :: "'m env \<Rightarrow> u32 \<Rightarrow> 'm stack \<Rightarrow> u8 \<Rightarrow> NetPacket_t \<Rightarrow> CoAP_Message_t \<Rightarrow> 'm stack option" where
  "dispatch E now s i pckt pMsg =
     (let isRequest = CoAP_MsgIsRequest pMsg; sender = Sender pckt in
      if Type pMsg = CON \<and> Code pMsg = EMPTY then
        map_option (\<lambda>(_, s1). free_msg E s1 (Some pMsg)) (send_EmptyRST E now s (MessageID pMsg) i sender)
      else if Type pMsg = ACK \<and> isRequest then Some (free_msg E s (Some pMsg))
      else if Type pMsg = RST \<and> Code pMsg \<noteq> EMPTY then Some (free_msg E s (Some pMsg))
      else
        let res = (if isRequest then CoAP_FindResourceByUri (pResList s) (pOptionsList pMsg) else None) in
        if isRequest \<and> (case get_res s res of None \<Rightarrow> True | Some R \<Rightarrow> Handler R = None) then
          unknown_resource E now s i sender pMsg
        else if CoAP_CheckForUnknownCriticalOption (pOptionsList pMsg) \<noteq> 0 then bad_option E now s i sender pMsg
        else
          (case Type pMsg of
             RST \<Rightarrow>
               let (_, s1) = CoAP_ApplyReliabilityStateToInteraction s RST_SET (MessageID pMsg) i sender
               in Some (free_msg E s1 (Some pMsg))
           | ACK \<Rightarrow> handle_piggyback E s i sender pMsg
           | _ \<Rightarrow>
               if isRequest then handle_new_request E now s i pckt pMsg res
               else handle_separate_response E now s i sender pMsg))"

text \<open>Behind the bytes of the packet lies other memory (\<open>stale_buf\<close>).\<close>

definition CoAP_onNewPacketHandler :: "'m env \<Rightarrow> u32 \<Rightarrow> 'm stack \<Rightarrow> u8 \<Rightarrow> NetPacket_t \<Rightarrow> 'm stack option" where
  "CoAP_onNewPacketHandler E now s i pckt =
     (if receiveBlocked E then Some s
      else
        case CoAP_ParseMessageFromDatagram (ops E) (mem s) now (write_at (stale_buf E) 0 (pData pckt)) (pk_size pckt) of
          None \<Rightarrow> None
        | Some (res, pMsg, m1) \<Rightarrow>
            let s1 = s\<lparr>mem := m1\<rparr> in
            if res = COAP_OK then
              (case pMsg of None \<Rightarrow> None | Some M \<Rightarrow> dispatch E now s1 i pckt M)
            else Some s1)"

text \<open>The receive functions of the adapter. The callback pointer of the socket is called
  unchecked; the sender address is not set by the first function (\<open>stale_pked\<close>).\<close>

definition deliver :: "'m env \<Rightarrow> u32 \<Rightarrow> 'm stack \<Rightarrow> NetSocket_t \<Rightarrow> NetPacket_t \<Rightarrow> 'm stack option" where
  "deliver E now s pSocket Packet =
     (case RxCB pSocket of
        RxCB_NULL \<Rightarrow> None
      | RxCB_CoAP_onNewPacketHandler \<Rightarrow> CoAP_onNewPacketHandler E now s (ifID pSocket) Packet)"

definition CoAP_ReceivedPacket :: "'m env \<Rightarrow> u32 \<Rightarrow> 'm stack \<Rightarrow> u8 \<Rightarrow> u8 list \<Rightarrow> u16 \<Rightarrow> 'm stack option" where
  "CoAP_ReceivedPacket E now s fromIfID data len =
     (case RetrieveSocket2 (SocketCtrl s) fromIfID of
        None \<Rightarrow> Some s
      | Some k \<Rightarrow>
          let pSocket = SocketMemory (SocketCtrl s) ! k;
              P = stale_pked E
          in deliver E now s pSocket
               (P\<lparr>pData := data, pk_size := len,
                  Sender := (Sender P)\<lparr>NetPort := 5683, NetType := IPV4\<rparr>,
                  Receiver := (Receiver P)\<lparr>NetPort := NetPort (EpLocal pSocket), NetType := IPV4\<rparr>,
                  MetaInfo := META_INFO_NONE\<rparr>))"

definition CoAP_ReceivedUdp4Packet :: "'m env \<Rightarrow> u32 \<Rightarrow> 'm stack \<Rightarrow> u8 \<Rightarrow> u8 list \<Rightarrow> u16 \<Rightarrow> u8 list \<Rightarrow> u16 \<Rightarrow> 'm stack option" where
  "CoAP_ReceivedUdp4Packet E now s fromIfID remoteIp remotePort data len =
     (case RetrieveSocket2 (SocketCtrl s) fromIfID of
        None \<Rightarrow> Some s
      | Some k \<Rightarrow>
          let pSocket = SocketMemory (SocketCtrl s) ! k
          in deliver E now s pSocket
               \<lparr>pData = data, pk_size = len,
                Sender = \<lparr>NetType = IPV4, NetAddr = remoteIp, NetPort = remotePort\<rparr>,
                Receiver = \<lparr>NetType = IPV4, NetAddr = NetAddr (EpLocal pSocket), NetPort = NetPort (EpLocal pSocket)\<rparr>,
                MetaInfo = META_INFO_NONE\<rparr>)"

section \<open>Sending and checking\<close>

definition SendResp :: "'m env \<Rightarrow> u32 \<Rightarrow> 'm stack \<Rightarrow> CoAP_Interaction_t \<Rightarrow> CoAP_InteractionState_t
    \<Rightarrow> (CoAP_Result_t \<times> 'm stack) option" where
  "SendResp E now s pIA nextIAState =
     do {
       resp \<leftarrow> pRespMsg pIA;
       (r, resp', s1) \<leftarrow> send E now s resp (ia_ifID pIA) (RemoteEp pIA);
       let ia = pIA\<lparr>pRespMsg := Some resp'\<rparr>;
       if r = COAP_OK then
         (let ia1 = (if Type resp' = ACK then ia\<lparr>ReqReliabilityState := ACK_SET\<rparr>
                     else if Type resp' = CON then CoAP_EnableAckTimeout now ia (RetransCounter ia) else ia);
              ia2 = ia1\<lparr>State := nextIAState\<rparr>
          in Some (COAP_OK, CoAP_EnqueueLastInteraction s1 ia2))
       else if pReqMsg ia = None then None
       else Some (COAP_ERR_SOCKET, snd (CoAP_DeleteInteraction E (put_ia s1 ia) (ia_at ia)))
     }"

definition SendReq :: "'m env \<Rightarrow> u32 \<Rightarrow> 'm stack \<Rightarrow> CoAP_Interaction_t \<Rightarrow> CoAP_InteractionState_t
    \<Rightarrow> (CoAP_Result_t \<times> 'm stack) option" where
  "SendReq E now s pIA nextIAState =
     do {
       req \<leftarrow> pReqMsg pIA;
       (r, req', s1) \<leftarrow> send E now s req (ia_ifID pIA) (RemoteEp pIA);
       let ia = pIA\<lparr>pReqMsg := Some req'\<rparr>;
       if r = COAP_OK then
         (let ia1 = (if Type req' = CON then CoAP_EnableAckTimeout now ia (RetransCounter ia) else ia);
              ia2 = ia1\<lparr>State := nextIAState\<rparr>
          in Some (COAP_OK, CoAP_EnqueueLastInteraction s1 ia2))
       else Some (COAP_ERR_SOCKET, snd (CoAP_DeleteInteraction E (put_ia s1 ia) (ia_at ia)))
     }"

definition CheckRespStatus :: "u32 \<Rightarrow> CoAP_Interaction_t \<Rightarrow> CoAP_Result_t option" where
  "CheckRespStatus now pIA =
     (if RespReliabilityState pIA = RST_SET then Some COAP_ERR_REMOTE_RST
      else case pRespMsg pIA of
        None \<Rightarrow> None
      | Some resp \<Rightarrow>
          Some (if Type resp = NON \<or> Type resp = ACK then
                  (if CoAP_MsgIsOlderThan now resp HOLDTIME_AFTER_NON_TRANSACTION_END then COAP_OK
                   else COAP_HOLDING_BACK)
                else if Type resp = CON then
                  (if RespReliabilityState pIA = ACK_SET then COAP_OK
                   else if now > AckTimeout pIA then
                     (if uint (RetransCounter pIA) + 1 > MAX_RETRANSMIT then COAP_ERR_OUT_OF_ATTEMPTS
                      else COAP_RETRY)
                   else COAP_WAITING)
                else COAP_ERR_ARGUMENT))"

definition CheckReqStatus :: "u32 \<Rightarrow> CoAP_Interaction_t \<Rightarrow> CoAP_Result_t option" where
  "CheckReqStatus now pIA =
     (if ReqReliabilityState pIA = RST_SET then Some COAP_ERR_REMOTE_RST
      else case pReqMsg pIA of
        None \<Rightarrow> None
      | Some req \<Rightarrow>
          Some (if Type req = CON then
                  (if ReqReliabilityState pIA = ACK_SET then
                     (if CoAP_MsgIsOlderThan now req CLIENT_MAX_RESP_WAIT_TIME then COAP_ERR_TIMEOUT
                      else COAP_WAITING)
                   else if now > AckTimeout pIA then
                     (if uint (RetransCounter pIA) + 1 > MAX_RETRANSMIT then COAP_ERR_OUT_OF_ATTEMPTS
                      else COAP_RETRY)
                   else COAP_WAITING)
                else if CoAP_MsgIsOlderThan now req CLIENT_MAX_RESP_WAIT_TIME then COAP_ERR_TIMEOUT
                else COAP_WAITING))"

section \<open>The work loop: server\<close>

text \<open>The method of the request against the flags of the resource.\<close>

definition method_not_allowed :: "CoAP_Message_t \<Rightarrow> CoAP_Res_t \<Rightarrow> bool" where
  "method_not_allowed req R \<longleftrightarrow>
     (let Fl = Flags (Options R) in
      Code req = REQ_GET \<and> Fl AND RES_OPT_GET = 0 \<or> Code req = REQ_POST \<and> Fl AND RES_OPT_POST = 0 \<or>
      Code req = REQ_PUT \<and> Fl AND RES_OPT_PUT = 0 \<or> Code req = REQ_DELETE \<and> Fl AND RES_OPT_DELETE = 0)"

definition call_handler :: "'m env \<Rightarrow> 'm stack \<Rightarrow> handler_fn \<Rightarrow> CoAP_Message_t \<Rightarrow> CoAP_Message_t option
    \<Rightarrow> (CoAP_HandlerResult_t \<times> CoAP_Message_t option \<times> 'm stack) option" where
  "call_handler E s h req resp =
     (case h of
        User_handler n \<Rightarrow>
          (case user_handler E n (mem s) req resp of
             None \<Rightarrow> None | Some (res, resp', m') \<Rightarrow> Some (res, resp', s\<lparr>mem := m'\<rparr>))
      | WellKnown_fn \<Rightarrow>
          (case resp of
             None \<Rightarrow> None
           | Some M \<Rightarrow>
               (case WellKnown_GetHandler (ops E) (mem s) (pResList s) (ResListMembers s) req M of
                  None \<Rightarrow> None | Some (res, M', m') \<Rightarrow> Some (res, Some M', s\<lparr>mem := m'\<rparr>))))"

text \<open>The case \<open>HANDLER_POSTPONE\<close>: \<open>Inl\<close> when the function returns, \<open>Inr\<close> when a response has to
  be sent after all.\<close>

definition postpone :: "'m env \<Rightarrow> u32 \<Rightarrow> 'm stack \<Rightarrow> CoAP_Interaction_t \<Rightarrow> CoAP_Message_t
    \<Rightarrow> ('m stack + CoAP_Interaction_t) option" where
  "postpone E now s ia req =
     (if Type req = CON \<and> ReqReliabilityState ia \<noteq> ACK_SET then
        do {
          (r, s1) \<leftarrow> send_EmptyAck E now s (MessageID req) (ia_ifID ia) (RemoteEp ia);
          if r = COAP_OK then
            Some (Inl (CoAP_EnqueueLastInteraction s1
              (ia\<lparr>ReqReliabilityState := ACK_SET, State := COAP_STATE_RESOURCE_POSTPONE_EMPTY_ACK_SENT,
                 SleepUntil := now + POSTPONE_WAIT_TIME_SEK\<rparr>)))
          else Some (Inl (snd (CoAP_DeleteInteraction E (put_ia s1 ia) (ia_at ia))))
        }
      else if CoAP_MsgIsOlderThan now req POSTPONE_MAX_WAIT_TIME then
        map_option (\<lambda>resp. Inr (ia\<lparr>pRespMsg := Some (resp\<lparr>Code := RESP_SERVICE_UNAVAILABLE_5_03\<rparr>)\<rparr>)) (pRespMsg ia)
      else
        Some (Inl (CoAP_EnqueueLastInteraction s (CoAP_SetSleepInteraction now ia POSTPONE_WAIT_TIME_SEK))))"

text \<open>The type of the response: a piggybacked ACK, or a confirmable message with a new id when
  the request has already been acknowledged.\<close>

definition set_resp_type :: "'m stack \<Rightarrow> CoAP_Interaction_t \<Rightarrow> CoAP_Message_t \<Rightarrow> CoAP_Message_t \<Rightarrow> CoAP_Message_t \<times> 'm stack" where
  "set_resp_type s ia req resp =
     (if Type req = CON then
        (if ReqReliabilityState ia = ACK_SET then
           let (mid, s') = next_mid s in (resp\<lparr>Type := CON, MessageID := mid\<rparr>, s')
         else (resp\<lparr>Type := ACK\<rparr>, s))
      else (resp, s))"

text \<open>Option 10000 reports the hop count and the negated signal strength of the request.\<close>

definition add_meta_option :: "'m env \<Rightarrow> 'm stack \<Rightarrow> CoAP_Interaction_t \<Rightarrow> CoAP_Message_t \<Rightarrow> CoAP_Message_t \<times> 'm stack" where
  "add_meta_option E s ia resp =
     (case ReqMetaInfo ia of
        META_INFO_NONE \<Rightarrow> (resp, s)
      | META_INFO_RF_PATH hop rssi \<Rightarrow>
          let (_, L, m') = CoAP_AppendOptionToList (ops E) (mem s) (pOptionsList resp) 10000 [hop, of_int (rssi * - 1)] 2
          in (resp\<lparr>pOptionsList := L\<rparr>, s\<lparr>mem := m'\<rparr>))"

definition finish_response :: "'m env \<Rightarrow> u32 \<Rightarrow> 'm stack \<Rightarrow> CoAP_Interaction_t \<Rightarrow> CoAP_Message_t \<Rightarrow> 'm stack option" where
  "finish_response E now s ia req =
     do {
       resp \<leftarrow> pRespMsg ia;
       let (resp1, s1) = set_resp_type s ia req resp;
       let (resp2, s2) = add_meta_option E s1 ia resp1;
       let ia2 = ia\<lparr>pRespMsg := Some resp2\<rparr>;
       (ia3, s3) \<leftarrow>
         (if Code req = REQ_GET \<and> Code resp2 = RESP_SUCCESS_CONTENT_2_05 then
            do {
              (r, s') \<leftarrow> CoAP_HandleObservationInReq E (put_ia s2 ia2) ia2;
              if r = COAP_OK then
                (let (_, resp3, m') = AddObserveOptionToMsg (ops E) (mem s') resp2 0
                 in Some (ia2\<lparr>pRespMsg := Some resp3\<rparr>, s'\<lparr>mem := m'\<rparr>))
              else Some (ia2, s')
            }
          else Some (ia2, s2));
       map_option snd (SendResp E now (put_ia s3 ia3) ia3 COAP_STATE_RESPONSE_SENT)
     }"

definition handle_request :: "'m env \<Rightarrow> u32 \<Rightarrow> 'm stack \<Rightarrow> CoAP_Interaction_t \<Rightarrow> 'm stack option" where
  "handle_request E now s pIA =
     do {
       req \<leftarrow> pReqMsg pIA;
       R \<leftarrow> get_res s (pRes pIA);
       if method_not_allowed req R then
         (let (msg, m', mid') = CoAP_AllocRespMsg (ops E) (mem s) (MId s) req RESP_METHOD_NOT_ALLOWED_4_05 0;
              ia = pIA\<lparr>pRespMsg := msg\<rparr>;
              s1 = put_ia (s\<lparr>mem := m', MId := mid'\<rparr>) ia
          in map_option snd (SendResp E now s1 ia COAP_STATE_RESPONSE_SENT))
       else do {
         let (resp0, s1) =
           (if pRespMsg pIA = None then
              let (msg, m', mid') = CoAP_AllocRespMsg (ops E) (mem s) (MId s) req EMPTY PREFERED_PAYLOAD_SIZE
              in (msg, s\<lparr>mem := m', MId := mid'\<rparr>)
            else (pRespMsg pIA, s));
         h \<leftarrow> Handler R;
         (Res, resp, s2) \<leftarrow> call_handler E s1 h req resp0;
         let ia = pIA\<lparr>pRespMsg := resp\<rparr>;
         let s3 = put_ia s2 ia;
         case Res of
           HANDLER_POSTPONE \<Rightarrow>
             do {
               p \<leftarrow> postpone E now s3 ia req;
               case p of Inl s4 \<Rightarrow> Some s4 | Inr ia' \<Rightarrow> finish_response E now (put_ia s3 ia') ia' req
             }
         | HANDLER_OK \<Rightarrow>
             do {
               M \<leftarrow> resp;
               let M1 = (if Code M = EMPTY then M\<lparr>Code := RESP_SUCCESS_CONTENT_2_05\<rparr> else M);
               let ia1 = ia\<lparr>pRespMsg := Some M1\<rparr>;
               finish_response E now (put_ia s3 ia1) ia1 req
             }
         | HANDLER_ERROR \<Rightarrow>
             do {
               M \<leftarrow> resp;
               let M1 = (if Code M = EMPTY then M\<lparr>Code := RESP_INTERNAL_SERVER_ERROR_5_00\<rparr> else M);
               let ia1 = ia\<lparr>pRespMsg := Some M1\<rparr>;
               finish_response E now (put_ia s3 ia1) ia1 req
             }
       }
     }"

text \<open>The retransmission of the response, of a notification, or of a request.\<close>

definition retransmit_resp :: "'m env \<Rightarrow> u32 \<Rightarrow> 'm stack \<Rightarrow> CoAP_Interaction_t \<Rightarrow> 'm stack option" where
  "retransmit_resp E now s pIA =
     do {
       resp \<leftarrow> pRespMsg pIA;
       (r, resp', s1) \<leftarrow> send E now s resp (ia_ifID pIA) (RemoteEp pIA);
       let ia = pIA\<lparr>pRespMsg := Some resp'\<rparr>;
       if r = COAP_OK then
         (let ia1 = ia\<lparr>RetransCounter := RetransCounter ia + 1\<rparr>
          in Some (put_ia s1 (CoAP_EnableAckTimeout now ia1 (RetransCounter ia1))))
       else if pReqMsg ia = None then None
       else Some (snd (CoAP_DeleteInteraction E (put_ia s1 ia) (ia_at ia)))
     }"

definition response_sent :: "'m env \<Rightarrow> u32 \<Rightarrow> 'm stack \<Rightarrow> CoAP_Interaction_t \<Rightarrow> 'm stack option" where
  "response_sent E now s pIA =
     do {
       r \<leftarrow> CheckRespStatus now pIA;
       if r = COAP_WAITING \<or> r = COAP_HOLDING_BACK then Some (CoAP_EnqueueLastInteraction s pIA)
       else if r = COAP_RETRY then retransmit_resp E now s pIA
       else Some (snd (CoAP_DeleteInteraction E s (ia_at pIA)))
     }"

section \<open>The work loop: notifications\<close>

text \<open>The call of the notifier with the observer the interaction points to. The observer must not
  have been freed. The result of the notifier is compared with a message code.\<close>

definition call_notifier :: "'m env \<Rightarrow> 'm stack \<Rightarrow> CoAP_Interaction_t
    \<Rightarrow> (CoAP_Interaction_t \<times> 'm stack) option" where
  "call_notifier E s pIA =
     do {
       resp \<leftarrow> pRespMsg pIA;
       R \<leftarrow> get_res s (pRes pIA);
       fn \<leftarrow> Notifier R;
       ob \<leftarrow> find (\<lambda>ob. ob_at ob = pObserver pIA) (pListObservers R);
       (res, M, m1) \<leftarrow> user_notifier E fn (mem s) ob resp;
       let s1 = s\<lparr>mem := m1\<rparr>;
       if handler_code res \<ge> uint RESP_ERROR_BAD_REQUEST_4_00 then
         do {
           let (_, M1, m2) = RemoveObserveOptionFromMsg (ops E) (mem s1) M;
           let ia = pIA\<lparr>pRespMsg := Some M1\<rparr>;
           (_, s2) \<leftarrow> CoAP_RemoveInteractionsObserver E (s1\<lparr>mem := m2\<rparr>) ia (Token64 M1);
           Some (ia, s2)
         }
       else
         do {
           let (_, M1, m2) = UpdateObserveOptionInMsg (ops E) (mem s1) M (UpdateCnt R);
           Some (pIA\<lparr>pRespMsg := Some M1\<rparr>, s1\<lparr>mem := m2\<rparr>)
         }
     }"

definition retry_notification :: "'m env \<Rightarrow> u32 \<Rightarrow> 'm stack \<Rightarrow> CoAP_Interaction_t \<Rightarrow> 'm stack option" where
  "retry_notification E now s pIA =
     do {
       (ia, s1) \<leftarrow>
         (if UpdatePendingNotification pIA then
            do {
              resp \<leftarrow> pRespMsg pIA;
              let (mid, s') = next_mid s;
              (ia', s'') \<leftarrow> call_notifier E s'
                (pIA\<lparr>UpdatePendingNotification := False, pRespMsg := Some (resp\<lparr>MessageID := mid\<rparr>)\<rparr>);
              resp' \<leftarrow> pRespMsg ia';
              Some (ia'\<lparr>pRespMsg := Some (resp'\<lparr>Type := Type resp\<rparr>)\<rparr>, s'')
            }
          else Some (pIA, s));
       retransmit_resp E now (put_ia s1 ia) ia
     }"

definition notification_done :: "'m env \<Rightarrow> 'm stack \<Rightarrow> CoAP_Interaction_t \<Rightarrow> 'm stack option" where
  "notification_done E s pIA =
     (if UpdatePendingNotification pIA then
        do {
          resp \<leftarrow> pRespMsg pIA;
          let (mid, s1) = next_mid s;
          (ia, s2) \<leftarrow> call_notifier E s1
            (pIA\<lparr>State := COAP_STATE_READY_TO_NOTIFY, RetransCounter := 0, UpdatePendingNotification := False,
                pRespMsg := Some (resp\<lparr>MessageID := mid\<rparr>), RespReliabilityState := NOT_SET\<rparr>);
          Some (CoAP_EnqueueLastInteraction s2 ia)
        }
      else Some (snd (CoAP_DeleteInteraction E s (ia_at pIA))))"

definition notification_sent :: "'m env \<Rightarrow> u32 \<Rightarrow> 'm stack \<Rightarrow> CoAP_Interaction_t \<Rightarrow> 'm stack option" where
  "notification_sent E now s pIA =
     do {
       r \<leftarrow> CheckRespStatus now pIA;
       if r = COAP_WAITING \<or> r = COAP_HOLDING_BACK then Some (CoAP_EnqueueLastInteraction s pIA)
       else if r = COAP_RETRY then retry_notification E now s pIA
       else if r = COAP_OK then notification_done E s pIA
       else if r = COAP_ERR_OUT_OF_ATTEMPTS \<or> r = COAP_ERR_REMOTE_RST then
         do {
           resp \<leftarrow> pRespMsg pIA;
           (_, s1) \<leftarrow> CoAP_RemoveInteractionsObserver E s pIA (Token64 resp);
           Some (snd (CoAP_DeleteInteraction E s1 (ia_at pIA)))
         }
       else Some (snd (CoAP_DeleteInteraction E s (ia_at pIA)))
     }"

section \<open>The work loop: client\<close>

definition retransmit_req :: "'m env \<Rightarrow> u32 \<Rightarrow> 'm stack \<Rightarrow> CoAP_Interaction_t \<Rightarrow> 'm stack option" where
  "retransmit_req E now s pIA =
     do {
       req \<leftarrow> pReqMsg pIA;
       (r, req', s1) \<leftarrow> send E now s req (ia_ifID pIA) (RemoteEp pIA);
       let ia = pIA\<lparr>pReqMsg := Some req'\<rparr>;
       if r = COAP_OK then
         (let ia1 = ia\<lparr>RetransCounter := RetransCounter ia + 1\<rparr>
          in Some (put_ia s1 (CoAP_EnableAckTimeout now ia1 (RetransCounter ia1))))
       else Some (snd (CoAP_DeleteInteraction E (put_ia s1 ia) (ia_at ia)))
     }"

definition waiting_response :: "'m env \<Rightarrow> u32 \<Rightarrow> 'm stack \<Rightarrow> CoAP_Interaction_t \<Rightarrow> 'm stack option" where
  "waiting_response E now s pIA =
     do {
       r \<leftarrow> CheckReqStatus now pIA;
       if r = COAP_WAITING then Some (CoAP_EnqueueLastInteraction s pIA)
       else if r = COAP_RETRY then retransmit_req E now s pIA
       else Some (snd (CoAP_DeleteInteraction E s (ia_at pIA)))
     }"

text \<open>The callback gets the response message; its calls are recorded in \<open>Delivered\<close>.\<close>

definition handle_response :: "'m env \<Rightarrow> 'm stack \<Rightarrow> CoAP_Interaction_t \<Rightarrow> 'm stack option" where
  "handle_response E s pIA =
     do {
       s1 \<leftarrow> (case RespCB pIA of
                None \<Rightarrow> Some s
              | Some cb \<Rightarrow>
                  (case pRespMsg pIA of
                     None \<Rightarrow> None
                   | Some resp \<Rightarrow> Some (s\<lparr>Delivered := Delivered s @ [(cb, resp, RemoteEp pIA)]\<rparr>)));
       Some (snd (CoAP_DeleteInteraction E s1 (ia_at pIA)))
     }"

section \<open>The work loop\<close>

definition CoAP_doWork :: "'m env \<Rightarrow> u32 \<Rightarrow> 'm stack \<Rightarrow> 'm stack option" where
  "CoAP_doWork E now s =
     (case CoAP_GetLongestPendingInteraction s of
        None \<Rightarrow> Some s
      | Some pIA \<Rightarrow>
          if SleepUntil pIA > now then Some (CoAP_EnqueueLastInteraction s pIA)
          else
            (case Role pIA of
               COAP_ROLE_SERVER \<Rightarrow>
                 if State pIA = COAP_STATE_HANDLE_REQUEST \<or> State pIA = COAP_STATE_RESOURCE_POSTPONE_EMPTY_ACK_SENT
                 then handle_request E now s pIA
                 else if State pIA = COAP_STATE_RESPONSE_SENT then response_sent E now s pIA
                 else Some s
             | COAP_ROLE_NOTIFICATION \<Rightarrow>
                 if State pIA = COAP_STATE_READY_TO_NOTIFY
                 then map_option snd (SendResp E now s pIA COAP_STATE_NOTIFICATION_SENT)
                 else if State pIA = COAP_STATE_NOTIFICATION_SENT then notification_sent E now s pIA
                 else Some s
             | COAP_ROLE_CLIENT \<Rightarrow>
                 if State pIA = COAP_STATE_READY_TO_REQUEST
                 then map_option snd (SendReq E now s pIA COAP_STATE_WAITING_RESPONSE)
                 else if State pIA = COAP_STATE_WAITING_RESPONSE then waiting_response E now s pIA
                 else if State pIA = COAP_STATE_HANDLE_RESPONSE then handle_response E s pIA
                 else Some (snd (CoAP_DeleteInteraction E s (ia_at pIA)))
             | COAP_ROLE_NOT_SET \<Rightarrow> Some s))"

end
