(* ===== verification/Stack_Inv.thy ===== *)
theory Stack_Inv
  imports Stack Uri_Correct
begin

text \<open>
  The interaction state machine: every interaction of a reachable stack has the role, the state,
  the messages and the resource that the code of \<open>coap_main.c\<close> and \<open>coap_interaction.c\<close> expects
  of it, and its retransmission counter stays within \<open>MAX_RETRANSMIT\<close>. The steps are the work
  loop, the reception of packets, the start of client requests, the notification of observers
  and the creation of resources, in any order and with arbitrary arguments.
\<close>

section \<open>The invariant\<close>

text \<open>What interactions rely on of a resource: its handler and its notifier never change.\<close>

definition res_sig :: "'m stack \<Rightarrow> (handler_fn option \<times> nat option) list" where
  "res_sig s = map (\<lambda>R. (Handler R, Notifier R)) (pResList s)"

definition has_res :: "('a \<Rightarrow> bool) \<Rightarrow> 'a list \<Rightarrow> nat option \<Rightarrow> bool" where
  "has_res P sig r = (case r of None \<Rightarrow> False | Some k \<Rightarrow> k < length sig \<and> P (sig ! k))"

definition is_request :: "CoAP_Message_t option \<Rightarrow> bool" where
  "is_request M = (case M of None \<Rightarrow> False | Some req \<Rightarrow> CoAP_MsgIsRequest req)"

definition ia_ok :: "(handler_fn option \<times> nat option) list \<Rightarrow> CoAP_Interaction_t \<Rightarrow> bool" where
  "ia_ok sig x \<longleftrightarrow> uint (RetransCounter x) \<le> MAX_RETRANSMIT \<and>
     (case Role x of
        COAP_ROLE_SERVER \<Rightarrow>
          is_request (pReqMsg x) \<and> has_res (\<lambda>r. fst r \<noteq> None) sig (pRes x) \<and>
          (State x = COAP_STATE_HANDLE_REQUEST \<or> State x = COAP_STATE_RESOURCE_POSTPONE_EMPTY_ACK_SENT \<or>
           State x = COAP_STATE_RESPONSE_SENT \<and> pRespMsg x \<noteq> None)
      | COAP_ROLE_NOTIFICATION \<Rightarrow>
          pRespMsg x \<noteq> None \<and> has_res (\<lambda>r. snd r \<noteq> None) sig (pRes x) \<and>
          (State x = COAP_STATE_READY_TO_NOTIFY \<or> State x = COAP_STATE_NOTIFICATION_SENT)
      | COAP_ROLE_CLIENT \<Rightarrow>
          is_request (pReqMsg x) \<and>
          (State x = COAP_STATE_READY_TO_REQUEST \<or> State x = COAP_STATE_WAITING_RESPONSE \<or>
           State x = COAP_STATE_HANDLE_RESPONSE \<and> pRespMsg x \<noteq> None)
      | COAP_ROLE_NOT_SET \<Rightarrow> False)"

definition stack_ok :: "'m stack \<Rightarrow> bool" where
  "stack_ok s \<longleftrightarrow> list_all (ia_ok (res_sig s)) (pInteractions s)"

text \<open>Two states with the same interactions and the same resource signatures.\<close>

definition same_ia :: "'m stack \<Rightarrow> 'm stack \<Rightarrow> bool" where
  "same_ia s s' \<longleftrightarrow> pInteractions s' = pInteractions s \<and> res_sig s' = res_sig s"

lemma same_iaD: "same_ia s s' \<Longrightarrow> stack_ok s \<Longrightarrow> stack_ok s'"
  by (simp add: same_ia_def stack_ok_def)

lemma same_ia_trans [trans]: "same_ia s s' \<Longrightarrow> same_ia s' s'' \<Longrightarrow> same_ia s s''"
  by (simp add: same_ia_def)

lemma same_ia_mem [simp]:
  "same_ia s (s\<lparr>mem := m\<rparr>)" "same_ia s (s\<lparr>MId := mid\<rparr>)" "same_ia s s"
  "same_ia s (s\<lparr>mem := m, MId := mid\<rparr>)" "same_ia s (s\<lparr>Delivered := d\<rparr>)"
  by (simp_all add: same_ia_def res_sig_def)

section \<open>Operations that leave the interactions alone\<close>

lemma same_ia_on_stack: "on_stack i s r = Some (res, M, s') \<Longrightarrow> same_ia s s'"
  by (auto simp: on_stack_def same_ia_def res_sig_def split: option.splits)

lemma same_ia_send: "send E now s M i ep = Some (r, M', s') \<Longrightarrow> same_ia s s'"
  unfolding send_def by (rule same_ia_on_stack)

lemma same_ia_short:
  "send_EmptyAck E now s mid i ep = Some (r, s') \<Longrightarrow> same_ia s s'"
  "send_EmptyRST E now s mid i ep = Some (r, s') \<Longrightarrow> same_ia s s'"
  "send_ShortResp E now s ty code mid tok i ep = Some (r, s') \<Longrightarrow> same_ia s s'"
  unfolding send_EmptyAck_def send_EmptyRST_def send_ShortResp_def by (auto dest: same_ia_on_stack)

lemma same_ia_free: "same_ia s (free_msg E s M)"
  by (simp add: free_msg_def split: prod.splits)

lemma same_ia_mid: "next_mid s = (mid, s') \<Longrightarrow> same_ia s s'"
  by (auto simp: next_mid_def CoAP_GetNextMid_def)

lemma same_ia_FreeInteraction: "same_ia s (CoAP_FreeInteraction E s x)"
  by (simp add: CoAP_FreeInteraction_def Let_def split: prod.splits)

lemma same_ia_observers: "same_ia s (put_observers s k obs)"
proof (cases "k < length (pResList s)")
  case True
  then show ?thesis
    by (simp add: same_ia_def put_observers_def res_sig_def map_update list_update_same_conv)
next
  case False
  then show ?thesis by (simp add: same_ia_def put_observers_def res_sig_def list_update_beyond)
qed

lemma same_ia_alloc:
  "CoAP_AllocNewInteraction E s = (x, s') \<Longrightarrow> same_ia s s'"
  by (auto simp: CoAP_AllocNewInteraction_def Let_def split: prod.splits if_splits)

lemma alloc_fields:
  "CoAP_AllocNewInteraction E s = (Some x, s') \<Longrightarrow> RetransCounter x = 0 \<and> pRespMsg x = None \<and> pReqMsg x = None"
  by (auto simp: CoAP_AllocNewInteraction_def Let_def split: prod.splits if_splits)

lemma same_ia_RemoveObserver:
  "CoAP_RemoveInteractionsObserver E s x tok = Some (r, s') \<Longrightarrow> same_ia s s'"
  by (auto simp: CoAP_RemoveInteractionsObserver_def Let_def split: option.splits prod.splits
      intro: same_ia_trans [OF _ same_ia_observers])

lemma same_ia_register: "register_observer E s k R x req = (r, s') \<Longrightarrow> same_ia s s'"
  by (auto simp: register_observer_def Let_def split: option.splits prod.splits if_splits
      intro: same_ia_trans [OF _ same_ia_observers])

lemma same_ia_handler: "call_handler E s h req resp = Some (res, resp', s') \<Longrightarrow> same_ia s s'"
  by (auto simp: call_handler_def split: handler_fn.splits option.splits prod.splits)

lemma same_ia_meta: "add_meta_option E s x resp = (resp', s') \<Longrightarrow> same_ia s s'"
  by (auto simp: add_meta_option_def split: MetaInfo_t.splits prod.splits)

lemma same_ia_resp_type: "set_resp_type s x req resp = (resp', s') \<Longrightarrow> same_ia s s'"
  by (auto simp: set_resp_type_def split: prod.splits if_splits dest: same_ia_mid)

lemma same_ia_notifier:
  assumes "call_notifier E s x = Some (y, s')"
  shows "same_ia s s' \<and> (\<exists>M. y = x\<lparr>pRespMsg := Some M\<rparr>)"
  using assms
  by (auto simp: call_notifier_def Let_def split: option.splits prod.splits if_splits bind_splits
      dest!: same_ia_RemoveObserver intro: same_ia_trans [OF same_ia_mem(1)] same_ia_trans [OF same_ia_trans [OF same_ia_mem(1) same_ia_mem(1)]])

section \<open>Changes of the interaction list\<close>

lemma stack_ok_put: "stack_ok s \<Longrightarrow> ia_ok (res_sig s) x \<Longrightarrow> stack_ok (put_ia s x)"
  by (auto simp: stack_ok_def put_ia_def res_sig_def list_all_iff)

lemma res_sig_put [simp]: "res_sig (put_ia s x) = res_sig s"
  by (simp add: put_ia_def res_sig_def)

lemma stack_ok_enqueue: "stack_ok s \<Longrightarrow> ia_ok (res_sig s) x \<Longrightarrow> stack_ok (CoAP_EnqueueLastInteraction s x)"
  by (auto simp: stack_ok_def CoAP_EnqueueLastInteraction_def CoAP_MoveInteractionToListEnd_def
      CoAP_AppendInteractionToList_def res_sig_def list_all_iff)

lemma unlink_first_set: "unlink_first P L = (r, L') \<Longrightarrow> set L' \<subseteq> set L"
  by (induction P L arbitrary: r L' rule: unlink_first.induct) (fastforce split: if_splits prod.splits)+

lemma stack_ok_delete: "stack_ok s \<Longrightarrow> stack_ok (snd (CoAP_DeleteInteraction E s p))"
proof -
  assume ok: "stack_ok s"
  have "stack_ok (s\<lparr>pInteractions := L\<rparr>)" if "unlink_first (\<lambda>currP. ia_at currP = p) (pInteractions s) = (r, L)" for r L
    using ok unlink_first_set [OF that] by (auto simp: stack_ok_def res_sig_def list_all_iff)
  then show ?thesis
    using ok
    by (auto simp: CoAP_DeleteInteraction_def CoAP_UnlinkInteractionFromList_def Let_def
        intro: same_iaD [OF same_ia_FreeInteraction] split: prod.splits option.splits)
qed

lemma stack_ok_append:
  "stack_ok s \<Longrightarrow> ia_ok (res_sig s) x \<Longrightarrow>
   stack_ok (s\<lparr>pInteractions := snd (CoAP_AppendInteractionToList (pInteractions s) (Some x))\<rparr>)"
  by (auto simp: stack_ok_def CoAP_AppendInteractionToList_def res_sig_def list_all_iff)

section \<open>Starting exchanges\<close>

lemma dest_same_ia:
  "same_ia s s' \<Longrightarrow> res_sig s' = res_sig s" "same_ia s s' \<Longrightarrow> pInteractions s' = pInteractions s"
  by (simp_all add: same_ia_def)

lemma stack_ok_client:
  assumes "stack_ok s" "CoAP_StartNewClientInteraction E s M i ep cb = (r, s')"
  shows "stack_ok s'"
proof -
  consider "same_ia s s'"
    | req x s1 where "M = Some req" "CoAP_MsgIsRequest req" "CoAP_AllocNewInteraction E s = (Some x, s1)"
        "s' = s1\<lparr>pInteractions := snd (CoAP_AppendInteractionToList (pInteractions s1)
            (Some (x\<lparr>pReqMsg := Some req, ia_ifID := i, RemoteEp := CopyEndpoints (RemoteEp x) ep, RespCB := cb,
                    Role := COAP_ROLE_CLIENT, State := COAP_STATE_READY_TO_REQUEST\<rparr>)))\<rparr>"
    using assms(2)
    by (auto simp: CoAP_StartNewClientInteraction_def Let_def split: option.splits if_splits prod.splits
        dest: same_ia_alloc)
  then show ?thesis
  proof cases
    case 1
    then show ?thesis using assms(1) by (rule same_iaD)
  next
    case (2 req x s1)
    show ?thesis unfolding 2(4)
      using alloc_fields [OF 2(3)] 2(2) same_iaD [OF same_ia_alloc [OF 2(3)] assms(1)]
      by (intro stack_ok_append) (simp_all add: ia_ok_def is_request_def)
  qed
qed

lemma stack_ok_get_request:
  assumes "stack_ok s" "CoAP_StartNewGetRequest E s uri i ep cb = (r, s')"
  shows "stack_ok s'"
proof -
  have "stack_ok (s\<lparr>mem := m, MId := a, TokenCtr := b\<rparr>)" "stack_ok (s\<lparr>MId := a, TokenCtr := b, mem := m\<rparr>)" for m a b
    using assms(1) by (simp_all add: stack_ok_def res_sig_def)
  then show ?thesis
    using assms(2)
    by (auto simp: CoAP_StartNewGetRequest_def Let_def split: prod.splits option.splits
        intro: stack_ok_client [rotated] same_iaD [OF same_ia_mem(1)])
qed

lemma find_duplicate_ok:
  assumes "list_all (ia_ok sig) L"
  shows "\<exists>d. find_duplicate L mid i ep = Some d"
  using assms
  by (induction L) (auto simp: ia_ok_def is_request_def split: option.splits)

lemma stack_ok_server:
  assumes "stack_ok s" "has_res (\<lambda>r. fst r \<noteq> None) (res_sig s) res"
    "CoAP_StartNewServerInteraction E now s M res i pk = Some (r, s')"
  shows "stack_ok s'"
proof -
  consider "same_ia s s'"
    | x s1 where "CoAP_MsgIsRequest M" "CoAP_AllocNewInteraction E s = (Some x, s1)"
        "s' = s1\<lparr>pInteractions := snd (CoAP_AppendInteractionToList (pInteractions s1)
            (Some (x\<lparr>ia_ifID := i, RespReliabilityState := NOT_SET, RespCB := None, pRes := res,
                        Role := COAP_ROLE_SERVER, State := COAP_STATE_HANDLE_REQUEST,
                        ReqMetaInfo := MetaInfo pk, ReqReliabilityState := NOT_SET,
                        pReqMsg := Some M, RemoteEp := CopyEndpoints (RemoteEp x) (Sender pk)\<rparr>)))\<rparr>"
    using assms(3)
    by (auto simp: CoAP_StartNewServerInteraction_def Let_def split: option.splits if_splits prod.splits
        dest: same_ia_alloc same_ia_short)
  then show ?thesis
  proof cases
    case 1
    then show ?thesis using assms(1) by (rule same_iaD)
  next
    case (2 x s1)
    show ?thesis unfolding 2(3)
      using alloc_fields [OF 2(2)] 2(1) assms(2) same_iaD [OF same_ia_alloc [OF 2(2)] assms(1)]
        dest_same_ia(1) [OF same_ia_alloc [OF 2(2)]]
      by (intro stack_ok_append) (simp_all add: ia_ok_def is_request_def)
  qed
qed

section \<open>Notifications and observe requests\<close>

lemma mark_pending_ok: "list_all (ia_ok sig) L \<Longrightarrow> mark_pending k ob L = (b, L') \<Longrightarrow> list_all (ia_ok sig) L'"
  by (induction k ob L arbitrary: b L' rule: mark_pending.induct)
    (auto simp: ia_ok_def split: if_splits prod.splits)

text \<open>Three outcomes of one turn for an observer: the new interaction is released, the observer is removed,
  or the notification is in the list.\<close>

abbreviation new_notification :: "CoAP_Interaction_t \<Rightarrow> CoAP_Observer_t \<Rightarrow> nat \<Rightarrow> CoAP_Message_t \<Rightarrow> CoAP_Interaction_t" where
  "new_notification y ob k M \<equiv> y\<lparr>Role := COAP_ROLE_NOTIFICATION, State := COAP_STATE_READY_TO_NOTIFY, RemoteEp := Ep ob,
     ia_ifID := IfID ob, pRes := Some k, pObserver := ob_at ob, pRespMsg := Some M\<rparr>"

lemma notify_observer_outcome:
  assumes "notify_observer E s k R ob = Some (r, s')" "CoAP_AllocNewInteraction E s = (Some y, s1)" "next_mid s1 = (mid, s2)"
  obtains m x where "s' = CoAP_FreeInteraction E (s2\<lparr>mem := m\<rparr>) x"
  | m z tok where "CoAP_RemoveInteractionsObserver E (s2\<lparr>mem := m\<rparr>) z tok = Some (r, s')"
  | fn M m where "Notifier R = Some fn" "s' = s2\<lparr>mem := m, pInteractions := pInteractions s2 @ [new_notification y ob k M]\<rparr>"
proof -
  obtain M m3 where create: "CoAP_CreateMessage (ops E) (mem s2) CON RESP_SUCCESS_CONTENT_2_05 mid None 0
      PREFERED_PAYLOAD_SIZE (Token ob) = (M, m3)" by fastforce
  note eq = assms(1) [unfolded notify_observer_def assms(2,3) create prod.case Let_def]
  show thesis
  proof (cases "\<exists>M0 fn. M = Some M0 \<and> Notifier R = Some fn")
    case False
    then have "s' = CoAP_FreeInteraction E (s2\<lparr>mem := m3\<rparr>) (y\<lparr>pRespMsg := M\<rparr>)"
      using eq by (cases M; cases "Notifier R") (auto simp: create)
    then show thesis by (rule that(1))
  next
    case True
    then obtain M0 fn where M: "M = Some M0" "Notifier R = Some fn" by blast
    obtain res M1 m4 where nt: "user_notifier E fn m3 ob M0 = Some (res, M1, m4)" using eq unfolding M by (auto split: option.splits)
    obtain a M2 m5 where ob: "AddObserveOptionToMsg (ops E) m4 M1 (UpdateCnt R) = (a, M2, m5)" by (metis prod_cases3)
    show thesis
    proof (cases "handler_code res = 0 \<and> \<not> Code M1 \<ge> RESP_ERROR_BAD_REQUEST_4_00")
      case True
      then show thesis using eq that(3) [OF M(2)] unfolding M by (auto simp: nt ob CoAP_AppendInteractionToList_def)
    next
      case False
      then show thesis using eq that(1,2) unfolding M by (auto simp: nt split: if_splits)
    qed
  qed
qed

lemma stack_ok_notify_observer:
  assumes "stack_ok s" "k < length (pResList s)" "notify_observer E s k (pResList s ! k) ob = Some (r, s')"
  shows "stack_ok s' \<and> res_sig s' = res_sig s"
proof -
  obtain x s1 where alloc: "CoAP_AllocNewInteraction E s = (x, s1)" by fastforce
  obtain mid s2 where mid: "next_mid s1 = (mid, s2)" by fastforce
  have s2: "same_ia s s2" using same_ia_alloc [OF alloc] same_ia_mid [OF mid] by (rule same_ia_trans)
  have s3: "same_ia s (s2\<lparr>mem := m\<rparr>)" for m using s2 same_ia_mem(1) by (rule same_ia_trans)
  have same: ?thesis if "same_ia s s'" using same_iaD [OF that assms(1)] that by (simp add: same_ia_def)
  show ?thesis
  proof (cases x)
    case None
    then show ?thesis using assms(3) alloc same_ia_alloc [OF alloc] same by (simp add: notify_observer_def)
  next
    case (Some y)
    from assms(3) alloc [unfolded Some] mid show ?thesis
    proof (cases rule: notify_observer_outcome)
      case (1 m z)
      then show ?thesis using same same_ia_trans [OF s3 same_ia_FreeInteraction] by blast
    next
      case (2 m z tok)
      then show ?thesis using same same_ia_trans [OF s3 same_ia_RemoveObserver] by blast
    next
      case (3 fn M m)
      have ok: "stack_ok (s2\<lparr>mem := m\<rparr>)" using s3 assms(1) by (rule same_iaD)
      have sig: "res_sig (s2\<lparr>mem := m\<rparr>) = res_sig s" using s3 by (rule dest_same_ia)
      have "has_res (\<lambda>r. snd r \<noteq> None) (res_sig s) (Some k)" using 3(1) assms(2) by (simp add: has_res_def res_sig_def)
      then have "stack_ok s'"
        unfolding 3(2) using stack_ok_append [OF ok] alloc_fields [OF alloc [unfolded Some]] sig
        by (simp add: ia_ok_def CoAP_AppendInteractionToList_def)
      then show ?thesis using sig by (simp add: 3(2) res_sig_def)
    qed
  qed
qed

lemma stack_ok_notify_loop:
  assumes "notify_loop E s k obs = Some (r, s')" "stack_ok s" "k < length (pResList s)"
  shows "stack_ok s' \<and> res_sig s' = res_sig s"
  using assms
proof (induction E s k obs rule: notify_loop.induct)
  case (1 E s k)
  then show ?case by (simp add: notify_loop.simps)
next
  case (2 E s k ob rest)
  obtain b L where mp: "mark_pending k ob (pInteractions s) = (b, L)" by fastforce
  note step = "2.prems"(1) [unfolded notify_loop.simps mp prod.case]
  show ?case
  proof (cases b)
    case True
    have "stack_ok (s\<lparr>pInteractions := L\<rparr>)"
      using "2.prems"(2) mark_pending_ok [OF _ mp] by (simp add: stack_ok_def res_sig_def)
    then show ?thesis
      using "2.IH"(1) [OF mp [symmetric]] step True "2.prems"(3) mp by (simp add: res_sig_def)
  next
    case False
    obtain r1 s1 where one: "notify_observer E s k (pResList s ! k) ob = Some (r1, s1)"
      using step False by (auto split: option.splits)
    have ok: "stack_ok s1" "res_sig s1 = res_sig s"
      using stack_ok_notify_observer [OF "2.prems"(2,3) one] by auto
    have k: "k < length (pResList s1)"
      using ok(2) "2.prems"(3) by (metis length_map res_sig_def)
    show ?thesis
    proof (cases "r1 = COAP_ERR_OUT_OF_MEMORY")
      case True
      then show ?thesis using step False one ok by simp
    next
      case go: False
      then obtain rest' where nx: "next_observers s1 k rest = Some rest'"
        using step False one by (auto split: option.splits)
      then show ?thesis
        using "2.IH"(2) [OF mp [symmetric]] step False one go ok k mp by simp
    qed
  qed
qed

lemma stack_ok_notify:
  assumes "stack_ok s" "CoAP_NotifyResourceObservers E s k = Some (r, s')"
  shows "stack_ok s'"
proof -
  obtain R where R: "get_res s (Some k) = Some R" using assms(2)
    by (auto simp: CoAP_NotifyResourceObservers_def split: option.splits)
  then have k: "k < length (pResList s)" "R = pResList s ! k"
    by (auto simp: get_res_def split: if_splits)
  let ?s1 = "s\<lparr>pResList := (pResList s)[k := R\<lparr>UpdateCnt := UpdateCnt R + 1\<rparr>]\<rparr>"
  have "res_sig ?s1 = res_sig s"
    using k by (simp add: res_sig_def map_update list_update_same_conv)
  then have "stack_ok ?s1" using assms(1) by (simp add: stack_ok_def)
  then show ?thesis
    using assms(2) R k stack_ok_notify_loop [of E ?s1 k _ _ s']
    by (auto simp: CoAP_NotifyResourceObservers_def CoAP_StartNotifyInteractions_def Let_def
        split: option.splits)
qed

lemma find_pending_ok:
  assumes "list_all (ia_ok sig) L"
  shows "\<exists>d. find_pending L tok i ep = Some d"
  using assms by (induction L) (auto simp: ia_ok_def split: option.splits)

lemma pResList_free [simp]: "pResList (CoAP_FreeInteraction E s x) = pResList s"
  by (simp add: CoAP_FreeInteraction_def split: prod.splits)

lemma res_sig_delete [simp]: "res_sig (snd (CoAP_DeleteInteraction E s p)) = res_sig s"
  by (auto simp: CoAP_DeleteInteraction_def CoAP_UnlinkInteractionFromList_def Let_def res_sig_def
      split: prod.splits option.splits)

lemma stack_ok_observation:
  assumes "stack_ok s" "CoAP_HandleObservationInReq E s x = Some (r, s')"
  shows "stack_ok s' \<and> res_sig s' = res_sig s"
proof -
  consider "same_ia s s'" | s1 p where "same_ia s s1" "s' = snd (CoAP_DeleteInteraction E s1 p)"
    using assms(2)
    by (auto simp: CoAP_HandleObservationInReq_def Let_def
        split: option.splits prod.splits if_splits bind_splits dest: same_ia_register same_ia_RemoveObserver)
  then show ?thesis
  proof cases
    case 1
    then show ?thesis using same_iaD [OF 1 assms(1)] by (simp add: same_ia_def)
  next
    case (2 s1 p)
    then show ?thesis using stack_ok_delete [OF same_iaD [OF 2(1) assms(1)]] by (simp add: same_ia_def)
  qed
qed

section \<open>The work loop\<close>

lemma stack_ok_SendResp:
  assumes "SendResp E now s x st = Some (r, s')" "stack_ok s"
    and "\<And>M q t. ia_ok (res_sig s) (x\<lparr>pRespMsg := Some M, ReqReliabilityState := q, AckTimeout := t, State := st\<rparr>)"
    and "\<And>M. ia_ok (res_sig s) (x\<lparr>pRespMsg := Some M\<rparr>)"
  shows "stack_ok s'"
proof -
  obtain M r' M' s1 where M: "pRespMsg x = Some M" "send E now s M (ia_ifID x) (RemoteEp x) = Some (r', M', s1)"
    using assms(1) by (auto simp: SendResp_def split: bind_splits)
  have s1: "stack_ok s1" "res_sig s1 = res_sig s"
    using same_iaD [OF same_ia_send [OF M(2)] assms(2)] dest_same_ia(1) [OF same_ia_send [OF M(2)]] by auto
  show ?thesis
  proof (cases "r' = COAP_OK")
    case True
    obtain q t where "s' = CoAP_EnqueueLastInteraction s1
        (x\<lparr>pRespMsg := Some M', ReqReliabilityState := q, AckTimeout := t, State := st\<rparr>)"
    proof (cases "Type M'")
      case ACK
      then show thesis using that [of "AckTimeout x" ACK_SET] assms(1) M True
        by (simp add: SendResp_def Let_def)
    next
      case CON
      then show thesis using that [of _ "ReqReliabilityState x"] assms(1) M True
        by (auto simp: SendResp_def Let_def CoAP_EnableAckTimeout_def)
    qed (use that [of "AckTimeout x" "ReqReliabilityState x"] assms(1) M True in \<open>simp_all add: SendResp_def Let_def\<close>)
    then show ?thesis using stack_ok_enqueue [OF s1(1)] assms(3) s1(2) by simp
  next
    case False
    then have "s' = snd (CoAP_DeleteInteraction E (put_ia s1 (x\<lparr>pRespMsg := Some M'\<rparr>)) (ia_at x))"
      using assms(1) M by (simp add: SendResp_def Let_def split: if_splits)
    then show ?thesis using stack_ok_delete [OF stack_ok_put [OF s1(1)]] assms(4) s1(2) by simp
  qed
qed

lemma build_Code: "CoAP_BuildDatagram d M = (r, n, d', M') \<Longrightarrow> Code M' = Code M"
  unfolding CoAP_BuildDatagram_def Let_def by (cases "Code M = EMPTY") (auto split: prod.splits)

lemma SendMsg_Code:
  assumes "CoAP_SendMsg A m now S buf pk M i ep = Some (r, M', pk', m')"
  shows "Code M' = Code M"
proof -
  obtain a b d N where "CoAP_BuildDatagram buf M = (a, b, d, N)" by (metis prod_cases4)
  then show ?thesis
    using assms build_Code [of buf M a b d N]
    by (auto simp: CoAP_SendMsg_def Let_def split: option.splits prod.splits if_splits)
qed

lemma is_request_send:
  assumes "send E now s M i ep = Some (r, M', s')"
  shows "CoAP_MsgIsRequest M' = CoAP_MsgIsRequest M"
  using assms
  by (auto simp: send_def on_stack_def CoAP_MsgIsRequest_def dest: SendMsg_Code split: option.splits)

lemma stack_ok_SendReq:
  assumes "SendReq E now s x COAP_STATE_WAITING_RESPONSE = Some (r, s')" "stack_ok s" "ia_ok (res_sig s) x"
    "Role x = COAP_ROLE_CLIENT"
  shows "stack_ok s'"
proof -
  obtain M r' M' s1 where M: "pReqMsg x = Some M" "send E now s M (ia_ifID x) (RemoteEp x) = Some (r', M', s1)"
    using assms(1) by (auto simp: SendReq_def split: bind_splits)
  have s1: "stack_ok s1" "res_sig s1 = res_sig s"
    using same_iaD [OF same_ia_send [OF M(2)] assms(2)] dest_same_ia(1) [OF same_ia_send [OF M(2)]] by auto
  have req: "is_request (Some M')"
    using assms(3,4) M is_request_send [OF M(2)] by (simp add: ia_ok_def is_request_def)
  have "ia_ok (res_sig s) (x\<lparr>pReqMsg := Some M'\<rparr>)"
    "ia_ok (res_sig s) (x\<lparr>pReqMsg := Some M', State := COAP_STATE_WAITING_RESPONSE\<rparr>)"
    "ia_ok (res_sig s) (x\<lparr>pReqMsg := Some M', AckTimeout := t, State := COAP_STATE_WAITING_RESPONSE\<rparr>)" for t
    using assms(3,4) req by (auto simp: ia_ok_def)
  then show ?thesis
    using assms(1) M stack_ok_delete [OF stack_ok_put [OF s1(1)]] stack_ok_enqueue [OF s1(1)] s1(2)
    by (auto simp: SendReq_def Let_def CoAP_EnableAckTimeout_def split: if_splits)
qed

lemma retry_bound: "CheckRespStatus now x = Some COAP_RETRY \<Longrightarrow> uint (RetransCounter x) < MAX_RETRANSMIT"
  "CheckReqStatus now x = Some COAP_RETRY \<Longrightarrow> uint (RetransCounter x) < MAX_RETRANSMIT"
  by (auto simp: CheckRespStatus_def CheckReqStatus_def split: if_splits option.splits)

lemma uint_counter_inc: "uint (c :: u8) < MAX_RETRANSMIT \<Longrightarrow> uint (c + 1) = uint c + 1"
  by (simp add: uint_word_ariths)

lemma unat_counter_inc: "uint (c :: u8) < MAX_RETRANSMIT \<Longrightarrow> unat (c + 1) = Suc (unat c)"
proof -
  assume c: "uint c < MAX_RETRANSMIT"
  have "nat (uint (c + 1)) = nat (uint c + 1)" by (simp only: uint_counter_inc [OF c])
  also have "\<dots> = Suc (nat (uint c))" by (simp add: nat_add_distrib)
  finally show ?thesis by simp
qed

lemma stack_ok_retransmit_resp:
  assumes "retransmit_resp E now s x = Some s'" "stack_ok s" "ia_ok (res_sig s) x"
    "uint (RetransCounter x) < MAX_RETRANSMIT"
  shows "stack_ok s'"
proof -
  obtain M r' M' s1 where M: "pRespMsg x = Some M" "send E now s M (ia_ifID x) (RemoteEp x) = Some (r', M', s1)"
    using assms(1) by (auto simp: retransmit_resp_def split: bind_splits)
  have s1: "stack_ok s1" "res_sig s1 = res_sig s"
    using same_iaD [OF same_ia_send [OF M(2)] assms(2)] dest_same_ia(1) [OF same_ia_send [OF M(2)]] by auto
  have "ia_ok (res_sig s) (x\<lparr>pRespMsg := Some M'\<rparr>)"
    "ia_ok (res_sig s) (x\<lparr>pRespMsg := Some M', RetransCounter := RetransCounter x + 1, AckTimeout := t\<rparr>)" for t
    using assms(3,4) uint_counter_inc [OF assms(4)] M(1)
    by (auto simp: ia_ok_def split: CoAP_InteractionRole_t.splits)
  then show ?thesis
    using assms(1) M stack_ok_delete [OF stack_ok_put [OF s1(1)]] stack_ok_put [OF s1(1)] s1(2)
    by (auto simp: retransmit_resp_def Let_def CoAP_EnableAckTimeout_def split: if_splits)
qed

lemma stack_ok_retransmit_req:
  assumes "retransmit_req E now s x = Some s'" "stack_ok s" "ia_ok (res_sig s) x" "Role x = COAP_ROLE_CLIENT"
    "uint (RetransCounter x) < MAX_RETRANSMIT"
  shows "stack_ok s'"
proof -
  obtain M r' M' s1 where M: "pReqMsg x = Some M" "send E now s M (ia_ifID x) (RemoteEp x) = Some (r', M', s1)"
    using assms(1) by (auto simp: retransmit_req_def split: bind_splits)
  have s1: "stack_ok s1" "res_sig s1 = res_sig s"
    using same_iaD [OF same_ia_send [OF M(2)] assms(2)] dest_same_ia(1) [OF same_ia_send [OF M(2)]] by auto
  have req: "is_request (Some M')"
    using assms(3,4) M is_request_send [OF M(2)] by (simp add: ia_ok_def is_request_def)
  have "ia_ok (res_sig s) (x\<lparr>pReqMsg := Some M'\<rparr>)"
    "ia_ok (res_sig s) (x\<lparr>pReqMsg := Some M', RetransCounter := RetransCounter x + 1, AckTimeout := t\<rparr>)" for t
    using assms(3,4) uint_counter_inc [OF assms(5)] assms(5) req
    by (auto simp: ia_ok_def)
  then show ?thesis
    using assms(1) M stack_ok_delete [OF stack_ok_put [OF s1(1)]] stack_ok_put [OF s1(1)] s1(2)
    by (auto simp: retransmit_req_def Let_def CoAP_EnableAckTimeout_def split: if_splits)
qed

lemma stack_ok_retry_notification:
  assumes "retry_notification E now s x = Some s'" "stack_ok s" "ia_ok (res_sig s) x"
    "Role x = COAP_ROLE_NOTIFICATION" "uint (RetransCounter x) < MAX_RETRANSMIT"
  shows "stack_ok s'"
proof -
  obtain y s1 where y: "same_ia s s1" "ia_ok (res_sig s) y" "RetransCounter y = RetransCounter x"
    "retransmit_resp E now (put_ia s1 y) y = Some s'"
  proof (cases "UpdatePendingNotification x")
    case False
    then show thesis using that [of s x] assms by (simp add: retry_notification_def)
  next
    case True
    obtain mid s0 where mid: "next_mid s = (mid, s0)" by fastforce
    obtain resp z s1 N where z: "pRespMsg x = Some resp"
      "call_notifier E s0 (x\<lparr>UpdatePendingNotification := False, pRespMsg := Some (resp\<lparr>MessageID := mid\<rparr>)\<rparr>) = Some (z, s1)"
      "pRespMsg z = Some N"
      "retransmit_resp E now (put_ia s1 (z\<lparr>pRespMsg := Some (N\<lparr>Type := Type resp\<rparr>)\<rparr>)) (z\<lparr>pRespMsg := Some (N\<lparr>Type := Type resp\<rparr>)\<rparr>) = Some s'"
      using assms(1) True mid by (auto simp: retry_notification_def Let_def split: bind_splits)
    from same_ia_notifier [OF z(2)] obtain M where n: "same_ia s0 s1"
      "z = x\<lparr>UpdatePendingNotification := False, pRespMsg := Some M\<rparr>" by auto
    show thesis
      using that [OF same_ia_trans [OF same_ia_mid [OF mid] n(1)] _ _ z(4)] assms(3,4)
      by (simp add: n(2) ia_ok_def)
  qed
  have "res_sig s1 = res_sig s" "stack_ok s1" using y(1) same_iaD [OF y(1) assms(2)] by (simp_all add: same_ia_def)
  then show ?thesis
    using stack_ok_retransmit_resp [OF y(4)] stack_ok_put [of s1 y] y(2,3) assms(5) by simp
qed

lemma stack_ok_notification_done:
  assumes "notification_done E s x = Some s'" "stack_ok s" "ia_ok (res_sig s) x" "Role x = COAP_ROLE_NOTIFICATION"
  shows "stack_ok s'"
proof (cases "UpdatePendingNotification x")
  case False
  then show ?thesis using assms(1) stack_ok_delete [OF assms(2)] by (auto simp: notification_done_def)
next
  case True
  obtain mid s0 where mid: "next_mid s = (mid, s0)" by fastforce
  obtain resp z s1 where z: "pRespMsg x = Some resp"
    "call_notifier E s0 (x\<lparr>State := COAP_STATE_READY_TO_NOTIFY, RetransCounter := 0, UpdatePendingNotification := False,
        pRespMsg := Some (resp\<lparr>MessageID := mid\<rparr>), RespReliabilityState := NOT_SET\<rparr>) = Some (z, s1)"
    "s' = CoAP_EnqueueLastInteraction s1 z"
    using assms(1) True mid by (auto simp: notification_done_def Let_def split: bind_splits)
  from same_ia_notifier [OF z(2)] obtain M where n: "same_ia s0 s1"
    "z = x\<lparr>State := COAP_STATE_READY_TO_NOTIFY, RetransCounter := 0, UpdatePendingNotification := False,
        RespReliabilityState := NOT_SET, pRespMsg := Some M\<rparr>" by auto
  have s1: "same_ia s s1" using same_ia_mid [OF mid] n(1) by (rule same_ia_trans)
  have "ia_ok (res_sig s) z" using assms(3,4) by (simp add: n(2) ia_ok_def)
  then show ?thesis
    unfolding z(3) using stack_ok_enqueue [OF same_iaD [OF s1 assms(2)]] dest_same_ia(1) [OF s1] by simp
qed

lemma stack_ok_notification_sent:
  assumes "notification_sent E now s x = Some s'" "stack_ok s" "ia_ok (res_sig s) x" "Role x = COAP_ROLE_NOTIFICATION"
  shows "stack_ok s'"
proof -
  obtain r where r: "CheckRespStatus now x = Some r"
    using assms(1) by (auto simp: notification_sent_def split: bind_splits)
  show ?thesis
  proof (cases "r = COAP_ERR_OUT_OF_ATTEMPTS \<or> r = COAP_ERR_REMOTE_RST")
    case True
    then show ?thesis
      using assms(1,2) r
      by (auto simp: notification_sent_def split: bind_splits dest!: same_ia_RemoveObserver
          intro: stack_ok_delete [OF same_iaD])
  next
    case False
    then show ?thesis
      using assms r stack_ok_enqueue [OF assms(2,3)] stack_ok_delete [OF assms(2)]
        stack_ok_notification_done [OF _ assms(2-4)] stack_ok_retry_notification [OF _ assms(2-4)] retry_bound(1)
      by (auto simp: notification_sent_def simp del: MAX_RETRANSMIT_def split: if_splits)
  qed
qed

lemma stack_ok_finish:
  assumes "finish_response E now s x req = Some s'" "stack_ok s" "Role x = COAP_ROLE_SERVER"
    "\<And>M. ia_ok (res_sig s) (x\<lparr>pRespMsg := Some M\<rparr>)"
  shows "stack_ok s'"
proof -
  obtain resp where resp: "pRespMsg x = Some resp"
    using assms(1) by (auto simp: finish_response_def split: bind_splits)
  obtain resp1 s1 where t: "set_resp_type s x req resp = (resp1, s1)" by fastforce
  obtain resp2 s2 where mt: "add_meta_option E s1 x resp1 = (resp2, s2)" by fastforce
  have s2: "same_ia s s2" using same_ia_resp_type [OF t] same_ia_meta [OF mt] by (rule same_ia_trans)
  let ?y = "x\<lparr>pRespMsg := Some resp2\<rparr>"
  have put: "stack_ok (put_ia s2 ?y)"
    using stack_ok_put [OF same_iaD [OF s2 assms(2)]] assms(4) dest_same_ia(1) [OF s2] by simp
  obtain z s3 M r where z: "z = x\<lparr>pRespMsg := Some M\<rparr>" "stack_ok s3" "res_sig s3 = res_sig s"
    "SendResp E now (put_ia s3 z) z COAP_STATE_RESPONSE_SENT = Some (r, s')"
  proof (cases "Code req = REQ_GET \<and> Code resp2 = RESP_SUCCESS_CONTENT_2_05")
    case False
    then show thesis
      using that [of _ resp2 s2] same_iaD [OF s2 assms(2)] dest_same_ia(1) [OF s2] assms(1) resp t mt
      by (auto simp: finish_response_def Let_def)
  next
    case True
    obtain r1 s4 where obs: "CoAP_HandleObservationInReq E (put_ia s2 ?y) ?y = Some (r1, s4)"
      using assms(1) resp t mt True by (auto simp: finish_response_def Let_def split: bind_splits)
    have s4: "stack_ok s4" "res_sig s4 = res_sig s"
      using stack_ok_observation [OF put obs] dest_same_ia(1) [OF s2] by simp_all
    obtain a resp3 m' where add: "AddObserveOptionToMsg (ops E) (mem s4) resp2 0 = (a, resp3, m')"
      by (metis prod_cases3)
    have s4': "stack_ok (s4\<lparr>mem := m'\<rparr>)" "res_sig (s4\<lparr>mem := m'\<rparr>) = res_sig s"
      using s4 same_iaD [OF same_ia_mem(1) s4(1)] by (simp_all add: res_sig_def)
    show thesis
      using that [OF _ s4] that [OF _ s4'] assms(1) resp t mt True obs add
      by (auto simp: finish_response_def Let_def split: if_splits)
  qed
  have ok: "ia_ok (res_sig s) (x\<lparr>pRespMsg := Some M\<rparr>)" for M by (rule assms(4))
  then have "ia_ok (res_sig s) (z\<lparr>pRespMsg := Some N, ReqReliabilityState := q, AckTimeout := t, State := COAP_STATE_RESPONSE_SENT\<rparr>)"
    "ia_ok (res_sig s) (z\<lparr>pRespMsg := Some N\<rparr>)" for N q t
    using assms(3) by (simp_all add: z(1) ia_ok_def)
  moreover have "stack_ok (put_ia s3 z)" using stack_ok_put [OF z(2)] ok z(1,3) by simp
  ultimately show ?thesis
    using stack_ok_SendResp [OF z(4)] z(3) by simp
qed

lemma stack_ok_postpone:
  assumes "postpone E now s x req = Some (Inl s')" "stack_ok s" "Role x = COAP_ROLE_SERVER" "ia_ok (res_sig s) x"
  shows "stack_ok s'"
proof (cases "Type req = CON \<and> ReqReliabilityState x \<noteq> ACK_SET")
  case True
  then obtain r s1 where snd: "send_EmptyAck E now s (MessageID req) (ia_ifID x) (RemoteEp x) = Some (r, s1)"
    using assms(1) by (auto simp: postpone_def split: bind_splits)
  have s1: "stack_ok s1" "res_sig s1 = res_sig s"
    using same_iaD [OF same_ia_short(1) [OF snd] assms(2)] dest_same_ia(1) [OF same_ia_short(1) [OF snd]] by auto
  have "ia_ok (res_sig s) (x\<lparr>ReqReliabilityState := ACK_SET, State := COAP_STATE_RESOURCE_POSTPONE_EMPTY_ACK_SENT, SleepUntil := t\<rparr>)" for t
    using assms(3,4) by (simp add: ia_ok_def)
  then show ?thesis
    using assms(1,4) True snd s1 stack_ok_enqueue [OF s1(1)] stack_ok_delete [OF stack_ok_put [OF s1(1)]]
    by (auto simp: postpone_def split: if_splits)
next
  case False
  have "ia_ok (res_sig s) (x\<lparr>SleepUntil := t\<rparr>)" for t using assms(3,4) by (simp add: ia_ok_def)
  then show ?thesis
    using assms(1) False stack_ok_enqueue [OF assms(2)]
    by (auto simp: postpone_def CoAP_SetSleepInteraction_def split: if_splits)
qed

lemma postpone_Inr:
  "postpone E now s x req = Some (Inr y) \<Longrightarrow> \<exists>M. y = x\<lparr>pRespMsg := Some M\<rparr>"
  by (auto simp: postpone_def split: if_splits bind_splits)

lemma stack_ok_handle_request:
  assumes "handle_request E now s x = Some s'" "stack_ok s" "Role x = COAP_ROLE_SERVER" "ia_ok (res_sig s) x"
    "State x = COAP_STATE_HANDLE_REQUEST \<or> State x = COAP_STATE_RESOURCE_POSTPONE_EMPTY_ACK_SENT"
  shows "stack_ok s'"
proof -
  obtain req R where req: "pReqMsg x = Some req" "get_res s (pRes x) = Some R"
    using assms(1) by (auto simp: handle_request_def split: bind_splits)
  have okx: "ia_ok (res_sig s) (x\<lparr>pRespMsg := M\<rparr>)" for M
    using assms(3-5) by (auto simp: ia_ok_def)
  show ?thesis
  proof (cases "method_not_allowed req R")
    case True
    obtain M m' mid' where al: "CoAP_AllocRespMsg (ops E) (mem s) (MId s) req RESP_METHOD_NOT_ALLOWED_4_05 0 = (M, m', mid')"
      by (metis prod_cases3)
    let ?s1 = "put_ia (s\<lparr>mem := m', MId := mid'\<rparr>) (x\<lparr>pRespMsg := M\<rparr>)"
    obtain r where snd: "SendResp E now ?s1 (x\<lparr>pRespMsg := M\<rparr>) COAP_STATE_RESPONSE_SENT = Some (r, s')"
      using assms(1) req True al by (auto simp: handle_request_def Let_def)
    have s1: "res_sig ?s1 = res_sig s" "stack_ok ?s1"
      using okx by (simp_all add: stack_ok_put [OF same_iaD [OF same_ia_mem(4) assms(2)]] dest_same_ia(1) [OF same_ia_mem(4)])
    show ?thesis
      using stack_ok_SendResp [OF snd s1(2)] okx [of "Some _"] assms(3,5) s1(1) by (auto simp: ia_ok_def)
  next
    case False
    obtain resp0 s1 where al: "(if pRespMsg x = None then
              let (msg, m', mid') = CoAP_AllocRespMsg (ops E) (mem s) (MId s) req EMPTY PREFERED_PAYLOAD_SIZE
              in (msg, s\<lparr>mem := m', MId := mid'\<rparr>)
            else (pRespMsg x, s)) = (resp0, s1)" by (metis surj_pair)
    have s1: "same_ia s s1" using al by (auto split: if_splits prod.splits)
    obtain h Res resp s2 where call: "Handler R = Some h" "call_handler E s1 h req resp0 = Some (Res, resp, s2)"
      using assms(1) req False al by (auto simp: handle_request_def split: bind_splits)
    have s2: "same_ia s s2" using s1 same_ia_handler [OF call(2)] by (rule same_ia_trans)
    let ?x = "x\<lparr>pRespMsg := resp\<rparr>"
    have put: "stack_ok (put_ia s2 (x\<lparr>pRespMsg := M\<rparr>))" "stack_ok (put_ia (put_ia s2 ?x) (x\<lparr>pRespMsg := M\<rparr>))" for M
      using same_iaD [OF s2 assms(2)] okx dest_same_ia(1) [OF s2] by (simp_all add: stack_ok_put)
    have fin: "stack_ok s'" if "finish_response E now (put_ia (put_ia s2 ?x) (x\<lparr>pRespMsg := M\<rparr>)) (x\<lparr>pRespMsg := M\<rparr>) req = Some s'" for M
      using stack_ok_finish [OF that put(2)] okx assms(3) dest_same_ia(1) [OF s2] by simp
    note eq = assms(1) [unfolded handle_request_def req bind.bind_lunit, unfolded al, unfolded Let_def prod.case]
    show ?thesis
    proof (cases Res)
      case HANDLER_POSTPONE
      obtain p where p: "postpone E now (put_ia s2 ?x) ?x req = Some p"
        "(case p of Inl s4 \<Rightarrow> Some s4 | Inr ia' \<Rightarrow> finish_response E now (put_ia (put_ia s2 ?x) ia') ia' req) = Some s'"
        using eq False call HANDLER_POSTPONE by (auto split: bind_splits)
      show ?thesis
      proof (cases p)
        case (Inl s4)
        then show ?thesis
          using stack_ok_postpone [OF p(1) [unfolded Inl] put(1)] p(2) okx assms(3) dest_same_ia(1) [OF s2] by simp
      next
        case (Inr y)
        then obtain M where "y = x\<lparr>pRespMsg := Some M\<rparr>" using postpone_Inr p(1) by fastforce
        then show ?thesis using fin p(2) Inr by simp
      qed
    qed (use eq False call fin in \<open>auto split: bind_splits if_splits\<close>)
  qed
qed

lemma stack_ok_response_sent:
  assumes "response_sent E now s x = Some s'" "stack_ok s" "ia_ok (res_sig s) x"
  shows "stack_ok s'"
  using assms stack_ok_enqueue [OF assms(2,3)] stack_ok_delete [OF assms(2)]
    stack_ok_retransmit_resp [OF _ assms(2,3)] retry_bound(1)
  by (auto simp: response_sent_def simp del: MAX_RETRANSMIT_def split: if_splits bind_splits)

lemma stack_ok_waiting_response:
  assumes "waiting_response E now s x = Some s'" "stack_ok s" "ia_ok (res_sig s) x" "Role x = COAP_ROLE_CLIENT"
  shows "stack_ok s'"
  using assms stack_ok_enqueue [OF assms(2,3)] stack_ok_delete [OF assms(2)]
    stack_ok_retransmit_req [OF _ assms(2-4)] retry_bound(2)
  by (auto simp: waiting_response_def simp del: MAX_RETRANSMIT_def split: if_splits bind_splits)

lemma stack_ok_handle_response:
  assumes "handle_response E s x = Some s'" "stack_ok s"
  shows "stack_ok s'"
  using assms stack_ok_delete [OF assms(2)] stack_ok_delete [OF same_iaD [OF same_ia_mem(5) assms(2)]]
  by (auto simp: handle_response_def split: option.splits bind_splits)

lemma stack_ok_doWork:
  assumes "CoAP_doWork E now s = Some s'" "stack_ok s"
  shows "stack_ok s'"
proof (cases "pInteractions s")
  case Nil
  then show ?thesis using assms by (simp add: CoAP_doWork_def CoAP_GetLongestPendingInteraction_def list_head_def)
next
  case (Cons x xs)
  have x: "ia_ok (res_sig s) x" using assms(2) Cons by (simp add: stack_ok_def)
  note eq = assms(1) [unfolded CoAP_doWork_def CoAP_GetLongestPendingInteraction_def Cons list_head_def list.case option.case]
  show ?thesis
  proof (cases "SleepUntil x > now")
    case True
    then show ?thesis using eq stack_ok_enqueue [OF assms(2) x] by simp
  next
    case False
    show ?thesis
    proof (cases "Role x")
      case COAP_ROLE_SERVER
      then show ?thesis
        using eq False stack_ok_handle_request [OF _ assms(2) _ x] stack_ok_response_sent [OF _ assms(2) x] assms(2)
        by (auto split: if_splits)
    next
      case COAP_ROLE_NOTIFICATION
      have "ia_ok (res_sig s) (x\<lparr>pRespMsg := Some M, ReqReliabilityState := q, AckTimeout := t, State := COAP_STATE_NOTIFICATION_SENT\<rparr>)"
        "ia_ok (res_sig s) (x\<lparr>pRespMsg := Some M\<rparr>)" for M q t
        using x COAP_ROLE_NOTIFICATION by (auto simp: ia_ok_def)
      then show ?thesis
        using eq False assms(2) x COAP_ROLE_NOTIFICATION stack_ok_SendResp [OF _ assms(2), of E now x COAP_STATE_NOTIFICATION_SENT]
          stack_ok_notification_sent
        by (auto split: if_splits)
    next
      case COAP_ROLE_CLIENT
      then show ?thesis
        using eq False assms(2) x stack_ok_SendReq [OF _ assms(2) x] stack_ok_waiting_response stack_ok_handle_response
          stack_ok_delete [OF assms(2)]
        by (auto split: if_splits)
    qed (use eq False assms(2) in auto)
  qed
qed

section \<open>Reception\<close>

lemma apply_state_ok:
  assumes "apply_state st mid ep L = (r, L')" "list_all (ia_ok sig) L"
  shows "list_all (ia_ok sig) L' \<and> (\<forall>x. r = Some x \<longrightarrow> ia_ok sig x)"
  using assms
  by (induction st mid ep L arbitrary: r L' rule: apply_state.induct)
    (auto simp: ia_ok_def Let_def split: if_splits prod.splits)

lemma stack_ok_apply:
  assumes "CoAP_ApplyReliabilityStateToInteraction s st mid i ep = (r, s')" "stack_ok s"
  shows "stack_ok s' \<and> res_sig s' = res_sig s \<and> (\<forall>x. r = Some x \<longrightarrow> ia_ok (res_sig s) x)"
  using assms apply_state_ok [of st mid ep "pInteractions s"]
  by (fastforce simp: CoAP_ApplyReliabilityStateToInteraction_def stack_ok_def res_sig_def split: prod.splits)

lemma find_client_ok:
  assumes "list_all (ia_ok sig) L"
  shows "\<exists>d. find_client L tok ep = Some d \<and> (\<forall>x. d = Some x \<longrightarrow> ia_ok sig x \<and> Role x = COAP_ROLE_CLIENT)"
  using assms by (induction L) (auto simp: ia_ok_def is_request_def split: option.splits)

lemma stack_ok_attach:
  assumes "attach_response E s x M = (y, s')" "stack_ok s" "ia_ok (res_sig s) x" "Role x = COAP_ROLE_CLIENT"
  shows "stack_ok s' \<and> res_sig s' = res_sig s \<and> ia_ok (res_sig s) y \<and> Role y = COAP_ROLE_CLIENT"
proof -
  let ?y = "x\<lparr>pRespMsg := Some M, State := COAP_STATE_HANDLE_RESPONSE\<rparr>"
  let ?s = "if pRespMsg x \<noteq> None then free_msg E s (pRespMsg x) else s"
  have s: "same_ia s ?s" by (simp add: same_ia_free)
  have y: "ia_ok (res_sig s) ?y" using assms(3,4) by (simp add: ia_ok_def)
  have "y = ?y" "s' = put_ia ?s ?y"
    using assms(1) by (auto simp: attach_response_def Let_def)
  then show ?thesis
    using stack_ok_put [OF same_iaD [OF s assms(2)]] y assms(4) dest_same_ia(1) [OF s] by simp
qed

lemma stack_ok_piggyback:
  assumes "handle_piggyback E s i ep M = Some s'" "stack_ok s"
  shows "stack_ok s'"
proof -
  obtain r s1 where ap: "CoAP_ApplyReliabilityStateToInteraction s ACK_SET (MessageID M) i ep = (r, s1)" by fastforce
  note ok = stack_ok_apply [OF ap assms(2)]
  have fr: "stack_ok (free_msg E s1 (Some M))" using ok same_iaD [OF same_ia_free] by blast
  show ?thesis
  proof (cases r)
    case None
    then show ?thesis using assms(1) ap fr by (simp add: handle_piggyback_def)
  next
    case (Some x)
    then have x: "ia_ok (res_sig s1) x" using ok by simp
    obtain y s2 where at: "attach_response E s1 x M = (y, s2)" by fastforce
    have "s' = free_msg E s1 (Some M) \<or> Role x = COAP_ROLE_CLIENT \<and> s' = s2"
      using assms(1) ap Some at by (auto simp: handle_piggyback_def split: if_splits option.splits)
    then show ?thesis using fr stack_ok_attach [OF at conjunct1 [OF ok] x] by blast
  qed
qed

lemma stack_ok_separate:
  assumes "handle_separate_response E now s i ep M = Some s'" "stack_ok s"
  shows "stack_ok s'"
proof -
  obtain found where fd: "find_client (pInteractions s) (Token64 M) ep = Some found"
    "\<forall>x. found = Some x \<longrightarrow> ia_ok (res_sig s) x \<and> Role x = COAP_ROLE_CLIENT"
    using find_client_ok assms(2) unfolding stack_ok_def by blast
  show ?thesis
  proof (cases found)
    case None
    then show ?thesis
      using assms fd(1)
      by (auto simp: handle_separate_response_def split: bind_splits dest!: same_ia_short(3)
          intro: same_iaD [OF same_ia_trans [OF _ same_ia_free]])
  next
    case (Some x)
    obtain y s1 where at: "(if State x = COAP_STATE_WAITING_RESPONSE \<or> State x = COAP_STATE_HANDLE_RESPONSE
                   then attach_response E s x M else (x, s)) = (y, s1)" by (metis surj_pair)
    have s1: "stack_ok s1" "res_sig s1 = res_sig s" "ia_ok (res_sig s) y" "Role y = COAP_ROLE_CLIENT"
      using at stack_ok_attach [of E s x M y s1] assms(2) fd(2) Some by (auto split: if_splits)
    have y: "ia_ok (res_sig s) (y\<lparr>RespReliabilityState := ACK_SET\<rparr>)" using s1(3,4) by (simp add: ia_ok_def)
    note eq = assms(1) [unfolded handle_separate_response_def fd(1) Some bind.bind_lunit option.case at prod.case Let_def]
    show ?thesis
    proof (cases "Type M = CON")
      case False
      then show ?thesis using eq s1(1) by simp
    next
      case True
      then obtain r s2 where snd: "send_ShortResp E now s1 ACK EMPTY (MessageID M) (Token64 M) i ep = Some (r, s2)"
        "s' = (if r = COAP_OK then put_ia s2 (y\<lparr>RespReliabilityState := ACK_SET\<rparr>) else s2)"
        using eq by (auto split: bind_splits)
      have s2: "same_ia s1 s2" using snd(1) by (rule same_ia_short)
      have "stack_ok s2" using s2 s1(1) by (rule same_iaD)
      then show ?thesis
        using snd(2) y dest_same_ia(1) [OF s2] s1(2) by (simp add: stack_ok_put)
    qed
  qed
qed

lemma stack_ok_new_request:
  assumes "handle_new_request E now s i pk M res = Some s'" "stack_ok s" "has_res (\<lambda>r. fst r \<noteq> None) (res_sig s) res"
  shows "stack_ok s'"
proof -
  obtain r s1 where st: "CoAP_StartNewServerInteraction E now s M res i pk = Some (r, s1)"
    using assms(1) by (auto simp: handle_new_request_def split: bind_splits)
  have s1: "stack_ok s1" using assms(2,3) st by (rule stack_ok_server)
  show ?thesis
    using assms(1) st s1 same_iaD [OF same_ia_free s1]
    by (auto simp: handle_new_request_def split: bind_splits if_splits dest!: same_ia_short(3)
        intro: same_iaD [OF same_ia_trans [OF _ same_ia_free]])
qed

lemma same_ia_unknown:
  assumes "unknown_resource E now s i ep M = Some s'"
  shows "same_ia s s'"
proof -
  obtain mid s0 where mid: "next_mid s = (mid, s0)" by fastforce
  obtain s1 where s1: "s' = free_msg E s1 (Some M)"
    "(\<exists>r. send_ShortResp E now s ACK RESP_NOT_FOUND_4_04 (MessageID M) (Token64 M) i ep = Some (r, s1)) \<or>
     (\<exists>r. send_ShortResp E now s0 NON RESP_NOT_FOUND_4_04 mid (Token64 M) i ep = Some (r, s1))"
    using assms by (auto simp: unknown_resource_def mid split: bind_splits if_splits)
  have "same_ia s s1"
    using s1(2) by (auto intro: same_ia_short(3) same_ia_trans [OF same_ia_mid [OF mid] same_ia_short(3)])
  then show ?thesis unfolding s1(1) using same_ia_free by (rule same_ia_trans)
qed

lemma same_ia_bad:
  assumes "bad_option E now s i ep M = Some s'"
  shows "same_ia s s'"
  using assms same_ia_free [of s E "Some M"]
  by (auto simp: bad_option_def split: bind_splits if_splits dest!: same_ia_short(2,3)
      intro: same_ia_trans [OF _ same_ia_free])

lemma stack_ok_dispatch:
  assumes "dispatch E now s i pk M = Some s'" "stack_ok s"
  shows "stack_ok s'"
proof -
  let ?res = "if CoAP_MsgIsRequest M then CoAP_FindResourceByUri (pResList s) (pOptionsList M) else None"
  obtain r s1 where ap: "CoAP_ApplyReliabilityStateToInteraction s RST_SET (MessageID M) i (Sender pk) = (r, s1)" by fastforce
  have rst: "stack_ok (free_msg E s1 (Some M))"
    using stack_ok_apply [OF ap assms(2)] same_iaD [OF same_ia_free] by blast
  note e1 = assms(1) [unfolded dispatch_def Let_def]
  show ?thesis
  proof (cases "Type M = CON \<and> Code M = EMPTY")
    case True
    from e1 [unfolded if_P [OF True]] show ?thesis
      using assms(2) by (auto dest!: same_ia_short(2) intro: same_iaD [OF same_ia_trans [OF _ same_ia_free]])
  next
    case c1: False
    note e2 = e1 [unfolded if_not_P [OF c1]]
    have free: "stack_ok (free_msg E s (Some M))" by (rule same_iaD [OF same_ia_free assms(2)])
    show ?thesis
    proof (cases "Type M = ACK \<and> CoAP_MsgIsRequest M \<or> Type M = RST \<and> Code M \<noteq> EMPTY")
      case True
      then have "s' = free_msg E s (Some M)" using e2 by (auto split: if_splits)
      with free show ?thesis by simp
    next
      case False
      then have c2: "\<not> (Type M = ACK \<and> CoAP_MsgIsRequest M)" "\<not> (Type M = RST \<and> Code M \<noteq> EMPTY)" by blast+
      note e3 = e2 [unfolded if_not_P [OF c2(1)] if_not_P [OF c2(2)]]
      show ?thesis
      proof (cases "CoAP_MsgIsRequest M \<and> (case get_res s ?res of None \<Rightarrow> True | Some R \<Rightarrow> Handler R = None)")
        case True
        from e3 [unfolded if_P [OF True]] show ?thesis by (rule same_iaD [OF same_ia_unknown assms(2)])
      next
        case c3: False
        note e4 = e3 [unfolded if_not_P [OF c3]]
        have res: "has_res (\<lambda>r. fst r \<noteq> None) (res_sig s) ?res" if "CoAP_MsgIsRequest M"
          using c3 that by (auto simp: get_res_def has_res_def res_sig_def split: option.splits if_splits)
        show ?thesis
        proof (cases "CoAP_CheckForUnknownCriticalOption (pOptionsList M) = 0")
          case False
          then show ?thesis using e4 assms(2) by (simp add: same_iaD [OF same_ia_bad])
        next
          case True
          then have "stack_ok s'" if "Type M = CON \<or> Type M = NON"
            using that e4 res stack_ok_new_request [OF _ assms(2)] stack_ok_separate [OF _ assms(2)]
            by (cases "CoAP_MsgIsRequest M") auto
          then show ?thesis
            using e4 True ap rst stack_ok_piggyback [OF _ assms(2)] by (cases "Type M") auto
        qed
      qed
    qed
  qed
qed

lemma stack_ok_packet:
  assumes "CoAP_onNewPacketHandler E now s i pk = Some s'" "stack_ok s"
  shows "stack_ok s'"
  using assms
  by (auto simp: CoAP_onNewPacketHandler_def Let_def split: if_splits option.splits prod.splits
      intro: stack_ok_dispatch same_iaD [OF same_ia_mem(1)])

lemma stack_ok_received:
  "CoAP_ReceivedPacket E now s i d len = Some s' \<Longrightarrow> stack_ok s \<Longrightarrow> stack_ok s'"
  "CoAP_ReceivedUdp4Packet E now s i ip port d len = Some s' \<Longrightarrow> stack_ok s \<Longrightarrow> stack_ok s'"
  by (auto simp: CoAP_ReceivedPacket_def CoAP_ReceivedUdp4Packet_def deliver_def Let_def
      split: option.splits NetReceiveCallback.splits intro: stack_ok_packet)

section \<open>Reachable states\<close>

lemma ia_ok_more: "ia_ok sig x \<Longrightarrow> ia_ok (sig @ sig') x"
  by (auto simp: ia_ok_def has_res_def nth_append split: CoAP_InteractionRole_t.splits option.splits)

lemma stack_ok_create:
  assumes "CoAP_CreateResource A m (pResList s) n uri d opts h nt = Some (R, L, n', m')" "stack_ok s"
  shows "stack_ok (s\<lparr>mem := m', pResList := L, ResListMembers := n'\<rparr>)"
proof -
  have "\<exists>rs. L = pResList s @ rs"
    using assms(1)
    by (auto simp: CoAP_CreateResource_def CoAP_AppendResourceToList_def Let_def split: prod.splits if_splits)
  then show ?thesis
    using assms(2) ia_ok_more by (fastforce simp: stack_ok_def res_sig_def list_all_iff)
qed

text \<open>The calls of the application and of the network, in any order and with any arguments. The
  handlers, the notifiers and the transmit functions are those of the environment \<open>E\<close>.\<close>

inductive step :: "'m env \<Rightarrow> 'm stack \<Rightarrow> 'm stack \<Rightarrow> bool" for E where
  work: "CoAP_doWork E now s = Some s' \<Longrightarrow> step E s s'"
| packet: "CoAP_ReceivedUdp4Packet E now s i ip port d len = Some s' \<Longrightarrow> step E s s'"
| uart: "CoAP_ReceivedPacket E now s i d len = Some s' \<Longrightarrow> step E s s'"
| get: "CoAP_StartNewGetRequest E s uri i ep cb = (r, s') \<Longrightarrow> step E s s'"
| request: "CoAP_StartNewClientInteraction E s M i ep cb = (r, s') \<Longrightarrow> step E s s'"
| notify: "CoAP_NotifyResourceObservers E s k = Some (r, s') \<Longrightarrow> step E s s'"
| create: "CoAP_CreateResource (ops E) (mem s) (pResList s) (ResListMembers s) uri d opts h nt = Some (R, L, n', m') \<Longrightarrow>
    step E s (s\<lparr>mem := m', pResList := L, ResListMembers := n'\<rparr>)"
| socket: "CoAP_CreateInterfaceSocket tx (SocketCtrl s) i = (k, S') \<Longrightarrow> step E s (s\<lparr>SocketCtrl := S'\<rparr>)"

inductive reachable :: "'m env \<Rightarrow> 'm stack \<Rightarrow> bool" for E where
  start: "CoAP_Init E init (stack0 m S) p n = Some (r, s) \<Longrightarrow> reachable E s"
| next_state: "reachable E s \<Longrightarrow> step E s s' \<Longrightarrow> reachable E s'"

lemma step_stack_ok: "step E s s' \<Longrightarrow> stack_ok s \<Longrightarrow> stack_ok s'"
proof (induction rule: step.induct)
  case (socket tx s i k S')
  then show ?case by (simp add: stack_ok_def res_sig_def)
qed (blast intro: stack_ok_doWork stack_ok_received stack_ok_get_request stack_ok_client stack_ok_notify stack_ok_create)+

lemma reachable_stack_ok: "reachable E s \<Longrightarrow> stack_ok s"
proof (induction rule: reachable.induct)
  case (start init m S p n r s)
  then show ?case
    by (auto simp: CoAP_Init_def stack0_def stack_ok_def split: option.splits)
qed (blast intro: step_stack_ok)

end
