(* ===== verification/Stack_Owned.thy ===== *)
theory Stack_Owned
  imports Stack_Inv Ownership
begin

text \<open>
  Ownership in the running stack: an interaction is its struct together with its messages. What the
  release of an interaction and the transmission of a response do to the heap, and what the list
  operations do to an interaction at the head of the list.
\<close>

section \<open>The head of the interaction list\<close>

lemma enqueue_rotates:
  assumes "pInteractions s = x # xs" "distinct (map ia_at (x # xs))" "ia_at y = ia_at x"
  shows "pInteractions (CoAP_EnqueueLastInteraction s y) = xs @ [y]"
proof -
  have "filter (\<lambda>z. ia_at z \<noteq> ia_at x) xs = xs" using distinct_map_hd [OF assms(2)] by (intro filter_True) blast
  then show ?thesis
    using assms(1,3) by (simp add: CoAP_EnqueueLastInteraction_def CoAP_MoveInteractionToListEnd_def CoAP_AppendInteractionToList_def)
qed

lemma put_ia_hd:
  assumes "pInteractions s = x # xs" "distinct (map ia_at (x # xs))" "ia_at y = ia_at x"
  shows "pInteractions (put_ia s y) = y # xs"
proof -
  have "map (\<lambda>z. if ia_at z = ia_at x then y else z) xs = xs" using distinct_map_hd [OF assms(2)] by (intro map_idI) simp
  then show ?thesis using assms(1,3) by (simp add: put_ia_def)
qed

lemma delete_hd:
  assumes "pInteractions s = x # xs"
  shows "pInteractions (snd (CoAP_DeleteInteraction E s (ia_at x))) = xs"
    "Outbox (snd (CoAP_DeleteInteraction E s (ia_at x))) = Outbox s"
    "Delivered (snd (CoAP_DeleteInteraction E s (ia_at x))) = Delivered s"
  using assms
  by (simp_all add: CoAP_DeleteInteraction_def CoAP_UnlinkInteractionFromList_def CoAP_FreeInteraction_def Let_def
      split: prod.splits)

section \<open>Interactions as objects\<close>

definition msg_objs :: "CoAP_Message_t option \<Rightarrow> obj list" where
  "msg_objs M = (case M of None \<Rightarrow> [] | Some N \<Rightarrow> [OMsg N])"

lemma msg_objs_simps [simp]: "msg_objs None = []" "msg_objs (Some M) = [OMsg M]"
  by (simp_all add: msg_objs_def)

definition ia_objs :: "CoAP_Interaction_t \<Rightarrow> obj list" where
  "ia_objs x = msg_objs (pReqMsg x) @ msg_objs (pRespMsg x) @ [OBuf (ia_at x)]"

context coap_allocator
begin

lemma owns_free_optional:
  assumes "rep m h" "owns (mem_area A m) g (msg_objs M @ zs) h"
  obtains m' h' where "CoAP_free_Message A m M = (COAP_OK, None, m')" "rep m' h'" "owns (mem_area A m') g zs h'"
proof (cases M)
  case None
  then show thesis using that [of m h] assms by simp
next
  case (Some N)
  show thesis
    by (rule owns_free_message [OF assms(1), of g N zs]) (use assms(2) Some that in simp_all)
qed

text \<open>An interaction is released with its messages.\<close>

lemma owns_FreeInteraction:
  assumes "ops E = A" "rep (mem s) h" "owns (mem_area A (mem s)) g (ia_objs x @ zs) h"
  obtains m' h' where "CoAP_FreeInteraction E s x = s\<lparr>mem := m'\<rparr>" "rep m' h'" "owns (mem_area A m') g zs h'"
proof -
  obtain m1 h1 where 1: "CoAP_free_Message A (mem s) (pReqMsg x) = (COAP_OK, None, m1)" "rep m1 h1"
    "owns (mem_area A m1) g (msg_objs (pRespMsg x) @ OBuf (ia_at x) # zs) h1"
    by (rule owns_free_optional [OF assms(2), of g "pReqMsg x" "msg_objs (pRespMsg x) @ OBuf (ia_at x) # zs"])
      (use assms(3) in \<open>simp_all add: ia_objs_def\<close>)
  obtain m2 h2 where 2: "CoAP_free_Message A m1 (pRespMsg x) = (COAP_OK, None, m2)" "rep m2 h2"
    "owns (mem_area A m2) g (OBuf (ia_at x) # zs) h2"
    by (rule owns_free_optional [OF 1(2,3)])
  obtain h3 where "rep (coap_mem_release A m2 (ia_at x)) h3" "owns (mem_area A (coap_mem_release A m2 (ia_at x))) g zs h3"
    by (rule owns_release [OF 2(2,3)])
  then show thesis using that 1(1) 2(1) assms(1) by (simp add: CoAP_FreeInteraction_def)
qed

lemma owns_free_msg:
  assumes "ops E = A" "rep (mem s) h" "owns (mem_area A (mem s)) g (msg_objs M @ zs) h"
  obtains m' h' where "free_msg E s M = s\<lparr>mem := m'\<rparr>" "rep m' h'" "owns (mem_area A m') g zs h'"
proof -
  obtain m' h' where "CoAP_free_Message A (mem s) M = (COAP_OK, None, m')" "rep m' h'" "owns (mem_area A m') g zs h'"
    by (rule owns_free_optional [OF assms(2,3)])
  then show thesis using that assms(1) by (simp add: free_msg_def)
qed

lemma owns_DeleteInteraction:
  assumes "ops E = A" "rep (mem s) h" "pInteractions s = x # xs" "owns (mem_area A (mem s)) g (ia_objs x @ zs) h"
  obtains m' h' where "CoAP_DeleteInteraction E s (ia_at x) = (COAP_OK, s\<lparr>pInteractions := xs, mem := m'\<rparr>)" "rep m' h'"
    "owns (mem_area A m') g zs h'"
proof -
  let ?s = "s\<lparr>pInteractions := xs\<rparr>"
  obtain m' h' where "CoAP_FreeInteraction E ?s x = ?s\<lparr>mem := m'\<rparr>" "rep m' h'" "owns (mem_area A m') g zs h'"
    by (rule owns_FreeInteraction [OF assms(1), of ?s h g x zs]) (use assms in simp_all)
  then show thesis
    using that assms(3) by (simp add: CoAP_DeleteInteraction_def CoAP_UnlinkInteractionFromList_def)
qed

end

section \<open>Sending a response\<close>

text \<open>Fields that do not matter for ownership.\<close>

lemma owns_msg_cong:
  "msg_at N = msg_at M \<Longrightarrow> Payload N = Payload M \<Longrightarrow> pOptionsList N = pOptionsList M \<Longrightarrow>
    owns ar g (OMsg N # zs) h \<longleftrightarrow> owns ar g (OMsg M # zs) h"
  by (simp add: owns_def msg_ptrs_def payload_placed_def)

lemma owns_sent: "owns ar g (OMsg (sent_msg now b M) # zs) h \<longleftrightarrow> owns ar g (OMsg M # zs) h"
  by (rule owns_msg_cong) (simp_all add: sent_msg_def Let_def)

lemma sent_msg_fields [simp]:
  "Type (sent_msg now b M) = Type M" "MessageID (sent_msg now b M) = MessageID M" "Token64 (sent_msg now b M) = Token64 M"
  "Code (sent_msg now b M) = Code M"
  by (simp_all add: sent_msg_def Let_def)

text \<open>The interaction after a response of type \<open>ACK\<close> or \<open>NON\<close> or \<open>CON\<close> has been transmitted.\<close>

definition after_resp :: "u32 \<Rightarrow> CoAP_Interaction_t \<Rightarrow> CoAP_Message_t \<Rightarrow> CoAP_InteractionState_t \<Rightarrow> CoAP_Interaction_t" where
  "after_resp now x N st =
     (let ia = x\<lparr>pRespMsg := Some (sent_msg now True N)\<rparr>
      in (if Type N = ACK then ia\<lparr>ReqReliabilityState := ACK_SET\<rparr>
          else if Type N = CON then CoAP_EnableAckTimeout now ia (RetransCounter ia) else ia)\<lparr>State := st\<rparr>)"

lemma after_resp_objs: "ia_objs (after_resp now x N st) = msg_objs (pReqMsg x) @ [OMsg (sent_msg now True N), OBuf (ia_at x)]"
  "ia_at (after_resp now x N st) = ia_at x" "State (after_resp now x N st) = st"
  "pRespMsg (after_resp now x N st) = Some (sent_msg now True N)"
  "Type N = ACK \<Longrightarrow> ReqReliabilityState (after_resp now x N st) = ACK_SET"
  by (simp_all add: after_resp_def ia_objs_def CoAP_EnableAckTimeout_def Let_def)

text \<open>The interaction after its request has been repeated.\<close>

definition after_retry :: "u32 \<Rightarrow> CoAP_Interaction_t \<Rightarrow> CoAP_Message_t \<Rightarrow> CoAP_Interaction_t" where
  "after_retry now x N = CoAP_EnableAckTimeout now
     (x\<lparr>pReqMsg := Some (sent_msg now True N), RetransCounter := RetransCounter x + 1\<rparr>) (RetransCounter x + 1)"

lemma ia_objs_resp:
  assumes "pRespMsg x = Some N"
  shows "owns ar g (ia_objs x @ zs) h \<longleftrightarrow> owns ar g (OMsg N # msg_objs (pReqMsg x) @ OBuf (ia_at x) # zs) h"
  by (rule owns_mset) (simp add: ia_objs_def assms)

context coap_allocator
begin

lemma area_SendMsg: "CoAP_SendMsg A m now S buf pked M i ep = Some (r, M', pk, m') \<Longrightarrow> mem_area A m' = mem_area A m"
  by (auto simp: CoAP_SendMsg_def Let_def area_release split: option.splits prod.splits if_splits dest: area_get)

lemma send_cases:
  assumes "ops E = A" "rep (mem s) h" "msg_wf N" "int (length (encode_message N)) \<le> MAX_REQ"
    and "RetrieveSocket2 (SocketCtrl s) i = Some k" "Tx (SocketMemory (SocketCtrl s) ! k) = Some tx"
  obtains (sent) pk m' where "pData pk = encode_message N" "Receiver pk = ep" "tx i pk"
      "send E now s N i ep = Some (COAP_OK, sent_msg now True N, s\<lparr>mem := m', Outbox := Outbox s @ [(i, pk)]\<rparr>)"
      "rep m' h" "mem_area A m' = mem_area A (mem s)"
  | (refused) pk m' where "pData pk = encode_message N" "Receiver pk = ep" "\<not> tx i pk"
      "send E now s N i ep = Some (COAP_ERR_NETWORK, sent_msg now False N, s\<lparr>mem := m', Outbox := Outbox s @ [(i, pk)]\<rparr>)"
      "rep m' h" "mem_area A m' = mem_area A (mem s)"
  | (oom) m' where "send E now s N i ep = Some (COAP_ERR_OUT_OF_MEMORY, N, s\<lparr>mem := m'\<rparr>)"
      "16 < length (encode_message N)" "rep m' h" "mem_area A m' = mem_area A (mem s)"
proof (rule send_msg [OF assms(2-6), where now = now and buf = "stale_buf E" and pked = "stale_pked E" and Rcv = ep])
  fix m1 pk
  assume pk: "pk = packet_of (stale_pked E) (SocketMemory (SocketCtrl s) ! k) ep N"
    and c: "CoAP_SendMsg A (mem s) now (SocketCtrl s) (stale_buf E) (stale_pked E) N i ep =
       Some (if tx i pk then COAP_OK else COAP_ERR_NETWORK, sent_msg now (tx i pk) N, Some pk, m1)"
    and m1: "rep m1 h" "mem_area A m1 = mem_area A (mem s)"
  have pd: "pData pk = encode_message N" "Receiver pk = ep" by (simp_all add: pk packet_of_def)
  have snd: "send E now s N i ep = Some (if tx i pk then COAP_OK else COAP_ERR_NETWORK, sent_msg now (tx i pk) N,
      s\<lparr>mem := m1, Outbox := Outbox s @ [(i, pk)]\<rparr>)" by (simp add: send_def on_stack_def assms(1) c)
  show thesis
    by (cases "tx i pk") (use snd sent [OF pd _ _ m1] refused [OF pd _ _ m1] in simp_all)
next
  fix m1
  assume c: "CoAP_SendMsg A (mem s) now (SocketCtrl s) (stale_buf E) (stale_pked E) N i ep =
      Some (COAP_ERR_OUT_OF_MEMORY, N, None, m1)" and m1: "rep m1 h" "16 < length (encode_message N)"
  then show thesis using oom [of m1] area_SendMsg [OF c] by (simp add: send_def on_stack_def assms(1))
qed

text \<open>A changed interaction at the head of the list is stored and then deleted.\<close>

lemma drop_head:
  assumes "ops E = A" "rep (mem s) h" "pInteractions s = x # xs" "distinct (map ia_at (x # xs))" "ia_at y = ia_at x"
    and "owns (mem_area A (mem s)) g (ia_objs y @ zs) h"
  obtains m' h' where "snd (CoAP_DeleteInteraction E (put_ia s y) (ia_at y)) = s\<lparr>pInteractions := xs, mem := m'\<rparr>"
    "rep m' h'" "owns (mem_area A m') g zs h'"
proof -
  have p: "put_ia s y = s\<lparr>pInteractions := y # xs\<rparr>" using put_ia_hd [OF assms(3-5)] by (simp add: put_ia_def)
  show thesis
    by (rule owns_DeleteInteraction [OF assms(1), of "put_ia s y" h y xs g zs])
      (use assms(2,6) in \<open>simp_all add: p\<close>, rule that, simp_all add: p)
qed

lemma SendResp_owned:
  assumes "ops E = A" "rep (mem s) h" "pInteractions s = x # xs" "distinct (map ia_at (x # xs))"
    and "owns (mem_area A (mem s)) g (ia_objs x @ zs) h" "pRespMsg x = Some N" "pReqMsg x = Some req"
    and "msg_wf N" "int (length (encode_message N)) \<le> MAX_REQ"
    and "RetrieveSocket2 (SocketCtrl s) (ia_ifID x) = Some k" "Tx (SocketMemory (SocketCtrl s) ! k) = Some tx"
  obtains (sent) pk m' where "pData pk = encode_message N" "Receiver pk = RemoteEp x" "tx (ia_ifID x) pk"
      "SendResp E now s x st = Some (COAP_OK, s\<lparr>mem := m', Outbox := Outbox s @ [(ia_ifID x, pk)],
         pInteractions := xs @ [after_resp now x N st]\<rparr>)"
      "rep m' h" "owns (mem_area A m') g (ia_objs (after_resp now x N st) @ zs) h"
  | (refused) pk s' h' where "pData pk = encode_message N" "Receiver pk = RemoteEp x" "\<not> tx (ia_ifID x) pk"
      "SendResp E now s x st = Some (COAP_ERR_SOCKET, s')" "Outbox s' = Outbox s @ [(ia_ifID x, pk)]" "pInteractions s' = xs"
      "rep (mem s') h'" "owns (mem_area A (mem s')) g zs h'"
  | (oom) s' h' where "SendResp E now s x st = Some (COAP_ERR_SOCKET, s')" "Outbox s' = Outbox s" "pInteractions s' = xs"
      "16 < length (encode_message N)" "rep (mem s') h'" "owns (mem_area A (mem s')) g zs h'"
proof -
  note own = assms(5) [unfolded ia_objs_resp [OF assms(6)]]
  have lost: "\<exists>m' h'. SendResp E now s x st = Some (COAP_ERR_SOCKET, s\<lparr>mem := m1, Outbox := out, pInteractions := xs, mem := m'\<rparr>) \<and>
      rep m' h' \<and> owns (mem_area A m') g zs h'"
    if c: "send E now s N (ia_ifID x) (RemoteEp x) = Some (r, N', s\<lparr>mem := m1, Outbox := out\<rparr>)" "r \<noteq> COAP_OK"
      and m1: "rep m1 h" "mem_area A m1 = mem_area A (mem s)" and N': "N' = N \<or> N' = sent_msg now False N" for r N' m1 out
  proof (rule drop_head [OF assms(1), of "s\<lparr>mem := m1, Outbox := out\<rparr>" h x xs "x\<lparr>pRespMsg := Some N'\<rparr>" g zs])
    show "owns (mem_area A (mem (s\<lparr>mem := m1, Outbox := out\<rparr>))) g (ia_objs (x\<lparr>pRespMsg := Some N'\<rparr>) @ zs) h"
      using own m1(2) N' by (subst ia_objs_resp [of _ N']) (auto simp: owns_sent)
  qed (use c assms(3,4,6,7) m1 in \<open>auto simp: SendResp_def\<close>)
  from assms(1,2,8-11) show thesis
  proof (cases rule: send_cases [where now = now and ep = "RemoteEp x"])
    case s: (sent pk m1)
    let ?s1 = "s\<lparr>mem := m1, Outbox := Outbox s @ [(ia_ifID x, pk)]\<rparr>" and ?y = "after_resp now x N st"
    have "SendResp E now s x st = Some (COAP_OK, CoAP_EnqueueLastInteraction ?s1 ?y)"
      using s(4) assms(6) by (simp add: SendResp_def after_resp_def Let_def)
    moreover have "CoAP_EnqueueLastInteraction ?s1 ?y = ?s1\<lparr>pInteractions := xs @ [?y]\<rparr>"
      using enqueue_rotates [of ?s1 x xs ?y] assms(3,4)
      by (simp add: CoAP_EnqueueLastInteraction_def after_resp_objs(2))
    moreover have "owns (mem_area A m1) g (ia_objs ?y @ zs) h"
      using own s(6) by (subst ia_objs_resp [OF after_resp_objs(4)])
        (simp add: owns_sent after_resp_objs(2) after_resp_def CoAP_EnableAckTimeout_def Let_def)
    ultimately show thesis using sent [OF s(1-3)] s(5) by simp
  next
    case r: (refused pk m1)
    show thesis using lost [OF r(4) _ r(5,6)] refused [OF r(1-3)] by auto
  next
    case o: (oom m1)
    have "send E now s N (ia_ifID x) (RemoteEp x) = Some (COAP_ERR_OUT_OF_MEMORY, N, s\<lparr>mem := m1, Outbox := Outbox s\<rparr>)"
      using o(1) by simp
    from lost [OF this _ o(3,4)] oom o(2) show thesis by auto
  qed
qed

lemma retransmit_req_owned:
  assumes "ops E = A" "rep (mem s) h" "pInteractions s = x # xs" "distinct (map ia_at (x # xs))"
    and "owns (mem_area A (mem s)) g (ia_objs x @ zs) h" "pReqMsg x = Some N"
    and "msg_wf N" "int (length (encode_message N)) \<le> MAX_REQ"
    and "RetrieveSocket2 (SocketCtrl s) (ia_ifID x) = Some k" "Tx (SocketMemory (SocketCtrl s) ! k) = Some tx"
  obtains (sent) pk m' where "pData pk = encode_message N" "Receiver pk = RemoteEp x" "tx (ia_ifID x) pk"
      "retransmit_req E now s x = Some (s\<lparr>mem := m', Outbox := Outbox s @ [(ia_ifID x, pk)], pInteractions := after_retry now x N # xs\<rparr>)"
      "rep m' h" "owns (mem_area A m') g (ia_objs (after_retry now x N) @ zs) h"
  | (refused) pk s' h' where "pData pk = encode_message N" "Receiver pk = RemoteEp x" "\<not> tx (ia_ifID x) pk"
      "retransmit_req E now s x = Some s'" "Outbox s' = Outbox s @ [(ia_ifID x, pk)]" "pInteractions s' = xs"
      "rep (mem s') h'" "owns (mem_area A (mem s')) g zs h'"
  | (oom) s' h' where "retransmit_req E now s x = Some s'" "Outbox s' = Outbox s" "pInteractions s' = xs"
      "16 < length (encode_message N)" "rep (mem s') h'" "owns (mem_area A (mem s')) g zs h'"
proof -
  have own: "owns ar g (ia_objs (x\<lparr>pReqMsg := Some N'\<rparr>) @ zs) h"
    if "ar = mem_area A (mem s)" "N' = N \<or> N' = sent_msg now b N" for ar N' b
    using assms(5,6) that owns_sent [of ar g now b N] by (auto simp: ia_objs_def)
  have lost: "\<exists>m' h'. retransmit_req E now s x = Some (s\<lparr>mem := m1, Outbox := out, pInteractions := xs, mem := m'\<rparr>) \<and>
      rep m' h' \<and> owns (mem_area A m') g zs h'"
    if c: "send E now s N (ia_ifID x) (RemoteEp x) = Some (r, N', s\<lparr>mem := m1, Outbox := out\<rparr>)" "r \<noteq> COAP_OK"
      and m1: "rep m1 h" "mem_area A m1 = mem_area A (mem s)" and N': "N' = N \<or> N' = sent_msg now False N" for r N' m1 out
    by (rule drop_head [OF assms(1), of "s\<lparr>mem := m1, Outbox := out\<rparr>" h x xs "x\<lparr>pReqMsg := Some N'\<rparr>" g zs])
      (use c assms(3,4,6) m1 own [OF m1(2) N'] in \<open>auto simp: retransmit_req_def\<close>)
  from assms(1,2,7-10) show thesis
  proof (cases rule: send_cases [where now = now and ep = "RemoteEp x"])
    case s: (sent pk m1)
    let ?s1 = "s\<lparr>mem := m1, Outbox := Outbox s @ [(ia_ifID x, pk)]\<rparr>" and ?y = "after_retry now x N"
    have "retransmit_req E now s x = Some (put_ia ?s1 ?y)"
      using s(4) assms(6) by (simp add: retransmit_req_def after_retry_def Let_def)
    moreover have "put_ia ?s1 ?y = ?s1\<lparr>pInteractions := ?y # xs\<rparr>"
      using put_ia_hd [of ?s1 x xs ?y] assms(3,4) by (simp add: put_ia_def after_retry_def CoAP_EnableAckTimeout_def)
    moreover have "owns (mem_area A m1) g (ia_objs ?y @ zs) h"
      using own [OF s(6), of "sent_msg now True N" True] by (simp add: after_retry_def CoAP_EnableAckTimeout_def ia_objs_def)
    ultimately show thesis using sent [OF s(1-3)] s(5) by simp
  next
    case r: (refused pk m1)
    show thesis using lost [OF r(4) _ r(5,6)] refused [OF r(1-3)] by auto
  next
    case o: (oom m1)
    have "send E now s N (ia_ifID x) (RemoteEp x) = Some (COAP_ERR_OUT_OF_MEMORY, N, s\<lparr>mem := m1, Outbox := Outbox s\<rparr>)"
      using o(1) by simp
    from lost [OF this _ o(3,4)] oom o(2) show thesis by auto
  qed
qed

end

end
