(* ===== verification/Stack_Safe.thy ===== *)
theory Stack_Safe
  imports Holding_Resource Stack_Owned
begin

text \<open>
  Memory safety of the running stack. The stack owns the structs of its interactions with their
  messages, of its resources with their options and descriptions, and of the observers: all of them
  are live buffers of the allocator, and no buffer belongs to two of them. Every operation of the
  stack keeps this, so nothing is released twice and nothing that is still in use is released.
\<close>

section \<open>What the stack owns\<close>

definition ia_mset :: "CoAP_Interaction_t \<Rightarrow> obj multiset" where
  "ia_mset x = message_objs (pReqMsg x) + message_objs (pRespMsg x) + {#OBuf (ia_at x)#}"

definition ias_mset :: "CoAP_Interaction_t list \<Rightarrow> obj multiset" where
  "ias_mset L = (\<Sum>x \<in># mset L. ia_mset x)"

lemma ias_mset_simps [simp]:
  "ias_mset [] = {#}" "ias_mset (x # L) = ia_mset x + ias_mset L" "ias_mset (L @ M) = ias_mset L + ias_mset M"
  by (simp_all add: ias_mset_def)

text \<open>Bounds for the messages: a handler leaves a response of at most \<open>HANDLER_WEIGHT\<close>, and what the
  stack adds keeps it below \<open>MAX_WEIGHT\<close>. Options of requests are those the parser accepts.\<close>

definition HANDLER_WEIGHT :: nat where "HANDLER_WEIGHT = 32000"
definition MAX_WEIGHT :: nat where "MAX_WEIGHT = 32700"

definition resp_fits :: "nat \<Rightarrow> CoAP_Message_t option \<Rightarrow> bool" where
  "resp_fits b M = (case M of None \<Rightarrow> True | Some N \<Rightarrow> msg_fits b N)"

definition short_options :: "CoAP_Message_t option \<Rightarrow> bool" where
  "short_options M = (case M of None \<Rightarrow> True | Some N \<Rightarrow> list_all (\<lambda>p. opt_wf p \<and> Length p \<le> 1034) (pOptionsList N))"

lemma fits_simps [simp]:
  "resp_fits b None" "resp_fits b (Some M) \<longleftrightarrow> msg_fits b M" "short_options None"
  "short_options (Some M) \<longleftrightarrow> list_all (\<lambda>p. opt_wf p \<and> Length p \<le> 1034) (pOptionsList M)"
  by (simp_all add: resp_fits_def short_options_def)

definition ia_fits :: "CoAP_Interaction_t \<Rightarrow> bool" where
  "ia_fits x \<longleftrightarrow>
     (case Role x of
        COAP_ROLE_SERVER \<Rightarrow> short_options (pReqMsg x) \<and>
          resp_fits (if State x = COAP_STATE_RESPONSE_SENT then MAX_WEIGHT else HANDLER_WEIGHT) (pRespMsg x)
      | COAP_ROLE_NOTIFICATION \<Rightarrow> resp_fits MAX_WEIGHT (pRespMsg x)
      | COAP_ROLE_CLIENT \<Rightarrow> resp_fits MAX_WEIGHT (pReqMsg x)
      | COAP_ROLE_NOT_SET \<Rightarrow> True)"

definition res_count_ok :: "'m stack \<Rightarrow> bool" where
  "res_count_ok s \<longleftrightarrow> unat (ResListMembers s) = length (pResList s) \<and> length (pResList s) < 500"

definition stack_safe :: "'m mem_ops \<Rightarrow> ('m \<Rightarrow> heap \<Rightarrow> bool) \<Rightarrow> 'm stack \<Rightarrow> bool" where
  "stack_safe A rep s \<longleftrightarrow> holds A rep (mem s) (ias_mset (pInteractions s) + ress_objs (pResList s)) \<and>
     list_all ia_fits (pInteractions s) \<and> res_count_ok s"

text \<open>The stack while an operation works on a copy \<open>y\<close> of one interaction: the copy owns the
  messages, the version in the list is out of date.\<close>

definition other_ias :: "'m stack \<Rightarrow> ptr \<Rightarrow> CoAP_Interaction_t list" where
  "other_ias s p = filter (\<lambda>z. ia_at z \<noteq> p) (pInteractions s)"

definition working :: "'m mem_ops \<Rightarrow> ('m \<Rightarrow> heap \<Rightarrow> bool) \<Rightarrow> 'm stack \<Rightarrow> CoAP_Interaction_t \<Rightarrow> bool" where
  "working A rep s y \<longleftrightarrow> distinct (map ia_at (pInteractions s)) \<and> ia_at y \<in> ia_at ` set (pInteractions s) \<and>
     holds A rep (mem s) (ia_mset y + (ias_mset (other_ias s (ia_at y)) + ress_objs (pResList s))) \<and>
     list_all ia_fits (other_ias s (ia_at y)) \<and> res_count_ok s"

lemma ias_distinct:
  assumes "holds A rep m (ias_mset L + X)"
  shows "distinct (map ia_at L)"
  using assms
proof (induction L arbitrary: X)
  case (Cons x L)
  have "holds A rep m (ias_mset L + (ia_mset x + X))" using Cons.prems by (simp add: ac_simps)
  then have "distinct (map ia_at L)" by (rule Cons.IH)
  moreover have "ia_at x \<noteq> ia_at z" if z: "z \<in> set L" for z
  proof -
    obtain us vs where L: "L = us @ z # vs" using z by (meson split_list)
    have "\<exists>Y. ias_mset (x # L) + X = add_mset (OBuf (ia_at x)) (add_mset (OBuf (ia_at z)) Y)"
      by (simp add: L ia_mset_def)
    then show ?thesis using Cons.prems holds_distinct by metis
  qed
  ultimately show ?case by auto
qed simp

lemma distinct_split:
  assumes "distinct (map ia_at L)" "x \<in> set L" "ia_at x = p"
  obtains us vs where "L = us @ x # vs" "filter (\<lambda>z. ia_at z \<noteq> p) L = us @ vs"
    "map (\<lambda>z. if ia_at z = p then y else z) L = us @ y # vs"
    "unlink_first (\<lambda>z. ia_at z = p) L = (Some x, us @ vs)"
proof -
  obtain us vs where L: "L = us @ x # vs" using assms(2) by (meson split_list)
  have ne: "\<forall>z \<in> set (us @ vs). ia_at z \<noteq> p" using assms(1,3) by (auto simp: L image_iff)
  have f: "filter (\<lambda>z. ia_at z \<noteq> p) zs = zs" "map (\<lambda>z. if ia_at z = p then y else z) zs = zs" if "\<forall>z \<in> set zs. ia_at z \<noteq> p" for zs
    using that by (auto intro: map_idI)
  have "unlink_first (\<lambda>z. ia_at z = p) (zs @ x # vs) = (Some x, zs @ vs)" if "\<forall>z \<in> set zs. ia_at z \<noteq> p" for zs
    using that assms(3) by (induction zs) auto
  then show thesis using ne f [of us] f [of vs] assms(3) by (intro that [OF L]) (auto simp: L)
qed

lemma stack_safe_distinct: "stack_safe A rep s \<Longrightarrow> distinct (map ia_at (pInteractions s))"
  by (auto simp: stack_safe_def dest: ias_distinct)

text \<open>Taking a copy, and the three ways to give it back.\<close>

lemma working_start:
  assumes "stack_safe A rep s" "y \<in> set (pInteractions s)"
  shows "working A rep s y \<and> ia_fits y"
proof -
  note d = stack_safe_distinct [OF assms(1)]
  obtain us vs where L: "pInteractions s = us @ y # vs" "other_ias s (ia_at y) = us @ vs"
    by (rule distinct_split [OF d assms(2) refl]) (simp add: other_ias_def)
  have "ias_mset (pInteractions s) + ress_objs (pResList s) = ia_mset y + (ias_mset (us @ vs) + ress_objs (pResList s))"
    by (simp add: L(1) ac_simps)
  then have "holds A rep (mem s) (ia_mset y + (ias_mset (us @ vs) + ress_objs (pResList s)))" using assms(1) unfolding stack_safe_def by metis
  moreover have "list_all ia_fits (us @ y # vs)" "res_count_ok s" using assms(1) by (simp_all add: stack_safe_def L(1))
  ultimately show ?thesis using assms(2) d by (simp add: working_def L(2))
qed

lemma working_split:
  assumes "working A rep s y"
  obtains x us vs where "pInteractions s = us @ x # vs" "ia_at x = ia_at y" "other_ias s (ia_at y) = us @ vs"
    "put_ia s y = s\<lparr>pInteractions := us @ y # vs\<rparr>"
proof -
  obtain x where x: "x \<in> set (pInteractions s)" "ia_at x = ia_at y" using assms by (auto simp: working_def)
  have d: "distinct (map ia_at (pInteractions s))" using assms by (simp add: working_def)
  show thesis
    by (rule distinct_split [OF d x, of y]) (rule that [OF _ x(2)], simp_all add: other_ias_def put_ia_def)
qed

lemma safe_put:
  assumes "working A rep s y" "ia_fits y"
  shows "stack_safe A rep (put_ia s y)"
proof -
  obtain x us vs where L: "pInteractions s = us @ x # vs" "other_ias s (ia_at y) = us @ vs" "put_ia s y = s\<lparr>pInteractions := us @ y # vs\<rparr>"
    by (rule working_split [OF assms(1)])
  have "ias_mset (us @ y # vs) + ress_objs (pResList s) = ia_mset y + (ias_mset (us @ vs) + ress_objs (pResList s))"
    by (simp add: ac_simps)
  then have "holds A rep (mem s) (ias_mset (us @ y # vs) + ress_objs (pResList s))" using assms(1) unfolding working_def L(2) by metis
  then show ?thesis using assms by (simp add: working_def stack_safe_def L(2,3) res_count_ok_def)
qed

lemma safe_enqueue:
  assumes "working A rep s y" "ia_fits y"
  shows "stack_safe A rep (CoAP_EnqueueLastInteraction s y)"
proof -
  have "pInteractions (CoAP_EnqueueLastInteraction s y) = other_ias s (ia_at y) @ [y]"
    by (simp add: CoAP_EnqueueLastInteraction_def CoAP_MoveInteractionToListEnd_def CoAP_AppendInteractionToList_def other_ias_def)
  then show ?thesis
    using assms by (simp add: working_def stack_safe_def res_count_ok_def CoAP_EnqueueLastInteraction_def ac_simps)
qed

text \<open>Storing another version of the interaction does not matter.\<close>

lemma working_put:
  assumes "working A rep s y" "ia_at z = ia_at y"
  shows "working A rep (put_ia s z) y"
proof -
  have f: "filter (\<lambda>x. ia_at x \<noteq> ia_at y) (map (\<lambda>x. if ia_at x = ia_at y then z else x) L) = filter (\<lambda>x. ia_at x \<noteq> ia_at y) L"
    "map ia_at (map (\<lambda>x. if ia_at x = ia_at y then z else x) L) = map ia_at L" for L
    using assms(2) by (induction L) auto
  then have "map ia_at (pInteractions (put_ia s z)) = map ia_at (pInteractions s)" "other_ias (put_ia s z) (ia_at y) = other_ias s (ia_at y)"
    using assms(2) by (simp_all only: put_ia_def other_ias_def) simp_all
  moreover have "mem (put_ia s z) = mem s" "pResList (put_ia s z) = pResList s" "ResListMembers (put_ia s z) = ResListMembers s"
    by (simp_all add: put_ia_def)
  ultimately show ?thesis using assms(1) unfolding working_def res_count_ok_def set_map [symmetric] by simp
qed

lemma working_put_self: "working A rep s y \<Longrightarrow> working A rep (put_ia s y) y"
  by (rule working_put) simp_all

text \<open>An operation on the allocator and on the copy.\<close>

lemma working_change:
  assumes "working A rep s y" "ia_at y' = ia_at y"
    and "\<And>X. holds A rep (mem s) (ia_mset y + X) \<Longrightarrow> holds A rep (mem s') (ia_mset y' + X)"
    and "pInteractions s' = pInteractions s" "pResList s' = pResList s" "ResListMembers s' = ResListMembers s"
  shows "working A rep s' y'"
  using assms by (simp add: working_def other_ias_def res_count_ok_def)

lemma safe_change:
  assumes "stack_safe A rep s" "\<And>X. holds A rep (mem s) X \<Longrightarrow> holds A rep (mem s') X"
    and "pInteractions s' = pInteractions s" "pResList s' = pResList s" "ResListMembers s' = ResListMembers s"
  shows "stack_safe A rep s'"
  using assms by (simp add: stack_safe_def res_count_ok_def)

section \<open>Operations on the allocator\<close>

text \<open>The states before and after an operation that changes the allocator and what does not matter here.\<close>

definition same_lists :: "'m stack \<Rightarrow> 'm stack \<Rightarrow> bool" where
  "same_lists s s' \<longleftrightarrow> pInteractions s' = pInteractions s \<and> pResList s' = pResList s \<and> ResListMembers s' = ResListMembers s"

lemma same_lists_refl [simp]: "same_lists s s" "same_lists s (s\<lparr>mem := m\<rparr>)" "same_lists s (s\<lparr>mem := m, MId := i\<rparr>)"
  "same_lists s (s\<lparr>MId := i\<rparr>)" "same_lists s (s\<lparr>mem := m, Outbox := out\<rparr>)" "same_lists s (s\<lparr>Delivered := d\<rparr>)"
  by (simp_all add: same_lists_def)

lemma same_lists_trans [trans]: "same_lists s s' \<Longrightarrow> same_lists s' s'' \<Longrightarrow> same_lists s s''"
  by (simp add: same_lists_def)

context coap_allocator
begin

lemma holds_send:
  assumes "ops E = A" "holds A rep (mem s) X" "msg_fits MAX_WEIGHT M" "send E now s M i ep = Some (r, M', s')"
  shows "holds A rep (mem s') X \<and> same_lists s s' \<and> (M' = M \<or> (\<exists>b. M' = sent_msg now b M))"
proof -
  obtain k where k: "RetrieveSocket2 (SocketCtrl s) i = Some k"
    using assms(4) by (auto simp: send_def on_stack_def CoAP_SendMsg_def split: option.splits)
  show ?thesis
  proof (cases "Tx (SocketMemory (SocketCtrl s) ! k)")
    case None
    then show ?thesis using assms(2,4) k by (auto simp: send_def on_stack_def CoAP_SendMsg_def same_lists_def)
  next
    case (Some tx)
    obtain zs g h where zs: "mset zs = X" "rep (mem s) h" "owns (mem_area A (mem s)) g ([] @ zs) h"
      by (rule holdsE [of "mem s" "[]" X]) (use assms(2) in auto)
    have wf: "msg_wf M" "int (length (encode_message M)) \<le> MAX_REQ"
      using assms(3) encode_message_weight [of M] by (auto simp: msg_fits_def MAX_WEIGHT_def MAX_REQ_def)
    from assms(1) zs(2) wf k Some show ?thesis
    proof (cases rule: send_cases [where now = now and ep = ep])
      case (sent pk m')
      then show ?thesis using assms(4) zs by (auto simp: same_lists_def intro: holdsI)
    next
      case (refused pk m')
      then show ?thesis using assms(4) zs by (auto simp: same_lists_def intro: holdsI)
    next
      case (oom m')
      then show ?thesis using assms(4) zs by (auto simp: same_lists_def intro: holdsI)
    qed
  qed
qed

lemma holds_short:
  assumes "ops E = A" "holds A rep (mem s) X"
  shows "send_EmptyAck E now s mid i ep = Some (r, s') \<Longrightarrow> holds A rep (mem s') X \<and> same_lists s s'"
    "send_EmptyRST E now s mid i ep = Some (r, s') \<Longrightarrow> holds A rep (mem s') X \<and> same_lists s s'"
    "send_ShortResp E now s ty code mid tok i ep = Some (r, s') \<Longrightarrow> holds A rep (mem s') X \<and> same_lists s s'"
proof -
  have short: "holds A rep (mem s') X \<and> same_lists s s'"
    if "map_option (\<lambda>(r, _, s'). (r, s')) (send E now s M i ep) = Some (r, s')" "pOptionsList M = []" "PayloadLength M = 0" "Payload M = NULL" for M r s'
    using that holds_send [OF assms, of M now i ep]
    by (auto simp: msg_fits_def msg_wf_def opts_wf_def msg_weight_def MAX_WEIGHT_def local_array_def)
  show "send_EmptyAck E now s mid i ep = Some (r, s') \<Longrightarrow> holds A rep (mem s') X \<and> same_lists s s'"
    "send_EmptyRST E now s mid i ep = Some (r, s') \<Longrightarrow> holds A rep (mem s') X \<and> same_lists s s'"
    "send_ShortResp E now s ty code mid tok i ep = Some (r, s') \<Longrightarrow> holds A rep (mem s') X \<and> same_lists s s'"
    using short [of "(CoAP_InitToEmptyResetMsg NULL)\<lparr>Type := ACK, MessageID := mid\<rparr>" r s'] short [of "(CoAP_InitToEmptyResetMsg NULL)\<lparr>MessageID := mid\<rparr>" r s']
      short [of "(CoAP_InitToEmptyResetMsg NULL)\<lparr>Type := ty, MessageID := mid, Code := code, Token64 := tok\<rparr>" r s']
    unfolding send_EmptyAck_def send_EmptyRST_def send_ShortResp_def CoAP_SendEmptyAck_def CoAP_SendEmptyRST_def
      CoAP_SendShortResp_def send_def [symmetric]
    by (simp_all add: CoAP_InitToEmptyResetMsg_def)
qed

lemma holds_free_msg:
  assumes "ops E = A" "holds A rep (mem s) (message_objs M + X)"
  shows "holds A rep (mem (free_msg E s M)) X" "same_lists s (free_msg E s M)"
  using holds_free_message [OF assms(2)] assms(1) by (simp_all add: free_msg_def same_lists_def case_prod_beta)

lemma holds_FreeInteraction:
  assumes "ops E = A" "holds A rep (mem s) (ia_mset x + X)"
  shows "holds A rep (mem (CoAP_FreeInteraction E s x)) X" "same_lists s (CoAP_FreeInteraction E s x)"
proof -
  let ?m1 = "snd (snd (CoAP_free_Message A (mem s) (pReqMsg x)))"
  have "holds A rep ?m1 (message_objs (pRespMsg x) + add_mset (OBuf (ia_at x)) X)"
    using assms(2) by (intro holds_free_message) (simp add: ia_mset_def ac_simps)
  from holds_release [OF holds_free_message [OF this]]
  show "holds A rep (mem (CoAP_FreeInteraction E s x)) X"
    by (simp add: CoAP_FreeInteraction_def assms(1) case_prod_beta)
  show "same_lists s (CoAP_FreeInteraction E s x)" by (simp add: CoAP_FreeInteraction_def case_prod_beta)
qed

end

section \<open>Deleting interactions\<close>

lemma unlink_first_Some:
  "unlink_first P L = (Some x, L') \<Longrightarrow> \<exists>us vs. L = us @ x # vs \<and> L' = us @ vs \<and> P x"
proof (induction L arbitrary: L')
  case (Cons y L)
  show ?case
  proof (cases "P y")
    case False
    then obtain K where "unlink_first P L = (Some x, K)" "L' = y # K" using Cons.prems by (auto split: prod.splits)
    then show ?thesis using Cons.IH [of K] by (metis append_Cons)
  qed (use Cons.prems in \<open>auto intro: exI [of _ "[]"]\<close>)
qed simp

context coap_allocator
begin

lemma unlink_safe:
  assumes "ops E = A" "stack_safe A rep s" "unlink_first P (pInteractions s) = (Some x, L)"
  shows "stack_safe A rep (CoAP_FreeInteraction E (s\<lparr>pInteractions := L\<rparr>) x)"
proof -
  let ?s = "s\<lparr>pInteractions := L\<rparr>"
  obtain us vs where L: "pInteractions s = us @ x # vs" "L = us @ vs" using unlink_first_Some [OF assms(3)] by blast
  have "holds A rep (mem ?s) (ia_mset x + (ias_mset L + ress_objs (pResList s)))"
    using assms(2) by (simp add: stack_safe_def L ac_simps)
  from holds_FreeInteraction [OF assms(1) this] assms(2) show ?thesis
    by (simp add: stack_safe_def L same_lists_def res_count_ok_def)
qed

lemma safe_Delete:
  assumes "ops E = A" "stack_safe A rep s"
  shows "stack_safe A rep (snd (CoAP_DeleteInteraction E s p))"
  using assms unlink_safe [OF assms]
  by (auto simp: CoAP_DeleteInteraction_def CoAP_UnlinkInteractionFromList_def Let_def split: prod.splits option.splits)

lemma working_Delete:
  assumes "ops E = A" "working A rep s y"
  shows "stack_safe A rep (snd (CoAP_DeleteInteraction E (put_ia s y) (ia_at y)))"
proof -
  obtain x us vs where L: "pInteractions s = us @ x # vs" "ia_at x = ia_at y" "other_ias s (ia_at y) = us @ vs"
    "put_ia s y = s\<lparr>pInteractions := us @ y # vs\<rparr>" by (rule working_split [OF assms(2)])
  have d: "distinct (map ia_at (us @ y # vs))" using assms(2) L(1,2) by (simp add: working_def)
  have "unlink_first (\<lambda>z. ia_at z = ia_at y) (us @ y # vs) = (Some y, us @ vs)"
  proof -
    have "\<forall>z \<in> set us. ia_at z \<noteq> ia_at y" using d by (auto simp: image_iff)
    then show ?thesis by (induction us) auto
  qed
  then have eq: "snd (CoAP_DeleteInteraction E (put_ia s y) (ia_at y)) = CoAP_FreeInteraction E (s\<lparr>pInteractions := us @ vs\<rparr>) y"
    by (simp add: CoAP_DeleteInteraction_def CoAP_UnlinkInteractionFromList_def L(4))
  have "holds A rep (mem (s\<lparr>pInteractions := us @ vs\<rparr>)) (ia_mset y + (ias_mset (us @ vs) + ress_objs (pResList s)))"
    using assms(2) by (simp add: working_def L(3))
  from holds_FreeInteraction [OF assms(1) this] assms(2) show ?thesis
    unfolding eq by (simp add: working_def stack_safe_def L(3) same_lists_def res_count_ok_def)
qed

lemma working_Delete_other:
  assumes "ops E = A" "working A rep s y" "p \<noteq> ia_at y"
  shows "working A rep (snd (CoAP_DeleteInteraction E s p)) y"
proof (cases "fst (unlink_first (\<lambda>z. ia_at z = p) (pInteractions s))")
  case None
  then show ?thesis using assms(2) by (cases "unlink_first (\<lambda>z. ia_at z = p) (pInteractions s)")
      (simp add: CoAP_DeleteInteraction_def CoAP_UnlinkInteractionFromList_def)
next
  case (Some x)
  then obtain L where u: "unlink_first (\<lambda>z. ia_at z = p) (pInteractions s) = (Some x, L)"
    by (cases "unlink_first (\<lambda>z. ia_at z = p) (pInteractions s)") simp
  obtain us vs where L: "pInteractions s = us @ x # vs" "L = us @ vs" "ia_at x = p" using unlink_first_Some [OF u] by blast
  let ?f = "filter (\<lambda>z. ia_at z \<noteq> ia_at y)" and ?s = "s\<lparr>pInteractions := us @ vs\<rparr>"
  have eq: "snd (CoAP_DeleteInteraction E s p) = CoAP_FreeInteraction E ?s x"
    using u by (simp add: CoAP_DeleteInteraction_def CoAP_UnlinkInteractionFromList_def L(2))
  have o: "other_ias s (ia_at y) = ?f us @ x # ?f vs" using L(3) assms(3) by (simp add: other_ias_def L(1))
  have "holds A rep (mem ?s) (ia_mset x + (ia_mset y + (ias_mset (?f us @ ?f vs) + ress_objs (pResList s))))"
    using assms(2) by (simp add: working_def o ac_simps)
  note h = holds_FreeInteraction [OF assms(1) this]
  have "distinct (map ia_at (us @ vs))" "ia_at y \<in> ia_at ` set (us @ vs)" "list_all ia_fits (?f us @ ?f vs)" "res_count_ok s"
    using assms(2,3) L(3) by (auto simp: working_def o L(1))
  with h show ?thesis unfolding eq by (simp add: working_def other_ias_def same_lists_def res_count_ok_def)
qed

section \<open>Sending\<close>

lemma msg_fits_sent: "msg_fits b N \<Longrightarrow> msg_fits b (sent_msg now c N)"
  by (cases c; cases "Code N = EMPTY") (simp_all add: sent_msg_def msg_fits_def msg_wf_def msg_weight_def)

text \<open>What sending does to the copy of the interaction.\<close>

lemma send_resp_working:
  assumes "ops E = A" "working A rep s y" "pRespMsg y = Some N" "msg_fits MAX_WEIGHT N"
    and "send E now s N i ep = Some (r, N', s')"
  shows "working A rep s' (y\<lparr>pRespMsg := Some N'\<rparr>) \<and> msg_fits MAX_WEIGHT N'"
proof -
  obtain X where X: "holds A rep (mem s) X" using assms(2) by (auto simp: working_def)
  have N': "N' = N \<or> (\<exists>b. N' = sent_msg now b N)" and sl: "same_lists s s'"
    using holds_send [OF assms(1) X assms(4,5)] by auto
  have "working A rep s' (y\<lparr>pRespMsg := Some N'\<rparr>)"
  proof (rule working_change [OF assms(2)])
    fix X
    assume "holds A rep (mem s) (ia_mset y + X)"
    from holds_send [OF assms(1) this assms(4,5)] assms(3)
    have "holds A rep (mem s') (add_mset (OMsg N) (message_objs (pReqMsg y) + {#OBuf (ia_at y)#} + X))" by (simp add: ia_mset_def ac_simps)
    then have "holds A rep (mem s') (add_mset (OMsg N') (message_objs (pReqMsg y) + {#OBuf (ia_at y)#} + X))"
      by (rule holds_msg_cong) (use N' in \<open>auto simp: sent_msg_def Let_def\<close>)
    then show "holds A rep (mem s') (ia_mset (y\<lparr>pRespMsg := Some N'\<rparr>) + X)" by (simp add: ia_mset_def ac_simps)
  qed (use sl in \<open>simp_all add: same_lists_def\<close>)
  moreover have "msg_fits MAX_WEIGHT N'"
    using N' assms(4) msg_fits_sent by auto
  ultimately show ?thesis by blast
qed

lemma send_req_working:
  assumes "ops E = A" "working A rep s y" "pReqMsg y = Some N" "msg_fits MAX_WEIGHT N"
    and "send E now s N i ep = Some (r, N', s')"
  shows "working A rep s' (y\<lparr>pReqMsg := Some N'\<rparr>) \<and> msg_fits MAX_WEIGHT N'"
proof -
  obtain X where X: "holds A rep (mem s) X" using assms(2) by (auto simp: working_def)
  have N': "N' = N \<or> (\<exists>b. N' = sent_msg now b N)" and sl: "same_lists s s'"
    using holds_send [OF assms(1) X assms(4,5)] by auto
  have "working A rep s' (y\<lparr>pReqMsg := Some N'\<rparr>)"
  proof (rule working_change [OF assms(2)])
    fix X
    assume "holds A rep (mem s) (ia_mset y + X)"
    from holds_send [OF assms(1) this assms(4,5)] assms(3)
    have "holds A rep (mem s') (add_mset (OMsg N) (message_objs (pRespMsg y) + {#OBuf (ia_at y)#} + X))" by (simp add: ia_mset_def ac_simps)
    then have "holds A rep (mem s') (add_mset (OMsg N') (message_objs (pRespMsg y) + {#OBuf (ia_at y)#} + X))"
      by (rule holds_msg_cong) (use N' in \<open>auto simp: sent_msg_def Let_def\<close>)
    then show "holds A rep (mem s') (ia_mset (y\<lparr>pReqMsg := Some N'\<rparr>) + X)" by (simp add: ia_mset_def ac_simps)
  qed (use sl in \<open>simp_all add: same_lists_def\<close>)
  moreover have "msg_fits MAX_WEIGHT N'"
    using N' assms(4) msg_fits_sent by auto
  ultimately show ?thesis by blast
qed

text \<open>Fields that are neither the address nor a message.\<close>

lemma working_fields:
  "ia_at y' = ia_at y \<Longrightarrow> pReqMsg y' = pReqMsg y \<Longrightarrow> pRespMsg y' = pRespMsg y \<Longrightarrow> working A rep s y' \<longleftrightarrow> working A rep s y"
  by (simp add: working_def ia_mset_def)

lemma safe_SendResp:
  assumes "ops E = A" "working A rep s y" "resp_fits MAX_WEIGHT (pRespMsg y)"
    and "Role y = COAP_ROLE_SERVER \<and> st = COAP_STATE_RESPONSE_SENT \<and> short_options (pReqMsg y) \<or> Role y = COAP_ROLE_NOTIFICATION"
    and "SendResp E now s y st = Some (r, s')"
  shows "stack_safe A rep s'"
proof -
  obtain N r1 N' s1 where N: "pRespMsg y = Some N" "send E now s N (ia_ifID y) (RemoteEp y) = Some (r1, N', s1)"
    using assms(5) by (auto simp: SendResp_def split: bind_splits)
  let ?y = "y\<lparr>pRespMsg := Some N'\<rparr>"
  have w: "working A rep s1 ?y" "msg_fits MAX_WEIGHT N'"
    using send_resp_working [OF assms(1,2) N(1) _ N(2)] assms(3) N(1) by auto
  show ?thesis
  proof (cases "r1 = COAP_OK")
    case True
    let ?y1 = "(if Type N' = ACK then ?y\<lparr>ReqReliabilityState := ACK_SET\<rparr> else if Type N' = CON then CoAP_EnableAckTimeout now ?y (RetransCounter ?y) else ?y)\<lparr>State := st\<rparr>"
    have "s' = CoAP_EnqueueLastInteraction s1 ?y1" using assms(5) N True by (simp add: SendResp_def Let_def)
    moreover have "working A rep s1 ?y1" using w(1) by (subst working_fields [of _ ?y]) (simp_all add: CoAP_EnableAckTimeout_def)
    moreover have "ia_fits ?y1" using w(2) assms(4) by (auto simp: ia_fits_def CoAP_EnableAckTimeout_def)
    ultimately show ?thesis using safe_enqueue by blast
  next
    case False
    then have "s' = snd (CoAP_DeleteInteraction E (put_ia s1 ?y) (ia_at ?y))"
      using assms(5) N by (auto simp: SendResp_def Let_def split: if_splits)
    then show ?thesis using working_Delete [OF assms(1) w(1)] by simp
  qed
qed

lemma safe_SendReq:
  assumes "ops E = A" "working A rep s y" "resp_fits MAX_WEIGHT (pReqMsg y)" "Role y = COAP_ROLE_CLIENT"
    and "SendReq E now s y st = Some (r, s')"
  shows "stack_safe A rep s'"
proof -
  obtain N r1 N' s1 where N: "pReqMsg y = Some N" "send E now s N (ia_ifID y) (RemoteEp y) = Some (r1, N', s1)"
    using assms(5) by (auto simp: SendReq_def split: bind_splits)
  let ?y = "y\<lparr>pReqMsg := Some N'\<rparr>"
  have w: "working A rep s1 ?y" "msg_fits MAX_WEIGHT N'"
    using send_req_working [OF assms(1,2) N(1) _ N(2)] assms(3) N(1) by auto
  show ?thesis
  proof (cases "r1 = COAP_OK")
    case True
    let ?y1 = "(if Type N' = CON then CoAP_EnableAckTimeout now ?y (RetransCounter ?y) else ?y)\<lparr>State := st\<rparr>"
    have "s' = CoAP_EnqueueLastInteraction s1 ?y1" using assms(5) N True by (simp add: SendReq_def Let_def)
    moreover have "working A rep s1 ?y1" using w(1) by (subst working_fields [of _ ?y]) (simp_all add: CoAP_EnableAckTimeout_def)
    moreover have "ia_fits ?y1" using w(2) assms(4) by (auto simp: ia_fits_def CoAP_EnableAckTimeout_def)
    ultimately show ?thesis using safe_enqueue by blast
  next
    case False
    then have "s' = snd (CoAP_DeleteInteraction E (put_ia s1 ?y) (ia_at ?y))"
      using assms(5) N by (auto simp: SendReq_def Let_def split: if_splits)
    then show ?thesis using working_Delete [OF assms(1) w(1)] by simp
  qed
qed

section \<open>States that wait\<close>

lemma safe_retransmit_resp:
  assumes "ops E = A" "working A rep s y" "ia_fits y"
    and "Role y = COAP_ROLE_SERVER \<and> State y = COAP_STATE_RESPONSE_SENT \<or> Role y = COAP_ROLE_NOTIFICATION"
    and "retransmit_resp E now s y = Some s'"
  shows "stack_safe A rep s'"
proof -
  obtain N r1 N' s1 where N: "pRespMsg y = Some N" "send E now s N (ia_ifID y) (RemoteEp y) = Some (r1, N', s1)"
    using assms(5) by (auto simp: retransmit_resp_def split: bind_splits)
  let ?y = "y\<lparr>pRespMsg := Some N'\<rparr>"
  have w: "working A rep s1 ?y" "msg_fits MAX_WEIGHT N'"
    using send_resp_working [OF assms(1,2) N(1) _ N(2)] assms(3,4) N(1) by (auto simp: ia_fits_def)
  show ?thesis
  proof (cases "r1 = COAP_OK")
    case True
    let ?y1 = "CoAP_EnableAckTimeout now (?y\<lparr>RetransCounter := RetransCounter ?y + 1\<rparr>) (RetransCounter ?y + 1)"
    have "s' = put_ia s1 ?y1" using assms(5) N True by (simp add: retransmit_resp_def Let_def)
    moreover have "working A rep s1 ?y1" using w(1) by (subst working_fields [of _ ?y]) (simp_all add: CoAP_EnableAckTimeout_def)
    moreover have "ia_fits ?y1" using w(2) assms(3,4) by (auto simp: ia_fits_def CoAP_EnableAckTimeout_def)
    ultimately show ?thesis using safe_put by blast
  next
    case False
    then have "s' = snd (CoAP_DeleteInteraction E (put_ia s1 ?y) (ia_at ?y))"
      using assms(5) N by (auto simp: retransmit_resp_def Let_def split: if_splits)
    then show ?thesis using working_Delete [OF assms(1) w(1)] by simp
  qed
qed

lemma safe_retransmit_req:
  assumes "ops E = A" "working A rep s y" "ia_fits y" "Role y = COAP_ROLE_CLIENT" "retransmit_req E now s y = Some s'"
  shows "stack_safe A rep s'"
proof -
  obtain N r1 N' s1 where N: "pReqMsg y = Some N" "send E now s N (ia_ifID y) (RemoteEp y) = Some (r1, N', s1)"
    using assms(5) by (auto simp: retransmit_req_def split: bind_splits)
  let ?y = "y\<lparr>pReqMsg := Some N'\<rparr>"
  have w: "working A rep s1 ?y" "msg_fits MAX_WEIGHT N'"
    using send_req_working [OF assms(1,2) N(1) _ N(2)] assms(3,4) N(1) by (auto simp: ia_fits_def)
  show ?thesis
  proof (cases "r1 = COAP_OK")
    case True
    let ?y1 = "CoAP_EnableAckTimeout now (?y\<lparr>RetransCounter := RetransCounter ?y + 1\<rparr>) (RetransCounter ?y + 1)"
    have "s' = put_ia s1 ?y1" using assms(5) N True by (simp add: retransmit_req_def Let_def)
    moreover have "working A rep s1 ?y1" using w(1) by (subst working_fields [of _ ?y]) (simp_all add: CoAP_EnableAckTimeout_def)
    moreover have "ia_fits ?y1" using w(2) assms(4) by (auto simp: ia_fits_def CoAP_EnableAckTimeout_def)
    ultimately show ?thesis using safe_put by blast
  next
    case False
    then have "s' = snd (CoAP_DeleteInteraction E (put_ia s1 ?y) (ia_at ?y))"
      using assms(5) N by (auto simp: retransmit_req_def Let_def split: if_splits)
    then show ?thesis using working_Delete [OF assms(1) w(1)] by simp
  qed
qed

lemma safe_enqueue_same: "stack_safe A rep s \<Longrightarrow> y \<in> set (pInteractions s) \<Longrightarrow> stack_safe A rep (CoAP_EnqueueLastInteraction s y)"
  using working_start safe_enqueue by blast

lemma safe_response_sent:
  assumes "ops E = A" "stack_safe A rep s" "y \<in> set (pInteractions s)" "Role y = COAP_ROLE_SERVER" "State y = COAP_STATE_RESPONSE_SENT"
    and "response_sent E now s y = Some s'"
  shows "stack_safe A rep s'"
proof -
  note w = working_start [OF assms(2,3)]
  from assms(6) show ?thesis
    using safe_enqueue_same [OF assms(2,3)] safe_Delete [OF assms(1,2)] safe_retransmit_resp [OF assms(1), of s y now s'] w assms(4,5)
    by (auto simp: response_sent_def split: bind_splits if_splits)
qed

lemma safe_waiting_response:
  assumes "ops E = A" "stack_safe A rep s" "y \<in> set (pInteractions s)" "Role y = COAP_ROLE_CLIENT" "waiting_response E now s y = Some s'"
  shows "stack_safe A rep s'"
proof -
  note w = working_start [OF assms(2,3)]
  from assms(5) show ?thesis
    using safe_enqueue_same [OF assms(2,3)] safe_Delete [OF assms(1,2)] safe_retransmit_req [OF assms(1), of s y now s'] w assms(4)
    by (auto simp: waiting_response_def split: bind_splits if_splits)
qed

lemma safe_handle_response:
  assumes "ops E = A" "stack_safe A rep s" "handle_response E s y = Some s'"
  shows "stack_safe A rep s'"
proof -
  obtain s1 where s1: "s1 = s \<or> (\<exists>d. s1 = s\<lparr>Delivered := d\<rparr>)" "s' = snd (CoAP_DeleteInteraction E s1 (ia_at y))"
    using assms(3) by (auto simp: handle_response_def split: option.splits)
  then have "stack_safe A rep s1" using assms(2) by (auto intro: safe_change)
  then show ?thesis using safe_Delete [OF assms(1)] s1(2) by blast
qed

section \<open>Observers\<close>

end

definition res_step :: "'m mem_ops \<Rightarrow> ('m \<Rightarrow> heap \<Rightarrow> bool) \<Rightarrow> 'm stack \<Rightarrow> 'm stack \<Rightarrow> bool" where
  "res_step A rep s s' \<longleftrightarrow> pInteractions s' = pInteractions s \<and> length (pResList s') = length (pResList s) \<and>
     ResListMembers s' = ResListMembers s \<and>
     (\<forall>X. holds A rep (mem s) (ress_objs (pResList s) + X) \<longrightarrow> holds A rep (mem s') (ress_objs (pResList s') + X))"

lemma working_res_step: "working A rep s y \<Longrightarrow> res_step A rep s s' \<Longrightarrow> working A rep s' y"
proof -
  assume w: "working A rep s y" and r: "res_step A rep s s'"
  let ?X = "ia_mset y + ias_mset (other_ias s (ia_at y))"
  have "holds A rep (mem s) (ress_objs (pResList s) + ?X)" using w by (simp add: working_def ac_simps)
  then have "holds A rep (mem s') (ress_objs (pResList s') + ?X)" using r unfolding res_step_def by blast
  then show ?thesis using w r by (simp add: working_def res_step_def other_ias_def res_count_ok_def ac_simps)
qed

lemma safe_res_step: "stack_safe A rep s \<Longrightarrow> res_step A rep s s' \<Longrightarrow> stack_safe A rep s'"
proof -
  assume w: "stack_safe A rep s" and r: "res_step A rep s s'"
  have "holds A rep (mem s) (ress_objs (pResList s) + ias_mset (pInteractions s))" using w by (simp add: stack_safe_def ac_simps)
  then have "holds A rep (mem s') (ress_objs (pResList s') + ias_mset (pInteractions s))" using r unfolding res_step_def by blast
  then show ?thesis using w r by (simp add: stack_safe_def res_step_def res_count_ok_def ac_simps)
qed

lemma res_step_refl [simp]: "res_step A rep s s"
  by (simp add: res_step_def)

lemma res_step_observers:
  assumes "k < length (pResList s)"
    and "\<And>X. holds A rep (mem s) (obs_objs (pListObservers (pResList s ! k)) + X) \<Longrightarrow> holds A rep m' (obs_objs obs + X)"
  shows "res_step A rep s (put_observers (s\<lparr>mem := m'\<rparr>) k obs)"
proof -
  let ?R = "pResList s ! k"
  obtain Y where Y: "\<And>obs c. ress_objs ((pResList s)[k := ?R\<lparr>UpdateCnt := c, pListObservers := obs\<rparr>]) = obs_objs obs + Y"
    "ress_objs (pResList s) = obs_objs (pListObservers ?R) + Y" using ress_objs_observers [OF assms(1)] by blast
  have "ress_objs ((pResList s)[k := ?R\<lparr>pListObservers := obs\<rparr>]) = obs_objs obs + Y"
    using Y(1) [of obs "UpdateCnt ?R"] by simp
  then show ?thesis using assms(2) Y(2) by (simp add: res_step_def put_observers_def add.assoc)
qed

context coap_allocator
begin

lemma res_step_RemoveObserver:
  assumes "ops E = A" "CoAP_RemoveInteractionsObserver E s x tok = Some (r, s')"
  shows "res_step A rep s s'"
proof -
  obtain k where k: "pRes x = Some k" "k < length (pResList s)"
    using assms(2) by (auto simp: CoAP_RemoveInteractionsObserver_def get_res_def split: option.splits if_splits)
  obtain obs m' where o: "CoAP_RemoveObserverFromResource A (mem s) (pListObservers (pResList s ! k)) (ia_ifID x) (RemoteEp x) tok = (r, obs, m')"
    "s' = put_observers (s\<lparr>mem := m'\<rparr>) k obs"
    using assms k by (auto simp: CoAP_RemoveInteractionsObserver_def get_res_def split: prod.splits)
  show ?thesis unfolding o(2) by (rule res_step_observers [OF k(2)]) (rule holds_RemoveObserver [OF _ o(1)])
qed

lemma holds_copy_obs:
  assumes "holds A rep m (opt_objs L + X)" "copy_obs_options A m L os = (ok, L', m')" "list_all (\<lambda>p. opt_wf p \<and> Length p \<le> 1034) os"
  shows "holds A rep m' (opt_objs L' + X)"
  using assms
proof (induction os arbitrary: m L)
  case (Cons p os)
  obtain r L1 m1 where a: "CoAP_AppendOptionToList A m L (Number p) (Value p) (Length p) = (r, L1, m1)" by (metis prod_cases3)
  have sz: "sizeof_CoAP_option_t + uint (Length p) \<le> MAX_REQ"
    using Cons.prems(3) by (simp add: sizeof_CoAP_option_t_def MAX_REQ_def word_le_nat_alt uint_nat del: of_nat_unat)
  note h = holds_append [OF Cons.prems(1) a sz]
  show ?case using Cons.prems Cons.IH h a by (auto split: if_splits)
qed simp

lemma res_step_register:
  assumes "ops E = A" "k < length (pResList s)" "R = pResList s ! k" "short_options (Some req)"
    and "register_observer E s k R x req = (r, s')"
  shows "res_step A rep s s'"
proof -
  obtain o1 m1 where al: "CoAP_AllocNewObserver A (mem s) = (o1, m1)" by fastforce
  have h1: "holds A rep m1 ((case o1 of None \<Rightarrow> {#} | Some ob \<Rightarrow> {#OBuf (ob_at ob)#}) + X)" if "holds A rep (mem s) X" for X
    using holds_get0 [OF that, of sizeof_CoAP_Observer_t] al
    by (auto simp: CoAP_AllocNewObserver_def sizeof_CoAP_Observer_t_def MAX_REQ_def split: prod.splits if_splits)
  show ?thesis
  proof (cases o1)
    case None
    then have "s' = s\<lparr>mem := m1\<rparr>" using assms(1,5) al by (simp add: register_observer_def)
    then show ?thesis using h1 None by (simp add: res_step_def)
  next
    case (Some ob)
    have ob: "pOptList ob = []" using al Some by (auto simp: CoAP_AllocNewObserver_def split: prod.splits if_splits)
    obtain ok L m2 where c: "copy_obs_options A m1 [] (pOptionsList req) = (ok, L, m2)" by (metis prod_cases3)
    let ?ob = "ob\<lparr>Ep := RemoteEp x, IfID := ia_ifID x, Token := Token64 req, pOptList := L\<rparr>"
    have h2: "holds A rep m2 (ob_objs ?ob + X)" if "holds A rep (mem s) X" for X
      using holds_copy_obs [OF _ c, of "add_mset (OBuf (ob_at ob)) X"] h1 [OF that] assms(4) Some by (simp add: ob_objs_def ac_simps)
    show ?thesis
    proof (cases ok)
      case False
      then have "s' = s\<lparr>mem := snd (CoAP_FreeObserver A m2 ?ob)\<rparr>" using assms(1,5) al Some c ob by (simp add: register_observer_def)
      then show ?thesis using holds_FreeObserver [OF h2] by (simp add: res_step_def)
    next
      case True
      let ?f = "find_observer (pListObservers R) (ia_ifID x) (RemoteEp x) (Token64 req)"
      let ?un = "\<lambda>old. CoAP_UnlinkObserverFromList A m2 (pListObservers R) (ob_at old) True"
      obtain obs m3 where o: "case ?f of None \<Rightarrow> obs = pListObservers R \<and> m3 = m2 | Some old \<Rightarrow> \<exists>r. ?un old = (r, obs, m3)"
        and s': "s' = put_observers (s\<lparr>mem := m3\<rparr>) k (obs @ [?ob])"
        using assms(1,5) al Some c ob True
        by (auto simp: register_observer_def CoAP_AppendObserverToList_def Let_def split: option.splits prod.splits)
      show ?thesis unfolding s'
      proof (rule res_step_observers [OF assms(2)])
        fix X
        assume "holds A rep (mem s) (obs_objs (pListObservers (pResList s ! k)) + X)"
        from h2 [OF this] have "holds A rep m2 (obs_objs (pListObservers R) + (ob_objs ?ob + X))" by (simp add: assms(3) ac_simps)
        then have "holds A rep m3 (obs_objs obs + (ob_objs ?ob + X))"
          using o holds_UnlinkObserver by (auto split: option.splits)
        then show "holds A rep m3 (obs_objs (obs @ [?ob]) + X)" by (simp add: ac_simps)
      qed
    qed
  qed
qed

end

end
