(* ===== verification/Stack_Safe_Work.thy ===== *)
theory Stack_Safe_Work
  imports Stack_Safe
begin

text \<open>
  Memory safety of the work loop: every branch of \<open>CoAP_doWork\<close> keeps \<open>stack_safe\<close>, whatever the
  handlers and notifiers of the application do to their own message.
\<close>

section \<open>Handlers and notifiers\<close>

text \<open>What the stack expects of the functions of the application: they may change the response and use
  the allocator, but leave every other object alone, and the response stays well formed and of
  bounded size.\<close>

definition handlers_ok :: "'m mem_ops \<Rightarrow> ('m \<Rightarrow> heap \<Rightarrow> bool) \<Rightarrow> 'm env \<Rightarrow> bool" where
  "handlers_ok A rep E \<longleftrightarrow>
     (\<forall>n m req resp res resp' m' X. user_handler E n m req resp = Some (res, resp', m') \<longrightarrow>
        holds A rep m (message_objs resp + X) \<longrightarrow> resp_fits HANDLER_WEIGHT resp \<longrightarrow>
        holds A rep m' (message_objs resp' + X) \<and> resp_fits HANDLER_WEIGHT resp')"

definition notifiers_ok :: "'m mem_ops \<Rightarrow> ('m \<Rightarrow> heap \<Rightarrow> bool) \<Rightarrow> 'm env \<Rightarrow> bool" where
  "notifiers_ok A rep E \<longleftrightarrow>
     (\<forall>n m ob M res M' m' X. user_notifier E n m ob M = Some (res, M', m') \<longrightarrow>
        holds A rep m (add_mset (OMsg M) X) \<longrightarrow> msg_fits MAX_WEIGHT M \<longrightarrow>
        holds A rep m' (add_mset (OMsg M') X) \<and> msg_fits HANDLER_WEIGHT M')"

definition env_ok :: "'m mem_ops \<Rightarrow> ('m \<Rightarrow> heap \<Rightarrow> bool) \<Rightarrow> 'm env \<Rightarrow> bool" where
  "env_ok A rep E \<longleftrightarrow> ops E = A \<and> handlers_ok A rep E \<and> notifiers_ok A rep E"

lemma env_okD: "env_ok A rep E \<Longrightarrow> ops E = A"
  by (simp add: env_ok_def)

lemma find_pending_in: "find_pending L tok i ep = Some (Some x) \<Longrightarrow> x \<in> set L \<and> Role x = COAP_ROLE_NOTIFICATION"
  by (induction L) (auto split: if_splits option.splits)

lemma working_holds_resp:
  assumes "working A rep s y" "pRespMsg y = Some N"
  obtains X where "holds A rep (mem s) (add_mset (OMsg N) X)"
proof -
  have "ia_mset y + X = add_mset (OMsg N) (message_objs (pReqMsg y) + {#OBuf (ia_at y)#} + X)" for X
    by (simp add: ia_mset_def assms(2))
  then show thesis using assms(1) that unfolding working_def by metis
qed

lemma working_holds: "working A rep s y \<Longrightarrow> \<exists>X. holds A rep (mem s) (message_objs (pRespMsg y) + X)"
proof -
  have "ia_mset y + X = message_objs (pRespMsg y) + (message_objs (pReqMsg y) + {#OBuf (ia_at y)#} + X)" for X
    by (simp add: ia_mset_def ac_simps)
  then show "working A rep s y \<Longrightarrow> ?thesis" unfolding working_def by metis
qed

lemma put_ia_stored: "working A rep s y \<Longrightarrow> y \<in> set (pInteractions (put_ia s y))"
proof -
  assume "working A rep s y"
  then obtain x us vs where "put_ia s y = s\<lparr>pInteractions := us @ y # vs\<rparr>" by (rule working_split)
  then show ?thesis by simp
qed

context coap_allocator
begin

lemma handler_holds:
  assumes "env_ok A rep E" "holds A rep (mem s) (message_objs resp + X)" "resp_fits HANDLER_WEIGHT resp" "res_count_ok s"
    and "call_handler E s hf req resp = Some (res, resp', s')"
  shows "holds A rep (mem s') (message_objs resp' + X) \<and> same_lists s s' \<and>
    resp_fits (if res = HANDLER_POSTPONE then HANDLER_WEIGHT else HANDLER_WEIGHT + 271) resp'"
proof (cases hf)
  case (User_handler n)
  then obtain m' where m': "user_handler E n (mem s) req resp = Some (res, resp', m')" "s' = s\<lparr>mem := m'\<rparr>"
    using assms(5) by (auto simp: call_handler_def split: option.splits)
  have "holds A rep m' (message_objs resp' + X) \<and> resp_fits HANDLER_WEIGHT resp'"
    using assms(1-3) m'(1) unfolding env_ok_def handlers_ok_def by blast
  then show ?thesis using m'(2) by (auto simp: resp_fits_def intro: msg_fits_mono split: option.splits)
next
  case WellKnown_fn
  then obtain M M' m' where m': "resp = Some M" "WellKnown_GetHandler A (mem s) (pResList s) (ResListMembers s) req M = Some (res, M', m')"
    "resp' = Some M'" "s' = s\<lparr>mem := m'\<rparr>"
    using assms(5) env_okD [OF assms(1)] by (auto simp: call_handler_def split: option.splits)
  have "unat (ResListMembers s) < 500" using assms(4) by (simp add: res_count_ok_def)
  with holds_WellKnown [OF _ m'(2), of X HANDLER_WEIGHT] assms(2,3) m' show ?thesis by simp
qed

lemma alloc_resp_holds:
  assumes "holds A rep m X" "CoAP_AllocRespMsg A m mid req code mx = (r, m', mid')" "unat mx \<le> 256"
  shows "holds A rep m' (message_objs r + X) \<and> resp_fits HANDLER_WEIGHT r"
proof -
  obtain i where c: "CoAP_CreateMessage A m (CoAP_getRespMsgType req) code i None 0 mx (Token64 req) = (r, m')"
    using assms(2) by (auto simp: CoAP_AllocRespMsg_def split: prod.splits)
  have "sizeof_CoAP_Message_t + uint mx \<le> MAX_REQ"
    using assms(3) by (simp add: sizeof_CoAP_Message_t_def MAX_REQ_def uint_nat del: of_nat_unat)
  from holds_create [OF assms(1) c this] show ?thesis
    by (auto simp: resp_fits_def msg_fits_def msg_weight_def HANDLER_WEIGHT_def local_array_def split: option.splits)
qed

text \<open>A step that replaces the response of the copy.\<close>

lemma working_resp:
  assumes "working A rep s y" "same_lists s s'" "ia_at y' = ia_at y" "pReqMsg y' = pReqMsg y"
    and "\<And>X. holds A rep (mem s) (message_objs (pRespMsg y) + X) \<Longrightarrow> holds A rep (mem s') (message_objs (pRespMsg y') + X)"
  shows "working A rep s' y'"
proof (rule working_change [OF assms(1,3)])
  fix X
  assume "holds A rep (mem s) (ia_mset y + X)"
  then have "holds A rep (mem s) (message_objs (pRespMsg y) + (message_objs (pReqMsg y) + {#OBuf (ia_at y)#} + X))" by (simp add: ia_mset_def ac_simps)
  from assms(5) [OF this] show "holds A rep (mem s') (ia_mset y' + X)" using assms(3,4) by (simp add: ia_mset_def ac_simps)
qed (use assms(2) in \<open>simp_all add: same_lists_def\<close>)

lemma working_observation:
  assumes "ops E = A" "working A rep s y" "y \<in> set (pInteractions s)" "Role y = COAP_ROLE_SERVER" "short_options (pReqMsg y)"
    and "CoAP_HandleObservationInReq E s y = Some (r, s')"
  shows "working A rep s' y"
proof -
  obtain k where k: "pRes y = Some k" "k < length (pResList s)" "get_res s (pRes y) = Some (pResList s ! k)"
    using assms(6) by (auto simp: CoAP_HandleObservationInReq_def get_res_def split: option.splits if_splits)
  from assms(6) consider "s' = s"
    | req where "pReqMsg y = Some req" "register_observer E s k (pResList s ! k) y req = (r, s')"
    | req r1 s1 p where "pReqMsg y = Some req" "CoAP_RemoveInteractionsObserver E s y (Token64 req) = Some (r1, s1)"
        "find_pending (pInteractions s1) (Token64 req) (ia_ifID y) (RemoteEp y) = Some p"
        "s' = (case p of None \<Rightarrow> s1 | Some ia \<Rightarrow> snd (CoAP_DeleteInteraction E s1 (ia_at ia)))"
    using k by (auto simp: CoAP_HandleObservationInReq_def split: option.splits prod.splits if_splits bind_splits)
  then show ?thesis
  proof cases
    case 1
    then show ?thesis using assms(2) by simp
  next
    case (2 req)
    show ?thesis using working_res_step [OF assms(2) res_step_register [OF assms(1) k(2) refl _ 2(2)]] assms(5) 2(1) by simp
  next
    case (3 req r1 s1 p)
    have rs: "res_step A rep s s1" by (rule res_step_RemoveObserver [OF assms(1) 3(2)])
    have w: "working A rep s1 y" by (rule working_res_step [OF assms(2) rs])
    have "ia_at x \<noteq> ia_at y" if "p = Some x" for x
    proof
      assume e: "ia_at x = ia_at y"
      have x: "x \<in> set (pInteractions s)" "Role x = COAP_ROLE_NOTIFICATION"
        using find_pending_in [OF 3(3) [unfolded that]] rs by (auto simp: res_step_def)
      have "inj_on ia_at (set (pInteractions s))" using assms(2) by (simp add: working_def distinct_map)
      then have "x = y" using x(1) assms(3) e by (auto dest: inj_onD)
      then show False using x(2) assms(4) by simp
    qed
    then show ?thesis using w working_Delete_other [OF assms(1) w] 3(4) by (auto split: option.splits)
  qed
qed

lemma working_meta:
  assumes "ops E = A" "working A rep s y" "pRespMsg y = Some N" "msg_fits b N" "add_meta_option E s y N = (N', s')"
  shows "working A rep s' (y\<lparr>pRespMsg := Some N'\<rparr>) \<and> msg_fits (b + 7) N' \<and> Code N' = Code N"
proof (cases "ReqMetaInfo y")
  case META_INFO_NONE
  then have "s' = s" "N' = N" using assms(5) by (auto simp: add_meta_option_def)
  then show ?thesis using assms(2-4) msg_fits_mono [of b N "b + 7"] working_fields [of "y\<lparr>pRespMsg := Some N\<rparr>" y] by simp
next
  case (META_INFO_RF_PATH hop rssi)
  then obtain r m' where a: "append_to_msg A (mem s) N 10000 [hop, of_int (rssi * - 1)] 2 = (r, N', m')" "s' = s\<lparr>mem := m'\<rparr>"
    using assms(1,5) by (auto simp: add_meta_option_def append_to_msg_def split: prod.splits)
  have h: "holds A rep m' (add_mset (OMsg N') X) \<and> msg_fits (b + 7) N' \<and> (\<exists>L. N' = N\<lparr>pOptionsList := L\<rparr>)"
    if "holds A rep (mem s) (add_mset (OMsg N) X)" for X
    using holds_append_msg [OF that a(1) _ _ assms(4)] by (simp add: add.commute)
  moreover obtain X where "holds A rep (mem s) (add_mset (OMsg N) X)"
    by (rule working_holds_resp [OF assms(2,3)])
  ultimately have "msg_fits (b + 7) N' \<and> Code N' = Code N" by fastforce
  moreover have "working A rep s' (y\<lparr>pRespMsg := Some N'\<rparr>)"
    by (rule working_resp [OF assms(2)]) (use h assms(3) a(2) in \<open>auto simp: same_lists_def\<close>)
  ultimately show ?thesis by blast
qed

lemma working_resp_type:
  assumes "working A rep s y" "pRespMsg y = Some N" "msg_fits b N" "set_resp_type s y req N = (N', s')"
  shows "working A rep s' (y\<lparr>pRespMsg := Some N'\<rparr>) \<and> msg_fits b N'"
proof -
  have N': "same_lists s s'" "mem s' = mem s" "N' = N \<or> N' = N\<lparr>Type := ACK\<rparr> \<or> (\<exists>i. N' = N\<lparr>Type := CON, MessageID := i\<rparr>)"
    using assms(4) by (auto simp: set_resp_type_def next_mid_def CoAP_GetNextMid_def same_lists_def split: prod.splits if_splits)
  have "working A rep s' (y\<lparr>pRespMsg := Some N'\<rparr>)"
    by (rule working_resp [OF assms(1) N'(1)]) (use N'(2,3) assms(2) in \<open>auto intro: holds_msg_cong\<close>)
  then show ?thesis using N'(3) assms(3) by auto
qed

lemma working_observe:
  assumes "ops E = A" "working A rep s y" "Role y = COAP_ROLE_SERVER" "short_options (pReqMsg y)"
    and "pRespMsg y = Some N" "msg_fits (HANDLER_WEIGHT + 278) N"
    and "(if Code req = REQ_GET \<and> Code N = RESP_SUCCESS_CONTENT_2_05 then
            do {
              (r, s') \<leftarrow> CoAP_HandleObservationInReq E (put_ia s y) y;
              if r = COAP_OK then
                (let (_, resp3, m') = AddObserveOptionToMsg (ops E) (mem s') N 0
                 in Some (y\<lparr>pRespMsg := Some resp3\<rparr>, s'\<lparr>mem := m'\<rparr>))
              else Some (y, s')
            }
          else Some (y, s)) = Some (y', s')"
  shows "working A rep s' y' \<and> Role y' = Role y \<and> pReqMsg y' = pReqMsg y \<and> resp_fits MAX_WEIGHT (pRespMsg y')"
proof -
  have same: ?thesis if "working A rep s' y" "y' = y"
    using that assms(5) msg_fits_mono [OF assms(6), of MAX_WEIGHT] by (simp add: HANDLER_WEIGHT_def MAX_WEIGHT_def)
  show ?thesis
  proof (cases "Code req = REQ_GET \<and> Code N = RESP_SUCCESS_CONTENT_2_05")
    case False
    then have "y' = y" "s' = s" using assms(7) by (simp_all only: if_False option.inject prod.inject)
    then show ?thesis using same assms(2) by simp
  next
    case True
    obtain r s1 where h: "CoAP_HandleObservationInReq E (put_ia s y) y = Some (r, s1)"
      using assms(7) True by (cases "CoAP_HandleObservationInReq E (put_ia s y) y") auto
    have w: "working A rep s1 y"
      by (rule working_observation [OF assms(1) working_put_self [OF assms(2)] put_ia_stored [OF assms(2)] assms(3,4) h])
    show ?thesis
    proof (cases "r = COAP_OK")
      case False
      then show ?thesis using assms(7) True h w by (intro same) auto
    next
      case r: True
      obtain r2 N2 m2 where a: "AddObserveOptionToMsg A (mem s1) N 0 = (r2, N2, m2)" by (metis prod_cases3)
      then have e: "y' = y\<lparr>pRespMsg := Some N2\<rparr>" "s' = s1\<lparr>mem := m2\<rparr>" using assms(1,7) True h r by auto
      have h2: "holds A rep m2 (add_mset (OMsg N2) X) \<and> msg_fits (HANDLER_WEIGHT + 286) N2" if "holds A rep (mem s1) (add_mset (OMsg N) X)" for X
        using holds_AddObserve [OF that a assms(6)] by (simp add: add.commute)
      obtain X where "holds A rep (mem s1) (add_mset (OMsg N) X)" by (rule working_holds_resp [OF w assms(5)])
      with h2 have "msg_fits (HANDLER_WEIGHT + 286) N2" by blast
      then have "msg_fits MAX_WEIGHT N2" by (rule msg_fits_mono) (simp add: HANDLER_WEIGHT_def MAX_WEIGHT_def)
      moreover have "working A rep s' y'" by (rule working_resp [OF w]) (use h2 e assms(5) in \<open>auto simp: same_lists_def\<close>)
      ultimately show ?thesis by (simp add: e)
    qed
  qed
qed

lemma safe_finish_response:
  assumes "ops E = A" "working A rep s y" "Role y = COAP_ROLE_SERVER" "short_options (pReqMsg y)"
    and "resp_fits (HANDLER_WEIGHT + 271) (pRespMsg y)" "finish_response E now s y req = Some s'"
  shows "stack_safe A rep s'"
proof -
  obtain N where N: "pRespMsg y = Some N" using assms(6) by (auto simp: finish_response_def split: bind_splits)
  obtain N1 s1 where 1: "set_resp_type s y req N = (N1, s1)" by fastforce
  obtain N2 s2 where 2: "add_meta_option E s1 y N1 = (N2, s2)" by fastforce
  let ?y1 = "y\<lparr>pRespMsg := Some N1\<rparr>" and ?y2 = "y\<lparr>pRespMsg := Some N2\<rparr>"
  have w1: "working A rep s1 ?y1" "msg_fits (HANDLER_WEIGHT + 271) N1" using working_resp_type [OF assms(2) N _ 1] assms(5) N by auto
  have "add_meta_option E s1 ?y1 N1 = (N2, s2)" using 2 by (simp add: add_meta_option_def)
  then have w2: "working A rep s2 ?y2" "msg_fits (HANDLER_WEIGHT + 278) N2"
    using working_meta [OF assms(1) w1(1) _ w1(2)] by (simp_all add: add.commute)
  obtain y3 s3 where 3: "(if Code req = REQ_GET \<and> Code N2 = RESP_SUCCESS_CONTENT_2_05 then
            do {
              (r, s') \<leftarrow> CoAP_HandleObservationInReq E (put_ia s2 ?y2) ?y2;
              if r = COAP_OK then
                (let (_, resp3, m') = AddObserveOptionToMsg (ops E) (mem s') N2 0
                 in Some (?y2\<lparr>pRespMsg := Some resp3\<rparr>, s'\<lparr>mem := m'\<rparr>))
              else Some (?y2, s')
            }
          else Some (?y2, s2)) = Some (y3, s3)"
    and send: "map_option snd (SendResp E now (put_ia s3 y3) y3 COAP_STATE_RESPONSE_SENT) = Some s'"
    using assms(6) N 1 2 by (auto simp: finish_response_def Let_def split: bind_splits)
  have "working A rep s3 y3 \<and> Role y3 = Role ?y2 \<and> pReqMsg y3 = pReqMsg ?y2 \<and> resp_fits MAX_WEIGHT (pRespMsg y3)"
    by (rule working_observe [OF assms(1) w2(1) _ _ _ w2(2) 3]) (use assms(3,4) in simp_all)
  then show ?thesis
    using safe_SendResp [OF assms(1) working_put_self, of s3 y3 COAP_STATE_RESPONSE_SENT now] assms(3,4) send by auto
qed

lemma working_short:
  assumes "ops E = A" "working A rep s y" "send_EmptyAck E now s mid i ep = Some (r, s')"
  shows "working A rep s' y"
proof -
  have "same_lists s s'" using holds_short(1) [OF assms(1) _ assms(3)] assms(2) by (auto simp: working_def)
  then show ?thesis
    by (intro working_change [OF assms(2) refl]) (use holds_short(1) [OF assms(1) _ assms(3)] in \<open>auto simp: same_lists_def\<close>)
qed

lemma safe_postpone:
  assumes "ops E = A" "working A rep s y" "ia_fits y" "Role y = COAP_ROLE_SERVER" "State y \<noteq> COAP_STATE_RESPONSE_SENT"
    and "postpone E now s y req = Some p"
  shows "case p of Inl s' \<Rightarrow> stack_safe A rep s'
    | Inr y' \<Rightarrow> working A rep s y' \<and> Role y' = Role y \<and> pReqMsg y' = pReqMsg y \<and> resp_fits HANDLER_WEIGHT (pRespMsg y') \<and> ia_at y' = ia_at y"
proof (cases "Type req = CON \<and> ReqReliabilityState y \<noteq> ACK_SET")
  case True
  then obtain r s1 where a: "send_EmptyAck E now s (MessageID req) (ia_ifID y) (RemoteEp y) = Some (r, s1)"
    using assms(6) by (auto simp: postpone_def split: bind_splits)
  note w = working_short [OF assms(1,2) a]
  let ?y = "y\<lparr>ReqReliabilityState := ACK_SET, State := COAP_STATE_RESOURCE_POSTPONE_EMPTY_ACK_SENT, SleepUntil := now + POSTPONE_WAIT_TIME_SEK\<rparr>"
  have "working A rep s1 ?y" using w by (subst working_fields [of _ y]) simp_all
  moreover have "ia_fits ?y" using assms(3-5) by (simp add: ia_fits_def)
  ultimately show ?thesis
    using assms(6) True a safe_enqueue [of A rep s1 ?y] working_Delete [OF assms(1) w] by (auto simp: postpone_def split: if_splits)
next
  case no: False
  show ?thesis
  proof (cases "CoAP_MsgIsOlderThan now req POSTPONE_MAX_WAIT_TIME")
    case True
    then obtain N where N: "pRespMsg y = Some N" "p = Inr (y\<lparr>pRespMsg := Some (N\<lparr>Code := RESP_SERVICE_UNAVAILABLE_5_03\<rparr>)\<rparr>)"
      using assms(6) no by (auto simp: postpone_def)
    let ?N = "N\<lparr>Code := RESP_SERVICE_UNAVAILABLE_5_03\<rparr>"
    have "working A rep s (y\<lparr>pRespMsg := Some ?N\<rparr>)"
      by (rule working_resp [OF assms(2)]) (use N(1) in \<open>auto simp: intro: holds_msg_cong\<close>)
    moreover have "resp_fits HANDLER_WEIGHT (Some ?N)" using assms(3-5) N(1) by (simp add: ia_fits_def)
    ultimately show ?thesis by (simp add: N(2))
  next
    case False
    then have "p = Inl (CoAP_EnqueueLastInteraction s (CoAP_SetSleepInteraction now y POSTPONE_WAIT_TIME_SEK))"
      using assms(6) no by (auto simp: postpone_def)
    moreover have "working A rep s (CoAP_SetSleepInteraction now y t)" for t
      using assms(2) by (subst working_fields [of _ y]) (simp_all add: CoAP_SetSleepInteraction_def)
    moreover have "ia_fits (CoAP_SetSleepInteraction now y t)" for t using assms(3-5) by (simp add: ia_fits_def CoAP_SetSleepInteraction_def)
    ultimately show ?thesis by (auto intro: safe_enqueue)
  qed
qed

text \<open>The parts of \<open>handle_request\<close>: a method the resource does not allow, the response message the
  handler gets, the call of the handler, and the answer to its result.\<close>

lemma safe_refuse:
  assumes "ops E = A" "working A rep s y" "Role y = COAP_ROLE_SERVER" "short_options (pReqMsg y)"
    and "CoAP_AllocRespMsg A (mem s) (MId s) req code 0 = (msg, m', mid')" "y' = y\<lparr>pRespMsg := msg\<rparr>" "s1 = s\<lparr>mem := m', MId := mid'\<rparr>"
    and "SendResp E now (put_ia s1 y') y' COAP_STATE_RESPONSE_SENT = Some (r, s')"
  shows "stack_safe A rep s'"
proof -
  have h: "holds A rep m' (message_objs msg + X) \<and> resp_fits HANDLER_WEIGHT msg" if "holds A rep (mem s) X" for X
    using alloc_resp_holds [OF that assms(5)] by simp
  have w: "working A rep s1 y'"
  proof (rule working_resp [OF assms(2)])
    fix X
    assume "holds A rep (mem s) (message_objs (pRespMsg y) + X)"
    then have "holds A rep (mem s) (X + message_objs (pRespMsg y))" by (simp add: add.commute)
    then show "holds A rep (mem s1) (message_objs (pRespMsg y') + X)" using h [OF holds_weaken] assms(6,7) by simp
  qed (simp_all add: assms(6,7))
  have "resp_fits HANDLER_WEIGHT msg" using h assms(2) by (auto simp: working_def)
  then have "resp_fits MAX_WEIGHT (pRespMsg y')"
    by (auto simp: assms(6) resp_fits_def HANDLER_WEIGHT_def MAX_WEIGHT_def intro: msg_fits_mono split: option.splits)
  then show ?thesis using safe_SendResp [OF assms(1) working_put_self [OF w] _ _ assms(8)] assms(3,4,6) by simp
qed

lemma working_prepared:
  assumes "working A rep s y" "resp_fits HANDLER_WEIGHT (pRespMsg y)"
    and "(if pRespMsg y = None then
        let (msg, m', mid') = CoAP_AllocRespMsg A (mem s) (MId s) req EMPTY PREFERED_PAYLOAD_SIZE in (msg, s\<lparr>mem := m', MId := mid'\<rparr>)
      else (pRespMsg y, s)) = (resp0, s1)"
  shows "working A rep s1 (y\<lparr>pRespMsg := resp0\<rparr>) \<and> resp_fits HANDLER_WEIGHT resp0"
proof -
  have "same_lists s s1" and h: "\<And>X. holds A rep (mem s) (message_objs (pRespMsg y) + X) \<Longrightarrow>
      holds A rep (mem s1) (message_objs resp0 + X) \<and> resp_fits HANDLER_WEIGHT resp0"
    using assms(2,3) alloc_resp_holds [of "mem s" _ "MId s" req EMPTY PREFERED_PAYLOAD_SIZE] by (auto split: if_splits prod.splits)
  then have "working A rep s1 (y\<lparr>pRespMsg := resp0\<rparr>)" by (intro working_resp [OF assms(1)]) simp_all
  then show ?thesis using h working_holds [OF assms(1)] by blast
qed

lemma working_handled:
  assumes "env_ok A rep E" "working A rep s y" "resp_fits HANDLER_WEIGHT (pRespMsg y)"
    and "call_handler E s hf req (pRespMsg y) = Some (Res, resp, s')"
  shows "working A rep s' (y\<lparr>pRespMsg := resp\<rparr>) \<and>
    resp_fits (if Res = HANDLER_POSTPONE then HANDLER_WEIGHT else HANDLER_WEIGHT + 271) resp"
proof -
  have "res_count_ok s" using assms(2) by (simp add: working_def)
  then have h: "holds A rep (mem s') (message_objs resp + X) \<and> same_lists s s' \<and>
      resp_fits (if Res = HANDLER_POSTPONE then HANDLER_WEIGHT else HANDLER_WEIGHT + 271) resp"
    if "holds A rep (mem s) (message_objs (pRespMsg y) + X)" for X
    by (rule handler_holds [OF assms(1) that assms(3) _ assms(4)])
  obtain X where "holds A rep (mem s) (message_objs (pRespMsg y) + X)" using working_holds [OF assms(2)] by blast
  with h have "same_lists s s'" "resp_fits (if Res = HANDLER_POSTPONE then HANDLER_WEIGHT else HANDLER_WEIGHT + 271) resp" by blast+
  moreover have "working A rep s' (y\<lparr>pRespMsg := resp\<rparr>)" by (rule working_resp [OF assms(2) calculation(1)]) (use h in simp_all)
  ultimately show ?thesis by blast
qed

lemma safe_answer:
  assumes "ops E = A" "working A rep s y" "Role y = COAP_ROLE_SERVER" "short_options (pReqMsg y)"
    and "pRespMsg y = Some M" "msg_fits (HANDLER_WEIGHT + 271) M" "M1 = M \<or> (\<exists>c. M1 = M\<lparr>Code := c\<rparr>)" "y1 = y\<lparr>pRespMsg := Some M1\<rparr>"
    and "finish_response E now (put_ia s y1) y1 req = Some s'"
  shows "stack_safe A rep s'"
proof -
  have "working A rep s y1" by (rule working_resp [OF assms(2)]) (use assms(5,7,8) in \<open>auto intro: holds_msg_cong\<close>)
  from safe_finish_response [OF assms(1) working_put_self [OF this] _ _ _ assms(9)] show ?thesis using assms(3,4,6-8) by auto
qed

lemma safe_postponed:
  assumes "ops E = A" "working A rep s y" "Role y = COAP_ROLE_SERVER" "State y \<noteq> COAP_STATE_RESPONSE_SENT" "short_options (pReqMsg y)"
    and "resp_fits HANDLER_WEIGHT (pRespMsg y)" "postpone E now s y req = Some p"
    and "(case p of Inl s4 \<Rightarrow> Some s4 | Inr y' \<Rightarrow> finish_response E now (put_ia s y') y' req) = Some s'"
  shows "stack_safe A rep s'"
proof -
  have "ia_fits y" using assms(3-6) by (simp add: ia_fits_def)
  note q = safe_postpone [OF assms(1,2) this assms(3,4,7)]
  show ?thesis
  proof (cases p)
    case (Inl s4)
    then show ?thesis using q assms(8) by simp
  next
    case (Inr y')
    then have y': "working A rep s y'" "Role y' = COAP_ROLE_SERVER" "pReqMsg y' = pReqMsg y" "resp_fits HANDLER_WEIGHT (pRespMsg y')"
      "finish_response E now (put_ia s y') y' req = Some s'" using q assms(3,8) by auto
    have "resp_fits (HANDLER_WEIGHT + 271) (pRespMsg y')" using y'(4) by (auto simp: resp_fits_def intro: msg_fits_mono split: option.splits)
    then show ?thesis using safe_finish_response [OF assms(1) working_put_self [OF y'(1)] y'(2) _ _ y'(5)] y'(3) assms(5) by simp
  qed
qed

lemma safe_handle_request:
  assumes "env_ok A rep E" "stack_safe A rep s" "y \<in> set (pInteractions s)" "Role y = COAP_ROLE_SERVER"
    "State y \<noteq> COAP_STATE_RESPONSE_SENT" "handle_request E now s y = Some s'"
  shows "stack_safe A rep s'"
proof -
  note A = env_okD [OF assms(1)]
  have w: "working A rep s y" and f: "ia_fits y" using working_start [OF assms(2,3)] by blast+
  have so: "short_options (pReqMsg y)" "resp_fits HANDLER_WEIGHT (pRespMsg y)" using f assms(4,5) by (simp_all add: ia_fits_def)
  obtain req R where rq: "pReqMsg y = Some req" "get_res s (pRes y) = Some R"
    using assms(6) by (auto simp: handle_request_def Let_def split: bind_splits)
  show ?thesis
  proof (cases "method_not_allowed req R")
    case True
    obtain msg m' mid' where "CoAP_AllocRespMsg A (mem s) (MId s) req RESP_METHOD_NOT_ALLOWED_4_05 0 = (msg, m', mid')" by (metis prod_cases3)
    from safe_refuse [OF A w assms(4) so(1) this refl refl] this show ?thesis
      using assms(6) rq True A by (auto simp: handle_request_def Let_def)
  next
    case False
    obtain resp0 s1 where r0: "(if pRespMsg y = None then
        let (msg, m', mid') = CoAP_AllocRespMsg A (mem s) (MId s) req EMPTY PREFERED_PAYLOAD_SIZE in (msg, s\<lparr>mem := m', MId := mid'\<rparr>)
      else (pRespMsg y, s)) = (resp0, s1)" by fastforce
    obtain hf Res resp s2 where hd: "Handler R = Some hf" "call_handler E s1 hf req resp0 = Some (Res, resp, s2)"
      using assms(6) rq False r0 A by (auto simp: handle_request_def Let_def split: bind_splits)
    let ?y = "y\<lparr>pRespMsg := resp\<rparr>"
    have w2: "working A rep s2 ?y" and f2: "resp_fits (if Res = HANDLER_POSTPONE then HANDLER_WEIGHT else HANDLER_WEIGHT + 271) resp"
      using working_prepared [OF w so(2) r0] working_handled [OF assms(1), of s1 "y\<lparr>pRespMsg := resp0\<rparr>" hf req Res resp s2] hd(2) by auto
    note w3 = working_put_self [OF w2] and run = assms(6) rq False r0 A hd
    show ?thesis
    proof (cases Res)
      case HANDLER_POSTPONE
      obtain p where p: "postpone E now (put_ia s2 ?y) ?y req = Some p"
        using run HANDLER_POSTPONE by (auto simp: handle_request_def Let_def split: bind_splits)
      with run HANDLER_POSTPONE show ?thesis
        by (intro safe_postponed [OF A w3 _ _ _ _ p]) (use assms(4,5) so(1) f2 in \<open>auto simp: handle_request_def Let_def\<close>)
    next
      case HANDLER_OK
      obtain M where M: "resp = Some M" using run HANDLER_OK by (auto simp: handle_request_def Let_def split: bind_splits)
      show ?thesis
        by (rule safe_answer [OF A w3, where ?M1.0 = "if Code M = EMPTY then M\<lparr>Code := RESP_SUCCESS_CONTENT_2_05\<rparr> else M"])
          (use run HANDLER_OK M assms(4) so(1) f2 in \<open>auto simp: handle_request_def Let_def split: if_splits\<close>)
    next
      case HANDLER_ERROR
      obtain M where M: "resp = Some M" using run HANDLER_ERROR by (auto simp: handle_request_def Let_def split: bind_splits)
      show ?thesis
        by (rule safe_answer [OF A w3, where ?M1.0 = "if Code M = EMPTY then M\<lparr>Code := RESP_INTERNAL_SERVER_ERROR_5_00\<rparr> else M"])
          (use run HANDLER_ERROR M assms(4) so(1) f2 in \<open>auto simp: handle_request_def Let_def split: if_splits\<close>)
    qed
  qed
qed

end

section \<open>Notifications\<close>

lemma working_header:
  assumes "working A rep s y" "pRespMsg y = Some N" "pRespMsg y' = Some N'" "ia_at y' = ia_at y" "pReqMsg y' = pReqMsg y"
    and "msg_at N' = msg_at N" "Payload N' = Payload N" "pOptionsList N' = pOptionsList N" "same_lists s s'" "mem s' = mem s"
  shows "working A rep s' y'"
  by (rule working_change [OF assms(1,4)])
    (use assms in \<open>auto simp: same_lists_def ia_mset_def ac_simps intro: holds_msg_cong\<close>)

lemma next_mid_same: "next_mid s = (mid, s') \<Longrightarrow> same_lists s s' \<and> mem s' = mem s"
  by (auto simp: next_mid_def split: prod.splits)

lemma handler_code_small: "\<not> 128 \<le> handler_code r"
  by (cases r) (simp_all add: handler_code_def)

lemma notifier_holds:
  assumes "env_ok A rep E" "user_notifier E n m ob M = Some (res, M', m')" "holds A rep m (add_mset (OMsg M) X)" "msg_fits MAX_WEIGHT M"
  shows "holds A rep m' (add_mset (OMsg M') X) \<and> msg_fits HANDLER_WEIGHT M'"
  using assms unfolding env_ok_def notifiers_ok_def by blast

context coap_allocator
begin

lemma working_notifier:
  assumes "env_ok A rep E" "working A rep s y" "resp_fits MAX_WEIGHT (pRespMsg y)" "call_notifier E s y = Some (y', s')"
  shows "\<exists>M. y' = y\<lparr>pRespMsg := Some M\<rparr> \<and> working A rep s' y' \<and> msg_fits MAX_WEIGHT M"
proof -
  note A = env_okD [OF assms(1)]
  obtain resp v fn ob res M m1 r M1 m2 where n: "pRespMsg y = Some resp" "user_notifier E fn (mem s) ob resp = Some (res, M, m1)"
    and U: "UpdateObserveOptionInMsg A m1 M v = (r, M1, m2)" and u: "y' = y\<lparr>pRespMsg := Some M1\<rparr>" "s' = s\<lparr>mem := m2\<rparr>"
    using assms(4) A by (auto simp: call_notifier_def Let_def handler_code_small split: bind_splits option.splits prod.splits)
  have h: "holds A rep m2 (add_mset (OMsg M1) X) \<and> msg_fits MAX_WEIGHT M1" if "holds A rep (mem s) (add_mset (OMsg resp) X)" for X
  proof -
    have "holds A rep m1 (add_mset (OMsg M) X) \<and> msg_fits HANDLER_WEIGHT M"
      by (rule notifier_holds [OF assms(1) n(2) that]) (use assms(3) n(1) in simp)
    with holds_UpdateObserve [OF _ U, of X HANDLER_WEIGHT] have "holds A rep m2 (add_mset (OMsg M1) X) \<and> msg_fits (HANDLER_WEIGHT + 8) M1" by blast
    then show ?thesis using msg_fits_mono [of "HANDLER_WEIGHT + 8" M1 MAX_WEIGHT] by (simp add: HANDLER_WEIGHT_def MAX_WEIGHT_def)
  qed
  obtain X where "holds A rep (mem s) (add_mset (OMsg resp) X)" by (rule working_holds_resp [OF assms(2) n(1)])
  then have "msg_fits MAX_WEIGHT M1" using h by blast
  moreover have "working A rep s' y'" by (rule working_resp [OF assms(2)]) (use h n(1) u in auto)
  ultimately show ?thesis using u(1) by auto
qed

lemma safe_retry_notification:
  assumes "env_ok A rep E" "stack_safe A rep s" "y \<in> set (pInteractions s)" "Role y = COAP_ROLE_NOTIFICATION"
    and "retry_notification E now s y = Some s'"
  shows "stack_safe A rep s'"
proof -
  note A = env_okD [OF assms(1)]
  have w: "working A rep s y" and f: "ia_fits y" using working_start [OF assms(2,3)] by blast+
  have sent: "stack_safe A rep s'" if "working A rep s1 x" "ia_fits x" "Role x = COAP_ROLE_NOTIFICATION" "retransmit_resp E now (put_ia s1 x) x = Some s'" for s1 x
    by (rule safe_retransmit_resp [OF A working_put_self [OF that(1)] that(2) _ that(4)]) (use that(3) in simp)
  show ?thesis
  proof (cases "UpdatePendingNotification y")
    case False
    then show ?thesis using sent [OF w f assms(4)] assms(5) by (simp add: retry_notification_def)
  next
    case True
    obtain resp mid s1 where r: "pRespMsg y = Some resp" "next_mid s = (mid, s1)"
      using assms(5) True by (cases "next_mid s") (auto simp: retry_notification_def split: bind_splits)
    let ?y = "y\<lparr>UpdatePendingNotification := False, pRespMsg := Some (resp\<lparr>MessageID := mid\<rparr>)\<rparr>"
    obtain y' s2 resp' where n: "call_notifier E s1 ?y = Some (y', s2)" "pRespMsg y' = Some resp'"
      "retransmit_resp E now (put_ia s2 (y'\<lparr>pRespMsg := Some (resp'\<lparr>Type := Type resp\<rparr>)\<rparr>)) (y'\<lparr>pRespMsg := Some (resp'\<lparr>Type := Type resp\<rparr>)\<rparr>) = Some s'"
      using assms(5) True r by (auto simp: retry_notification_def split: bind_splits)
    have "working A rep s1 ?y" by (rule working_header [OF w r(1), where N' = "resp\<lparr>MessageID := mid\<rparr>"]) (use next_mid_same [OF r(2)] in simp_all)
    from working_notifier [OF assms(1) this _ n(1)] f assms(4) r(1) n(2)
    have y': "y' = ?y\<lparr>pRespMsg := Some resp'\<rparr>" "working A rep s2 y'" "msg_fits MAX_WEIGHT resp'" by (auto simp: ia_fits_def)
    have "working A rep s2 (y'\<lparr>pRespMsg := Some (resp'\<lparr>Type := Type resp\<rparr>)\<rparr>)" by (rule working_header [OF y'(2) n(2), where N' = "resp'\<lparr>Type := Type resp\<rparr>"]) simp_all
    from sent [OF this _ _ n(3)] y' assms(4) show ?thesis by (simp add: ia_fits_def)
  qed
qed

lemma safe_notification_done:
  assumes "env_ok A rep E" "stack_safe A rep s" "y \<in> set (pInteractions s)" "Role y = COAP_ROLE_NOTIFICATION"
    and "notification_done E s y = Some s'"
  shows "stack_safe A rep s'"
proof -
  note A = env_okD [OF assms(1)]
  have w: "working A rep s y" and f: "ia_fits y" using working_start [OF assms(2,3)] by blast+
  show ?thesis
  proof (cases "UpdatePendingNotification y")
    case False
    then show ?thesis using assms(5) safe_Delete [OF A assms(2)] by (auto simp: notification_done_def)
  next
    case True
    obtain resp mid s1 where r: "pRespMsg y = Some resp" "next_mid s = (mid, s1)"
      using assms(5) True by (cases "next_mid s") (auto simp: notification_done_def split: bind_splits)
    let ?y = "y\<lparr>State := COAP_STATE_READY_TO_NOTIFY, RetransCounter := 0, UpdatePendingNotification := False,
                pRespMsg := Some (resp\<lparr>MessageID := mid\<rparr>), RespReliabilityState := NOT_SET\<rparr>"
    obtain y' s2 where n: "call_notifier E s1 ?y = Some (y', s2)" "s' = CoAP_EnqueueLastInteraction s2 y'"
      using assms(5) True r by (auto simp: notification_done_def split: bind_splits)
    have "working A rep s1 ?y" by (rule working_header [OF w r(1), where N' = "resp\<lparr>MessageID := mid\<rparr>"]) (use next_mid_same [OF r(2)] in simp_all)
    from working_notifier [OF assms(1) this _ n(1)] f assms(4) r(1)
    have "working A rep s2 y'" "ia_fits y'" by (auto simp: ia_fits_def)
    then show ?thesis using safe_enqueue n(2) by blast
  qed
qed

lemma safe_notification_sent:
  assumes "env_ok A rep E" "stack_safe A rep s" "y \<in> set (pInteractions s)" "Role y = COAP_ROLE_NOTIFICATION"
    and "notification_sent E now s y = Some s'"
  shows "stack_safe A rep s'"
proof -
  note A = env_okD [OF assms(1)]
  have rem: "stack_safe A rep (snd (CoAP_DeleteInteraction E s1 p))" if "CoAP_RemoveInteractionsObserver E s y tok = Some (r, s1)" for tok r s1 p
    by (rule safe_Delete [OF A safe_res_step [OF assms(2) res_step_RemoveObserver [OF A that]]])
  from assms(5) show ?thesis
    using safe_enqueue_same [OF assms(2,3)] safe_Delete [OF A assms(2)] rem
      safe_retry_notification [OF assms(1-4)] safe_notification_done [OF assms(1-4)]
    by (auto simp: notification_sent_def split: bind_splits if_splits)
qed

section \<open>The work loop\<close>

lemma safe_doWork:
  assumes "env_ok A rep E" "stack_safe A rep s" "CoAP_doWork E now s = Some s'"
  shows "stack_safe A rep s'"
proof (cases "CoAP_GetLongestPendingInteraction s")
  case None
  then show ?thesis using assms by (simp add: CoAP_doWork_def)
next
  case (Some y)
  then have y: "y \<in> set (pInteractions s)" by (auto simp: CoAP_GetLongestPendingInteraction_def list_head_def split: list.splits)
  note A = env_okD [OF assms(1)]
  have w: "working A rep s y" and f: "ia_fits y" using working_start [OF assms(2) y] by blast+
  show ?thesis
  proof (cases "SleepUntil y > now")
    case True
    then show ?thesis using assms(3) Some safe_enqueue_same [OF assms(2) y] by (auto simp: CoAP_doWork_def)
  next
    case False
    note work = assms(3) [unfolded CoAP_doWork_def Some option.case if_not_P [OF False]]
    show ?thesis
    proof (cases "Role y")
      case COAP_ROLE_NOT_SET
      then show ?thesis using work assms(2) by simp
    next
      case COAP_ROLE_SERVER
      then show ?thesis
        using work assms(2) safe_handle_request [OF assms(1,2) y COAP_ROLE_SERVER, of now s'] safe_response_sent [OF A assms(2) y COAP_ROLE_SERVER, of now s']
        by (auto split: if_splits)
    next
      case COAP_ROLE_NOTIFICATION
      then have "resp_fits MAX_WEIGHT (pRespMsg y)" using f by (simp add: ia_fits_def)
      then show ?thesis
        using work assms(2) COAP_ROLE_NOTIFICATION safe_notification_sent [OF assms(1,2) y, of now s']
          safe_SendResp [OF A w, of COAP_STATE_NOTIFICATION_SENT now]
        by (auto split: if_splits)
    next
      case COAP_ROLE_CLIENT
      then have "resp_fits MAX_WEIGHT (pReqMsg y)" using f by (simp add: ia_fits_def)
      then show ?thesis
        using work assms(2) COAP_ROLE_CLIENT safe_waiting_response [OF A assms(2) y, of now s'] safe_handle_response [OF A assms(2), of y s']
          safe_SendReq [OF A w, of now COAP_STATE_WAITING_RESPONSE] safe_Delete [OF A assms(2)]
        by (auto split: if_splits)
    qed
  qed
qed

end

end
