(* ===== verification/Stack_Safe_Receive.thy ===== *)
theory Stack_Safe_Receive
  imports Stack_Safe_Work
begin

text \<open>
  Memory safety of new interactions and of reception: the notification of observers, the parser, and
  every branch of \<open>CoAP_onNewPacketHandler\<close> keep \<open>stack_safe\<close>. A received message belongs to the
  interaction it starts or is attached to, or it is released, or it is lost.
\<close>

section \<open>New interactions\<close>

lemma safe_append:
  assumes "holds A rep (mem s') (ia_mset x + (ias_mset (pInteractions s) + ress_objs (pResList s)))" "ia_fits x" "stack_safe A rep s"
    and "pInteractions s' = pInteractions s @ [x]" "pResList s' = pResList s" "ResListMembers s' = ResListMembers s"
  shows "stack_safe A rep s'"
  using assms by (simp add: stack_safe_def res_count_ok_def ac_simps)

lemma safe_kept:
  assumes "stack_safe A rep s" "holds A rep (mem s') (ias_mset (pInteractions s) + ress_objs (pResList s))" "same_lists s s'"
  shows "stack_safe A rep s'"
  using assms by (simp add: stack_safe_def same_lists_def res_count_ok_def)

text \<open>Marks on interactions change nothing here.\<close>

lemma mark_pending_same:
  "mark_pending k ob L = (b, L') \<Longrightarrow> ias_mset L' = ias_mset L \<and> (list_all ia_fits L \<longrightarrow> list_all ia_fits L')"
proof (induction L arbitrary: L')
  case (Cons x L)
  have "ia_mset (x\<lparr>UpdatePendingNotification := True\<rparr>) = ia_mset x" "ia_fits x \<Longrightarrow> ia_fits (x\<lparr>UpdatePendingNotification := True\<rparr>)"
    by (cases "Role x"; simp add: ia_mset_def ia_fits_def)+
  then show ?case using Cons by (auto split: if_splits prod.splits)
qed simp

lemma apply_state_same:
  "apply_state t mid ep L = (r, L') \<Longrightarrow> ias_mset L' = ias_mset L \<and> (list_all ia_fits L \<longrightarrow> list_all ia_fits L') \<and> (\<forall>x. r = Some x \<longrightarrow> x \<in> set L')"
proof (induction L arbitrary: L')
  case (Cons x L)
  have "ia_mset (x\<lparr>RespReliabilityState := t\<rparr>) = ia_mset x" "ia_fits x \<Longrightarrow> ia_fits (x\<lparr>RespReliabilityState := t\<rparr>)"
    "ia_mset (x\<lparr>ReqReliabilityState := t\<rparr>) = ia_mset x" "ia_fits x \<Longrightarrow> ia_fits (x\<lparr>ReqReliabilityState := t\<rparr>)"
    by (cases "Role x"; simp add: ia_mset_def ia_fits_def)+
  then show ?case using Cons by (auto simp: Let_def split: if_splits prod.splits)
qed simp

lemma safe_interactions:
  "stack_safe A rep s \<Longrightarrow> ias_mset L = ias_mset (pInteractions s) \<Longrightarrow> list_all ia_fits L \<Longrightarrow> stack_safe A rep (s\<lparr>pInteractions := L\<rparr>)"
  by (simp add: stack_safe_def res_count_ok_def)

context coap_allocator
begin

lemma holds_alloc_ia:
  assumes "ops E = A" "holds A rep (mem s) X" "CoAP_AllocNewInteraction E s = (r, s')"
  shows "same_lists s s' \<and> MId s' = MId s \<and> (case r of None \<Rightarrow> holds A rep (mem s') X
    | Some x \<Rightarrow> holds A rep (mem s') (add_mset (OBuf (ia_at x)) X) \<and> pReqMsg x = None \<and> pRespMsg x = None \<and> RemoteEp x = zero_ep)"
proof -
  obtain p m' where g: "coap_mem_get0 A (mem s) sizeof_CoAP_Interaction_t = (p, m')" by fastforce
  have "0 < sizeof_CoAP_Interaction_t" "sizeof_CoAP_Interaction_t \<le> MAX_REQ" by (simp_all add: sizeof_CoAP_Interaction_t_def MAX_REQ_def)
  from holds_get0 [OF assms(2) g this] assms(1,3) g show ?thesis
    by (auto simp: CoAP_AllocNewInteraction_def split: if_splits)
qed

text \<open>The new interaction of a notification, from its message on.\<close>

lemma safe_notification:
  assumes "env_ok A rep E" "stack_safe A rep s" "same_lists s s4"
    and "holds A rep (mem s4) (add_mset (OMsg M1) (add_mset (OBuf (ia_at x)) (ias_mset (pInteractions s) + ress_objs (pResList s))))"
    and "msg_fits HANDLER_WEIGHT M1" "pReqMsg x = None" "Role x = COAP_ROLE_NOTIFICATION"
    and "(if Code M1 \<ge> RESP_ERROR_BAD_REQUEST_4_00 then CoAP_RemoveInteractionsObserver E s4 x (Token64 M1)
      else let (_, M2, m5) = AddObserveOptionToMsg (ops E) (mem s4) M1 cnt;
               M3 = (if Type M2 = NON \<and> cnt mod 20 = 0 then M2\<lparr>Type := CON\<rparr> else M2);
               newIA = x\<lparr>pRespMsg := Some M3\<rparr>
           in Some (COAP_OK, s4\<lparr>mem := m5, pInteractions := snd (CoAP_AppendInteractionToList (pInteractions s4) (Some newIA))\<rparr>)) = Some (r, s')"
  shows "stack_safe A rep s' \<and> length (pResList s') = length (pResList s)"
proof -
  note A = env_okD [OF assms(1)]
  let ?X = "ias_mset (pInteractions s) + ress_objs (pResList s)"
  show ?thesis
  proof (cases "Code M1 \<ge> RESP_ERROR_BAD_REQUEST_4_00")
    case True
    then have "CoAP_RemoveInteractionsObserver E s4 x (Token64 M1) = Some (r, s')" using assms(8) by simp
    then have st: "res_step A rep s4 s'" by (rule res_step_RemoveObserver [OF A])
    have "holds A rep (mem s4) ?X" using assms(4) by (blast intro: holds_add_weaken)
    then have "stack_safe A rep s4" by (rule safe_kept [OF assms(2) _ assms(3)])
    from safe_res_step [OF this st] st show ?thesis using assms(3) by (simp add: res_step_def same_lists_def)
  next
    case False
    obtain r5 M2 m5 where a: "AddObserveOptionToMsg A (mem s4) M1 cnt = (r5, M2, m5)" by (metis prod_cases3)
    let ?M3 = "if Type M2 = NON \<and> cnt mod 20 = 0 then M2\<lparr>Type := CON\<rparr> else M2"
    let ?x = "x\<lparr>pRespMsg := Some ?M3\<rparr>"
    have s': "s' = s4\<lparr>mem := m5, pInteractions := pInteractions s4 @ [?x]\<rparr>"
      using assms(8) A False a by (simp add: CoAP_AppendInteractionToList_def Let_def)
    have h: "holds A rep m5 (add_mset (OMsg M2) (add_mset (OBuf (ia_at x)) ?X))" "msg_fits (HANDLER_WEIGHT + 8) M2"
      using holds_AddObserve [OF assms(4) a assms(5)] by blast+
    then have "holds A rep m5 (add_mset (OMsg ?M3) (add_mset (OBuf (ia_at x)) ?X))" by (auto intro: holds_msg_cong)
    moreover have "msg_fits MAX_WEIGHT ?M3" using h(2) msg_fits_mono [of "HANDLER_WEIGHT + 8" M2 MAX_WEIGHT] by (simp add: HANDLER_WEIGHT_def MAX_WEIGHT_def)
    ultimately show ?thesis using assms(3,6,7)
      unfolding s' by (intro conjI safe_append [OF _ _ assms(2), of _ ?x]) (simp_all add: same_lists_def ia_mset_def ia_fits_def add_mset_commute)
  qed
qed

lemma safe_free_new:
  assumes "ops E = A" "stack_safe A rep s" "same_lists s t" "holds A rep (mem t) (ia_mset z + (ias_mset (pInteractions s) + ress_objs (pResList s)))"
  shows "stack_safe A rep (CoAP_FreeInteraction E t z) \<and> length (pResList (CoAP_FreeInteraction E t z)) = length (pResList s)"
  using holds_FreeInteraction [OF assms(1,4)] assms(2,3) by (auto simp: same_lists_def intro: safe_kept)

lemma safe_notify_observer:
  assumes "env_ok A rep E" "stack_safe A rep s" "notify_observer E s k R ob = Some (r, s')"
  shows "stack_safe A rep s' \<and> length (pResList s') = length (pResList s)"
proof -
  note A = env_okD [OF assms(1)]
  let ?X = "ias_mset (pInteractions s) + ress_objs (pResList s)"
  have X: "holds A rep (mem s) ?X" using assms(2) by (simp add: stack_safe_def)
  obtain r1 s1 where al: "CoAP_AllocNewInteraction E s = (r1, s1)" by fastforce
  note h1 = holds_alloc_ia [OF A X al]
  show ?thesis
  proof (cases r1)
    case None
    then show ?thesis using assms(2,3) al h1 by (auto simp: notify_observer_def same_lists_def intro: safe_kept)
  next
    case (Some x)
    obtain mid s2 where mid: "next_mid s1 = (mid, s2)" by fastforce
    obtain msg m3 where cr: "CoAP_CreateMessage A (mem s2) CON RESP_SUCCESS_CONTENT_2_05 mid None 0 PREFERED_PAYLOAD_SIZE (Token ob) = (msg, m3)" by fastforce
    have sl: "same_lists s (s2\<lparr>mem := m\<rparr>)" for m using h1 next_mid_same [OF mid] by (auto simp: same_lists_def)
    have h2: "holds A rep (mem s2) (add_mset (OBuf (ia_at x)) ?X)" "pReqMsg x = None" using h1 Some next_mid_same [OF mid] by auto
    from holds_create [OF h2(1) cr]
    have h3: "holds A rep m3 (message_objs msg + add_mset (OBuf (ia_at x)) ?X)" "\<And>M. msg = Some M \<Longrightarrow> msg_fits MAX_WEIGHT M"
      by (auto simp: sizeof_CoAP_Message_t_def MAX_REQ_def msg_fits_def msg_weight_def MAX_WEIGHT_def local_array_def)
    show ?thesis
    proof (cases "msg = None \<or> Notifier R = None")
      case True
      then have "s' = CoAP_FreeInteraction E (s2\<lparr>mem := m3\<rparr>) (x\<lparr>pRespMsg := msg\<rparr>)"
        using assms(3) al Some mid cr A by (auto simp: notify_observer_def Let_def split: option.splits)
      then show ?thesis using safe_free_new [OF A assms(2) sl [of m3], of "x\<lparr>pRespMsg := msg\<rparr>"] h3(1) h2(2) by (simp add: ia_mset_def ac_simps)
    next
      case False
      then obtain M fn res M1 m4 where n: "msg = Some M" "Notifier R = Some fn" "user_notifier E fn m3 ob M = Some (res, M1, m4)"
        using assms(3) al Some mid cr A by (auto simp: notify_observer_def Let_def split: option.splits)
      have h4: "holds A rep m4 (add_mset (OMsg M1) (add_mset (OBuf (ia_at x)) ?X)) \<and> msg_fits HANDLER_WEIGHT M1"
        by (rule notifier_holds [OF assms(1) n(3)]) (use h3 n(1) in \<open>auto simp: add_mset_commute\<close>)
      show ?thesis
      proof (cases "handler_code res = 0")
        case False
        then have "s' = CoAP_FreeInteraction E (s2\<lparr>mem := m4\<rparr>) (x\<lparr>pRespMsg := Some M1\<rparr>)"
          using assms(3) al Some mid cr A n by (simp add: notify_observer_def Let_def)
        then show ?thesis using safe_free_new [OF A assms(2) sl [of m4], of "x\<lparr>pRespMsg := Some M1\<rparr>"] h4 h2(2) by (simp add: ia_mset_def add_mset_commute)
      next
        case True
        let ?x = "x\<lparr>pRespMsg := Some M1, Role := COAP_ROLE_NOTIFICATION, State := COAP_STATE_READY_TO_NOTIFY, RemoteEp := Ep ob,
          ia_ifID := IfID ob, pRes := Some k, pObserver := ob_at ob\<rparr>"
        show ?thesis
          by (rule safe_notification [OF assms(1,2) sl [of m4], where ?M1.0 = M1 and x = ?x and cnt = "UpdateCnt R" and r = r])
            (use assms(3) al Some mid cr A n True h4 h2(2) in \<open>simp_all add: notify_observer_def Let_def\<close>)
      qed
    qed
  qed
qed

lemma safe_notify_loop:
  assumes "env_ok A rep E" "stack_safe A rep s" "notify_loop E s k obs = Some (r, s')"
  shows "stack_safe A rep s'"
  using assms
proof (induction E s k obs rule: notify_loop.induct)
  case (1 E s k)
  then show ?case by (simp add: notify_loop.simps)
next
  case (2 E s k ob rest)
  obtain b L where mp: "mark_pending k ob (pInteractions s) = (b, L)" by fastforce
  show ?case
  proof (cases b)
    case True
    have "stack_safe A rep (s\<lparr>pInteractions := L\<rparr>)"
      using mark_pending_same [OF mp] "2.prems"(2) by (intro safe_interactions) (auto simp: stack_safe_def)
    then show ?thesis using "2.IH"(1) [of b L] "2.prems" mp True by (simp add: notify_loop.simps)
  next
    case False
    then obtain r1 s1 where n: "notify_observer E s k (pResList s ! k) ob = Some (r1, s1)"
      using "2.prems"(3) mp by (auto simp: notify_loop.simps split: option.splits)
    have s1: "stack_safe A rep s1" using safe_notify_observer [OF "2.prems"(1,2) n] by blast
    show ?thesis
      using "2.prems" mp False n s1 "2.IH"(2) [of b L "(r1, s1)" r1 s1] by (auto simp: notify_loop.simps split: if_splits option.splits)
  qed
qed

lemma safe_NotifyObservers:
  assumes "env_ok A rep E" "stack_safe A rep s" "CoAP_NotifyResourceObservers E s k = Some (r, s')"
  shows "stack_safe A rep s'"
proof -
  let ?R = "pResList s ! k" let ?s = "s\<lparr>pResList := (pResList s)[k := ?R\<lparr>UpdateCnt := UpdateCnt ?R + 1\<rparr>]\<rparr>"
  have k: "k < length (pResList s)" using assms(3) by (auto simp: CoAP_NotifyResourceObservers_def get_res_def split: if_splits)
  then obtain obs r1 where n: "notify_loop E ?s k obs = Some (r1, s')"
    using assms(3) by (auto simp: CoAP_NotifyResourceObservers_def CoAP_StartNotifyInteractions_def get_res_def Let_def)
  obtain Y where Y: "\<And>obs c. ress_objs ((pResList s)[k := ?R\<lparr>UpdateCnt := c, pListObservers := obs\<rparr>]) = obs_objs obs + Y"
    "ress_objs (pResList s) = obs_objs (pListObservers ?R) + Y" using ress_objs_observers [OF k] by blast
  have "ress_objs (pResList ?s) = ress_objs (pResList s)" using Y(1) [of "pListObservers ?R" "UpdateCnt ?R + 1"] Y(2) by simp
  then have "stack_safe A rep ?s" using assms(2) by (simp add: stack_safe_def res_count_ok_def)
  then show ?thesis using safe_notify_loop [OF assms(1) _ n] by blast
qed

end

section \<open>Parsed messages\<close>

context coap_allocator
begin

lemma parse_loop_short:
  assumes "parse_OptionsFromRaw_loop fuel A m src n off lastNum L = Some (r, pl, L', m')" "n \<le> 65531" "list_all (\<lambda>p. Length p \<le> 1034) L"
  shows "list_all (\<lambda>p. Length p \<le> 1034) L' \<and> mem_area A m' = mem_area A m"
  using assms
proof (induction fuel arbitrary: m off lastNum L)
  case (Suc fuel)
  show ?case
  proof (cases "off < n \<and> src (unat off) \<noteq> 255 \<and> parse_head src n off \<noteq> None")
    case True
    then obtain d k o3 where hd: "parse_head src n off = Some (d, k, o3)" by auto
    obtain r1 L1 m1 where a: "CoAP_AppendOptionToList A m L (d + lastNum) (bytes_at src (unat o3) (unat k)) k = (r1, L1, m1)" by (metis prod_cases3)
    have k: "k \<le> 1034" using parse_head_bounds(3) [OF hd _ Suc.prems(2)] True by simp
    have 1: "list_all (\<lambda>p. Length p \<le> 1034) L1" "mem_area A m1 = mem_area A m"
      using a Suc.prems(3) k by (auto simp: append_cases list_all_iff dest: area_get split: prod.splits if_splits)
    show ?thesis using Suc.prems(1,2) Suc.IH [of m1 "o3 + k" "d + lastNum" L1] 1 True hd a by (auto simp: parse_loop_step split: if_splits)
  next
    case False
    then show ?thesis using Suc.prems by (cases "parse_head src n off") (auto simp: parse_loop_step split: if_splits)
  qed
qed simp

lemma msg_copy_area: "START_MSG_COPY A m now src M pl = (r, pM, m') \<Longrightarrow> mem_area A m' = mem_area A m \<and> (\<forall>N. pM = Some N \<longrightarrow> pOptionsList N = pOptionsList M)"
  by (auto simp: START_MSG_COPY_def FreeOptionList_eq Let_def dest: area_get split: prod.splits if_splits)

lemma parse_short:
  assumes "CoAP_ParseMessageFromDatagram A m now src n = Some (r, pM, m')" "header_ok src \<Longrightarrow> token_end src \<le> unat n"
  shows "mem_area A m' = mem_area A m \<and> (\<forall>M. pM = Some M \<longrightarrow> list_all (\<lambda>p. Length p \<le> 1034) (pOptionsList M))"
proof (cases "header_error src n")
  case (Some r)
  then show ?thesis using parse_bad_header [OF Some, of A m now] assms(1) by simp
next
  case None
  then have e: "token_end src \<le> unat n" and hd: "header_ok src" using assms(2) by (simp_all add: header_error_None)
  note eq = parse_good_header [OF hd e, of A m now] and u = unat_behind_token [OF e]
  have p: "pOptionsList (parsed_header src) = []" by (simp add: parsed_header_def CoAP_InitToEmptyResetMsg_def)
  show ?thesis
  proof (cases "token_end src = unat n")
    case True
    then show ?thesis using assms(1) msg_copy_area [of m now src "parsed_header src" None r pM m'] p by (simp add: eq Let_def)
  next
    case False
    let ?parse = "parse_OptionsFromRaw A m (sub_at src (token_end src)) (n - of_nat (token_end src)) []"
    obtain r1 pl L m1 where po: "?parse = Some (r1, pl, L, m1)" using assms(1) False by (auto simp: eq Let_def split: option.splits)
    have 1: "list_all (\<lambda>p. Length p \<le> 1034) L" "mem_area A m1 = mem_area A m"
      using po u(2) by (auto simp: parse_OptionsFromRaw_def split: if_splits dest: parse_loop_short)
    show ?thesis using assms(1) False 1 by (auto simp: eq po Let_def FreeOptionList_eq split: if_splits dest: msg_copy_area)
  qed
qed

lemma holds_parse:
  assumes "holds A rep m X" "CoAP_ParseMessageFromDatagram A m now src n = Some (r, pM, m')" "header_ok src \<Longrightarrow> token_end src \<le> unat n"
  shows "holds A rep m' (message_objs pM + X) \<and> short_options pM \<and> (r = COAP_OK \<longleftrightarrow> pM \<noteq> None)"
proof -
  note sh = parse_short [OF assms(2,3)]
  obtain zs g h where zs: "mset zs = X" "rep m h" "owns (mem_area A m) g ([] @ zs) h"
    by (rule holdsE [of m "[]" X]) (use assms(1) in auto)
  show ?thesis
  proof (rule parse_owns [OF zs(2) assms(3), where now = now])
    fix M m1 h1
    assume M: "CoAP_ParseMessageFromDatagram A m now src n = Some (COAP_OK, Some M, m1)" "rep m1 h1" "msg_owned (mem_area A m1) h M h1" "msg_wf M"
    then have eq: "r = COAP_OK" "pM = Some M" "m1 = m'" using assms(2) by auto
    have "owns (mem_area A m') g ([OMsg M] @ zs) h1" by (rule owns_join) (use M zs sh eq in simp_all)
    then have "holds A rep m' (message_objs pM + X)" using M(2) eq zs(1) by (auto intro: holdsI)
    then show ?thesis using eq M(4) sh by (simp add: msg_wf_def opts_wf_def list_all_iff)
  next
    fix r1 m1
    assume "CoAP_ParseMessageFromDatagram A m now src n = Some (r1, None, m1)" "r1 \<notin> {COAP_OK, COAP_ERR_OUT_OF_MEMORY}" "rep m1 h"
    then show ?thesis using assms(2) zs sh by (auto intro: holdsI)
  next
    fix m1 h1 lost
    assume o: "CoAP_ParseMessageFromDatagram A m now src n = Some (COAP_ERR_OUT_OF_MEMORY, None, m1)" "rep m1 h1" "heap_ext h lost h1"
    then have "owns (mem_area A m') g (map OBuf lost @ zs) h1"
      using assms(2) zs sh by (intro owns_join [of m' h1 g zs h]) (simp_all add: owns_def comp_def list_all_iff)
    then have "holds A rep m' (image_mset OBuf (mset lost) + X)" using o assms(2) zs(1) by (auto intro: holdsI)
    then have "holds A rep m' (X + image_mset OBuf (mset lost))" by (simp add: add.commute)
    then show ?thesis using o(1) assms(2) by (auto dest: holds_weaken)
  qed simp
qed

end

section \<open>Reception\<close>

text \<open>The stack together with a message that belongs to nobody yet.\<close>

definition safe_with :: "'m mem_ops \<Rightarrow> ('m \<Rightarrow> heap \<Rightarrow> bool) \<Rightarrow> 'm stack \<Rightarrow> CoAP_Message_t \<Rightarrow> bool" where
  "safe_with A rep s M \<longleftrightarrow> holds A rep (mem s) (add_mset (OMsg M) (ias_mset (pInteractions s) + ress_objs (pResList s))) \<and>
     list_all ia_fits (pInteractions s) \<and> res_count_ok s"

lemma safe_with_forget: "safe_with A rep s M \<Longrightarrow> stack_safe A rep s"
  by (auto simp: safe_with_def stack_safe_def dest: holds_add_weaken)

lemma safe_with_change:
  assumes "safe_with A rep s M" "\<And>X. holds A rep (mem s) X \<Longrightarrow> holds A rep (mem s') X" "same_lists s s'"
  shows "safe_with A rep s' M"
  using assms by (simp add: safe_with_def same_lists_def res_count_ok_def)

lemma safe_with_apply:
  assumes "safe_with A rep s M" "CoAP_ApplyReliabilityStateToInteraction s t mid i ep = (r, s')"
  shows "safe_with A rep s' M \<and> (\<forall>x. r = Some x \<longrightarrow> x \<in> set (pInteractions s'))"
proof -
  obtain L where L: "apply_state t mid ep (pInteractions s) = (r, L)" "s' = s\<lparr>pInteractions := L\<rparr>"
    using assms(2) by (auto simp: CoAP_ApplyReliabilityStateToInteraction_def split: prod.splits)
  show ?thesis using apply_state_same [OF L(1)] assms(1) by (simp add: safe_with_def L(2) res_count_ok_def)
qed

lemma find_client_in: "find_client L tok ep = Some (Some x) \<Longrightarrow> x \<in> set L \<and> Role x = COAP_ROLE_CLIENT"
  by (induction L) (auto split: if_splits option.splits)

text \<open>Datagrams whose header is good have a token inside the datagram.\<close>

definition framed :: "'m env \<Rightarrow> u8 list \<Rightarrow> u16 \<Rightarrow> bool" where
  "framed E data n \<longleftrightarrow> (let src = write_at (stale_buf E) 0 data in header_ok src \<longrightarrow> token_end src \<le> unat n)"

context coap_allocator
begin

lemma put_same_ia:
  assumes "stack_safe A rep s" "x \<in> set (pInteractions s)" "ia_at y = ia_at x" "pReqMsg y = pReqMsg x" "pRespMsg y = pRespMsg x" "ia_fits x \<Longrightarrow> ia_fits y"
  shows "stack_safe A rep (put_ia s y)"
  using working_start [OF assms(1,2)] working_fields [OF assms(3-5)] assms(6) safe_put by blast

lemma safe_with_free:
  assumes "ops E = A" "safe_with A rep s M"
  shows "stack_safe A rep (free_msg E s (Some M))"
proof -
  let ?X = "ias_mset (pInteractions s) + ress_objs (pResList s)"
  have "holds A rep (mem s) (message_objs (Some M) + ?X)" using assms(2) by (simp add: safe_with_def)
  note h = holds_free_msg [OF assms(1) this]
  show ?thesis by (rule safe_kept [OF safe_with_forget [OF assms(2)] h(1) h(2)])
qed

lemma safe_with_short:
  assumes "ops E = A" "safe_with A rep s M"
  shows "send_EmptyAck E now s mid i ep = Some (r, s') \<Longrightarrow> safe_with A rep s' M"
    "send_EmptyRST E now s mid i ep = Some (r, s') \<Longrightarrow> safe_with A rep s' M"
    "send_ShortResp E now s ty code mid tok i ep = Some (r, s') \<Longrightarrow> safe_with A rep s' M"
proof -
  obtain X where X: "holds A rep (mem s) X" using assms(2) by (auto simp: safe_with_def)
  note h = holds_short [OF assms(1)]
  show "safe_with A rep s' M" if "send_EmptyAck E now s mid i ep = Some (r, s')"
    by (rule safe_with_change [OF assms(2)]) (use h(1) [OF _ that] X in blast)+
  show "safe_with A rep s' M" if "send_EmptyRST E now s mid i ep = Some (r, s')"
    by (rule safe_with_change [OF assms(2)]) (use h(2) [OF _ that] X in blast)+
  show "safe_with A rep s' M" if "send_ShortResp E now s ty code mid tok i ep = Some (r, s')"
    by (rule safe_with_change [OF assms(2)]) (use h(3) [OF _ that] X in blast)+
qed

lemma safe_short:
  assumes "ops E = A" "stack_safe A rep s" "send_ShortResp E now s ty code mid tok i ep = Some (r, s')"
  shows "stack_safe A rep s' \<and> same_lists s s'"
proof -
  have "holds A rep (mem s) (ias_mset (pInteractions s) + ress_objs (pResList s))" using assms(2) by (simp add: stack_safe_def)
  from holds_short(3) [OF assms(1) this assms(3)] show ?thesis using safe_kept [OF assms(2)] by blast
qed

lemma safe_attach:
  assumes "ops E = A" "safe_with A rep s M" "x \<in> set (pInteractions s)" "Role x = COAP_ROLE_CLIENT" "attach_response E s x M = (y, s')"
  shows "stack_safe A rep s' \<and> y \<in> set (pInteractions s')"
proof -
  let ?y = "x\<lparr>pRespMsg := Some M, State := COAP_STATE_HANDLE_RESPONSE\<rparr>" and ?s = "if pRespMsg x \<noteq> None then free_msg E s (pRespMsg x) else s"
  have eq: "y = ?y" "s' = put_ia ?s ?y" using assms(5) by (auto simp: attach_response_def Let_def)
  have d: "distinct (map ia_at (pInteractions s))" by (rule stack_safe_distinct [OF safe_with_forget [OF assms(2)]])
  have x: "ia_at x = ia_at ?y" by simp
  obtain us vs where L: "pInteractions s = us @ x # vs" "other_ias s (ia_at ?y) = us @ vs"
    by (rule distinct_split [OF d assms(3) x]) (simp add: other_ias_def)
  let ?X = "add_mset (OMsg M) (message_objs (pReqMsg x) + {#OBuf (ia_at x)#} + (ias_mset (us @ vs) + ress_objs (pResList s)))"
  have h: "holds A rep (mem s) (message_objs (pRespMsg x) + ?X)" using assms(2) by (simp add: safe_with_def L(1) ia_mset_def ac_simps)
  have s: "holds A rep (mem ?s) ?X" "same_lists s ?s" using holds_free_msg [OF assms(1) h] h by (cases "pRespMsg x"; simp)+
  have "working A rep ?s ?y"
    using s d assms(2,3) L(1,2) by (auto simp: working_def same_lists_def other_ias_def ia_mset_def safe_with_def res_count_ok_def ac_simps)
  moreover have "ia_fits ?y" using assms(2-4) by (auto simp: safe_with_def list_all_iff ia_fits_def)
  ultimately show ?thesis unfolding eq using safe_put put_ia_stored by blast
qed

lemma safe_separate:
  assumes "ops E = A" "safe_with A rep s M" "handle_separate_response E now s i sender M = Some s'"
  shows "stack_safe A rep s'"
proof -
  obtain f where f: "find_client (pInteractions s) (Token64 M) sender = Some f"
    using assms(3) by (auto simp: handle_separate_response_def split: bind_splits)
  show ?thesis
  proof (cases f)
    case None
    then show ?thesis using assms(3) f safe_with_free [OF assms(1) safe_with_short(3) [OF assms(1,2)]]
      by (auto simp: handle_separate_response_def split: bind_splits)
  next
    case (Some x)
    have x: "x \<in> set (pInteractions s)" "Role x = COAP_ROLE_CLIENT" using find_client_in f Some by auto
    obtain y s1 where a: "(if State x = COAP_STATE_WAITING_RESPONSE \<or> State x = COAP_STATE_HANDLE_RESPONSE
      then attach_response E s x M else (x, s)) = (y, s1)" by fastforce
    have s1: "stack_safe A rep s1" "y \<in> set (pInteractions s1)"
      using a safe_attach [OF assms(1,2) x] safe_with_forget [OF assms(2)] x(1) by (auto split: if_splits)
    have acked: "stack_safe A rep (put_ia t (y\<lparr>RespReliabilityState := ACK_SET\<rparr>))" if "stack_safe A rep t" "same_lists s1 t" for t
      by (rule put_same_ia [OF that(1), of y]) (use s1(2) that(2) in \<open>cases "Role y"; simp add: same_lists_def ia_fits_def\<close>)+
    show ?thesis
      using assms(3) f Some a s1(1) acked safe_short [OF assms(1) s1(1)]
      by (auto simp: handle_separate_response_def Let_def split: bind_splits if_splits)
  qed
qed

lemma safe_piggyback:
  assumes "ops E = A" "safe_with A rep s M" "handle_piggyback E s i sender M = Some s'"
  shows "stack_safe A rep s'"
proof -
  obtain r s1 where a: "CoAP_ApplyReliabilityStateToInteraction s ACK_SET (MessageID M) i sender = (r, s1)" by fastforce
  note s1 = safe_with_apply [OF assms(2) a]
  have att: "stack_safe A rep (snd (attach_response E s1 x M))" if "r = Some x" "Role x = COAP_ROLE_CLIENT" for x
    using safe_attach [OF assms(1), of s1 M x] s1 that by (cases "attach_response E s1 x M") auto
  show ?thesis
    using assms(3) a safe_with_free [OF assms(1) conjunct1 [OF s1]] att by (auto simp: handle_piggyback_def split: option.splits if_splits)
qed

lemma safe_StartServer:
  assumes "ops E = A" "safe_with A rep s M" "short_options (Some M)" "CoAP_StartNewServerInteraction E now s M res i pckt = Some (r, s')"
  shows "if r = COAP_OK then stack_safe A rep s' else safe_with A rep s' M"
proof (cases "CoAP_MsgIsRequest M")
  case False
  then show ?thesis using assms(2,4) by (auto simp: CoAP_StartNewServerInteraction_def)
next
  case True
  obtain f where f: "find_duplicate (pInteractions s) (MessageID M) i (Sender pckt) = Some f"
    using assms(4) True by (auto simp: CoAP_StartNewServerInteraction_def Let_def split: option.splits)
  show ?thesis
  proof (cases f)
    case (Some xr)
    then show ?thesis using assms(2,4) True f safe_with_short(1) [OF assms(1,2)]
      by (auto simp: CoAP_StartNewServerInteraction_def Let_def split: if_splits option.splits prod.splits)
  next
    case None
    let ?X = "ias_mset (pInteractions s) + ress_objs (pResList s)"
    obtain r1 s1 where al: "CoAP_AllocNewInteraction E s = (r1, s1)" by fastforce
    have "holds A rep (mem s) (add_mset (OMsg M) ?X)" using assms(2) by (simp add: safe_with_def)
    note h = holds_alloc_ia [OF assms(1) this al]
    show ?thesis
    proof (cases r1)
      case oom: None
      then show ?thesis using assms(2,4) True f None al h by (auto simp: CoAP_StartNewServerInteraction_def Let_def safe_with_def same_lists_def res_count_ok_def)
    next
      case (Some x)
      let ?x = "x\<lparr>ia_ifID := i, RespReliabilityState := NOT_SET, RespCB := None, pRes := res, Role := COAP_ROLE_SERVER, State := COAP_STATE_HANDLE_REQUEST,
          ReqMetaInfo := MetaInfo pckt, ReqReliabilityState := NOT_SET, pReqMsg := Some M, RemoteEp := CopyEndpoints (RemoteEp x) (Sender pckt)\<rparr>"
      have eq: "r = COAP_OK" "s' = s1\<lparr>pInteractions := pInteractions s1 @ [?x]\<rparr>"
        using assms(4) True f None al Some by (simp_all add: CoAP_StartNewServerInteraction_def CoAP_AppendInteractionToList_def Let_def)
      have "stack_safe A rep s'" unfolding eq(2)
        using h Some assms(3) by (intro safe_append [OF _ _ safe_with_forget [OF assms(2)], of _ ?x]) (simp_all add: same_lists_def ia_mset_def ia_fits_def add_mset_commute)
      then show ?thesis using eq(1) by simp
    qed
  qed
qed

lemma safe_dispatch:
  assumes "ops E = A" "safe_with A rep s M" "short_options (Some M)" "dispatch E now s i pckt M = Some s'"
  shows "stack_safe A rep s'"
proof -
  note free = safe_with_free [OF assms(1)] and short = safe_with_short [OF assms(1,2)]
  have mid: "safe_with A rep t M" if "next_mid s = (k, t)" for k t
    by (rule safe_with_change [OF assms(2)]) (use next_mid_same [OF that] in auto)
  have unknown: "stack_safe A rep s'" if "unknown_resource E now s i (Sender pckt) M = Some s'"
    using that free short(3) safe_with_short(3) [OF assms(1) mid]
    by (auto simp: unknown_resource_def split: bind_splits if_splits prod.splits)
  have bad: "stack_safe A rep s'" if "bad_option E now s i (Sender pckt) M = Some s'"
    using that free assms(2) short(2,3) by (auto simp: bad_option_def split: bind_splits if_splits)
  have new: "stack_safe A rep s'" if n: "handle_new_request E now s i pckt M res = Some s'" for res
  proof -
    obtain r s1 where st: "CoAP_StartNewServerInteraction E now s M res i pckt = Some (r, s1)"
      using n by (auto simp: handle_new_request_def split: bind_splits)
    have "if r = COAP_OK then stack_safe A rep s1 else safe_with A rep s1 M" by (rule safe_StartServer [OF assms(1-3) st])
    then show ?thesis using n st free [of s1] free safe_with_short(3) [OF assms(1), of s1 M]
      by (auto simp: handle_new_request_def split: bind_splits if_splits)
  qed
  have rst: "stack_safe A rep (free_msg E t (Some M))" if "CoAP_ApplyReliabilityStateToInteraction s RST_SET (MessageID M) i (Sender pckt) = (r, t)" for r t
    using safe_with_apply [OF assms(2) that] free by blast
  show ?thesis
    using assms(4) free [OF assms(2)] free short unknown bad new rst safe_separate [OF assms(1,2)] safe_piggyback [OF assms(1,2)]
    by (auto simp: dispatch_def Let_def split: if_splits CoAP_MessageType_t.splits prod.splits)
qed

lemma safe_onNewPacket:
  assumes "ops E = A" "stack_safe A rep s" "framed E (pData pckt) (pk_size pckt)" "CoAP_onNewPacketHandler E now s i pckt = Some s'"
  shows "stack_safe A rep s'"
proof (cases "receiveBlocked E")
  case True
  then show ?thesis using assms(2,4) by (simp add: CoAP_onNewPacketHandler_def)
next
  case False
  let ?X = "ias_mset (pInteractions s) + ress_objs (pResList s)" and ?src = "write_at (stale_buf E) 0 (pData pckt)"
  obtain r pM m1 where p: "CoAP_ParseMessageFromDatagram A (mem s) now ?src (pk_size pckt) = Some (r, pM, m1)"
    using assms(1,4) False by (auto simp: CoAP_onNewPacketHandler_def split: option.splits)
  have "holds A rep (mem s) ?X" using assms(2) by (simp add: stack_safe_def)
  from holds_parse [OF this p] assms(3)
  have h: "holds A rep m1 (message_objs pM + ?X)" "short_options pM" "r = COAP_OK \<longleftrightarrow> pM \<noteq> None"
    unfolding framed_def Let_def by blast+
  show ?thesis
  proof (cases pM)
    case None
    then have "s' = s\<lparr>mem := m1\<rparr>" using assms(1,4) False p h(3) by (simp add: CoAP_onNewPacketHandler_def)
    then show ?thesis using h(1) None by (auto intro: safe_kept [OF assms(2)])
  next
    case (Some M)
    then have "dispatch E now (s\<lparr>mem := m1\<rparr>) i pckt M = Some s'" using assms(1,4) False p h(3) by (simp add: CoAP_onNewPacketHandler_def)
    moreover have "safe_with A rep (s\<lparr>mem := m1\<rparr>) M" using h(1) Some assms(2) by (simp add: safe_with_def stack_safe_def res_count_ok_def)
    ultimately show ?thesis using safe_dispatch [OF assms(1)] h(2) Some by blast
  qed
qed

end

end
