(* ===== verification/Examples.thy ===== *)
theory Examples
  imports Message_Ops
begin

text \<open>
  Concrete objects on which the properties are applied: a freshly initialised pool of 2048 bytes,
  a request with options and payload, the bytes of a datagram.
\<close>

section \<open>A concrete pool and a concrete message\<close>

definition demo_pool :: bget_state where
  "demo_pool = coap_mem_init bget_init 4096 2048"

lemma demo_rep: "bget_rep demo_pool Map.empty"
  unfolding demo_pool_def by (rule init_rep) simp_all

definition demo_opt :: "u16 \<Rightarrow> u8 list \<Rightarrow> CoAP_option_t" where
  "demo_opt n v = \<lparr>opt_at = 0, Number = n, Length = of_nat (length v), Value = v\<rparr>"

definition demo_msg :: CoAP_Message_t where
  "demo_msg = (CoAP_InitToEmptyResetMsg NULL)\<lparr>Type := CON, Code := REQ_PUT, MessageID := 0x1234,
     Token64 := 0xBEEF, pOptionsList := [demo_opt 11 [97, 98], demo_opt 12 [40], demo_opt 350 (replicate 20 7)],
     PayloadLength := 3, PayloadBufSize := 3, PayloadData := [1, 2, 3]\<rparr>"

lemma demo_length: "length (encode_message demo_msg) = 39"
  by code_simp

lemma demo_msg_wf: "msg_wf demo_msg" "encodable (pOptionsList demo_msg)" "receiver_refuses demo_msg = None"
  by code_simp+

lemma demo_views: "wire_view demo_msg = msg_view demo_msg"
  by code_simp

definition demo_bytes :: bytes where
  "demo_bytes = write_at (\<lambda>_. 0) 0 [0x41, 1, 0, 9, 0xAA, 0xB3, 97, 98, 99, 0xFF, 5]"

definition demo_ep :: NetEp_t where
  "demo_ep = \<lparr>NetType = IPV4, NetAddr = [10, 0, 0, 1] @ replicate 12 0, NetPort = 5683\<rparr>"

definition demo_packet :: NetPacket_t where
  "demo_packet = \<lparr>pData = [], pk_size = 0, Sender = demo_ep, Receiver = demo_ep, MetaInfo = META_INFO_NONE\<rparr>"

text \<open>A socket table before its first use, and one with an open interface, number 2, whose transmissions succeed.\<close>

definition demo_raw_sockets :: NetSocketCtrl_t where
  "demo_raw_sockets = \<lparr>SocketMemory = replicate 5 \<lparr>Handle = 0, ifID = 0, EpLocal = demo_ep, EpRemote = demo_ep,
     RxCB = RxCB_NULL, Tx = None, Alive = False\<rparr>, initDone = False\<rparr>"

definition demo_sockets :: NetSocketCtrl_t where
  "demo_sockets = snd (CoAP_CreateInterfaceSocket (\<lambda>_ _. True) demo_raw_sockets 2)"

lemma demo_socket:
  "RetrieveSocket2 demo_sockets 2 = Some 0" "Tx (SocketMemory demo_sockets ! 0) = Some (\<lambda>_ _. True)"
  by (simp_all add: demo_sockets_def demo_raw_sockets_def CoAP_CreateInterfaceSocket_def RetrieveSocket2_def AllocSocket_def
      init_sockets_def Let_def numeral_eq_Suc)

text \<open>The fresh pool serves a request of up to 1024 bytes.\<close>

lemma demo_pool_shape: "pool demo_pool [2044] [4096]" "bsize demo_pool 4096 = 2044"
proof -
  show p: "pool demo_pool [2044] [4096]" unfolding demo_pool_def using init_pool [of 4096 2048] by simp
  show "bsize demo_pool 4096 = 2044"
    by (rule pool_free [OF p, of 4096]) (auto simp: Cons_eq_append_conv)
qed

lemma demo_room: "b \<le> 2031 \<Longrightarrow> bget_room b demo_pool"
  using bget_roomI [OF demo_pool_shape(1)] demo_pool_shape(2) by simp

lemma demo_get:
  assumes "0 < n" "n \<le> 1024"
  obtains p k m' where "coap_mem_get bget_ops demo_pool n = (p, m')" "coap_mem_get0 bget_ops demo_pool n = (p, m')"
    "p \<noteq> NULL" "n \<le> k" "bget_rep m' [p \<mapsto> k]"
proof -
  have n: "n \<le> MAX_REQ" "alloc_size n \<le> 2044"
  proof -
    show "n \<le> MAX_REQ" using assms(2) by (simp add: MAX_REQ_def)
    have "(if n < 8 then 8 else n) + 3 < 1028" "(if n < 8 then 8 else n) \<ge> 8" using assms by auto
    then have "(((if n < 8 then 8 else n) + 3) div 4) * 4 \<le> 1028" "0 \<le> (((if n < 8 then 8 else n) + 3) div 4) * 4" by simp_all
    then show "alloc_size n \<le> 2044"
      using assms by (cases "n < 8") (simp_all add: alloc_size_def Let_def bget_consts s16_id)
  qed
  from demo_pool_shape(1) assms(1) n(1) show thesis
  proof (cases rule: bget_total)
    case none
    then show thesis using demo_pool_shape(2) n(2) by simp
  next
    case (some p k m' bs' fs')
    have e: "heap_of (pMemArea demo_pool) [2044] = Map.empty" by simp
    have "bget_rep m' [p \<mapsto> k]"
      using some(2,4,7) e unfolding bget_rep_def by (intro exI [of _ bs'] exI [of _ fs']) simp
    moreover have "bgetz demo_pool n = bget demo_pool n"
      by (rule bgetz_total [OF demo_pool_shape(1) assms(1) n(1)])
    ultimately show thesis
      using that [of p m' k] some(1,5,6) by (simp add: bget_ops_def returned_def)
  qed
qed

lemma demo_message:
  obtains M m h where "bget_rep m h" "msg_owned (mem_area bget_ops m) Map.empty M h" "msg_wf M" "PayloadBufSize M = 0"
    "pOptionsList M = []" "Code M = REQ_GET" "Type M = CON" "MessageID M = 9"
proof -
  obtain p k m' where g: "coap_mem_get0 bget_ops demo_pool 40 = (p, m')" "p \<noteq> NULL"
    by (rule demo_get [of 40]) auto
  have c: "CoAP_CreateMessage bget_ops demo_pool CON REQ_GET 9 None 0 0 0 =
    (Some ((CoAP_InitToEmptyResetMsg p)\<lparr>Type := CON, Code := REQ_GET, MessageID := 9,
              Token64 := 0, Timestamp := 0, PayloadLength := 0\<rparr>), m')"
    using g by (simp add: CoAP_CreateMessage_def s16_id sizeof_CoAP_Message_t_def Let_def)
  show thesis
  proof (rule bget.create_message [OF demo_rep, of 0 0 None CON REQ_GET 9 0])
    fix M m' h'
    assume "CoAP_CreateMessage bget_ops demo_pool CON REQ_GET 9 None 0 0 0 = (Some M, m')"
      "bget_rep m' h'" "msg_owned (mem_area bget_ops m') Map.empty M h'" "msg_wf M" "pOptionsList M = []"
      "Code M = REQ_GET" "Type M = CON" "MessageID M = 9"
    then show thesis using that [of m' h' M] c by (simp add: CoAP_InitToEmptyResetMsg_def)
  next
    fix m' assume "CoAP_CreateMessage bget_ops demo_pool CON REQ_GET 9 None 0 0 0 = (None, m')"
    then show thesis using c by simp
  qed (simp_all add: sizeof_CoAP_Message_t_def MAX_REQ_def)
qed

end
