(* ===== verification/Safety_Properties.thy ===== *)
theory Safety_Properties
  imports Stack_Safe_Receive Examples
begin

text \<open>
  Memory safety of the whole stack: the remaining operations of the application (requests, resources,
  initialisation) keep \<open>stack_safe\<close>, so it holds in all runs on the BGET allocator.
\<close>

section \<open>Requests of our own, resources, sockets, start\<close>

context coap_allocator
begin

lemma safe_StartClient:
  assumes "ops E = A" "safe_with A rep s M" "msg_fits MAX_WEIGHT M" "CoAP_StartNewClientInteraction E s (Some M) i ep cb = (r, s')"
  shows "stack_safe A rep s'"
proof (cases "CoAP_MsgIsRequest M")
  case False
  then show ?thesis using assms(4) safe_with_forget [OF assms(2)] by (simp add: CoAP_StartNewClientInteraction_def)
next
  case True
  obtain r1 s1 where al: "CoAP_AllocNewInteraction E s = (r1, s1)" by fastforce
  let ?X = "ias_mset (pInteractions s) + ress_objs (pResList s)"
  have "holds A rep (mem s) (add_mset (OMsg M) ?X)" using assms(2) by (simp add: safe_with_def)
  note h = holds_alloc_ia [OF assms(1) this al]
  show ?thesis
  proof (cases r1)
    case None
    then have "s' = s1" using assms(4) True al by (simp add: CoAP_StartNewClientInteraction_def)
    then show ?thesis using h None by (auto intro: safe_kept [OF safe_with_forget [OF assms(2)]] holds_add_weaken)
  next
    case (Some x)
    let ?x = "x\<lparr>pReqMsg := Some M, ia_ifID := i, RemoteEp := CopyEndpoints (RemoteEp x) ep, RespCB := cb,
      Role := COAP_ROLE_CLIENT, State := COAP_STATE_READY_TO_REQUEST\<rparr>"
    have "s' = s1\<lparr>pInteractions := pInteractions s1 @ [?x]\<rparr>"
      using assms(4) True al Some by (simp add: CoAP_StartNewClientInteraction_def CoAP_AppendInteractionToList_def Let_def)
    then show ?thesis
      using h Some assms(3) by (intro safe_append [OF _ _ safe_with_forget [OF assms(2)], of _ ?x]) (simp_all add: same_lists_def ia_mset_def ia_fits_def add_mset_commute)
  qed
qed

lemma safe_request:
  assumes "ops E = A" "stack_safe A rep s" "CoAP_CreateMessage A (mem s) ty code mid ini n mx tok = (pM, m1)"
    and "n \<le> mx" "unat mx \<le> 30000" "case ini of None \<Rightarrow> True | Some bs \<Rightarrow> unat n \<le> length bs"
    and "CoAP_StartNewClientInteraction E (s\<lparr>mem := m1\<rparr>) pM i ep cb = (r, s')"
  shows "stack_safe A rep s'"
proof -
  let ?X = "ias_mset (pInteractions s) + ress_objs (pResList s)"
  have mx: "sizeof_CoAP_Message_t + uint mx \<le> MAX_REQ"
    using assms(5) by (simp add: sizeof_CoAP_Message_t_def MAX_REQ_def uint_nat del: of_nat_unat)
  have "holds A rep (mem s) ?X" using assms(2) by (simp add: stack_safe_def)
  note h = holds_create [OF this assms(3) mx assms(4,6)]
  show ?thesis
  proof (cases pM)
    case None
    then have "s' = s\<lparr>mem := m1\<rparr>" using assms(7) by (simp add: CoAP_StartNewClientInteraction_def)
    then show ?thesis using h None by (auto intro: safe_kept [OF assms(2)])
  next
    case (Some M)
    have "unat n \<le> 30000" using assms(4,5) by (simp add: word_le_nat_alt)
    then have "msg_fits MAX_WEIGHT M" using h Some by (simp add: msg_fits_def msg_weight_def MAX_WEIGHT_def local_array_def)
    moreover have "safe_with A rep (s\<lparr>mem := m1\<rparr>) M" using h Some assms(2) by (simp add: safe_with_def stack_safe_def res_count_ok_def)
    ultimately show ?thesis using safe_StartClient [OF assms(1)] assms(7) Some by blast
  qed
qed

lemma safe_get_request:
  assumes "ops E = A" "stack_safe A rep s" "length uri \<le> 5000" "CoAP_StartNewGetRequest E s (Some uri) i ep cb = (r, s')"
  shows "stack_safe A rep s'"
proof -
  let ?X = "ias_mset (pInteractions s) + ress_objs (pResList s)"
  obtain mid id' where 1: "CoAP_GetNextMid (MId s) = (mid, id')" by fastforce
  obtain tok tk' where 2: "CoAP_GenerateToken (TokenCtr s) = (tok, tk')" by fastforce
  obtain pM m1 where c: "CoAP_CreateMessage A (mem s) CON REQ_GET mid None 0 0 tok = (pM, m1)" by fastforce
  let ?s = "s\<lparr>mem := m1, MId := id', TokenCtr := tk'\<rparr>"
  have "holds A rep (mem s) ?X" using assms(2) by (simp add: stack_safe_def)
  from holds_create [OF this c] have h: "holds A rep m1 (message_objs pM + ?X)"
    "\<And>M. pM = Some M \<Longrightarrow> msg_wf M \<and> pOptionsList M = [] \<and> PayloadLength M = 0 \<and> NULL \<le> Payload M"
    by (auto simp: sizeof_CoAP_Message_t_def MAX_REQ_def)
  show ?thesis
  proof (cases pM)
    case None
    then have "s' = ?s" using assms(1,4) 1 2 c by (simp add: CoAP_StartNewGetRequest_def)
    then show ?thesis using h(1) None by (auto simp: same_lists_def intro: safe_kept [OF assms(2)])
  next
    case (Some M)
    obtain r2 L m2 where u: "CoAP_AppendUriOptionsFromString A m1 [] (Some uri) = (r2, L, m2)" by (metis prod_cases3)
    let ?M = "M\<lparr>pOptionsList := L\<rparr>"
    have st: "CoAP_StartNewClientInteraction E (s\<lparr>MId := id', TokenCtr := tk', mem := m2\<rparr>) (Some ?M) i ep cb = (r, s')"
      using assms(1,4) 1 2 c Some u h(2) by (simp add: CoAP_StartNewGetRequest_def)
    have "M\<lparr>pOptionsList := []\<rparr> = M" using h(2) [OF Some] by simp
    then have h1: "holds A rep m1 (add_mset (OMsg (M\<lparr>pOptionsList := []\<rparr>)) ?X)" using h(1) Some by simp
    from holds_uri [OF h1 u] assms(3)
    have h2: "holds A rep m2 (opt_objs L + add_mset (OMsg (M\<lparr>pOptionsList := []\<rparr>)) ?X)" "opts_wf L" "opts_weight L \<le> 30000"
      by auto
    have "msg_fits MAX_WEIGHT ?M"
      using h(2) [OF Some] h2(2,3) by (auto simp: msg_fits_def msg_wf_def msg_weight_def MAX_WEIGHT_def local_array_def)
    moreover have "holds A rep m2 (add_mset (OMsg ?M) ?X)" using h2(1) by (simp only: holds_with_options)
    then have "safe_with A rep (s\<lparr>MId := id', TokenCtr := tk', mem := m2\<rparr>) ?M"
      using assms(2) by (simp add: safe_with_def stack_safe_def res_count_ok_def)
    ultimately show ?thesis using safe_StartClient [OF assms(1)] st by blast
  qed
qed

lemma safe_create:
  assumes "stack_safe A rep s" "CoAP_CreateResource A (mem s) (pResList s) (ResListMembers s) uri d opts hf nt = Some (R, L, n, m)"
    and "length uri \<le> 32000" "length d \<le> 32000" "length (pResList s) < 499"
  shows "stack_safe A rep (s\<lparr>mem := m, pResList := L, ResListMembers := n\<rparr>)"
proof -
  have "holds A rep (mem s) (ress_objs (pResList s) + ias_mset (pInteractions s))" using assms(1) by (simp add: stack_safe_def add.commute)
  note h = holds_CreateResource [OF this assms(2-4)]
  have "unat (ResListMembers s + 1) = unat (ResListMembers s) + 1" if "unat (ResListMembers s) < 499"
    using that by (simp add: unat_word_ariths)
  then have "res_count_ok (s\<lparr>mem := m, pResList := L, ResListMembers := n\<rparr>)"
    using h assms(1,5) by (auto simp: res_count_ok_def stack_safe_def)
  then show ?thesis using h assms(1) by (simp add: stack_safe_def add.commute)
qed

lemma safe_init:
  assumes "ops E = A" "rep (init m p n) Map.empty" "CoAP_Init E init (stack0 m S) p n = Some (r, s)"
  shows "stack_safe A rep s"
proof -
  let ?m = "init m p n" and ?s = "stack0 (init m p n) S"
  obtain R L k m' where c: "CoAP_CreateResource A ?m [] 0 (str ''/.well-known/core'') []
      \<lparr>Cf = COAP_CF_LINK_FORMAT, Flags = RES_OPT_GET, ETag = 0\<rparr> (Some WellKnown_fn) None = Some (R, L, k, m')"
    and s: "s = ?s\<lparr>mem := m', pResList := L, ResListMembers := k\<rparr>"
    using assms(1,3) by (auto simp: CoAP_Init_def CoAP_InitResources_def stack0_def split: option.splits)
  have "holds A rep ?m {#}" using assms(2) by (auto intro: holdsI [where g = Map.empty and xs = "[]"])
  then have "stack_safe A rep ?s" by (simp add: stack_safe_def stack0_def res_count_ok_def)
  from safe_create [OF this] c show ?thesis by (simp add: s stack0_def str_def)
qed

end

section \<open>Runs of the stack\<close>

text \<open>The states a program reaches that uses the stack within its limits. The pool has at most 32767
  bytes. The token of a datagram with a good header lies inside the datagram (\<open>framed\<close>: the parser
  does not check this); nothing else is required of received bytes. URIs, descriptions and payloads
  of requests are short enough for the 16-bit sizes of the allocator, and there are fewer than 500
  resources.\<close>

inductive running :: "bget_state env \<Rightarrow> bget_state stack \<Rightarrow> bool" for E where
  start: "CoAP_Init E coap_mem_init (stack0 bget_init S) p n = Some (r, s) \<Longrightarrow> 0 < p \<Longrightarrow> 16 \<le> n \<Longrightarrow> n \<le> 32767 \<Longrightarrow> running E s"
| work: "running E s \<Longrightarrow> CoAP_doWork E now s = Some s' \<Longrightarrow> running E s'"
| packet: "running E s \<Longrightarrow> CoAP_ReceivedUdp4Packet E now s i ip port d len = Some s' \<Longrightarrow> framed E d len \<Longrightarrow> running E s'"
| uart: "running E s \<Longrightarrow> CoAP_ReceivedPacket E now s i d len = Some s' \<Longrightarrow> framed E d len \<Longrightarrow> running E s'"
| get: "running E s \<Longrightarrow> CoAP_StartNewGetRequest E s (Some uri) i ep cb = (r, s') \<Longrightarrow> length uri \<le> 5000 \<Longrightarrow> running E s'"
| request: "running E s \<Longrightarrow> CoAP_CreateMessage bget_ops (mem s) ty code mid ini n mx tok = (pM, m1) \<Longrightarrow>
    n \<le> mx \<Longrightarrow> unat mx \<le> 30000 \<Longrightarrow> (case ini of None \<Rightarrow> True | Some bs \<Rightarrow> unat n \<le> length bs) \<Longrightarrow>
    CoAP_StartNewClientInteraction E (s\<lparr>mem := m1\<rparr>) pM i ep cb = (r, s') \<Longrightarrow> running E s'"
| notify: "running E s \<Longrightarrow> CoAP_NotifyResourceObservers E s k = Some (r, s') \<Longrightarrow> running E s'"
| create: "running E s \<Longrightarrow> CoAP_CreateResource bget_ops (mem s) (pResList s) (ResListMembers s) uri d opts hf nt = Some (R, L, k, m) \<Longrightarrow>
    length uri \<le> 32000 \<Longrightarrow> length d \<le> 32000 \<Longrightarrow> length (pResList s) < 499 \<Longrightarrow>
    running E (s\<lparr>mem := m, pResList := L, ResListMembers := k\<rparr>)"
| socket: "running E s \<Longrightarrow> CoAP_CreateInterfaceSocket tx (SocketCtrl s) i = (k, S) \<Longrightarrow> running E (s\<lparr>SocketCtrl := S\<rparr>)"

lemma safe_received:
  assumes "ops E = bget_ops" "stack_safe bget_ops bget_rep s" "framed E d len"
  shows "CoAP_ReceivedUdp4Packet E now s i ip port d len = Some s' \<Longrightarrow> stack_safe bget_ops bget_rep s'"
    "CoAP_ReceivedPacket E now s i d len = Some s' \<Longrightarrow> stack_safe bget_ops bget_rep s'"
proof -
  have rx: "stack_safe bget_ops bget_rep s'" if "CoAP_onNewPacketHandler E now s j pk = Some s'" "pData pk = d" "pk_size pk = len" for j pk
    by (rule bget.safe_onNewPacket [OF assms(1,2) _ that(1)]) (use assms(3) that(2,3) in simp)
  show "CoAP_ReceivedUdp4Packet E now s i ip port d len = Some s' \<Longrightarrow> stack_safe bget_ops bget_rep s'"
    "CoAP_ReceivedPacket E now s i d len = Some s' \<Longrightarrow> stack_safe bget_ops bget_rep s'"
    using assms(2) by (auto simp: CoAP_ReceivedUdp4Packet_def CoAP_ReceivedPacket_def deliver_def Let_def
        dest: rx split: option.splits NetReceiveCallback.splits)
qed

lemma running_safe:
  assumes "env_ok bget_ops bget_rep E" "running E s"
  shows "stack_safe bget_ops bget_rep s"
  using assms(2)
proof (induction rule: running.induct)
  case (start S p n r s)
  then show ?case by (intro bget.safe_init [OF env_okD [OF assms(1)], of coap_mem_init bget_init p n] init_rep)
next
  case (work s now s')
  then show ?case using bget.safe_doWork [OF assms(1)] by blast
next
  case (packet s now i ip port d len s')
  then show ?case using safe_received(1) [OF env_okD [OF assms(1)]] by blast
next
  case (uart s now i d len s')
  then show ?case using safe_received(2) [OF env_okD [OF assms(1)]] by blast
next
  case (get s uri i ep cb r s')
  then show ?case using bget.safe_get_request [OF env_okD [OF assms(1)]] by blast
next
  case (request s ty code mid ini n mx tok pM m1 i ep cb r s')
  then show ?case using bget.safe_request [OF env_okD [OF assms(1)]] by blast
next
  case (notify s k r s')
  then show ?case using bget.safe_NotifyObservers [OF assms(1)] by blast
next
  case (create s uri d opts hf nt R L k m)
  then show ?case using bget.safe_create by blast
next
  case (socket s tx i k S)
  then show ?case by (simp add: stack_safe_def res_count_ok_def)
qed

section \<open>A running example\<close>

text \<open>An application with a handler that answers 2.05, and a notifier that sends an empty message. The
  stack has been started in a pool of 2048 bytes and has begun a request.\<close>

definition app_env :: "bget_state env" where
  "app_env = \<lparr>ops = bget_ops,
     user_handler = (\<lambda>_ m req resp. Some (HANDLER_OK, map_option (\<lambda>M. M\<lparr>Code := RESP_SUCCESS_CONTENT_2_05\<rparr>) resp, m)),
     user_notifier = (\<lambda>_ m ob M. Some (HANDLER_OK, M\<lparr>pOptionsList := [], PayloadLength := 0\<rparr>,
       snd (snd (CoAP_FreeOptionList bget_ops m (pOptionsList M))))),
     receiveBlocked = False, stale_buf = (\<lambda>_. 0), stale_pked = demo_packet\<rparr>"

lemma app_env_ok: "env_ok bget_ops bget_rep app_env"
proof -
  have "holds bget_ops bget_rep m (message_objs (map_option (\<lambda>M. M\<lparr>Code := c\<rparr>) resp) + X)"
    if "holds bget_ops bget_rep m (message_objs resp + X)" for m resp X c
    using that by (cases resp) (auto intro: holds_msg_cong)
  then have "handlers_ok bget_ops bget_rep app_env"
    by (auto simp: handlers_ok_def app_env_def resp_fits_def split: option.splits)
  moreover have "holds bget_ops bget_rep (snd (snd (CoAP_FreeOptionList bget_ops m (pOptionsList M)))) (add_mset (OMsg (M\<lparr>pOptionsList := [], PayloadLength := 0\<rparr>)) X)"
    if "holds bget_ops bget_rep m (add_mset (OMsg M) X)" for m M X
  proof -
    obtain r L m' where f: "CoAP_FreeOptionList bget_ops m (pOptionsList M) = (r, L, m')" by (metis prod_cases3)
    have "holds bget_ops bget_rep m (opt_objs (pOptionsList M) + add_mset (OMsg (M\<lparr>pOptionsList := []\<rparr>)) X)"
      using that by (simp only: holds_with_options) simp
    from bget.holds_free_options [OF this f] have "holds bget_ops bget_rep m' (add_mset (OMsg (M\<lparr>pOptionsList := []\<rparr>)) X)" .
    then show ?thesis unfolding f by (auto intro: holds_msg_cong)
  qed
  then have "notifiers_ok bget_ops bget_rep app_env"
    by (auto simp: notifiers_ok_def app_env_def msg_fits_def msg_wf_def opts_wf_def msg_weight_def HANDLER_WEIGHT_def)
  ultimately show ?thesis by (simp add: env_ok_def app_env_def)
qed

definition app_start :: "bget_state stack" where
  "app_start = snd (the (CoAP_Init app_env coap_mem_init (stack0 bget_init demo_sockets) 4096 2048))"

definition app_state :: "bget_state stack" where
  "app_state = snd (CoAP_StartNewGetRequest app_env app_start (Some [97]) 2 demo_ep (Some 5))"

lemma app_state_shape: "CoAP_Init app_env coap_mem_init (stack0 bget_init demo_sockets) 4096 2048 \<noteq> None"
  "length (pInteractions app_state) = 1" "length (pResList app_state) = 1"
  by code_simp+

lemma app_running: "running app_env app_state"
proof -
  obtain r where "CoAP_Init app_env coap_mem_init (stack0 bget_init demo_sockets) 4096 2048 = Some (r, app_start)"
    using app_state_shape(1) by (auto simp: app_start_def)
  then have "running app_env app_start" by (rule running.start) simp_all
  then show ?thesis by (rule running.get [where uri = "[97]" and i = 2 and ep = demo_ep and cb = "Some 5"]) (simp_all add: app_state_def prod_eq_iff)
qed

section \<open>All runs\<close>

text \<open>The objects of the stack: the struct and the messages of every interaction; the struct, the
  description, the options and the observers (with their options) of every resource.\<close>

abbreviation stack_objs :: "'m stack \<Rightarrow> obj multiset" where
  "stack_objs s \<equiv> ias_mset (pInteractions s) + ress_objs (pResList s)"

text \<open>C2. Ownership of memory in the whole stack on its own allocator, for every run in which each step has a defined
  outcome (a step that follows a missing pointer, or a pointer to a freed observer, has none in the model and ends the
  run). Start the stack with a pool of 16 to 32767 bytes and let it run: work steps, received datagrams of any contents
  that hold the token they announce, requests (URIs of up to 5000, payload buffers of up to 30000 bytes), notifications,
  new resources (fewer than 500) and new sockets, in any order, with allocations that fail at any point, and with handlers and
  notifiers that keep to their contract (\<open>env_ok\<close>: they may change the response message and use the allocator, but leave
  every other object alone, and the message stays well formed and of bounded size). Then at every moment the interactions in the list with
  their messages and options, and the resources in the list with their descriptions, options and
  observers, are live buffers of the allocator, no buffer belongs to two of them, the interactions have different
  addresses, no assertion of the allocator has failed, and the pool is consistent. Nothing is claimed of the pointer
  \<open>pObserver\<close> of a notification to its observer: it is left behind when the client registers again.\<close>

theorem stack_memory_safe:
  assumes "env_ok bget_ops bget_rep E" "running E s"
  shows "\<exists>xs g h. mset xs = stack_objs s \<and>
    bget_rep (mem s) h \<and> owns (mem_area bget_ops (mem s)) g xs h \<and>
    distinct (map ia_at (pInteractions s)) \<and> assert_fails (mem s) = 0 \<and> bpoolv (mem s) (pMemArea (mem s)) = Some True"
proof -
  note safe = running_safe [OF assms]
  then obtain xs g h where xs: "mset xs = stack_objs s" "bget_rep (mem s) h" "owns (mem_area bget_ops (mem s)) g xs h"
    by (auto simp: stack_safe_def holds_def)
  then obtain bs fs where pool: "pool (mem s) bs fs" by (auto simp: bget_rep_def)
  show ?thesis using xs poolD(8) [OF pool] bpoolv_ok [OF pool] stack_safe_distinct [OF safe] by blast
qed

theorem stack_memory_safe_witness:
  "env_ok bget_ops bget_rep app_env \<and> running app_env app_state \<and>
    length (pInteractions app_state) = 1 \<and> length (pResList app_state) = 1 \<and>
    (\<exists>xs g h. mset xs = stack_objs app_state \<and> bget_rep (mem app_state) h \<and>
      owns (mem_area bget_ops (mem app_state)) g xs h \<and> distinct (map ia_at (pInteractions app_state)) \<and>
      assert_fails (mem app_state) = 0 \<and> bpoolv (mem app_state) (pMemArea (mem app_state)) = Some True)"
  using stack_memory_safe [OF app_env_ok app_running] app_env_ok app_running app_state_shape(2,3) by blast

end
