(* ===== verification/Stack_Properties.thy ===== *)
theory Stack_Properties
  imports Examples Stack_Owned
begin

text \<open>
  Properties of the running stack: the invariants of reachable states, progress of the client,
  retransmission, fairness of the work loop, detection of duplicates, immediate answers, and the
  delivery of responses.
\<close>

section \<open>A reachable example\<close>

text \<open>An environment whose allocator hands out ever new addresses, without handlers.\<close>

definition bump_ops :: "ptr mem_ops" where
  "bump_ops = \<lparr>coap_mem_get = (\<lambda>m n. (m, m + n + 1)), coap_mem_get0 = (\<lambda>m n. (m, m + n + 1)),
     coap_mem_release = (\<lambda>m p. m), coap_mem_size = (\<lambda>m p. 1), coap_mem_buf_lowEnd = (\<lambda>m. 4096),
     coap_mem_buf_highEnd = (\<lambda>m. m)\<rparr>"

definition demo_env :: "ptr env" where
  "demo_env = \<lparr>ops = bump_ops, user_handler = (\<lambda>_ _ _ _. None), user_notifier = (\<lambda>_ _ _ _. None),
     receiveBlocked = False, stale_buf = (\<lambda>_. 0), stale_pked = demo_packet\<rparr>"

definition demo_state :: "ptr stack" where
  "demo_state = snd (CoAP_StartNewGetRequest demo_env
     (snd (the (CoAP_Init demo_env (\<lambda>m p n. p) (stack0 0 demo_sockets) 4096 2048))) (Some [97]) 2 demo_ep (Some 5))"

lemma demo_state_reachable: "reachable demo_env demo_state"
proof -
  let ?i = "CoAP_Init demo_env (\<lambda>m p n. p) (stack0 0 demo_sockets) 4096 2048"
  have "?i \<noteq> None"
    by (simp add: CoAP_Init_def CoAP_InitResources_def CoAP_CreateResource_def Let_def split: prod.splits)
  then obtain r s where i: "?i = Some (r, s)" by auto
  then have "reachable demo_env s" by (rule reachable.start)
  moreover have "step demo_env s (snd (CoAP_StartNewGetRequest demo_env s (Some [97]) 2 demo_ep (Some 5)))"
    by (rule step.get [OF prod.collapse [symmetric]])
  then have "step demo_env s demo_state" by (simp add: demo_state_def i)
  ultimately show ?thesis by (rule reachable.next_state)
qed

lemma demo_state_list:
  "length (pInteractions demo_state) = 1" "Role (hd (pInteractions demo_state)) = COAP_ROLE_CLIENT"
  "ia_ifID (hd (pInteractions demo_state)) = 2" "RetrieveSocket2 (SocketCtrl demo_state) 2 = Some 0"
  by code_simp+

lemma demo_state_fields:
  "State (hd (pInteractions demo_state)) = COAP_STATE_READY_TO_REQUEST" "SleepUntil (hd (pInteractions demo_state)) = 0"
  "RemoteEp (hd (pInteractions demo_state)) = demo_ep" "mem demo_state \<noteq> NULL" "Outbox demo_state = []"
  by code_simp+

lemma demo_state_tx: "SocketCtrl demo_state = demo_sockets"
proof -
  let ?i = "CoAP_Init demo_env (\<lambda>m p n. p) (stack0 0 demo_sockets) 4096 2048"
  have "?i \<noteq> None"
    by (simp add: CoAP_Init_def CoAP_InitResources_def CoAP_CreateResource_def Let_def split: prod.splits)
  then obtain r s where i: "?i = Some (r, s)" by auto
  then have "SocketCtrl s = demo_sockets" by (auto simp: CoAP_Init_def stack0_def split: option.splits)
  then show ?thesis unfolding demo_state_def i
    by (simp add: CoAP_StartNewGetRequest_def CoAP_StartNewClientInteraction_def CoAP_AllocNewInteraction_def Let_def
        split: prod.splits option.splits)
qed

section \<open>Reachable states\<close>

text \<open>C3. The state machine. In every state that the stack can reach from its initialisation, by any
  sequence of work steps, received packets, new requests, notifications and new resources, with any
  handlers and any allocator: no interaction has been retransmitted more than \<open>MAX_RETRANSMIT\<close>
  times; a server interaction has its request, a resource with a handler, and a response once it
  is in state \<open>RESPONSE_SENT\<close>; a notification has its message and a resource with a notifier; a
  client interaction has its request, and a response once it is to be handled.\<close>

theorem reachable_interactions:
  assumes "reachable E s" "x \<in> set (pInteractions s)"
  shows "uint (RetransCounter x) \<le> 4 \<and>
    (case Role x of
       COAP_ROLE_SERVER \<Rightarrow>
         (\<exists>req R h. pReqMsg x = Some req \<and> CoAP_MsgIsRequest req \<and> get_res s (pRes x) = Some R \<and> Handler R = Some h) \<and>
         State x \<in> {COAP_STATE_HANDLE_REQUEST, COAP_STATE_RESOURCE_POSTPONE_EMPTY_ACK_SENT, COAP_STATE_RESPONSE_SENT} \<and>
         (State x = COAP_STATE_RESPONSE_SENT \<longrightarrow> pRespMsg x \<noteq> None)
     | COAP_ROLE_NOTIFICATION \<Rightarrow>
         pRespMsg x \<noteq> None \<and> (\<exists>R fn. get_res s (pRes x) = Some R \<and> Notifier R = Some fn) \<and>
         State x \<in> {COAP_STATE_READY_TO_NOTIFY, COAP_STATE_NOTIFICATION_SENT}
     | COAP_ROLE_CLIENT \<Rightarrow>
         (\<exists>req. pReqMsg x = Some req \<and> CoAP_MsgIsRequest req) \<and>
         State x \<in> {COAP_STATE_READY_TO_REQUEST, COAP_STATE_WAITING_RESPONSE, COAP_STATE_HANDLE_RESPONSE} \<and>
         (State x = COAP_STATE_HANDLE_RESPONSE \<longrightarrow> pRespMsg x \<noteq> None)
     | COAP_ROLE_NOT_SET \<Rightarrow> False)"
proof -
  have ok: "ia_ok (res_sig s) x"
    using reachable_stack_ok [OF assms(1)] assms(2) by (simp add: stack_ok_def list_all_iff)
  have res: "has_res P (res_sig s) r \<Longrightarrow> \<exists>R. get_res s r = Some R \<and> P (Handler R, Notifier R)" for P r
    by (auto simp: has_res_def get_res_def res_sig_def split: option.splits)
  show ?thesis
  proof (cases "Role x")
    case COAP_ROLE_SERVER
    then show ?thesis using ok res [of "\<lambda>r. fst r \<noteq> None"] by (auto simp: ia_ok_def is_request_def split: option.splits)
  next
    case COAP_ROLE_NOTIFICATION
    then show ?thesis using ok res [of "\<lambda>r. snd r \<noteq> None"] by (auto simp: ia_ok_def)
  next
    case COAP_ROLE_CLIENT
    then show ?thesis using ok by (auto simp: ia_ok_def is_request_def split: option.splits)
  qed (use ok in \<open>simp add: ia_ok_def\<close>)
qed

theorem reachable_interactions_witness:
  "\<exists>x. reachable demo_env demo_state \<and> x \<in> set (pInteractions demo_state) \<and> uint (RetransCounter x) \<le> 4 \<and>
    (case Role x of
       COAP_ROLE_SERVER \<Rightarrow>
         (\<exists>req R h. pReqMsg x = Some req \<and> CoAP_MsgIsRequest req \<and> get_res demo_state (pRes x) = Some R \<and> Handler R = Some h) \<and>
         State x \<in> {COAP_STATE_HANDLE_REQUEST, COAP_STATE_RESOURCE_POSTPONE_EMPTY_ACK_SENT, COAP_STATE_RESPONSE_SENT} \<and>
         (State x = COAP_STATE_RESPONSE_SENT \<longrightarrow> pRespMsg x \<noteq> None)
     | COAP_ROLE_NOTIFICATION \<Rightarrow>
         pRespMsg x \<noteq> None \<and> (\<exists>R fn. get_res demo_state (pRes x) = Some R \<and> Notifier R = Some fn) \<and>
         State x \<in> {COAP_STATE_READY_TO_NOTIFY, COAP_STATE_NOTIFICATION_SENT}
     | COAP_ROLE_CLIENT \<Rightarrow>
         (\<exists>req. pReqMsg x = Some req \<and> CoAP_MsgIsRequest req) \<and>
         State x \<in> {COAP_STATE_READY_TO_REQUEST, COAP_STATE_WAITING_RESPONSE, COAP_STATE_HANDLE_RESPONSE} \<and>
         (State x = COAP_STATE_HANDLE_RESPONSE \<longrightarrow> pRespMsg x \<noteq> None)
     | COAP_ROLE_NOT_SET \<Rightarrow> False)"
proof -
  let ?x = "hd (pInteractions demo_state)"
  have x: "?x \<in> set (pInteractions demo_state)" using demo_state_list(1) by (cases "pInteractions demo_state") auto
  from demo_state_reachable x reachable_interactions [OF demo_state_reachable x] show ?thesis
    by (intro exI [of _ ?x] conjI) blast+
qed

text \<open>C18. Safety of the searches. In a reachable state none of the searches over the interaction list
  dereferences a missing message: neither the search for a duplicate of a request, nor the one for
  the client interaction of a response, nor the one for the pending notification of an observer;
  and the checks of the work loop for a sent request or response find their message.\<close>

theorem searches_safe:
  assumes "reachable E s"
  shows "find_duplicate (pInteractions s) mid i ep \<noteq> None \<and> find_client (pInteractions s) tok ep \<noteq> None \<and>
    find_pending (pInteractions s) tok i ep \<noteq> None \<and>
    (\<forall>x \<in> set (pInteractions s). (State x = COAP_STATE_WAITING_RESPONSE \<longrightarrow> CheckReqStatus now x \<noteq> None) \<and>
      (State x = COAP_STATE_RESPONSE_SENT \<or> State x = COAP_STATE_NOTIFICATION_SENT \<longrightarrow> CheckRespStatus now x \<noteq> None))"
proof -
  have ok: "list_all (ia_ok (res_sig s)) (pInteractions s)"
    using reachable_stack_ok [OF assms] by (simp add: stack_ok_def)
  have "(State x = COAP_STATE_WAITING_RESPONSE \<longrightarrow> CheckReqStatus now x \<noteq> None) \<and>
      (State x = COAP_STATE_RESPONSE_SENT \<or> State x = COAP_STATE_NOTIFICATION_SENT \<longrightarrow> CheckRespStatus now x \<noteq> None)"
    if "x \<in> set (pInteractions s)" for x
  proof -
    have "ia_ok (res_sig s) x" using ok that by (simp add: list_all_iff)
    then show ?thesis
      by (cases "Role x") (auto simp: ia_ok_def is_request_def CheckReqStatus_def CheckRespStatus_def split: option.splits)
  qed
  then show ?thesis
    using find_duplicate_ok [OF ok, of mid i ep] find_client_ok [OF ok, of tok ep] find_pending_ok [OF ok, of tok i ep] by auto
qed

theorem searches_safe_witness:
  "find_duplicate (pInteractions demo_state) 1 2 demo_ep \<noteq> None \<and> find_client (pInteractions demo_state) 3 demo_ep \<noteq> None \<and>
    find_pending (pInteractions demo_state) 3 2 demo_ep \<noteq> None \<and>
    (\<exists>x. pInteractions demo_state = [x] \<and> (State x = COAP_STATE_WAITING_RESPONSE \<longrightarrow> CheckReqStatus 9 x \<noteq> None) \<and>
      (State x = COAP_STATE_RESPONSE_SENT \<or> State x = COAP_STATE_NOTIFICATION_SENT \<longrightarrow> CheckRespStatus 9 x \<noteq> None))"
proof -
  obtain x where "pInteractions demo_state = [x]"
    using demo_state_list(1) by (cases "pInteractions demo_state") auto
  then show ?thesis
    using searches_safe [OF demo_state_reachable, of 1 2 demo_ep 3 9] by simp
qed

section \<open>Progress of the client\<close>

text \<open>What one transmission does, with any allocator: without memory for the datagram nothing; otherwise one packet is
  handed over.\<close>

lemma send_outcome:
  assumes "RetrieveSocket2 (SocketCtrl s) i = Some k" "Tx (SocketMemory (SocketCtrl s) ! k) = Some tx"
  obtains (none) m' n where "send E now s M i ep = Some (COAP_ERR_OUT_OF_MEMORY, M, s\<lparr>mem := m'\<rparr>)"
      "fst (coap_mem_get (ops E) (mem s) n) = NULL"
  | (sent) pk M' m' where "send E now s M i ep = Some (if tx i pk then COAP_OK else COAP_ERR_NETWORK, M', s\<lparr>mem := m', Outbox := Outbox s @ [(i, pk)]\<rparr>)"
      "Receiver pk = ep" "msg_wf M \<Longrightarrow> length (encode_message M) < 65536 \<Longrightarrow> pData pk = encode_message M"
proof -
  let ?n = "of_int (CoAP_GetRawSizeOfMessage M) :: u16"
  obtain pd m1 where g: "(if ?n \<le> 16 then (NULL, mem s) else coap_mem_get (ops E) (mem s) (s16 (uint ?n))) = (pd, m1)" by fastforce
  obtain b n d M1 where b: "CoAP_BuildDatagram (stale_buf E) M = (b, n, d, M1)" by (metis prod_cases4)
  show thesis
  proof (cases "\<not> ?n \<le> 16 \<and> pd = NULL")
    case True
    then have "fst (coap_mem_get (ops E) (mem s) (s16 (uint ?n))) = NULL" using g by simp
    moreover have "send E now s M i ep = Some (COAP_ERR_OUT_OF_MEMORY, M, s\<lparr>mem := m1\<rparr>)"
      using True g assms by (simp add: send_def on_stack_def CoAP_SendMsg_def Let_def)
    ultimately show ?thesis by (rule none [rotated])
  next
    case False
    define pk where "pk = (stale_pked E)\<lparr>Receiver := ep, Sender := EpLocal (SocketMemory (SocketCtrl s) ! k), pk_size := ?n,
      pData := bytes_at d 0 (unat ?n)\<rparr>"
    have "pData pk = encode_message M" if "msg_wf M" "length (encode_message M) < 65536"
    proof -
      have "unat ?n = length (encode_message M)"
        using RawSize_length [OF that] unat_of_nat16 [OF that(2)] by simp
      then show ?thesis using BuildDatagram_write [OF that, of "stale_buf E"] b by (simp add: pk_def)
    qed
    moreover have "send E now s M i ep = Some (if tx i pk then COAP_OK else COAP_ERR_NETWORK, if tx i pk then M1\<lparr>Timestamp := now\<rparr> else M1,
        s\<lparr>mem := (if ?n \<le> 16 then m1 else coap_mem_release (ops E) m1 pd), Outbox := Outbox s @ [(i, pk)]\<rparr>)"
      using False g b assms by (cases "?n \<le> 16") (auto simp: send_def on_stack_def CoAP_SendMsg_def Let_def pk_def)
    moreover have "Receiver pk = ep" by (simp add: pk_def)
    ultimately show ?thesis using sent by blast
  qed
qed

text \<open>How often an exchange can still be transmitted.\<close>

definition client_rank :: "CoAP_Interaction_t \<Rightarrow> nat" where
  "client_rank x = (if State x = COAP_STATE_READY_TO_REQUEST then 6
     else if State x = COAP_STATE_WAITING_RESPONSE then 5 - unat (RetransCounter x) else 0)"

text \<open>The first transmission and the repetitions: the exchange goes on with a lower rank, or it is removed because the
  transmission failed.\<close>

definition transmitted :: "'m env \<Rightarrow> (u8 \<Rightarrow> NetPacket_t \<Rightarrow> bool) \<Rightarrow> 'm stack \<Rightarrow> CoAP_Interaction_t \<Rightarrow> CoAP_Interaction_t list \<Rightarrow> 'm stack \<Rightarrow> bool" where
  "transmitted E tx s x xs s' \<longleftrightarrow>
     (\<exists>pk. Outbox s' = Outbox s @ [(ia_ifID x, pk)] \<and> Receiver pk = RemoteEp x \<and>
       (msg_wf (the (pReqMsg x)) \<and> length (encode_message (the (pReqMsg x))) < 65536 \<longrightarrow> pData pk = encode_message (the (pReqMsg x))) \<and>
       (if tx (ia_ifID x) pk
        then \<exists>y. pInteractions s' = (if State x = COAP_STATE_READY_TO_REQUEST then xs @ [y] else y # xs) \<and> ia_at y = ia_at x \<and>
          Role y = COAP_ROLE_CLIENT \<and> State y = COAP_STATE_WAITING_RESPONSE \<and> client_rank y < client_rank x
        else pInteractions s' = xs)) \<or>
     Outbox s' = Outbox s \<and> pInteractions s' = xs \<and> (\<exists>n. fst (coap_mem_get (ops E) (mem s) n) = NULL)"

lemma first_transmission:
  assumes "pInteractions s = x # xs" "distinct (map ia_at (x # xs))" "Role x = COAP_ROLE_CLIENT" "pReqMsg x = Some req"
    "State x = COAP_STATE_READY_TO_REQUEST"
    "RetrieveSocket2 (SocketCtrl s) (ia_ifID x) = Some k" "Tx (SocketMemory (SocketCtrl s) ! k) = Some tx"
  shows "\<exists>r s'. SendReq E now s x COAP_STATE_WAITING_RESPONSE = Some (r, s') \<and> Delivered s' = Delivered s \<and> transmitted E tx s x xs s'"
proof (rule send_outcome [OF assms(6,7), of E now req "RemoteEp x"])
  fix m' n
  assume snd: "send E now s req (ia_ifID x) (RemoteEp x) = Some (COAP_ERR_OUT_OF_MEMORY, req, s\<lparr>mem := m'\<rparr>)"
    "fst (coap_mem_get (ops E) (mem s) n) = NULL"
  let ?s = "put_ia (s\<lparr>mem := m'\<rparr>) (x\<lparr>pReqMsg := Some req\<rparr>)"
  have "pInteractions ?s = x\<lparr>pReqMsg := Some req\<rparr> # xs" by (rule put_ia_hd) (use assms(1,2) in simp_all)
  note del = delete_hd [OF this, of E]
  show ?thesis using snd assms(4) del by (auto simp: SendReq_def transmitted_def put_ia_def)
next
  fix pk M' m'
  assume snd: "send E now s req (ia_ifID x) (RemoteEp x) = Some (if tx (ia_ifID x) pk then COAP_OK else COAP_ERR_NETWORK, M', s\<lparr>mem := m', Outbox := Outbox s @ [(ia_ifID x, pk)]\<rparr>)"
    "Receiver pk = RemoteEp x" "msg_wf req \<Longrightarrow> length (encode_message req) < 65536 \<Longrightarrow> pData pk = encode_message req"
  let ?s1 = "s\<lparr>mem := m', Outbox := Outbox s @ [(ia_ifID x, pk)]\<rparr>" and ?x = "x\<lparr>pReqMsg := Some M'\<rparr>"
  define y where "y = (if Type M' = CON then CoAP_EnableAckTimeout now ?x (RetransCounter x) else ?x)\<lparr>State := COAP_STATE_WAITING_RESPONSE\<rparr>"
  have y: "ia_at y = ia_at x" "Role y = COAP_ROLE_CLIENT" "State y = COAP_STATE_WAITING_RESPONSE" "client_rank y < client_rank x"
    using assms(3,5) by (simp_all add: y_def CoAP_EnableAckTimeout_def client_rank_def)
  have q: "pInteractions (CoAP_EnqueueLastInteraction ?s1 y) = xs @ [y]" by (rule enqueue_rotates) (use assms(1,2) y in simp_all)
  have "pInteractions (put_ia ?s1 ?x) = ?x # xs" by (rule put_ia_hd) (use assms(1,2) in simp_all)
  note del = delete_hd [OF this, of E]
  show ?thesis
  proof (cases "tx (ia_ifID x) pk")
    case True
    then have "SendReq E now s x COAP_STATE_WAITING_RESPONSE = Some (COAP_OK, CoAP_EnqueueLastInteraction ?s1 y)"
      using snd(1) assms(4) by (simp add: SendReq_def Let_def y_def)
    then show ?thesis using True q y snd(2,3) assms(4,5) by (auto simp: transmitted_def CoAP_EnqueueLastInteraction_def)
  next
    case False
    then have "SendReq E now s x COAP_STATE_WAITING_RESPONSE = Some (COAP_ERR_SOCKET, snd (CoAP_DeleteInteraction E (put_ia ?s1 ?x) (ia_at ?x)))"
      using snd(1) assms(4) by (simp add: SendReq_def Let_def)
    then show ?thesis using False del snd(2,3) assms(4) by (auto simp: transmitted_def put_ia_def)
  qed
qed

lemma repetition:
  assumes "pInteractions s = x # xs" "distinct (map ia_at (x # xs))" "Role x = COAP_ROLE_CLIENT" "pReqMsg x = Some req"
    "State x = COAP_STATE_WAITING_RESPONSE" "uint (RetransCounter x) < 4"
    "RetrieveSocket2 (SocketCtrl s) (ia_ifID x) = Some k" "Tx (SocketMemory (SocketCtrl s) ! k) = Some tx"
  shows "\<exists>s'. retransmit_req E now s x = Some s' \<and> Delivered s' = Delivered s \<and> transmitted E tx s x xs s'"
proof (rule send_outcome [OF assms(7,8), of E now req "RemoteEp x"])
  fix m' n
  assume snd: "send E now s req (ia_ifID x) (RemoteEp x) = Some (COAP_ERR_OUT_OF_MEMORY, req, s\<lparr>mem := m'\<rparr>)"
    "fst (coap_mem_get (ops E) (mem s) n) = NULL"
  let ?s = "put_ia (s\<lparr>mem := m'\<rparr>) (x\<lparr>pReqMsg := Some req\<rparr>)"
  have "pInteractions ?s = x\<lparr>pReqMsg := Some req\<rparr> # xs" by (rule put_ia_hd) (use assms(1,2) in simp_all)
  note del = delete_hd [OF this, of E]
  show ?thesis using snd assms(4) del by (auto simp: retransmit_req_def transmitted_def put_ia_def)
next
  fix pk M' m'
  assume snd: "send E now s req (ia_ifID x) (RemoteEp x) = Some (if tx (ia_ifID x) pk then COAP_OK else COAP_ERR_NETWORK, M', s\<lparr>mem := m', Outbox := Outbox s @ [(ia_ifID x, pk)]\<rparr>)"
    "Receiver pk = RemoteEp x" "msg_wf req \<Longrightarrow> length (encode_message req) < 65536 \<Longrightarrow> pData pk = encode_message req"
  let ?s1 = "s\<lparr>mem := m', Outbox := Outbox s @ [(ia_ifID x, pk)]\<rparr>" and ?x = "x\<lparr>pReqMsg := Some M'\<rparr>"
  define y where "y = CoAP_EnableAckTimeout now (?x\<lparr>RetransCounter := RetransCounter x + 1\<rparr>) (RetransCounter x + 1)"
  have c: "unat (RetransCounter x + 1) = Suc (unat (RetransCounter x))" using unat_counter_inc [of "RetransCounter x"] assms(6) by simp
  have "unat (RetransCounter x) < 4" using assms(6) by (simp add: uint_nat del: of_nat_unat)
  then have y: "ia_at y = ia_at x" "Role y = COAP_ROLE_CLIENT" "State y = COAP_STATE_WAITING_RESPONSE" "client_rank y < client_rank x"
    using assms(3,5) c by (simp_all add: y_def CoAP_EnableAckTimeout_def client_rank_def)
  have q: "pInteractions (put_ia ?s1 y) = y # xs" by (rule put_ia_hd) (use assms(1,2) y in simp_all)
  have "pInteractions (put_ia ?s1 ?x) = ?x # xs" by (rule put_ia_hd) (use assms(1,2) in simp_all)
  note del = delete_hd [OF this, of E]
  show ?thesis
  proof (cases "tx (ia_ifID x) pk")
    case True
    then have "retransmit_req E now s x = Some (put_ia ?s1 y)"
      using snd(1) assms(4) by (simp add: retransmit_req_def Let_def y_def)
    then show ?thesis using True q y snd(2,3) assms(4,5) by (auto simp: transmitted_def put_ia_def)
  next
    case False
    then have "retransmit_req E now s x = Some (snd (CoAP_DeleteInteraction E (put_ia ?s1 ?x) (ia_at ?x)))"
      using snd(1) assms(4) by (simp add: retransmit_req_def Let_def)
    then show ?thesis using False del snd(2,3) assms(4) by (auto simp: transmitted_def put_ia_def)
  qed
qed

text \<open>C14. Progress of client exchanges. Whatever state the stack has reached, with any allocator, if the next interaction
  is a client exchange on an open interface (and the interactions lie at different addresses), the work loop
  returns and makes exactly its step. While the exchange sleeps or waits it goes unchanged to the end of the list.
  A new request, or one whose acknowledgement is overdue, is handed over to the transmit function, once, for its
  receiver (with the reference encoding, if the message is well formed and below 64 KiB); if that succeeds the exchange
  goes on in state \<open>WAITING_RESPONSE\<close> with a smaller rank, so there are at most six transmissions, and
  otherwise, or without memory for the datagram, it is removed. In every other case it is removed, nothing is sent, and
  a response that has arrived is handed to the callback.\<close>

theorem client_progress:
  assumes "reachable E s" "pInteractions s = x # xs" "distinct (map ia_at (x # xs))" "Role x = COAP_ROLE_CLIENT"
    "RetrieveSocket2 (SocketCtrl s) (ia_ifID x) = Some k" "Tx (SocketMemory (SocketCtrl s) ! k) = Some tx"
  shows "client_rank x \<le> 6 \<and> (\<exists>s'. CoAP_doWork E now s = Some s' \<and>
    (if now < SleepUntil x \<or> State x = COAP_STATE_WAITING_RESPONSE \<and> CheckReqStatus now x = Some COAP_WAITING
     then s' = s\<lparr>pInteractions := xs @ [x]\<rparr>
     else if State x = COAP_STATE_READY_TO_REQUEST \<or> State x = COAP_STATE_WAITING_RESPONSE \<and> CheckReqStatus now x = Some COAP_RETRY
     then Delivered s' = Delivered s \<and> transmitted E tx s x xs s'
     else pInteractions s' = xs \<and> Outbox s' = Outbox s \<and>
       Delivered s' = Delivered s @
         (case (State x, RespCB x, pRespMsg x) of (COAP_STATE_HANDLE_RESPONSE, Some cb, Some resp) \<Rightarrow> [(cb, resp, RemoteEp x)] | _ \<Rightarrow> [])))"
proof -
  have ok: "ia_ok (res_sig s) x" using reachable_stack_ok [OF assms(1)] assms(2) by (simp add: stack_ok_def)
  obtain req where req: "pReqMsg x = Some req" using ok assms(4) by (auto simp: ia_ok_def is_request_def split: option.splits)
  have "CheckReqStatus now x \<noteq> None" using req by (simp add: CheckReqStatus_def)
  then obtain c where c: "CheckReqStatus now x = Some c" by blast
  have retry: "uint (RetransCounter x) < 4" if "c = COAP_RETRY" using c that req by (auto simp: CheckReqStatus_def split: if_splits)
  note del = delete_hd [OF assms(2), of E]
  have wait: "CoAP_EnqueueLastInteraction s x = s\<lparr>pInteractions := xs @ [x]\<rparr>"
    using enqueue_rotates [OF assms(2,3) refl] by (simp add: CoAP_EnqueueLastInteraction_def)
  have work: "CoAP_doWork E now s =
      (if SleepUntil x > now then Some (CoAP_EnqueueLastInteraction s x)
       else if State x = COAP_STATE_READY_TO_REQUEST then map_option snd (SendReq E now s x COAP_STATE_WAITING_RESPONSE)
       else if State x = COAP_STATE_WAITING_RESPONSE then waiting_response E now s x
       else handle_response E s x)"
    using assms(2,4) ok by (auto simp: CoAP_doWork_def CoAP_GetLongestPendingInteraction_def list_head_def ia_ok_def)
  have "5 - n \<le> (6 :: nat)" for n by linarith
  then have rank: "client_rank x \<le> 6" by (simp add: client_rank_def)
  consider (wait) "now < SleepUntil x \<or> State x = COAP_STATE_WAITING_RESPONSE \<and> c = COAP_WAITING"
    | (first) "\<not> now < SleepUntil x" "State x = COAP_STATE_READY_TO_REQUEST"
    | (again) "\<not> now < SleepUntil x" "State x = COAP_STATE_WAITING_RESPONSE" "c = COAP_RETRY"
    | (giveup) "\<not> now < SleepUntil x" "State x = COAP_STATE_WAITING_RESPONSE" "c \<noteq> COAP_RETRY" "c \<noteq> COAP_WAITING"
    | (response) resp where "\<not> now < SleepUntil x" "State x = COAP_STATE_HANDLE_RESPONSE" "pRespMsg x = Some resp"
    using ok assms(4) by (auto simp: ia_ok_def)
  then show ?thesis
  proof cases
    case wait
    with work c rank show ?thesis by (auto simp: waiting_response_def \<open>CoAP_EnqueueLastInteraction s x = _\<close>)
  next
    case first
    then show ?thesis using first_transmission [OF assms(2-4) req first(2) assms(5,6), of E now] work rank by auto
  next
    case again
    then show ?thesis using repetition [OF assms(2-4) req again(2) retry assms(5,6), of E now] work c rank by (auto simp: waiting_response_def)
  next
    case giveup
    then show ?thesis using work c del rank by (auto simp: waiting_response_def)
  next
    case response
    let ?s = "case RespCB x of None \<Rightarrow> s | Some cb \<Rightarrow> s\<lparr>Delivered := Delivered s @ [(cb, resp, RemoteEp x)]\<rparr>"
    have "pInteractions ?s = x # xs" using assms(2) by (simp split: option.split)
    note del = delete_hd [OF this, of E]
    have "handle_response E s x = Some (snd (CoAP_DeleteInteraction E ?s (ia_at x)))"
      using response by (simp add: handle_response_def split: option.split)
    then show ?thesis using response work del rank by (auto split: option.split)
  qed
qed

text \<open>The first step of a new request: it is sent, and the exchange waits.\<close>

theorem client_progress_witness:
  "\<exists>s' pk y. CoAP_doWork demo_env 9 demo_state = Some s' \<and> Outbox s' = [(2, pk)] \<and> Receiver pk = demo_ep \<and>
    pInteractions s' = [y] \<and> State y = COAP_STATE_WAITING_RESPONSE"
proof -
  obtain x where l: "pInteractions demo_state = [x]"
    using demo_state_list(1) by (cases "pInteractions demo_state") auto
  then have x: "Role x = COAP_ROLE_CLIENT" "ia_ifID x = 2" "State x = COAP_STATE_READY_TO_REQUEST" "SleepUntil x = 0" "RemoteEp x = demo_ep"
    using demo_state_list demo_state_fields by simp_all
  have "fst (coap_mem_get (ops demo_env) (mem demo_state) n) \<noteq> NULL" for n
    using demo_state_fields(4) by (simp add: demo_env_def bump_ops_def)
  then show ?thesis
    using client_progress [OF demo_state_reachable l _ x(1), of 0 "\<lambda>_ _. True" 9] x demo_state_list(4) demo_state_fields demo_socket(2)
    by (auto simp: transmitted_def demo_state_tx)
qed

section \<open>Retransmission and fairness\<close>

lemma backoff_power: "backoff n w = w * 2 ^ n"
  by (induction n w rule: backoff.induct) (simp_all add: algebra_simps)

text \<open>C30. Fairness. The work loop is a round robin: an interaction that sleeps, or waits for an
  acknowledgement or a response, goes unchanged to the end of the list, and nothing is sent; so
  the next call serves the next interaction.\<close>

theorem round_robin:
  assumes "pInteractions s = x # xs" "distinct (map ia_at (x # xs))"
    "now < SleepUntil x \<or>
     Role x = COAP_ROLE_CLIENT \<and> State x = COAP_STATE_WAITING_RESPONSE \<and> CheckReqStatus now x = Some COAP_WAITING \<or>
     Role x = COAP_ROLE_SERVER \<and> State x = COAP_STATE_RESPONSE_SENT \<and> CheckRespStatus now x \<in> {Some COAP_WAITING, Some COAP_HOLDING_BACK} \<or>
     Role x = COAP_ROLE_NOTIFICATION \<and> State x = COAP_STATE_NOTIFICATION_SENT \<and> CheckRespStatus now x \<in> {Some COAP_WAITING, Some COAP_HOLDING_BACK}"
  shows "\<exists>s'. CoAP_doWork E now s = Some s' \<and> pInteractions s' = xs @ [x] \<and> Outbox s' = Outbox s \<and> mem s' = mem s"
proof -
  have "CoAP_doWork E now s = Some (CoAP_EnqueueLastInteraction s x)"
    using assms(1,3)
    by (auto simp: CoAP_doWork_def CoAP_GetLongestPendingInteraction_def list_head_def waiting_response_def
        response_sent_def notification_sent_def)
  then show ?thesis
    using enqueue_rotates [OF assms(1,2) refl] by (simp add: CoAP_EnqueueLastInteraction_def)
qed

definition demo_ia :: CoAP_Interaction_t where
  "demo_ia = \<lparr>ia_at = 8, Role = COAP_ROLE_CLIENT, State = COAP_STATE_WAITING_RESPONSE, pRes = None, pObserver = NULL,
     RemoteEp = demo_ep, ia_ifID = 2, UpdatePendingNotification = False, RetransCounter = 1, AckTimeout = 20,
     SleepUntil = 0, pReqMsg = Some demo_msg, ReqReliabilityState = NOT_SET, ReqMetaInfo = META_INFO_NONE,
     pRespMsg = None, RespReliabilityState = NOT_SET, RespMetaInfo = META_INFO_NONE, RespCB = Some 5\<rparr>"

definition demo_stack :: "CoAP_Interaction_t list \<Rightarrow> bget_state stack" where
  "demo_stack L = (stack0 demo_pool demo_sockets)\<lparr>pInteractions := L\<rparr>"

definition demo_benv :: "bget_state env" where
  "demo_benv = \<lparr>ops = bget_ops, user_handler = (\<lambda>_ _ _ _. None), user_notifier = (\<lambda>_ _ _ _. None),
     receiveBlocked = False, stale_buf = (\<lambda>_. 0), stale_pked = demo_packet\<rparr>"

theorem round_robin_witness:
  "\<exists>s'. CoAP_doWork demo_benv 10 (demo_stack [demo_ia, demo_ia\<lparr>ia_at := 16\<rparr>]) = Some s' \<and>
    pInteractions s' = [demo_ia\<lparr>ia_at := 16\<rparr>] @ [demo_ia] \<and> Outbox s' = Outbox (demo_stack [demo_ia, demo_ia\<lparr>ia_at := 16\<rparr>]) \<and>
    mem s' = mem (demo_stack [demo_ia, demo_ia\<lparr>ia_at := 16\<rparr>])"
proof (rule round_robin)
  have "demo_msg = demo_msg\<lparr>Type := CON\<rparr>" by (simp add: demo_msg_def)
  then have "Type demo_msg = CON" by (metis CoAP_Message_t.select_convs(3) CoAP_Message_t.surjective CoAP_Message_t.update_convs(3))
  then show "(10 :: u32) < SleepUntil demo_ia \<or>
     Role demo_ia = COAP_ROLE_CLIENT \<and> State demo_ia = COAP_STATE_WAITING_RESPONSE \<and> CheckReqStatus 10 demo_ia = Some COAP_WAITING \<or>
     Role demo_ia = COAP_ROLE_SERVER \<and> State demo_ia = COAP_STATE_RESPONSE_SENT \<and> CheckRespStatus 10 demo_ia \<in> {Some COAP_WAITING, Some COAP_HOLDING_BACK} \<or>
     Role demo_ia = COAP_ROLE_NOTIFICATION \<and> State demo_ia = COAP_STATE_NOTIFICATION_SENT \<and> CheckRespStatus 10 demo_ia \<in> {Some COAP_WAITING, Some COAP_HOLDING_BACK}"
    by (simp add: demo_ia_def CheckReqStatus_def)
qed (simp_all add: demo_stack_def demo_ia_def)

text \<open>C8. Retransmission of a confirmable request. When its acknowledgement is overdue and it has been
  repeated less than four times, the work loop transmits the same message once more (unless its
  buffer cannot be allocated), and after a successful transmission counts it and doubles the
  waiting time: \<open>2 ^ (n + 1)\<close> seconds behind the \<open>n\<close>-th repetition. After the fourth repetition, or
  when the transmission fails, the exchange is given up and its struct and its messages are given
  back to the heap; after the fourth nothing is sent any more.\<close>

theorem request_retransmission:
  assumes "pInteractions s = x # xs" "distinct (map ia_at (x # xs))" "Role x = COAP_ROLE_CLIENT"
    "State x = COAP_STATE_WAITING_RESPONSE" "SleepUntil x \<le> now" "ReqReliabilityState x = NOT_SET"
    "pReqMsg x = Some M" "Type M = CON" "AckTimeout x < now"
    and "ops E = bget_ops" "bget_rep (mem s) h" "owns (mem_area bget_ops (mem s)) g (ia_objs x @ zs) h"
    and "msg_wf M" "int (length (encode_message M)) \<le> MAX_REQ"
    and "RetrieveSocket2 (SocketCtrl s) (ia_ifID x) = Some k" "Tx (SocketMemory (SocketCtrl s) ! k) = Some tx"
  shows "\<exists>s' h'. CoAP_doWork E now s = Some s' \<and> bget_rep (mem s') h' \<and>
    (if uint (RetransCounter x) < 4 then
       (\<exists>pk. Outbox s' = Outbox s @ [(ia_ifID x, pk)] \<and> pData pk = encode_message M \<and> Receiver pk = RemoteEp x \<and>
          (if tx (ia_ifID x) pk
           then (\<exists>y. pInteractions s' = y # xs \<and> RetransCounter y = RetransCounter x + 1 \<and>
                   AckTimeout y = now + 2 ^ (unat (RetransCounter x) + 2) \<and> owns (mem_area bget_ops (mem s')) g (ia_objs y @ zs) h')
           else pInteractions s' = xs \<and> owns (mem_area bget_ops (mem s')) g zs h')) \<or>
       Outbox s' = Outbox s \<and> pInteractions s' = xs \<and> 16 < length (encode_message M) \<and> owns (mem_area bget_ops (mem s')) g zs h'
     else Outbox s' = Outbox s \<and> pInteractions s' = xs \<and> owns (mem_area bget_ops (mem s')) g zs h')"
proof -
  have work: "CoAP_doWork E now s = waiting_response E now s x"
    using assms(1,3-5) leD [OF assms(5)] by (simp add: CoAP_doWork_def CoAP_GetLongestPendingInteraction_def list_head_def)
  have st: "CheckReqStatus now x = Some (if uint (RetransCounter x) < 4 then COAP_RETRY else COAP_ERR_OUT_OF_ATTEMPTS)"
    using assms(6-9) by (auto simp: CheckReqStatus_def)
  show ?thesis
  proof (cases "uint (RetransCounter x) < 4")
    case False
    obtain m' h' where "CoAP_DeleteInteraction E s (ia_at x) = (COAP_OK, s\<lparr>pInteractions := xs, mem := m'\<rparr>)" "bget_rep m' h'"
      "owns (mem_area bget_ops m') g zs h'"
      by (rule bget.owns_DeleteInteraction [OF assms(10,11,1,12)])
    then show ?thesis using st False by (simp add: work waiting_response_def) blast
  next
    case retry: True
    then have eq: "CoAP_doWork E now s = retransmit_req E now s x" using st by (simp add: work waiting_response_def)
    from assms(10,11,1,2,12,7,13-16) show ?thesis
    proof (cases rule: bget.retransmit_req_owned [where now = now])
      case (sent pk m')
      moreover have "unat (RetransCounter x + 1) = Suc (unat (RetransCounter x))" using unat_counter_inc [of "RetransCounter x"] retry by simp
      then have "AckTimeout (after_retry now x M) = now + 2 ^ (unat (RetransCounter x) + 2)"
        "RetransCounter (after_retry now x M) = RetransCounter x + 1"
        by (simp_all add: after_retry_def CoAP_EnableAckTimeout_def backoff_power power_add)
      ultimately show ?thesis using eq retry by auto
    qed (use eq retry in auto)
  qed
qed

definition demo_m1 :: bget_state where
  "demo_m1 = snd (coap_mem_get0 bget_ops demo_pool 100)"

definition demo_request :: "CoAP_Message_t option \<times> bget_state" where
  "demo_request = CoAP_CreateMessage bget_ops demo_m1 CON REQ_GET 9 None 0 0 5"

lemma demo_allocations: "fst (coap_mem_get0 bget_ops demo_pool 100) = 6040" "fst demo_request \<noteq> None"
  by code_simp+

lemma demo_request_owned:
  obtains req m h where "demo_request = (Some req, m)" "bget_rep m h" "owns (mem_area bget_ops m) Map.empty [OMsg req, OBuf 6040] h"
    "MessageID req = 9" "Token64 req = 5" "Type req = CON" "Code req = REQ_GET" "msg_wf req" "length (encode_message req) \<le> 12"
proof -
  obtain req m2 where r: "demo_request = (Some req, m2)" using demo_allocations(2) by (metis not_None_eq prod.collapse)
  have g: "coap_mem_get0 bget_ops demo_pool 100 = (6040, demo_m1)"
    using demo_allocations(1) by (simp add: demo_m1_def prod_eq_iff)
  obtain h1 where h1: "bget_rep demo_m1 h1" "owns (mem_area bget_ops demo_m1) Map.empty [OBuf 6040] h1"
    by (rule bget.get0_cases [OF demo_rep _ _ g]) (auto simp: MAX_REQ_def owns_OBuf heap_ext_def)
  show thesis
  proof (rule bget.owns_create [OF h1 r [unfolded demo_request_def]])
    fix M h'
    assume M: "Some req = Some M" "bget_rep m2 h'" "owns (mem_area bget_ops m2) Map.empty [OMsg M, OBuf 6040] h'" "msg_wf M"
      "pOptionsList M = []" "Type M = CON" "Code M = REQ_GET" "MessageID M = 9" "Token64 M = 5" "PayloadLength M = 0"
    have "length (encode_message M) \<le> 12"
      using M getTokenByteCount_le [of "Token64 M"] by (simp add: encode_message_def msg_token_def msg_payload_def encode_payload_def)
    then show thesis using that [OF r] M by simp
  qed (simp_all add: sizeof_CoAP_Message_t_def MAX_REQ_def)
qed

definition demo_client :: CoAP_Interaction_t where
  "demo_client = demo_ia\<lparr>ia_at := 6040, pReqMsg := fst demo_request\<rparr>"

definition demo_waiting :: "bget_state stack" where
  "demo_waiting = (demo_stack [demo_client])\<lparr>mem := snd demo_request\<rparr>"

theorem request_retransmission_witness:
  "\<exists>s' h'. CoAP_doWork demo_benv 30 demo_waiting = Some s' \<and> bget_rep (mem s') h' \<and>
    (if uint (RetransCounter demo_client) < 4 then
       (\<exists>pk. Outbox s' = Outbox demo_waiting @ [(ia_ifID demo_client, pk)] \<and> pData pk = encode_message (the (fst demo_request)) \<and> Receiver pk = RemoteEp demo_client \<and>
          (if (\<lambda>_ _. True) (ia_ifID demo_client) pk
           then (\<exists>y. pInteractions s' = [y] \<and> RetransCounter y = RetransCounter demo_client + 1 \<and>
                   AckTimeout y = 30 + 2 ^ (unat (RetransCounter demo_client) + 2) \<and> owns (mem_area bget_ops (mem s')) Map.empty (ia_objs y @ []) h')
           else pInteractions s' = [] \<and> owns (mem_area bget_ops (mem s')) Map.empty [] h')) \<or>
       Outbox s' = Outbox demo_waiting \<and> pInteractions s' = [] \<and> 16 < length (encode_message (the (fst demo_request))) \<and> owns (mem_area bget_ops (mem s')) Map.empty [] h'
     else Outbox s' = Outbox demo_waiting \<and> pInteractions s' = [] \<and> owns (mem_area bget_ops (mem s')) Map.empty [] h')"
proof -
  obtain req m h where q: "demo_request = (Some req, m)" "bget_rep m h" "owns (mem_area bget_ops m) Map.empty [OMsg req, OBuf 6040] h"
    "Type req = CON" "msg_wf req" "length (encode_message req) \<le> 12" by (rule demo_request_owned)
  have f: "pInteractions demo_waiting = [demo_client]" "mem demo_waiting = m" "SocketCtrl demo_waiting = demo_sockets"
    by (simp_all add: demo_waiting_def demo_stack_def stack0_def q(1))
  show ?thesis
    by (rule request_retransmission [OF f(1), where h = h and k = 0])
      (use q(2-6) in \<open>simp_all add: q(1) f demo_client_def demo_ia_def demo_benv_def demo_socket ia_objs_def MAX_REQ_def\<close>)
qed

end
