(* ===== verification/Exchange_Properties.thy ===== *)
theory Exchange_Properties
  imports Stack_Properties Stack_Owned
begin

text \<open>
  Whole exchanges: what is sent for a received message, which callback is called, and what becomes
  of the memory, from the reception of a packet to the end of the exchange.
\<close>

section \<open>Messages that are answered or dropped at once\<close>

definition short_msg :: "CoAP_MessageType_t \<Rightarrow> u8 \<Rightarrow> u16 \<Rightarrow> u64 \<Rightarrow> CoAP_Message_t" where
  "short_msg ty code mid tok =
     (CoAP_InitToEmptyResetMsg NULL)\<lparr>Type := ty, MessageID := mid, Code := code, Token64 := tok\<rparr>"

lemma short_msg_wf: "msg_wf (short_msg ty code mid tok)" "length (encode_message (short_msg ty code mid tok)) \<le> 12"
  by (auto simp: short_msg_def msg_wf_def opts_wf_def CoAP_InitToEmptyResetMsg_def encode_message_def msg_token_def
      msg_payload_def encode_payload_def getTokenByteCount_le trans_le_add2 split: if_splits)

lemma CoAP_SendShortResp_eq:
  "CoAP_SendShortResp A m now S buf pked ty code mid tok i ep = CoAP_SendMsg A m now S buf pked (short_msg ty code mid tok) i ep"
  by (simp add: CoAP_SendShortResp_def short_msg_def)

lemma send_EmptyRST_eq: "send_EmptyRST E now s mid i ep = send_ShortResp E now s RST EMPTY mid 0 i ep"
  by (simp add: send_EmptyRST_def send_ShortResp_def CoAP_SendEmptyRST_def CoAP_SendShortResp_def CoAP_InitToEmptyResetMsg_def)

text \<open>A short message needs no buffer, so it is always handed over.\<close>

lemma send_short:
  assumes "ops E = bget_ops" "bget_rep (mem s) h" "RetrieveSocket2 (SocketCtrl s) i = Some k" "Tx (SocketMemory (SocketCtrl s) ! k) = Some tx"
  obtains r pk m' where "pData pk = encode_message (short_msg ty code mid tok)" "Receiver pk = ep"
    "send_ShortResp E now s ty code mid tok i ep = Some (r, s\<lparr>mem := m', Outbox := Outbox s @ [(i, pk)]\<rparr>)"
    "bget_rep m' h" "mem_area bget_ops m' = mem_area bget_ops (mem s)"
proof -
  let ?M = "short_msg ty code mid tok"
  have len: "int (length (encode_message ?M)) \<le> MAX_REQ" "\<not> 16 < length (encode_message ?M)"
    using short_msg_wf(2) [of ty code mid tok] by (simp_all add: MAX_REQ_def)
  show thesis
  proof (rule bget.send_msg [OF assms(2) short_msg_wf(1) len(1) assms(3,4), where now = now and
        buf = "stale_buf E" and pked = "stale_pked E" and Rcv = ep])
    fix m' pk
    assume "pk = packet_of (stale_pked E) (SocketMemory (SocketCtrl s) ! k) ep ?M"
      "CoAP_SendMsg bget_ops (mem s) now (SocketCtrl s) (stale_buf E) (stale_pked E) ?M i ep =
         Some (if tx i pk then COAP_OK else COAP_ERR_NETWORK, sent_msg now (tx i pk) ?M, Some pk, m')"
      "bget_rep m' h" "mem_area bget_ops m' = mem_area bget_ops (mem s)"
    then show thesis
      using that [of pk "if tx i pk then COAP_OK else COAP_ERR_NETWORK" m']
      by (simp add: send_ShortResp_def CoAP_SendShortResp_eq assms(1) on_stack_def packet_of_def)
  qed (use len(2) in simp)
qed

datatype verdict = Reply CoAP_MessageType_t u8 u16 u64 | Ignore | Accept

text \<open>The checks that RFC 7252 asks for before a message is processed.\<close>

definition verdict_on :: "'m stack \<Rightarrow> CoAP_Message_t \<Rightarrow> verdict" where
  "verdict_on s M =
     (let known = (case get_res s (CoAP_FindResourceByUri (pResList s) (pOptionsList M)) of
                     None \<Rightarrow> False | Some R \<Rightarrow> Handler R \<noteq> None);
          critical = (\<exists>p \<in> set (pOptionsList M). Number p \<notin> set KNOWN_OPTIONS \<and> odd (Number p)) in
      if Type M = CON \<and> Code M = EMPTY then Reply RST EMPTY (MessageID M) 0
      else if Type M = ACK \<and> CoAP_MsgIsRequest M \<or> Type M = RST \<and> Code M \<noteq> EMPTY then Ignore
      else if CoAP_MsgIsRequest M \<and> \<not> known then
        (if Type M = CON then Reply ACK RESP_NOT_FOUND_4_04 (MessageID M) (Token64 M)
         else Reply NON RESP_NOT_FOUND_4_04 (MId s + 1) (Token64 M))
      else if critical then
        (if Type M \<noteq> CON then Ignore
         else if CoAP_MsgIsRequest M then Reply ACK RESP_BAD_OPTION_4_02 (MessageID M) (Token64 M)
         else Reply RST EMPTY (MessageID M) 0)
      else Accept)"

lemma critical_iff:
  "CoAP_CheckForUnknownCriticalOption L \<noteq> 0 \<longleftrightarrow> (\<exists>p \<in> set L. Number p \<notin> set KNOWN_OPTIONS \<and> odd (Number p))"
proof -
  have "odd (Number p) \<Longrightarrow> Number p \<noteq> 0" for p :: CoAP_option_t by (metis even_zero)
  then show ?thesis
    by (auto simp: CheckForUnknownCriticalOption_find find_None_iff find_Some_iff split: option.splits) 
qed

lemma get_res_upd [simp]:
  "get_res (s\<lparr>mem := m\<rparr>) r = get_res s r" "get_res (s\<lparr>pInteractions := L\<rparr>) r = get_res s r" "get_res (s\<lparr>MId := i\<rparr>) r = get_res s r"
  by (simp_all add: get_res_def split: option.split)

lemma bind_snd: "Option.bind (map_option snd r) (\<lambda>s. Some (f s)) = map_option (\<lambda>(_, s). f s) r"
  by (cases r) auto

text \<open>What the dispatcher does in these cases, whatever the environment.\<close>

lemma dispatch_verdict:
  "dispatch E now s i pckt M =
     (case verdict_on s M of
        Reply ty code mid tok \<Rightarrow>
          map_option (\<lambda>(_, s1). free_msg E s1 (Some M))
            (send_ShortResp E now (if ty = NON then s\<lparr>MId := MId s + 1\<rparr> else s) ty code mid tok i (Sender pckt))
      | Ignore \<Rightarrow> Some (free_msg E s (Some M))
      | Accept \<Rightarrow> dispatch E now s i pckt M)"
  by (auto simp: verdict_on_def dispatch_def unknown_resource_def bad_option_def Let_def send_EmptyRST_eq next_mid_def
      CoAP_GetNextMid_def critical_iff [symmetric] bind_snd
      split: option.splits CoAP_MessageType_t.splits)

text \<open>C11. Messages that are not processed. A received message that has to be rejected is answered with
  exactly the message that RFC 7252 asks for: a reset for an empty confirmable message (ping) and for
  a confirmable response with an unknown critical option, 4.04 for a request to an unknown resource,
  4.02 for a confirmable request with an unknown critical option, in an acknowledgement with the same
  message id or, for a non-confirmable request, in a non-confirmable message with a new one, always with
  the token of the request; or it is silently dropped. In all these cases the interactions, the
  resources and the callbacks are untouched, and all memory taken for the message is given back.\<close>

theorem rejected_messages:
  assumes "ops E = bget_ops" "bget_rep (mem s) h" "\<not> receiveBlocked E"
    and "RetrieveSocket2 (SocketCtrl s) i = Some k" "Tx (SocketMemory (SocketCtrl s) ! k) = Some tx"
    and "src = write_at (stale_buf E) 0 (pData pckt)" "header_ok src \<longrightarrow> token_end src \<le> unat (pk_size pckt)"
    and "CoAP_ParseMessageFromDatagram bget_ops (mem s) now src (pk_size pckt) = Some (COAP_OK, Some M, m1)"
    and "verdict_on s M \<noteq> Accept"
  shows "\<exists>s'. CoAP_onNewPacketHandler E now s i pckt = Some s' \<and> bget_rep (mem s') h \<and>
    pInteractions s' = pInteractions s \<and> pResList s' = pResList s \<and> Delivered s' = Delivered s \<and>
    (case verdict_on s M of
       Reply ty code mid tok \<Rightarrow> (\<exists>pk. Outbox s' = Outbox s @ [(i, pk)] \<and> Receiver pk = Sender pckt \<and>
         pData pk = encode_message (short_msg ty code mid tok))
     | _ \<Rightarrow> Outbox s' = Outbox s)"
proof -
  obtain h1 where own: "bget_rep m1 h1" "msg_owned (mem_area bget_ops m1) h M h1"
    by (rule bget.parse_owns [OF assms(2), of src "pk_size pckt" now]) (use assms(7,8) in auto)
  let ?s1 = "s\<lparr>mem := m1\<rparr>"
  have v: "verdict_on ?s1 M = verdict_on s M" by (simp add: verdict_on_def)
  have eq: "CoAP_onNewPacketHandler E now s i pckt = dispatch E now ?s1 i pckt M"
    using assms(1,3,6,8) by (simp add: CoAP_onNewPacketHandler_def Let_def)
  note d = dispatch_verdict [of E now ?s1 i pckt M, unfolded v]
  have free: "\<exists>m''. free_msg E s2 (Some M) = s2\<lparr>mem := m''\<rparr> \<and> bget_rep m'' h"
    if "bget_rep (mem s2) h1" "mem_area bget_ops (mem s2) = mem_area bget_ops m1" for s2
    by (rule bget.free_message [OF that(1), of h M]) (use own(2) that(2) in \<open>auto simp: free_msg_def assms(1)\<close>)
  show ?thesis
  proof (cases "verdict_on s M")
    case (Reply ty code mid tok)
    let ?s2 = "if ty = NON then ?s1\<lparr>MId := MId ?s1 + 1\<rparr> else ?s1"
    have f: "bget_rep (mem ?s2) h1" "SocketCtrl ?s2 = SocketCtrl s" "mem ?s2 = m1" "Outbox ?s2 = Outbox s"
      "pInteractions ?s2 = pInteractions s" "pResList ?s2 = pResList s" "Delivered ?s2 = Delivered s"
      using own(1) by simp_all
    obtain r pk m2 where p: "pData pk = encode_message (short_msg ty code mid tok)" "Receiver pk = Sender pckt"
      and snd: "send_ShortResp E now ?s2 ty code mid tok i (Sender pckt) = Some (r, ?s2\<lparr>mem := m2, Outbox := Outbox ?s2 @ [(i, pk)]\<rparr>)"
      and m2: "bget_rep m2 h1" "mem_area bget_ops m2 = mem_area bget_ops (mem ?s2)"
      by (rule send_short [OF assms(1) f(1), of i k tx]) (use assms(4,5) f(2) in simp_all)
    obtain m3 where "free_msg E (?s2\<lparr>mem := m2, Outbox := Outbox ?s2 @ [(i, pk)]\<rparr>) (Some M) = ?s2\<lparr>mem := m2, Outbox := Outbox ?s2 @ [(i, pk)], mem := m3\<rparr>"
      "bget_rep m3 h" using free [of "?s2\<lparr>mem := m2, Outbox := Outbox ?s2 @ [(i, pk)]\<rparr>"] m2 f(3) by auto
    then show ?thesis using eq d Reply snd f p by simp
  next
    case Ignore
    then show ?thesis using eq d free [of ?s1] own(1) by auto
  qed (use assms(9) in simp)
qed

definition demo_ping :: NetPacket_t where
  "demo_ping = demo_packet\<lparr>pData := [0x40, 0, 0x12, 0x34], pk_size := 4\<rparr>"

theorem rejected_messages_witness:
  "\<exists>s' pk. CoAP_onNewPacketHandler demo_benv 7 (demo_stack [demo_ia]) 2 demo_ping = Some s' \<and> bget_rep (mem s') Map.empty \<and>
    pInteractions s' = [demo_ia] \<and> Outbox s' = [(2, pk)] \<and> Receiver pk = demo_ep \<and> pData pk = [0x70, 0, 0x12, 0x34]"
proof -
  define src where "src = write_at (stale_buf demo_benv) 0 (pData demo_ping)"
  have hd: "header_ok src" "token_end src = 4" unfolding src_def by code_simp+
  obtain p k m1 where g: "coap_mem_get bget_ops demo_pool 40 = (p, m1)" "p \<noteq> NULL"
    by (rule demo_get [of 40]) auto
  have ph: "Type (parsed_header src) = CON" "Code (parsed_header src) = 0" "MessageID (parsed_header src) = 0x1234"
    "PayloadLength (parsed_header src) = 0" unfolding src_def by code_simp+
  then obtain M where M: "CoAP_ParseMessageFromDatagram bget_ops demo_pool 7 src 4 = Some (COAP_OK, Some M, m1)"
    "Type M = CON" "Code M = 0" "MessageID M = 0x1234"
    using parse_good_header [OF hd(1), of 4 bget_ops demo_pool 7] hd(2) g
    by (simp add: START_MSG_COPY_def sizeof_CoAP_Message_t_def s16_id Let_def)
  then have v: "verdict_on (demo_stack [demo_ia]) M = Reply RST EMPTY 0x1234 0" by (simp add: verdict_on_def)
  have e: "encode_message (short_msg RST EMPTY 0x1234 0) = [0x70, 0, 0x12, 0x34]" by code_simp
  have "\<exists>s'. CoAP_onNewPacketHandler demo_benv 7 (demo_stack [demo_ia]) 2 demo_ping = Some s' \<and> bget_rep (mem s') Map.empty \<and>
    pInteractions s' = pInteractions (demo_stack [demo_ia]) \<and> pResList s' = pResList (demo_stack [demo_ia]) \<and>
    Delivered s' = Delivered (demo_stack [demo_ia]) \<and>
    (case verdict_on (demo_stack [demo_ia]) M of
       Reply ty code mid tok \<Rightarrow> (\<exists>pk. Outbox s' = Outbox (demo_stack [demo_ia]) @ [(2, pk)] \<and> Receiver pk = Sender demo_ping \<and>
         pData pk = encode_message (short_msg ty code mid tok))
     | _ \<Rightarrow> Outbox s' = Outbox (demo_stack [demo_ia]))"
  proof (rule rejected_messages [OF _ _ _ _ _ src_def, where k = 0])
    show "bget_rep (mem (demo_stack [demo_ia])) Map.empty" using demo_rep by (simp add: demo_stack_def stack0_def)
  qed (use hd M v in \<open>simp_all add: demo_benv_def demo_stack_def stack0_def demo_ping_def demo_socket\<close>)
  moreover have "pInteractions (demo_stack [demo_ia]) = [demo_ia]" "Outbox (demo_stack [demo_ia]) = []" "Sender demo_ping = demo_ep"
    by (simp_all add: demo_stack_def stack0_def demo_ping_def demo_packet_def)
  ultimately show ?thesis unfolding v by (auto simp: e [simplified])
qed

section \<open>Delivery of a response\<close>

text \<open>C9. Delivery of a response. When a piggybacked response arrives for the first interaction, a client
  exchange that waits for it (same message id, token and endpoint, no unknown critical option), the
  next work step calls the callback with exactly this message and its sender, once; the interaction
  is removed, nothing is sent, and the buffers of the interaction, its request and the response are
  all given back, those of every other object are kept.\<close>

theorem response_delivered:
  assumes "pInteractions s = x # xs" "distinct (map ia_at (x # xs))" "Role x = COAP_ROLE_CLIENT"
    "State x = COAP_STATE_WAITING_RESPONSE" "pReqMsg x = Some req" "RespCB x = Some cb" "SleepUntil x \<le> now"
    and "Type M = ACK" "Code M \<noteq> EMPTY" "\<not> CoAP_MsgIsRequest M" "MessageID M = MessageID req" "Token64 M = Token64 req"
    "EpAreEqual (Some (Sender pckt)) (Some (RemoteEp x))"
    "\<forall>p \<in> set (pOptionsList M). Number p \<in> set KNOWN_OPTIONS \<or> even (Number p)"
    and "ops E = bget_ops" "bget_rep (mem s) h" "owns (mem_area bget_ops (mem s)) g (OMsg M # ia_objs x @ zs) h"
  shows "\<exists>s1 s2 h2. dispatch E now s i pckt M = Some s1 \<and> CoAP_doWork E now s1 = Some s2 \<and>
    Delivered s2 = Delivered s @ [(cb, M, RemoteEp x)] \<and> pInteractions s2 = xs \<and> Outbox s2 = Outbox s \<and>
    bget_rep (mem s2) h2 \<and> owns (mem_area bget_ops (mem s2)) g zs h2"
proof -
  let ?x1 = "x\<lparr>ReqReliabilityState := ACK_SET\<rparr>"
  let ?x2 = "?x1\<lparr>pRespMsg := Some M, State := COAP_STATE_HANDLE_RESPONSE\<rparr>"
  have ap: "CoAP_ApplyReliabilityStateToInteraction s ACK_SET (MessageID M) i (Sender pckt) =
      (Some ?x1, s\<lparr>pInteractions := ?x1 # xs\<rparr>)"
    using assms(1,3,5,11,13) by (simp add: CoAP_ApplyReliabilityStateToInteraction_def req_has_id_def Let_def)
  let ?s1 = "s\<lparr>pInteractions := ?x1 # xs\<rparr>"
  have o: "owns (mem_area bget_ops (mem ?s1)) g (msg_objs (pRespMsg x) @ msg_objs (Some req) @ OMsg M # OBuf (ia_at x) # zs) h"
    using assms(17) by (subst owns_mset [of _ "OMsg M # ia_objs x @ zs"]) (simp_all add: ia_objs_def assms(5))
  obtain m1 h1 where f: "free_msg E ?s1 (pRespMsg x) = ?s1\<lparr>mem := m1\<rparr>" and m1: "bget_rep m1 h1"
    "owns (mem_area bget_ops m1) g (msg_objs (Some req) @ OMsg M # OBuf (ia_at x) # zs) h1"
    by (rule bget.owns_free_msg [OF assms(15) _ o]) (use assms(16) in simp_all)
  have if_eq: "(if pRespMsg ?x1 \<noteq> None then free_msg E ?s1 (pRespMsg ?x1) else ?s1) = ?s1\<lparr>mem := m1\<rparr>"
    using f by (cases "pRespMsg x") (auto simp: free_msg_def)
  have "put_ia (?s1\<lparr>mem := m1\<rparr>) ?x2 = s\<lparr>pInteractions := ?x2 # xs, mem := m1\<rparr>"
    using put_ia_hd [of "?s1\<lparr>mem := m1\<rparr>" ?x1 xs ?x2] assms(2) by (simp add: put_ia_def)
  then have "attach_response E ?s1 ?x1 M = (?x2, s\<lparr>pInteractions := ?x2 # xs, mem := m1\<rparr>)"
    unfolding attach_response_def Let_def if_eq by simp
  moreover have "CoAP_CheckForUnknownCriticalOption (pOptionsList M) = 0" using critical_iff assms(14) by blast
  ultimately have d: "dispatch E now s i pckt M = Some (s\<lparr>pInteractions := ?x2 # xs, mem := m1\<rparr>)"
    using assms(3-5,8-10,12) ap by (simp add: dispatch_def handle_piggyback_def Let_def)
  let ?s2 = "s\<lparr>pInteractions := ?x2 # xs, mem := m1\<rparr>" 
  let ?s3 = "?s2\<lparr>Delivered := Delivered s @ [(cb, M, RemoteEp x)]\<rparr>"
  have w: "CoAP_doWork E now ?s2 = Some (snd (CoAP_DeleteInteraction E ?s3 (ia_at ?x2)))"
    using assms(3,6) leD [OF assms(7)]
    by (simp add: CoAP_doWork_def CoAP_GetLongestPendingInteraction_def list_head_def handle_response_def)
  obtain m2 h2 where "CoAP_DeleteInteraction E ?s3 (ia_at ?x2) = (COAP_OK, ?s3\<lparr>pInteractions := xs, mem := m2\<rparr>)"
    "bget_rep m2 h2" "owns (mem_area bget_ops m2) g zs h2"
    by (rule bget.owns_DeleteInteraction [OF assms(15), of ?s3 h1 ?x2 xs g zs]) (use m1 assms(5) in \<open>simp_all add: ia_objs_def\<close>)
  with d w show ?thesis by auto
qed

text \<open>A concrete exchange: an interaction with its request, and the response that has just been
  parsed.\<close>

definition demo_response :: "CoAP_Message_t option \<times> bget_state" where
  "demo_response = CoAP_CreateMessage bget_ops (snd demo_request) ACK RESP_SUCCESS_CONTENT_2_05 9 (Some [1, 2, 3]) 3 16 5"

lemma demo_response_allocated: "fst demo_response \<noteq> None"
  by code_simp

lemma demo_exchange:
  obtains req M h where "fst demo_request = Some req" "fst demo_response = Some M" "bget_rep (snd demo_response) h"
    "owns (mem_area bget_ops (snd demo_response)) Map.empty (OMsg M # ia_objs demo_client) h" "pOptionsList M = []"
    "Type M = ACK" "Code M = RESP_SUCCESS_CONTENT_2_05" "MessageID M = MessageID req" "Token64 M = Token64 req"
proof -
  obtain req m2 h2 where r: "demo_request = (Some req, m2)" and h2: "bget_rep m2 h2"
    "owns (mem_area bget_ops m2) Map.empty [OMsg req, OBuf 6040] h2" "MessageID req = 9" "Token64 req = 5"
    by (rule demo_request_owned)
  obtain M m3 where a: "demo_response = (Some M, m3)" using demo_response_allocated by (metis not_None_eq prod.collapse)
  have "CoAP_CreateMessage bget_ops m2 ACK RESP_SUCCESS_CONTENT_2_05 9 (Some [1, 2, 3]) 3 16 5 = (Some M, m3)"
    using a unfolding demo_response_def r snd_conv .
  then obtain h3 where h3: "bget_rep m3 h3" "owns (mem_area bget_ops m3) Map.empty [OMsg M, OMsg req, OBuf 6040] h3"
    "pOptionsList M = []" "Type M = ACK" "Code M = RESP_SUCCESS_CONTENT_2_05" "MessageID M = 9" "Token64 M = 5"
    by (rule bget.owns_create [OF h2(1,2)]) (simp_all add: sizeof_CoAP_Message_t_def MAX_REQ_def)
  show thesis
    by (rule that [of req M h3]) (use h2 h3 in \<open>simp_all add: r a demo_client_def ia_objs_def demo_ia_def\<close>)
qed

theorem response_delivered_witness:
  "\<exists>M s1 s2 h2. fst demo_response = Some M \<and>
     dispatch demo_benv 10 ((demo_stack [demo_client])\<lparr>mem := snd demo_response\<rparr>) 2 demo_packet M = Some s1 \<and>
     CoAP_doWork demo_benv 10 s1 = Some s2 \<and>
    Delivered s2 = Delivered ((demo_stack [demo_client])\<lparr>mem := snd demo_response\<rparr>) @ [(5, M, RemoteEp demo_client)] \<and>
    pInteractions s2 = [] \<and> Outbox s2 = Outbox ((demo_stack [demo_client])\<lparr>mem := snd demo_response\<rparr>) \<and>
    bget_rep (mem s2) h2 \<and> owns (mem_area bget_ops (mem s2)) Map.empty [] h2"
proof -
  obtain req M h where e: "fst demo_request = Some req" "fst demo_response = Some M" "bget_rep (snd demo_response) h"
    "owns (mem_area bget_ops (snd demo_response)) Map.empty (OMsg M # ia_objs demo_client) h" "pOptionsList M = []"
    "Type M = ACK" "Code M = RESP_SUCCESS_CONTENT_2_05" "MessageID M = MessageID req" "Token64 M = Token64 req"
    by (rule demo_exchange)
  have "\<exists>s1 s2 h2. dispatch demo_benv 10 ((demo_stack [demo_client])\<lparr>mem := snd demo_response\<rparr>) 2 demo_packet M = Some s1 \<and>
     CoAP_doWork demo_benv 10 s1 = Some s2 \<and>
    Delivered s2 = Delivered ((demo_stack [demo_client])\<lparr>mem := snd demo_response\<rparr>) @ [(5, M, RemoteEp demo_client)] \<and>
    pInteractions s2 = [] \<and> Outbox s2 = Outbox ((demo_stack [demo_client])\<lparr>mem := snd demo_response\<rparr>) \<and>
    bget_rep (mem s2) h2 \<and> owns (mem_area bget_ops (mem s2)) Map.empty [] h2"
    by (rule response_delivered [where h = h and req = req])
      (use e in \<open>simp_all add: demo_stack_def stack0_def demo_client_def demo_ia_def demo_benv_def demo_packet_def CoAP_MsgIsRequest_def\<close>)
  with e(2) show ?thesis by blast
qed

section \<open>The answer of a handler\<close>

text \<open>What a resource handler may do with a fresh response message: change its contents and replace
  its payload and options, as long as the message keeps its id, its token and its buffers and can
  still be sent.\<close>

definition answer :: "CoAP_Message_t \<Rightarrow> CoAP_Message_t" where
  "answer N = N\<lparr>Code := if Code N = EMPTY then RESP_SUCCESS_CONTENT_2_05 else Code N, Type := ACK\<rparr>"

definition handler_contract :: "bget_state env \<Rightarrow> nat \<Rightarrow> CoAP_Message_t \<Rightarrow> bool" where
  "handler_contract E n req \<longleftrightarrow>
     (\<forall>m h g resp. bget_rep m h \<longrightarrow> msg_owned (mem_area bget_ops m) g resp h \<longrightarrow> msg_wf resp \<longrightarrow>
       pOptionsList resp = [] \<longrightarrow> PayloadLength resp = 0 \<longrightarrow>
       (\<exists>resp' m' h'. user_handler E n m req (Some resp) = Some (HANDLER_OK, Some resp', m') \<and> bget_rep m' h' \<and>
          mem_area bget_ops m' = mem_area bget_ops m \<and> msg_owned (mem_area bget_ops m') g resp' h' \<and>
          msg_wf resp' \<and> int (length (encode_message (answer resp'))) \<le> MAX_REQ \<and>
          MessageID resp' = MessageID resp \<and> Token64 resp' = Token64 resp))"

lemma not_observed:
  assumes "get_res s (pRes x) = Some R" "pReqMsg x = Some req" "Notifier R = None \<or> OPT_NUM_OBSERVE \<notin> Number ` set (pOptionsList req)"
  obtains r where "CoAP_HandleObservationInReq E s x = Some (r, s)" "r \<noteq> COAP_OK"
proof -
  obtain k where k: "pRes x = Some k" using assms(1) by (cases "pRes x") (simp_all add: get_res_def)
  have "OPT_NUM_OBSERVE \<notin> Number ` set (pOptionsList req) \<Longrightarrow> GetObserveOptionFromMsg req = (COAP_NOT_FOUND, 0)"
    unfolding GetObserveOptionFromMsg_def by (subst GetObserve_find) (simp add: opt_find_none_iff [THEN iffD2])
  then show thesis using assms k that by (cases "Notifier R = None") (auto simp: CoAP_HandleObservationInReq_def)
qed

lemma finish_ack:
  assumes "pRespMsg x = Some N" "Type req = CON" "ReqReliabilityState x \<noteq> ACK_SET" "ReqMetaInfo x = META_INFO_NONE"
    and "get_res s (pRes x) = Some R" "pReqMsg x = Some req"
    and "Notifier R = None \<or> OPT_NUM_OBSERVE \<notin> Number ` set (pOptionsList req)" "pInteractions s = x # xs" "distinct (map ia_at (x # xs))"
  shows "finish_response E now s x req =
    map_option snd (SendResp E now (s\<lparr>pInteractions := x\<lparr>pRespMsg := Some (N\<lparr>Type := ACK\<rparr>)\<rparr> # xs\<rparr>)
      (x\<lparr>pRespMsg := Some (N\<lparr>Type := ACK\<rparr>)\<rparr>) COAP_STATE_RESPONSE_SENT)"
proof -
  let ?y = "x\<lparr>pRespMsg := Some (N\<lparr>Type := ACK\<rparr>)\<rparr>"
  have p: "put_ia s ?y = s\<lparr>pInteractions := ?y # xs\<rparr>" "put_ia (s\<lparr>pInteractions := ?y # xs\<rparr>) ?y = s\<lparr>pInteractions := ?y # xs\<rparr>"
    using put_ia_hd [of s x xs ?y] put_ia_hd [of "s\<lparr>pInteractions := ?y # xs\<rparr>" ?y xs ?y] assms(8,9) by (simp_all add: put_ia_def)
  obtain r where r: "CoAP_HandleObservationInReq E (s\<lparr>pInteractions := ?y # xs\<rparr>) ?y = Some (r, s\<lparr>pInteractions := ?y # xs\<rparr>)" "r \<noteq> COAP_OK"
    by (rule not_observed [of "s\<lparr>pInteractions := ?y # xs\<rparr>" ?y R req E])
      (use assms(5-7) in simp_all)
  show ?thesis
    using assms(1-4) r by (simp add: finish_response_def set_resp_type_def add_meta_option_def p Let_def)
qed

lemma handler_answer:
  assumes "pInteractions s = x # xs" "distinct (map ia_at (x # xs))" "Role x = COAP_ROLE_SERVER"
    "State x = COAP_STATE_HANDLE_REQUEST" "SleepUntil x \<le> now" "pReqMsg x = Some req" "Type req = CON"
    "ReqReliabilityState x = NOT_SET" "ReqMetaInfo x = META_INFO_NONE" "pRespMsg x = None"
    and "get_res s (pRes x) = Some R" "Handler R = Some (User_handler n)" "\<not> method_not_allowed req R"
    "Notifier R = None \<or> OPT_NUM_OBSERVE \<notin> Number ` set (pOptionsList req)"
    and "CoAP_AllocRespMsg (ops E) (mem s) (MId s) req EMPTY PREFERED_PAYLOAD_SIZE = (Some resp, m1, MId s)"
    and "user_handler E n m1 req (Some resp) = Some (HANDLER_OK, Some N, m2)"
    and y: "y = x\<lparr>pRespMsg := Some (answer N)\<rparr>"
  shows "CoAP_doWork E now s = map_option snd (SendResp E now (s\<lparr>mem := m2, pInteractions := y # xs\<rparr>) y COAP_STATE_RESPONSE_SENT)"
proof -
  let ?M1 = "if Code N = EMPTY then N\<lparr>Code := RESP_SUCCESS_CONTENT_2_05\<rparr> else N"
  have M1: "?M1\<lparr>Type := ACK\<rparr> = answer N" by (simp add: answer_def)
  let ?x1 = "x\<lparr>pRespMsg := Some N\<rparr>" and ?x2 = "x\<lparr>pRespMsg := Some ?M1\<rparr>" and ?s2 = "s\<lparr>mem := m2\<rparr>"
  have p: "put_ia ?s2 ?x1 = ?s2\<lparr>pInteractions := ?x1 # xs\<rparr>"
    "put_ia (?s2\<lparr>pInteractions := ?x1 # xs\<rparr>) ?x2 = ?s2\<lparr>pInteractions := ?x2 # xs\<rparr>"
    using put_ia_hd [of ?s2 x xs ?x1] put_ia_hd [of "?s2\<lparr>pInteractions := ?x1 # xs\<rparr>" ?x1 xs ?x2] assms(1,2)
    by (simp_all add: put_ia_def)
  have "CoAP_doWork E now s = handle_request E now s x"
    using assms(1,3,4) leD [OF assms(5)] by (simp add: CoAP_doWork_def CoAP_GetLongestPendingInteraction_def list_head_def)
  also have "\<dots> = finish_response E now (?s2\<lparr>pInteractions := ?x2 # xs\<rparr>) ?x2 req"
    using assms(6,10-13,15,16) p by (simp add: handle_request_def call_handler_def Let_def)
  also have "\<dots> = map_option snd (SendResp E now (s\<lparr>mem := m2, pInteractions := y # xs\<rparr>) y COAP_STATE_RESPONSE_SENT)"
    using finish_ack [of ?x2 ?M1 req "?s2\<lparr>pInteractions := ?x2 # xs\<rparr>" R xs E now] assms(2,6-9,11,14) M1 y by simp
  finally show ?thesis .
qed

text \<open>C10. The piggybacked response. For the first interaction, a new confirmable request to a resource with
  a handler and not a request to observe it, the work step calls the handler with the request and a
  fresh response message, and transmits what the handler has made of it, as an acknowledgement with
  the message id and the token of the request, with code 2.05 if the handler has not set one. The
  interaction then waits in state \<open>RESPONSE_SENT\<close> and owns its buffers; if the transmission fails
  or has no memory the interaction is removed and all its buffers are given back.\<close>

theorem piggybacked_response:
  assumes "pInteractions s = x # xs" "distinct (map ia_at (x # xs))" "Role x = COAP_ROLE_SERVER"
    "State x = COAP_STATE_HANDLE_REQUEST" "SleepUntil x \<le> now" "pReqMsg x = Some req" "Type req = CON"
    "ReqReliabilityState x = NOT_SET" "ReqMetaInfo x = META_INFO_NONE" "pRespMsg x = None"
    and "get_res s (pRes x) = Some R" "Handler R = Some (User_handler n)" "\<not> method_not_allowed req R"
    "Notifier R = None \<or> OPT_NUM_OBSERVE \<notin> Number ` set (pOptionsList req)"
    and "ops E = bget_ops" "bget_rep (mem s) h" "owns (mem_area bget_ops (mem s)) g (ia_objs x @ zs) h" "handler_contract E n req"
    and "CoAP_AllocRespMsg bget_ops (mem s) (MId s) req EMPTY PREFERED_PAYLOAD_SIZE = (Some resp, m1, mid)"
    and "RetrieveSocket2 (SocketCtrl s) (ia_ifID x) = Some k" "Tx (SocketMemory (SocketCtrl s) ! k) = Some tx"
  shows "\<exists>s' N m' h'. CoAP_doWork E now s = Some s' \<and> bget_rep (mem s') h' \<and>
    user_handler E n m1 req (Some resp) = Some (HANDLER_OK, Some N, m') \<and> MessageID N = MessageID req \<and> Token64 N = Token64 req \<and>
    ((\<exists>pk. Outbox s' = Outbox s @ [(ia_ifID x, pk)] \<and> pData pk = encode_message (answer N) \<and> Receiver pk = RemoteEp x \<and>
        (if tx (ia_ifID x) pk
         then \<exists>y. pInteractions s' = xs @ [y] \<and> State y = COAP_STATE_RESPONSE_SENT \<and> ReqReliabilityState y = ACK_SET \<and>
           owns (mem_area bget_ops (mem s')) g (ia_objs y @ zs) h'
         else pInteractions s' = xs \<and> owns (mem_area bget_ops (mem s')) g zs h')) \<or>
     Outbox s' = Outbox s \<and> pInteractions s' = xs \<and> 16 < length (encode_message (answer N)) \<and>
       owns (mem_area bget_ops (mem s')) g zs h')"
proof -
  have c: "CoAP_CreateMessage bget_ops (mem s) ACK EMPTY (MessageID req) None 0 PREFERED_PAYLOAD_SIZE (Token64 req) = (Some resp, m1)"
    and mid: "mid = MId s"
    using assms(7,19) by (auto simp: CoAP_AllocRespMsg_def CoAP_getRespMsgID_def CoAP_getRespMsgType_def split: prod.splits)
  obtain h1 where h1: "bget_rep m1 h1" "owns (mem_area bget_ops m1) g (OMsg resp # ia_objs x @ zs) h1" "msg_wf resp"
    "MessageID resp = MessageID req" "Token64 resp = Token64 req" "pOptionsList resp = []" "PayloadLength resp = 0"
    by (rule bget.owns_create [OF assms(16,17) c]) (auto simp: sizeof_CoAP_Message_t_def MAX_REQ_def)
  obtain g1 where g1: "owns (mem_area bget_ops m1) g (ia_objs x @ zs) g1" "msg_owned (mem_area bget_ops m1) g1 resp h1"
    by (rule owns_split [of _ g "[OMsg resp]" "ia_objs x @ zs" h1]) (use h1(2) in simp_all)
  obtain N m2 h2 where N: "user_handler E n m1 req (Some resp) = Some (HANDLER_OK, Some N, m2)" "bget_rep m2 h2"
    "mem_area bget_ops m2 = mem_area bget_ops m1" "msg_owned (mem_area bget_ops m2) g1 N h2"
    "msg_wf N" "int (length (encode_message (answer N))) \<le> MAX_REQ" "MessageID N = MessageID resp" "Token64 N = Token64 resp"
    using assms(18) h1(1,3,6,7) g1(2) unfolding handler_contract_def by blast
  have o2: "owns (mem_area bget_ops m2) g ([OMsg N] @ ia_objs x @ zs) h2"
    by (rule bget.owns_join [OF N(2), of g "ia_objs x @ zs" g1]) (use N(3,4) g1(1) in simp_all)
  define y where "y = x\<lparr>pRespMsg := Some (answer N)\<rparr>"
  have eq: "CoAP_doWork E now s = map_option snd (SendResp E now (s\<lparr>mem := m2, pInteractions := y # xs\<rparr>) y COAP_STATE_RESPONSE_SENT)"
    by (rule handler_answer [OF assms(1-14) _ N(1) y_def]) (use assms(15,19) mid in simp)
  have own: "owns (mem_area bget_ops m2) g (ia_objs y @ zs) h2"
    using o2 assms(10) owns_msg_cong [of "answer N" N] by (simp add: y_def ia_objs_resp answer_def) (simp add: ia_objs_def)
  have wf: "msg_wf (answer N)" using N(5) by (simp add: msg_wf_def answer_def)
  let ?s = "s\<lparr>mem := m2, pInteractions := y # xs\<rparr>" and ?st = COAP_STATE_RESPONSE_SENT
  have y: "pRespMsg y = Some (answer N)" "pReqMsg y = Some req" "ia_ifID y = ia_ifID x" "RemoteEp y = RemoteEp x"
    using assms(6) by (simp_all add: y_def)
  have pre: "bget_rep (mem ?s) h2" "pInteractions ?s = y # xs" "distinct (map ia_at (y # xs))"
    "owns (mem_area bget_ops (mem ?s)) g (ia_objs y @ zs) h2" "RetrieveSocket2 (SocketCtrl ?s) (ia_ifID y) = Some k"
    "Tx (SocketMemory (SocketCtrl ?s) ! k) = Some tx"
    using assms(2,20,21) N(2) own by (simp_all add: y_def)
  note f = N(1) N(7,8) h1(4,5)
  from assms(15) pre(1-4) y(1,2) wf N(6) pre(5,6) show ?thesis
  proof (cases rule: bget.SendResp_owned [where now = now and st = ?st])
    case (sent pk m')
    then show ?thesis
      using eq f y after_resp_objs by (auto simp: answer_def)
  next
    case (refused pk s1 h1)
    then show ?thesis using eq f y by auto
  next
    case (oom s1 h1)
    then show ?thesis using eq f by auto
  qed
qed

definition demo_henv :: "bget_state env" where
  "demo_henv = demo_benv\<lparr>user_handler := (\<lambda>_ m _ resp. Some (HANDLER_OK, resp, m))\<rparr>"

lemma demo_contract: "handler_contract demo_henv 0 req"
proof -
  have "length (encode_message (answer resp)) \<le> 12" if "pOptionsList resp = []" "PayloadLength resp = 0" for resp
    using that getTokenByteCount_le [of "Token64 resp"]
    by (simp add: encode_message_def answer_def msg_token_def msg_payload_def encode_payload_def)
  then have "int (length (encode_message (answer resp))) \<le> MAX_REQ" if "pOptionsList resp = []" "PayloadLength resp = 0" for resp
    using that by (fastforce simp: MAX_REQ_def)
  then show ?thesis unfolding handler_contract_def demo_henv_def by auto
qed

definition demo_server :: CoAP_Interaction_t where
  "demo_server = demo_ia\<lparr>ia_at := 6040, Role := COAP_ROLE_SERVER, State := COAP_STATE_HANDLE_REQUEST, pRes := Some 0,
     pReqMsg := fst demo_request\<rparr>"

definition demo_resource :: CoAP_Res_t where
  "demo_resource = \<lparr>res_at = 12, pDescription = None, UpdateCnt = 0, Options = \<lparr>Cf = 0, Flags = RES_OPT_GET, ETag = 0\<rparr>,
     pUri = [], pListObservers = [], Handler = Some (User_handler 0), Notifier = None\<rparr>"

definition demo_serving :: "bget_state stack" where
  "demo_serving = (demo_stack [demo_server])\<lparr>mem := snd demo_request, pResList := [demo_resource]\<rparr>"

theorem piggybacked_response_witness:
  "\<exists>req resp m1 mid. fst demo_request = Some req \<and>
    CoAP_AllocRespMsg bget_ops (mem demo_serving) (MId demo_serving) req EMPTY PREFERED_PAYLOAD_SIZE = (Some resp, m1, mid) \<and>
    (\<exists>s' N m' h'. CoAP_doWork demo_henv 10 demo_serving = Some s' \<and> bget_rep (mem s') h' \<and>
    user_handler demo_henv 0 m1 req (Some resp) = Some (HANDLER_OK, Some N, m') \<and> MessageID N = MessageID req \<and> Token64 N = Token64 req \<and>
    ((\<exists>pk. Outbox s' = Outbox demo_serving @ [(ia_ifID demo_server, pk)] \<and> pData pk = encode_message (answer N) \<and> Receiver pk = RemoteEp demo_server \<and>
        (if (\<lambda>_ _. True) (ia_ifID demo_server) pk
         then \<exists>y. pInteractions s' = [] @ [y] \<and> State y = COAP_STATE_RESPONSE_SENT \<and> ReqReliabilityState y = ACK_SET \<and>
           owns (mem_area bget_ops (mem s')) Map.empty (ia_objs y @ []) h'
         else pInteractions s' = [] \<and> owns (mem_area bget_ops (mem s')) Map.empty [] h')) \<or>
     Outbox s' = Outbox demo_serving \<and> pInteractions s' = [] \<and> 16 < length (encode_message (answer N)) \<and>
       owns (mem_area bget_ops (mem s')) Map.empty [] h'))"
proof -
  obtain req m h where q: "demo_request = (Some req, m)" "bget_rep m h" "owns (mem_area bget_ops m) Map.empty [OMsg req, OBuf 6040] h"
    "Type req = CON" "Code req = REQ_GET" by (rule demo_request_owned)
  have r: "fst demo_request = Some req" "bget_rep (snd demo_request) h" "Type req = CON" "Code req = REQ_GET"
    "owns (mem_area bget_ops (snd demo_request)) Map.empty (ia_objs demo_server @ []) h"
    using q(2-5) by (simp_all add: q(1) demo_server_def ia_objs_def demo_ia_def)
  have "fst (CoAP_AllocRespMsg bget_ops (mem demo_serving) (MId demo_serving) (the (fst demo_request)) EMPTY PREFERED_PAYLOAD_SIZE) \<noteq> None"
    by code_simp
  then obtain resp m1 mid where a: "CoAP_AllocRespMsg bget_ops (mem demo_serving) (MId demo_serving) req EMPTY PREFERED_PAYLOAD_SIZE = (Some resp, m1, mid)"
    using r(1) by (metis not_None_eq option.sel prod.collapse)
  have na: "\<not> method_not_allowed req demo_resource" using r(4) by (simp add: method_not_allowed_def demo_resource_def)
  have f: "pInteractions demo_serving = [demo_server]" "mem demo_serving = snd demo_request" "SocketCtrl demo_serving = demo_sockets"
    "get_res demo_serving (pRes demo_server) = Some demo_resource"
    by (simp_all add: demo_serving_def demo_stack_def stack0_def get_res_def demo_server_def demo_ia_def)
  show ?thesis
    by (rule exI [of _ req], rule exI [of _ resp], rule exI [of _ m1], rule exI [of _ mid], intro conjI r(1) a,
        rule piggybacked_response [OF f(1) _ _ _ _ _ _ _ _ _ f(4) _ na _ _ _ _ demo_contract a, where h = h and k = 0])
      (use r in \<open>simp_all add: f demo_server_def demo_ia_def demo_resource_def demo_henv_def demo_benv_def demo_socket\<close>)
qed

section \<open>Duplicates\<close>

lemma send_EmptyAck_eq: "send_EmptyAck E now s mid i ep = send_ShortResp E now s ACK EMPTY mid 0 i ep"
  by (simp add: send_EmptyAck_def send_ShortResp_def CoAP_SendEmptyAck_def CoAP_SendShortResp_def CoAP_InitToEmptyResetMsg_def)

text \<open>The server interaction of the same request: same message id, interface and endpoint.\<close>

definition same_request :: "CoAP_Message_t \<Rightarrow> u8 \<Rightarrow> NetEp_t \<Rightarrow> CoAP_Interaction_t \<Rightarrow> bool" where
  "same_request M i ep x \<longleftrightarrow> Role x = COAP_ROLE_SERVER \<and> ia_ifID x = i \<and> EpAreEqual (Some (RemoteEp x)) (Some ep) \<and>
     (case pReqMsg x of None \<Rightarrow> False | Some req \<Rightarrow> MessageID req = MessageID M)"

lemma find_duplicate_first:
  assumes "\<forall>x \<in> set L. Role x = COAP_ROLE_SERVER \<longrightarrow> pReqMsg x \<noteq> None" "find (same_request M i ep) L = Some x" "pReqMsg x = Some req"
  shows "find_duplicate L (MessageID M) i ep = Some (Some (x, req))"
  using assms by (induction L) (auto simp: same_request_def split: if_splits option.splits)

text \<open>C12. Duplicate detection, from the packet on. A request that is processed (\<open>Accept\<close>) and repeats the message id of a
  running server interaction on the same interface from the same endpoint starts no second interaction. The
  first such interaction decides: if it waits for its handler and the first request, a confirmable one, has been
  acknowledged, one more empty acknowledgement with the message id is sent to its endpoint; otherwise nothing is
  sent. In both cases the interactions, the resources, the callbacks and the message id counter are
  untouched, and the memory of the repeated request is given back. The assumption that every server
  interaction has its request holds in every reachable state.\<close>

theorem duplicate_request:
  assumes "ops E = bget_ops" "bget_rep (mem s) h" "\<not> receiveBlocked E"
    and "RetrieveSocket2 (SocketCtrl s) i = Some k" "Tx (SocketMemory (SocketCtrl s) ! k) = Some tx"
    and "src = write_at (stale_buf E) 0 (pData pckt)" "header_ok src \<longrightarrow> token_end src \<le> unat (pk_size pckt)"
    and "CoAP_ParseMessageFromDatagram bget_ops (mem s) now src (pk_size pckt) = Some (COAP_OK, Some M, m1)"
    and "verdict_on s M = Accept" "CoAP_MsgIsRequest M"
    and "\<forall>x \<in> set (pInteractions s). Role x = COAP_ROLE_SERVER \<longrightarrow> pReqMsg x \<noteq> None"
    and "find (same_request M i (Sender pckt)) (pInteractions s) = Some x" "pReqMsg x = Some req"
  shows "\<exists>s'. CoAP_onNewPacketHandler E now s i pckt = Some s' \<and> bget_rep (mem s') h \<and>
    pInteractions s' = pInteractions s \<and> pResList s' = pResList s \<and> Delivered s' = Delivered s \<and> MId s' = MId s \<and>
    (if Type req = CON \<and> State x = COAP_STATE_RESOURCE_POSTPONE_EMPTY_ACK_SENT
     then \<exists>pk. Outbox s' = Outbox s @ [(i, pk)] \<and> Receiver pk = RemoteEp x \<and> pData pk = encode_message (short_msg ACK EMPTY (MessageID M) 0)
     else Outbox s' = Outbox s)"
proof -
  obtain h1 where own: "bget_rep m1 h1" "msg_owned (mem_area bget_ops m1) h M h1"
    by (rule bget.parse_owns [OF assms(2), of src "pk_size pckt" now]) (use assms(7,8) in auto)
  let ?s1 = "s\<lparr>mem := m1\<rparr>"
  have x: "ia_ifID x = i" "MessageID req = MessageID M"
    using assms(12,13) by (auto simp: find_Some_iff same_request_def)
  have dup: "find_duplicate (pInteractions ?s1) (MessageID M) i (Sender pckt) = Some (Some (x, req))"
    using find_duplicate_first [OF assms(11-13)] by simp
  have "Type M \<noteq> ACK" "Type M \<noteq> RST" using assms(9,10) by (auto simp: verdict_on_def CoAP_MsgIsRequest_def Let_def split: if_splits)
  then have eq: "CoAP_onNewPacketHandler E now s i pckt =
      handle_new_request E now ?s1 i pckt M (CoAP_FindResourceByUri (pResList s) (pOptionsList M))"
    using assms(1,3,6,8-10)
    by (auto simp: CoAP_onNewPacketHandler_def dispatch_def verdict_on_def critical_iff [symmetric] Let_def
        split: if_splits option.splits CoAP_MessageType_t.splits)
  have free: "\<exists>m''. free_msg E s2 (Some M) = s2\<lparr>mem := m''\<rparr> \<and> bget_rep m'' h"
    if "bget_rep (mem s2) h1" "mem_area bget_ops (mem s2) = mem_area bget_ops m1" for s2
    by (rule bget.free_message [OF that(1), of h M]) (use own(2) that(2) in \<open>auto simp: free_msg_def assms(1)\<close>)
  show ?thesis
  proof (cases "Type req = CON \<and> State x = COAP_STATE_RESOURCE_POSTPONE_EMPTY_ACK_SENT")
    case True
    obtain r pk m2 where p: "pData pk = encode_message (short_msg ACK EMPTY (MessageID M) 0)" "Receiver pk = RemoteEp x"
      and snd: "send_ShortResp E now ?s1 ACK EMPTY (MessageID M) 0 i (RemoteEp x) = Some (r, ?s1\<lparr>mem := m2, Outbox := Outbox ?s1 @ [(i, pk)]\<rparr>)"
      and m2: "bget_rep m2 h1" "mem_area bget_ops m2 = mem_area bget_ops (mem ?s1)"
      by (rule send_short [OF assms(1), of ?s1 h1 i k tx]) (use assms(4,5) own(1) in simp_all)
    let ?s2 = "?s1\<lparr>mem := m2, Outbox := Outbox ?s1 @ [(i, pk)]\<rparr>"
    have "CoAP_StartNewServerInteraction E now ?s1 M res i pckt = Some (COAP_ERR_EXISTING, ?s2)" for res
      using assms(10) dup True x snd by (simp add: CoAP_StartNewServerInteraction_def send_EmptyAck_eq Let_def)
    moreover obtain m3 where "free_msg E ?s2 (Some M) = ?s2\<lparr>mem := m3\<rparr>" "bget_rep m3 h" using free [of ?s2] m2 by auto
    ultimately show ?thesis using True eq p by (simp add: handle_new_request_def)
  next
    case False
    then have "CoAP_StartNewServerInteraction E now ?s1 M res i pckt = Some (COAP_ERR_EXISTING, ?s1)" for res
      using assms(10) dup by (auto simp: CoAP_StartNewServerInteraction_def Let_def)
    then show ?thesis using free [of ?s1] own(1) eq False by (auto simp: handle_new_request_def)
  qed
qed

text \<open>A repeated request for a resource whose handler has postponed the answer.\<close>

definition demo_postponed :: CoAP_Interaction_t where
  "demo_postponed = demo_ia\<lparr>Role := COAP_ROLE_SERVER, State := COAP_STATE_RESOURCE_POSTPONE_EMPTY_ACK_SENT, pRes := Some 0\<rparr>"

definition demo_again :: NetPacket_t where
  "demo_again = demo_packet\<lparr>pData := [0x40, 1, 0x12, 0x34], pk_size := 4\<rparr>"

definition demo_busy :: "bget_state stack" where
  "demo_busy = (demo_stack [demo_postponed])\<lparr>pResList := [demo_resource]\<rparr>"

theorem duplicate_request_witness:
  "\<exists>s' pk. CoAP_onNewPacketHandler demo_benv 7 demo_busy 2 demo_again = Some s' \<and> bget_rep (mem s') Map.empty \<and>
    pInteractions s' = [demo_postponed] \<and> Outbox s' = [(2, pk)] \<and> Receiver pk = demo_ep \<and> pData pk = [0x60, 0, 0x12, 0x34]"
proof -
  define src where "src = write_at (stale_buf demo_benv) 0 (pData demo_again)"
  have hd: "header_ok src" "token_end src = 4" unfolding src_def by code_simp+
  obtain p k m1 where g: "coap_mem_get bget_ops demo_pool 40 = (p, m1)" "p \<noteq> NULL"
    by (rule demo_get [of 40]) auto
  have ph: "Type (parsed_header src) = CON" "Code (parsed_header src) = 1" "MessageID (parsed_header src) = 0x1234"
    "PayloadLength (parsed_header src) = 0" "pOptionsList (parsed_header src) = []" unfolding src_def by code_simp+
  then obtain M where M: "CoAP_ParseMessageFromDatagram bget_ops demo_pool 7 src 4 = Some (COAP_OK, Some M, m1)"
    "Type M = CON" "Code M = 1" "MessageID M = 0x1234" "pOptionsList M = []"
    using parse_good_header [OF hd(1), of 4 bget_ops demo_pool 7] hd(2) g
    by (simp add: START_MSG_COPY_def sizeof_CoAP_Message_t_def s16_id Let_def)
  have f: "pInteractions demo_busy = [demo_postponed]" "mem demo_busy = demo_pool" "SocketCtrl demo_busy = demo_sockets"
    "pResList demo_busy = [demo_resource]" "Outbox demo_busy = []"
    by (simp_all add: demo_busy_def demo_stack_def stack0_def)
  have req: "CoAP_MsgIsRequest M" using M(3) by (simp add: CoAP_MsgIsRequest_def)
  have uri: "CoAP_UriOptionsAreEqual [] []" by code_simp
  have res: "get_res demo_busy (CoAP_FindResourceByUri [demo_resource] []) = Some demo_resource"
    by (simp add: get_res_def f CoAP_FindResourceByUri_def demo_resource_def uri)
  have v: "verdict_on demo_busy M = Accept"
    using M(2-5) req res by (simp add: verdict_on_def f Let_def demo_resource_def)
  have same: "same_request M 2 (Sender demo_again) demo_postponed" "Type demo_msg = CON"
    using M(4) by (simp_all add: same_request_def demo_postponed_def demo_ia_def demo_again_def demo_packet_def demo_msg_def)
  have e: "encode_message (short_msg ACK EMPTY 0x1234 0) = [0x60, 0, 0x12, 0x34]" by code_simp
  have "\<exists>s'. CoAP_onNewPacketHandler demo_benv 7 demo_busy 2 demo_again = Some s' \<and> bget_rep (mem s') Map.empty \<and>
    pInteractions s' = pInteractions demo_busy \<and> pResList s' = pResList demo_busy \<and> Delivered s' = Delivered demo_busy \<and> MId s' = MId demo_busy \<and>
    (if Type demo_msg = CON \<and> State demo_postponed = COAP_STATE_RESOURCE_POSTPONE_EMPTY_ACK_SENT
     then \<exists>pk. Outbox s' = Outbox demo_busy @ [(2, pk)] \<and> Receiver pk = RemoteEp demo_postponed \<and>
       pData pk = encode_message (short_msg ACK EMPTY (MessageID M) 0)
     else Outbox s' = Outbox demo_busy)"
    by (rule duplicate_request [OF _ _ _ _ _ src_def _ _ v req, where k = 0])
      (use hd M same demo_rep in \<open>simp_all add: f demo_benv_def demo_again_def demo_socket demo_postponed_def demo_ia_def\<close>)
  then show ?thesis using same(2) by (auto simp: f M(4) e [simplified] demo_postponed_def demo_ia_def)
qed

end
