(* ===== verification/Resource_Properties.thy ===== *)
theory Resource_Properties
  imports Examples Uri_Correct Resource
begin

text \<open>
  Properties of URIs and resources: from the URI string to the path options, the comparison of
  paths, the lookup of a resource, and the observers of a resource.
\<close>

section \<open>Lookup\<close>

lemma find_resource_shift: "find_resource Rs L i = map_option (\<lambda>k. k + i) (find_resource Rs L 0)"
proof (induction Rs arbitrary: i)
  case (Cons R Rs)
  show ?case
    using Cons.IH [of 1] Cons.IH [of "i + 1"] by (simp add: option.map_comp comp_def)
qed simp

definition res_wf :: "CoAP_Res_t \<Rightarrow> bool" where
  "res_wf R \<longleftrightarrow> list_all opt_wf (pUri R)"

lemma find_resource_iff:
  assumes "list_all res_wf Rs" "list_all opt_wf L"
  shows "find_resource Rs L 0 = Some k \<longleftrightarrow>
    k < length Rs \<and> uri_path (pUri (Rs ! k)) = uri_path L \<and> (\<forall>j < k. uri_path (pUri (Rs ! j)) \<noteq> uri_path L)"
  using assms(1)
proof (induction Rs arbitrary: k)
  case (Cons R Rs)
  have eq: "CoAP_UriOptionsAreEqual (pUri R) L \<longleftrightarrow> uri_path (pUri R) = uri_path L"
    using UriOptionsAreEqual_iff Cons.prems assms(2) by (simp add: res_wf_def)
  show ?case
  proof (cases "uri_path (pUri R) = uri_path L")
    case True
    then show ?thesis using eq by (auto intro: Suc_leI gr0I)
  next
    case False
    have "find_resource Rs L 1 = Some k \<longleftrightarrow> (\<exists>j. k = Suc j \<and> find_resource Rs L 0 = Some j)"
      by (subst find_resource_shift) auto
    moreover have "(\<forall>j < Suc n. P j) \<longleftrightarrow> P 0 \<and> (\<forall>j < n. P (Suc j))" for P and n :: nat
      using less_Suc_eq_0_disj by auto
    ultimately show ?thesis
      using False eq Cons.IH Cons.prems by (cases k) auto
  qed
qed simp

section \<open>Ownership of observers\<close>

definition ob_ptrs :: "CoAP_Observer_t \<Rightarrow> ptr list" where
  "ob_ptrs ob = opt_ptrs (pOptList ob) @ [ob_at ob]"

definition obs_ptrs :: "CoAP_Observer_t list \<Rightarrow> ptr list" where
  "obs_ptrs L = concat (map ob_ptrs L)"

lemma obs_ptrs_simps [simp]:
  "obs_ptrs [] = []" "obs_ptrs (ob # L) = ob_ptrs ob @ obs_ptrs L" "obs_ptrs (L @ M) = obs_ptrs L @ obs_ptrs M"
  by (simp_all add: obs_ptrs_def)

lemma unlink_observer_split:
  assumes "ob_at ob \<notin> ob_at ` set us"
  shows "CoAP_UnlinkObserverFromList A m (us @ ob # vs) (ob_at ob) True = (COAP_OK, us @ vs, snd (CoAP_FreeObserver A m ob))"
  using assms by (induction us) auto

lemma find_observer_split:
  assumes "find_observer L i ep tok = Some ob"
  obtains us vs where "L = us @ ob # vs" "tok = Token ob" "i = IfID ob" "ep_eq ep (Ep ob)"
    "\<forall>u \<in> set us. \<not> (tok = Token u \<and> i = IfID u \<and> ep_eq ep (Ep u))"
proof -
  have "\<exists>us vs. L = us @ ob # vs \<and> tok = Token ob \<and> i = IfID ob \<and> ep_eq ep (Ep ob) \<and>
      (\<forall>u \<in> set us. \<not> (tok = Token u \<and> i = IfID u \<and> ep_eq ep (Ep u)))"
    using assms
  proof (induction L)
    case (Cons a L)
    show ?case
    proof (cases "tok = Token a \<and> i = IfID a \<and> ep_eq ep (Ep a)")
      case True
      then show ?thesis using Cons.prems by (intro exI [of _ "[]"] exI [of _ L]) auto
    next
      case False
      then obtain us vs where "L = us @ ob # vs" "tok = Token ob" "i = IfID ob" "ep_eq ep (Ep ob)"
        "\<forall>u \<in> set us. \<not> (tok = Token u \<and> i = IfID u \<and> ep_eq ep (Ep u))"
        using Cons.IH Cons.prems by (auto split: if_splits)
      with False show ?thesis by (intro exI [of _ "a # us"] exI [of _ vs]) simp
    qed
  qed simp
  then show thesis using that by blast
qed

context coap_allocator
begin

lemma free_observer:
  assumes "rep m h'" "heap_ext h (ob_ptrs ob) h'"
  obtains m' where "CoAP_FreeObserver A m ob = (COAP_OK, m')" "rep m' h"
proof -
  obtain h1 where h1: "heap_ext h [ob_at ob] h1" "heap_ext h1 (opt_ptrs (pOptList ob)) h'"
    using assms(2) by (auto simp: ob_ptrs_def heap_ext_append)
  obtain m1 where m1: "CoAP_FreeOptionList A m (pOptList ob) = (COAP_OK, [], m1)" "rep m1 h1"
    by (rule free_option_list [OF assms(1) h1(2)])
  have "rep (foldl (coap_mem_release A) m1 [ob_at ob]) h" by (rule release_ext [OF m1(2) h1(1)])
  then show thesis using that [of "coap_mem_release A m1 (ob_at ob)"] m1(1) by (simp add: CoAP_FreeObserver_def)
qed

lemma remove_observer:
  assumes rep: "rep m h'" and ext: "heap_ext h (obs_ptrs L) h'"
  obtains (removed) us ob vs m' h'' where "CoAP_RemoveObserverFromResource A m L i ep tok = (COAP_REMOVED, us @ vs, m')"
      "L = us @ ob # vs" "tok = Token ob" "i = IfID ob" "ep_eq ep (Ep ob)"
      "\<forall>u \<in> set us. \<not> (tok = Token u \<and> i = IfID u \<and> ep_eq ep (Ep u))"
      "rep m' h''" "heap_ext h (obs_ptrs (us @ vs)) h''"
  | (none) "CoAP_RemoveObserverFromResource A m L i ep tok = (COAP_ERR_NOT_FOUND, L, m)" "find_observer L i ep tok = None"
proof (cases "find_observer L i ep tok")
  case None
  then show thesis using none by (simp add: CoAP_RemoveObserverFromResource_def)
next
  case (Some ob)
  then obtain us vs where L: "L = us @ ob # vs" "tok = Token ob" "i = IfID ob" "ep_eq ep (Ep ob)"
    "\<forall>u \<in> set us. \<not> (tok = Token u \<and> i = IfID u \<and> ep_eq ep (Ep u))"
    by (rule find_observer_split)
  have "distinct (obs_ptrs L)" using ext by (simp add: heap_ext_def)
  then have fresh: "ob_at ob \<notin> ob_at ` set us"
    by (auto simp: L(1) obs_ptrs_def ob_ptrs_def)
  have "mset (obs_ptrs L) = mset (ob_ptrs ob @ obs_ptrs (us @ vs))" by (simp add: L(1))
  then have "heap_ext h (ob_ptrs ob @ obs_ptrs (us @ vs)) h'" using ext heap_ext_mset by blast
  then obtain h'' where h'': "heap_ext h (obs_ptrs (us @ vs)) h''" "heap_ext h'' (ob_ptrs ob) h'"
    by (auto simp only: heap_ext_append [of h "ob_ptrs ob"])
  obtain m' where "CoAP_FreeObserver A m ob = (COAP_OK, m')" "rep m' h''" by (rule free_observer [OF rep h''(2)])
  then show thesis
    using removed [OF _ L(1-5) _ h''(1), of m'] Some unlink_observer_split [OF fresh, of A m vs] L(1)
    by (simp add: CoAP_RemoveObserverFromResource_def)
qed

end

section \<open>URIs\<close>

text \<open>C24. From a URI string to options. \<open>CoAP_AppendUriOptionsFromString\<close> adds, in order, one Uri-Path
  option for every non-empty run of characters between slashes or spaces before the first question
  mark and one Uri-Query option for every non-empty run between ampersands behind it; the parts
  are those of the reference definition \<open>uri_parts\<close>. The result code of the single insertions is
  not looked at.\<close>

theorem uri_string_to_options:
  "CoAP_AppendUriOptionsFromString A m L (Some s) =
     (COAP_OK, foldl (\<lambda>(L, m) (n, v). case CoAP_AppendOptionToList A m L n v (of_nat (length v)) of (_, L', m') \<Rightarrow> (L', m'))
        (L, m) (uri_parts s))"
proof -
  have "append_parts A m L ps = foldl (\<lambda>(L, m) (n, v).
      case CoAP_AppendOptionToList A m L n v (of_nat (length v)) of (_, L', m') \<Rightarrow> (L', m')) (L, m) ps" for ps
    by (induction A m L ps rule: append_parts.induct) (auto split: prod.splits)
  then show ?thesis by (simp add: AppendUriOptions_parts)
qed

text \<open>C25. The same for the memory, for strings of up to 32000 bytes: building the options of a URI in an empty list
  never fails as a whole; the list is well formed and owns exactly the buffers that were allocated for it. Its
  options are, in order, the parts of the URI whose insertion answered \<open>COAP_OK\<close>, and these are all parts if
  the pool has a free buffer with 28 bytes and the length of the value for each of them.\<close>

theorem uri_options_memory:
  assumes "bget_rep m h" "length s \<le> 32000"
  shows "\<exists>L m' h'. CoAP_AppendUriOptionsFromString bget_ops m [] (Some s) = (COAP_OK, L, m') \<and> bget_rep m' h' \<and>
    heap_ext h (opt_ptrs L) h' \<and> opts_wf L \<and> subseq (map opt_view L) (uri_parts s) \<and>
    map opt_view L = stored_parts bget_ops m [] (uri_parts s) \<and>
    (bget_room (\<Sum>(n, v) \<leftarrow> uri_parts s. 28 + int (length v)) m \<longrightarrow> map opt_view L = uri_parts s)"
proof (rule bget.uri_options_owned [OF assms])
  fix L m' h'
  assume "CoAP_AppendUriOptionsFromString bget_ops m [] (Some s) = (COAP_OK, L, m')" "bget_rep m' h'"
    "heap_ext h (opt_ptrs L) h'" "map opt_view L = stored_parts bget_ops m [] (uri_parts s)" "opts_wf L"
  then show ?thesis
    using bget_space.uri_options_all [OF _ assms(2), of m "[]"] subseq_stored_parts [of bget_ops m "[]" "uri_parts s"]
    by (intro exI [of _ L] exI [of _ m'] exI [of _ h']) simp
qed

theorem uri_options_memory_witness:
  "\<exists>L m' h'. CoAP_AppendUriOptionsFromString bget_ops demo_pool [] (Some (str ''/a/bc?x=1&y'')) = (COAP_OK, L, m') \<and> bget_rep m' h' \<and>
    heap_ext Map.empty (opt_ptrs L) h' \<and> map opt_view L = [(11, str ''a''), (11, str ''bc''), (15, str ''x=1''), (15, str ''y'')]"
proof -
  have "uri_parts (str ''/a/bc?x=1&y'') = [(11, str ''a''), (11, str ''bc''), (15, str ''x=1''), (15, str ''y'')]" by code_simp
  then show ?thesis
    using uri_options_memory [OF demo_rep, of "str ''/a/bc?x=1&y''"] demo_room [of 119] by (auto simp: str_def)
qed

text \<open>C27. Two option lists name the same path for \<open>CoAP_UriOptionsAreEqual\<close> exactly when their
  sequences of Uri-Path values are equal; other options do not matter.\<close>

theorem uri_path_equality:
  assumes "list_all opt_wf L" "list_all opt_wf M"
  shows "CoAP_UriOptionsAreEqual L M \<longleftrightarrow>
    map Value (filter (\<lambda>p. Number p = OPT_NUM_URI_PATH) L) = map Value (filter (\<lambda>p. Number p = OPT_NUM_URI_PATH) M)"
  using UriOptionsAreEqual_iff [OF assms] by (simp add: uri_path_def)

theorem uri_path_equality_witness:
  "CoAP_UriOptionsAreEqual [demo_opt 6 [], demo_opt 11 [97]] [demo_opt 11 [97], demo_opt 15 [98]] \<longleftrightarrow>
    map Value (filter (\<lambda>p. Number p = OPT_NUM_URI_PATH) [demo_opt 6 [], demo_opt 11 [97]]) =
    map Value (filter (\<lambda>p. Number p = OPT_NUM_URI_PATH) [demo_opt 11 [97], demo_opt 15 [98]])"
  by (rule uri_path_equality) (simp_all add: opt_wf_def demo_opt_def)

text \<open>Query parameters. \<open>CoAP_GetUriQueryVal\<close> finds exactly the values of Uri-Query options that
  start with the prefix and are longer than it, up to 255 bytes, and returns the rest with its
  length.\<close>

lemma query_value:
  assumes "opt_wf p"
  shows "CoAP_GetUriQueryVal (Some p) k = Some (v, n) \<longleftrightarrow>
    Number p = OPT_NUM_URI_QUERY \<and> Value p = k @ v \<and> v \<noteq> [] \<and> length (Value p) \<le> 255 \<and> unat n = length v"
proof -
  have "n = of_nat (length v) \<longleftrightarrow> unat n = length v" if "length v \<le> 255"
  proof
    assume "unat n = length v"
    then have "of_nat (length v) = (of_nat (unat n) :: u8)" by simp
    then show "n = of_nat (length v)" by simp
  qed (use that in \<open>simp add: unat_of_nat take_bit_eq_mod\<close>)
  then show ?thesis using GetUriQueryVal_iff [OF assms, of k v n] by auto
qed

text \<open>Numbers in queries. A string of up to ten characters that are all decimal digits is read as
  its value modulo \<open>2 ^ 32\<close>; any other character makes the result 0.\<close>

lemma atoi_decimal:
  assumes "length s \<le> 10"
  shows "unat (CoAP_atoi s (of_nat (length s))) =
    (if list_all (\<lambda>c. 48 \<le> c \<and> c \<le> 57) s then foldl (\<lambda>v c. 10 * v + (unat c - 48)) 0 s mod 2 ^ 32 else 0)"
proof -
  have n: "unat (of_nat (length s) :: u8) = length s" "(of_nat (length s) :: u8) \<le> 10"
    using assms by (auto simp: unat_of_nat word_le_nat_alt take_bit_eq_mod)
  have "dec_value (rev s) = foldl (\<lambda>v c. 10 * v + (unat c - 48)) 0 s"
    by (induction s rule: rev_induct) simp_all
  then show ?thesis
    using atoi_value [OF n(2), of s] n(1) by (simp add: unat_of_nat take_bit_eq_mod)
qed

section \<open>Resources\<close>

definition demo_res :: "u8 list \<Rightarrow> CoAP_Res_t" where
  "demo_res part = \<lparr>res_at = 8, pDescription = None, UpdateCnt = 0,
     Options = \<lparr>Cf = 0, Flags = RES_OPT_GET, ETag = 0\<rparr>, pUri = [demo_opt 11 part], pListObservers = [],
     Handler = Some (User_handler 0), Notifier = None\<rparr>"

text \<open>C26. The lookup of a resource returns the first one of the list whose path is that of the request,
  and \<open>NULL\<close> exactly when there is none.\<close>

theorem resource_lookup:
  assumes "list_all (\<lambda>R. list_all opt_wf (pUri R)) Rs" "list_all opt_wf L"
  shows "(CoAP_FindResourceByUri Rs L = Some k \<longleftrightarrow>
      k < length Rs \<and> uri_path (pUri (Rs ! k)) = uri_path L \<and> (\<forall>j < k. uri_path (pUri (Rs ! j)) \<noteq> uri_path L)) \<and>
    (CoAP_FindResourceByUri Rs L = None \<longleftrightarrow> (\<forall>R \<in> set Rs. uri_path (pUri R) \<noteq> uri_path L))"
proof -
  have wf: "list_all res_wf Rs" using assms(1) by (simp add: res_wf_def [abs_def])
  have "find_resource Rs L 0 = None \<longleftrightarrow> (\<forall>R \<in> set Rs. uri_path (pUri R) \<noteq> uri_path L)"
  proof
    assume none: "find_resource Rs L 0 = None"
    show "\<forall>R \<in> set Rs. uri_path (pUri R) \<noteq> uri_path L"
    proof (rule ccontr)
      assume "\<not> ?thesis"
      then have "\<exists>j. j < length Rs \<and> uri_path (pUri (Rs ! j)) = uri_path L" by (auto simp: in_set_conv_nth)
      then obtain j where "j < length Rs \<and> uri_path (pUri (Rs ! j)) = uri_path L"
        "\<forall>i < j. \<not> (i < length Rs \<and> uri_path (pUri (Rs ! i)) = uri_path L)"
        using exists_least_iff [of "\<lambda>j. j < length Rs \<and> uri_path (pUri (Rs ! j)) = uri_path L"] by blast
      then have "find_resource Rs L 0 = Some j" using find_resource_iff [OF wf assms(2), of j] by auto
      with none show False by simp
    qed
  next
    assume "\<forall>R \<in> set Rs. uri_path (pUri R) \<noteq> uri_path L"
    then show "find_resource Rs L 0 = None"
      using find_resource_iff [OF wf assms(2)] by (metis not_None_eq nth_mem)
  qed
  then show ?thesis
    unfolding CoAP_FindResourceByUri_def using find_resource_iff [OF wf assms(2)] by blast
qed

theorem resource_lookup_witness:
  "(CoAP_FindResourceByUri [demo_res [97], demo_res [98]] [demo_opt 11 [98]] = Some 1 \<longleftrightarrow>
      1 < length [demo_res [97], demo_res [98]] \<and> uri_path (pUri ([demo_res [97], demo_res [98]] ! 1)) = uri_path [demo_opt 11 [98]] \<and>
      (\<forall>j < 1. uri_path (pUri ([demo_res [97], demo_res [98]] ! j)) \<noteq> uri_path [demo_opt 11 [98]])) \<and>
    (CoAP_FindResourceByUri [demo_res [97], demo_res [98]] [demo_opt 11 [98]] = None \<longleftrightarrow>
      (\<forall>R \<in> set [demo_res [97], demo_res [98]]. uri_path (pUri R) \<noteq> uri_path [demo_opt 11 [98]]))"
  by (rule resource_lookup) (simp_all add: opt_wf_def demo_opt_def demo_res_def)

text \<open>C28. Removing an observer. If the list has an observer with this token, interface and endpoint, the
  first such one, and no other, is taken out and its struct and its options go back to the heap,
  the result is \<open>COAP_REMOVED\<close>; otherwise nothing changes and the result is
  \<open>COAP_ERR_NOT_FOUND\<close>.\<close>

theorem observer_removal:
  assumes "bget_rep m h'" "heap_ext h (obs_ptrs L) h'"
  shows "\<exists>r L' m' h''. CoAP_RemoveObserverFromResource bget_ops m L i ep tok = (r, L', m') \<and> bget_rep m' h'' \<and>
    heap_ext h (obs_ptrs L') h'' \<and>
    (if \<exists>ob \<in> set L. Token ob = tok \<and> IfID ob = i \<and> EpAreEqual (Some ep) (Some (Ep ob))
     then r = COAP_REMOVED \<and> (\<exists>us ob vs. L = us @ ob # vs \<and> L' = us @ vs \<and>
        Token ob = tok \<and> IfID ob = i \<and> EpAreEqual (Some ep) (Some (Ep ob)) \<and>
        (\<forall>u \<in> set us. \<not> (Token u = tok \<and> IfID u = i \<and> EpAreEqual (Some ep) (Some (Ep u)))))
     else r = COAP_ERR_NOT_FOUND \<and> L' = L \<and> m' = m)"
proof (rule bget.remove_observer [OF assms, of i ep tok])
  fix us ob vs m' h''
  assume *: "CoAP_RemoveObserverFromResource bget_ops m L i ep tok = (COAP_REMOVED, us @ vs, m')"
    "L = us @ ob # vs" "tok = Token ob" "i = IfID ob" "ep_eq ep (Ep ob)"
    "\<forall>u \<in> set us. \<not> (tok = Token u \<and> i = IfID u \<and> ep_eq ep (Ep u))"
    "bget_rep m' h''" "heap_ext h (obs_ptrs (us @ vs)) h''"
  have "\<exists>ob \<in> set L. Token ob = tok \<and> IfID ob = i \<and> EpAreEqual (Some ep) (Some (Ep ob))"
    using *(2-5) by (intro bexI [of _ ob]) (simp_all)
  moreover have "L = us @ ob # vs \<and> us @ vs = us @ vs \<and> Token ob = tok \<and> IfID ob = i \<and> EpAreEqual (Some ep) (Some (Ep ob)) \<and>
      (\<forall>u \<in> set us. \<not> (Token u = tok \<and> IfID u = i \<and> EpAreEqual (Some ep) (Some (Ep u))))"
    using *(2-6) by auto
  ultimately show ?thesis using *(1,7,8) by (auto simp del: obs_ptrs_simps)
next
  assume none: "CoAP_RemoveObserverFromResource bget_ops m L i ep tok = (COAP_ERR_NOT_FOUND, L, m)" "find_observer L i ep tok = None"
  have "\<not> (\<exists>ob \<in> set L. Token ob = tok \<and> IfID ob = i \<and> EpAreEqual (Some ep) (Some (Ep ob)))"
    using none(2) by (induction L) (auto split: if_splits)
  with none(1) assms show ?thesis by auto
qed

definition demo_observer :: "ptr \<Rightarrow> CoAP_Observer_t" where
  "demo_observer p = \<lparr>ob_at = p, Ep = demo_ep, IfID = 2, FailCount = 0, Token = 5, pOptList = []\<rparr>"

theorem observer_removal_witness:
  "\<exists>m h' p. bget_rep m h' \<and> heap_ext Map.empty (obs_ptrs [demo_observer p]) h' \<and>
   (\<exists>r L' m' h''. CoAP_RemoveObserverFromResource bget_ops m [demo_observer p] 2 demo_ep 5 = (r, L', m') \<and> bget_rep m' h'' \<and>
    heap_ext Map.empty (obs_ptrs L') h'' \<and>
    (if \<exists>ob \<in> set [demo_observer p]. Token ob = 5 \<and> IfID ob = 2 \<and> EpAreEqual (Some demo_ep) (Some (Ep ob))
     then r = COAP_REMOVED \<and> (\<exists>us ob vs. [demo_observer p] = us @ ob # vs \<and> L' = us @ vs \<and>
        Token ob = 5 \<and> IfID ob = 2 \<and> EpAreEqual (Some demo_ep) (Some (Ep ob)) \<and>
        (\<forall>u \<in> set us. \<not> (Token u = 5 \<and> IfID u = 2 \<and> EpAreEqual (Some demo_ep) (Some (Ep u)))))
     else r = COAP_ERR_NOT_FOUND \<and> L' = [demo_observer p] \<and> m' = m))"
proof -
  obtain p k m where g: "bget_rep m [p \<mapsto> k]" by (rule demo_get [of 48]) auto
  have ext: "heap_ext Map.empty (obs_ptrs [demo_observer p]) [p \<mapsto> k]"
    using heap_ext_alloc [of Map.empty "[]" Map.empty p k] by (simp add: ob_ptrs_def demo_observer_def)
  from g ext observer_removal [OF g ext, of 2 demo_ep 5] show ?thesis
    by (intro exI [of _ m] exI [of _ "[p \<mapsto> k]"] exI [of _ p] conjI)
qed

end
