(* ===== verification/Observe_Properties.thy ===== *)
theory Observe_Properties
  imports Stack_Properties Resource_Properties "HOL-Library.Sublist"
begin

text \<open>
  Observation of resources (RFC 7641): the registration of an observer by a request, and the notifications
  that are started when a resource has changed. The library part follows the loop over the observers and
  shows with the interface \<open>allocator_room\<close> that no observer is left out while there is memory.
\<close>

section \<open>Registration\<close>

text \<open>An observation is named by the interface, the endpoint and the token of the request that started it. A
  repeated request replaces the first observer of that name (\<open>drop_first\<close>) by a new one at the end.\<close>

definition same_observation :: "u8 \<Rightarrow> NetEp_t \<Rightarrow> u64 \<Rightarrow> CoAP_Observer_t \<Rightarrow> bool" where
  "same_observation i ep tok ob \<longleftrightarrow> tok = Token ob \<and> i = IfID ob \<and> EpAreEqual (Some ep) (Some (Ep ob))"

definition drop_first :: "('a \<Rightarrow> bool) \<Rightarrow> 'a list \<Rightarrow> 'a list" where
  "drop_first P L = takeWhile (\<lambda>x. \<not> P x) L @ tl (dropWhile (\<lambda>x. \<not> P x) L)"

lemma drop_first_simps [simp]:
  "drop_first P [] = []" "drop_first P (x # L) = (if P x then L else x # drop_first P L)"
  by (simp_all add: drop_first_def)

lemma drop_first_none: "\<forall>x \<in> set L. \<not> P x \<Longrightarrow> drop_first P L = L"
  by (induction L) auto

lemma drop_first_append: "\<forall>x \<in> set us. \<not> P x \<Longrightarrow> drop_first P (us @ L) = us @ drop_first P L"
  by (induction us) auto

text \<open>The options of the request that an observer keeps.\<close>

abbreviation observe_options :: "CoAP_option_t list \<Rightarrow> CoAP_option_t list" where
  "observe_options \<equiv> filter (\<lambda>p. Number p = OPT_NUM_URI_QUERY \<or> Number p = OPT_NUM_OBSERVE)"

lemma copy_obs_options_views:
  assumes "copy_obs_options A m L os = (True, L', m')" "opts_wf os"
    and "\<forall>x \<in> set L. \<forall>p \<in> set os. Number x \<le> Number p"
  shows "map opt_view L' = map opt_view L @ map opt_view (observe_options os)"
  using assms
proof (induction os arbitrary: m L)
  case (Cons p os)
  have wf: "opts_wf os" "opt_wf p" "\<forall>q \<in> set os. Number p \<le> Number q" using Cons.prems(2) by (auto simp: opts_wf_def)
  show ?case
  proof (cases "Number p = OPT_NUM_URI_QUERY \<or> Number p = OPT_NUM_OBSERVE")
    case True
    obtain a m1 where g: "coap_mem_get A m (s16 (sizeof_CoAP_option_t + uint (Length p))) = (a, m1)" by fastforce
    let ?x = "fill_option a (Number p) (Value p) (Length p)"
    have x: "opt_view ?x = opt_view p" using wf(2) by (simp add: opt_view_def opt_wf_def)
    have ins: "insert_option ?x L = L @ [?x]" using Cons.prems(3) by (intro insert_option_last) (simp add: list_all_iff)
    have "copy_obs_options A m1 (L @ [?x]) os = (True, L', m')"
      using Cons.prems(1) True by (auto simp: append_cases g ins split: if_splits)
    then have "map opt_view L' = map opt_view (L @ [?x]) @ map opt_view (observe_options os)"
      using wf Cons.prems(3) by (intro Cons.IH) auto
    then show ?thesis using True x by auto
  next
    case False
    then show ?thesis using Cons wf by auto
  qed
qed simp

lemma find_observer_none: "find_observer L i ep tok = None \<Longrightarrow> \<forall>ob \<in> set L. \<not> same_observation i ep tok ob"
  by (induction L) (auto simp: same_observation_def split: if_splits)

lemma unlink_found:
  assumes "find_observer L i ep tok = Some old" "distinct (map ob_at L)"
  shows "fst (snd (CoAP_UnlinkObserverFromList A m L (ob_at old) True)) = drop_first (same_observation i ep tok) L"
  using assms(1)
proof (rule find_observer_split)
  fix us vs
  assume L: "L = us @ old # vs" "tok = Token old" "i = IfID old" "ep_eq ep (Ep old)"
    and us: "\<forall>u \<in> set us. \<not> (tok = Token u \<and> i = IfID u \<and> ep_eq ep (Ep u))"
  have "\<forall>u \<in> set us. \<not> same_observation i ep tok u" "same_observation i ep tok old"
    using us L(2-4) by (auto simp: same_observation_def)
  moreover have "ob_at old \<notin> ob_at ` set us" using assms(2) L(1) by auto
  ultimately show ?thesis by (simp add: L(1) unlink_observer_split drop_first_append)
qed

lemma register_observer_outcome:
  assumes "register_observer E s k R x req = (r, s')" "opts_wf (pOptionsList req)" "R = pResList s ! k"
    and "distinct (map ob_at (pListObservers R))"
  obtains m where "r = COAP_ERR_OUT_OF_MEMORY" "s' = s\<lparr>mem := m\<rparr>"
  | ob m where "r = COAP_OK" "Ep ob = RemoteEp x" "IfID ob = ia_ifID x" "Token ob = Token64 req" "FailCount ob = 0"
      "map opt_view (pOptList ob) = map opt_view (observe_options (pOptionsList req))"
      "s' = put_observers (s\<lparr>mem := m\<rparr>) k (drop_first (same_observation (ia_ifID x) (RemoteEp x) (Token64 req)) (pListObservers R) @ [ob])"
proof -
  obtain o1 m1 where al: "CoAP_AllocNewObserver (ops E) (mem s) = (o1, m1)" by fastforce
  show thesis
  proof (cases o1)
    case None
    then show thesis using assms(1) al that(1) [of m1] by (auto simp: register_observer_def)
  next
    case (Some ob)
    have ob: "pOptList ob = []" "FailCount ob = 0" using al Some by (auto simp: CoAP_AllocNewObserver_def split: prod.splits if_splits)
    obtain ok L m2 where c: "copy_obs_options (ops E) m1 [] (pOptionsList req) = (ok, L, m2)" by (metis prod_cases3)
    let ?ob = "ob\<lparr>Ep := RemoteEp x, IfID := ia_ifID x, Token := Token64 req, pOptList := L\<rparr>"
    show thesis
    proof (cases ok)
      case False
      then show thesis using assms(1) al Some c ob that(1) by (auto simp: register_observer_def)
    next
      case True
      have v: "map opt_view L = map opt_view (observe_options (pOptionsList req))"
        using copy_obs_options_views [OF _ assms(2), of "ops E" m1 "[]" L m2] c True by simp
      let ?f = "find_observer (pListObservers R) (ia_ifID x) (RemoteEp x) (Token64 req)"
      let ?un = "\<lambda>old. CoAP_UnlinkObserverFromList (ops E) m2 (pListObservers R) (ob_at old) True"
      obtain obs m3 where o: "case ?f of None \<Rightarrow> obs = pListObservers R | Some old \<Rightarrow> obs = fst (snd (?un old))"
        and s': "s' = put_observers (s\<lparr>mem := m3\<rparr>) k (obs @ [?ob])" and r: "r = COAP_OK"
        using assms(1) al Some c ob True
        by (auto simp: register_observer_def CoAP_AppendObserverToList_def Let_def split: option.splits prod.splits)
      have "obs = drop_first (same_observation (ia_ifID x) (RemoteEp x) (Token64 req)) (pListObservers R)"
        using o unlink_found [OF _ assms(4)] drop_first_none [OF find_observer_none] by (auto split: option.splits)
      then show thesis using that(2) [of ?ob m3] v ob(2) s' r by simp
    qed
  qed
qed


text \<open>C17. Registration of an observer. A request with Observe option 0 to an observable resource is always
  processed: either memory is exhausted and nothing but the allocator changes, or the resource has one more
  observer at the end of its list, with the endpoint, the interface and the token of the request and exactly
  its Uri-Query and Observe options in order, and the first observer of the same name is gone. No other
  observer, no other resource and no interaction changes.\<close>

theorem observer_registered:
  assumes "pRes x = Some k" "k < length (pResList s)" "Notifier (pResList s ! k) \<noteq> None"
    and "pReqMsg x = Some req" "GetObserveOptionFromMsg req = (COAP_OK, OBSERVE_OPT_REGISTER)" "opts_wf (pOptionsList req)"
    and "distinct (map ob_at (pListObservers (pResList s ! k)))"
  shows "\<exists>r s'. CoAP_HandleObservationInReq E s x = Some (r, s') \<and>
    (r = COAP_ERR_OUT_OF_MEMORY \<and> (\<exists>m. s' = s\<lparr>mem := m\<rparr>) \<or>
     r = COAP_OK \<and> (\<exists>ob m. Ep ob = RemoteEp x \<and> IfID ob = ia_ifID x \<and> Token ob = Token64 req \<and> FailCount ob = 0 \<and>
       map opt_view (pOptList ob) = map opt_view (observe_options (pOptionsList req)) \<and>
       s' = put_observers (s\<lparr>mem := m\<rparr>) k
         (drop_first (same_observation (ia_ifID x) (RemoteEp x) (Token64 req)) (pListObservers (pResList s ! k)) @ [ob])))"
proof -
  obtain r s' where reg: "register_observer E s k (pResList s ! k) x req = (r, s')" by fastforce
  then have "CoAP_HandleObservationInReq E s x = Some (r, s')"
    using assms(1-5) by (auto simp: CoAP_HandleObservationInReq_def get_res_def)
  with reg assms(6) refl assms(7) show ?thesis by (cases rule: register_observer_outcome) blast+
qed

definition demo_observed :: CoAP_Res_t where
  "demo_observed = (demo_res [97])\<lparr>Notifier := Some 0,
     pListObservers := [demo_observer 64, (demo_observer 128)\<lparr>Token := 7, IfID := 3\<rparr>]\<rparr>"

definition demo_observe_req :: CoAP_Message_t where
  "demo_observe_req = demo_msg\<lparr>Token64 := 5, pOptionsList := [demo_opt 6 [], demo_opt 11 [97], demo_opt 15 [98, 61, 49]]\<rparr>"

definition demo_observing :: "ptr stack" where
  "demo_observing = (stack0 4096 demo_sockets)\<lparr>pResList := [demo_observed]\<rparr>"

theorem observer_registered_witness:
  "\<exists>r s'. CoAP_HandleObservationInReq demo_env demo_observing (demo_ia\<lparr>pRes := Some 0, pReqMsg := Some demo_observe_req, ia_ifID := 2\<rparr>) = Some (r, s') \<and>
    r = COAP_OK \<and> map Token (pListObservers (pResList s' ! 0)) = [7, 5]"
proof -
  let ?x = "demo_ia\<lparr>pRes := Some 0, pReqMsg := Some demo_observe_req, ia_ifID := 2\<rparr>"
  have "RemoteEp demo_ia = demo_ep" by (simp add: demo_ia_def)
  have "\<exists>r s'. CoAP_HandleObservationInReq demo_env demo_observing ?x = Some (r, s') \<and>
    (r = COAP_ERR_OUT_OF_MEMORY \<and> (\<exists>m. s' = demo_observing\<lparr>mem := m\<rparr>) \<or>
     r = COAP_OK \<and> (\<exists>ob m. Ep ob = RemoteEp ?x \<and> IfID ob = ia_ifID ?x \<and> Token ob = Token64 demo_observe_req \<and> FailCount ob = 0 \<and>
       map opt_view (pOptList ob) = map opt_view (observe_options (pOptionsList demo_observe_req)) \<and>
       s' = put_observers (demo_observing\<lparr>mem := m\<rparr>) 0
         (drop_first (same_observation (ia_ifID ?x) (RemoteEp ?x) (Token64 demo_observe_req)) (pListObservers (pResList demo_observing ! 0)) @ [ob])))"
    by (rule observer_registered)
      (simp_all add: demo_observing_def demo_observed_def demo_observe_req_def stack0_def demo_observer_def GetObserveOptionFromMsg_def
        demo_opt_def opts_wf_def opt_wf_def demo_res_def)
  moreover have "fst (the (CoAP_HandleObservationInReq demo_env demo_observing ?x)) = COAP_OK" by code_simp
  moreover have "map Token (drop_first (same_observation 2 (RemoteEp ?x) 5) (pListObservers demo_observed)) = [7]" by code_simp
  ultimately show ?thesis
    by (auto simp: demo_observing_def put_observers_def demo_observe_req_def stack0_def)
qed

section \<open>Notification\<close>

text \<open>What the notification of a resource may do to the list of interactions: pending notifications of the
  resource are marked, and new ones, made for some of the observers in their order, are put at the end.\<close>

definition to_observer :: "nat \<Rightarrow> CoAP_Observer_t \<Rightarrow> CoAP_Interaction_t \<Rightarrow> bool" where
  "to_observer k ob x \<longleftrightarrow> Role x = COAP_ROLE_NOTIFICATION \<and> pRes x = Some k \<and> ia_ifID x = IfID ob \<and>
     EpAreEqual (Some (RemoteEp x)) (Some (Ep ob))"

definition fresh_notification :: "nat \<Rightarrow> CoAP_Observer_t \<Rightarrow> CoAP_Interaction_t \<Rightarrow> bool" where
  "fresh_notification k ob x \<longleftrightarrow> Role x = COAP_ROLE_NOTIFICATION \<and> State x = COAP_STATE_READY_TO_NOTIFY \<and> pRes x = Some k \<and>
     RemoteEp x = Ep ob \<and> ia_ifID x = IfID ob \<and> pObserver x = ob_at ob \<and> RetransCounter x = 0 \<and> pReqMsg x = None \<and> pRespMsg x \<noteq> None"

definition marked :: "nat \<Rightarrow> CoAP_Interaction_t \<Rightarrow> CoAP_Interaction_t \<Rightarrow> bool" where
  "marked k x y \<longleftrightarrow> y = x \<or> Role x = COAP_ROLE_NOTIFICATION \<and> pRes x = Some k \<and> y = x\<lparr>UpdatePendingNotification := True\<rparr>"

definition notified :: "nat \<Rightarrow> CoAP_Observer_t list \<Rightarrow> CoAP_Interaction_t list \<Rightarrow> CoAP_Interaction_t list \<Rightarrow> bool" where
  "notified k obs L L' \<longleftrightarrow> (\<exists>old new obs'. L' = old @ new \<and> list_all2 (marked k) L old \<and> subseq obs' obs \<and>
     list_all2 (fresh_notification k) obs' new)"

text \<open>Congestion control: no two notifications of the resource to one endpoint.\<close>

definition one_each :: "nat \<Rightarrow> CoAP_Interaction_t list \<Rightarrow> bool" where
  "one_each k L \<longleftrightarrow> sorted_wrt (\<lambda>x y. \<not> (Role x = COAP_ROLE_NOTIFICATION \<and> Role y = COAP_ROLE_NOTIFICATION \<and>
     pRes x = Some k \<and> pRes y = Some k \<and> ia_ifID x = ia_ifID y \<and> EpAreEqual (Some (RemoteEp x)) (Some (RemoteEp y)))) L"

lemma marked_refl [simp]: "marked k x x"
  by (simp add: marked_def)

lemma marked_trans: "marked k x y \<Longrightarrow> marked k y z \<Longrightarrow> marked k x z"
  by (auto simp: marked_def)

lemma list_marked_refl [simp]: "list_all2 (marked k) L L"
  by (simp add: list.rel_refl)

lemma list_marked_trans: "list_all2 (marked k) L M \<Longrightarrow> list_all2 (marked k) M N \<Longrightarrow> list_all2 (marked k) L N"
  using marked_trans by (rule list_all2_trans)

lemma fresh_marked: "fresh_notification k ob x \<Longrightarrow> marked k x y \<Longrightarrow> fresh_notification k ob y"
  by (auto simp: fresh_notification_def marked_def)

lemma mark_pending_marked: "mark_pending k ob L = (b, L') \<Longrightarrow> list_all2 (marked k) L L'"
  by (induction k ob L arbitrary: b L' rule: mark_pending.induct) (auto simp: marked_def split: if_splits prod.splits)

lemma notified_refl: "notified k obs L L"
  unfolding notified_def by (intro exI [of _ L] exI [of _ "[]"]) simp

lemma notified_mark: "list_all2 (marked k) L M \<Longrightarrow> notified k obs M L' \<Longrightarrow> notified k (ob # obs) L L'"
  unfolding notified_def by (blast intro: list_marked_trans list_emb_Cons)

lemma notified_skip: "subseq rest' rest \<Longrightarrow> notified k rest' L L' \<Longrightarrow> notified k (ob # rest) L L'"
  unfolding notified_def by (blast intro: list_emb_Cons subseq_order.trans)

lemma notified_new:
  assumes "fresh_notification k ob x" "subseq rest' rest" "notified k rest' (L @ [x]) L'"
  shows "notified k (ob # rest) L L'"
proof -
  obtain old new obs' where L': "L' = old @ new" and old: "list_all2 (marked k) (L @ [x]) old"
    and obs': "subseq obs' rest'" "list_all2 (fresh_notification k) obs' new"
    using assms(3) by (auto simp: notified_def)
  from old obtain old1 y where o: "old = old1 @ [y]" "list_all2 (marked k) L old1" "marked k x y"
    by (auto simp: list_all2_append1 list_all2_Cons1)
  have "subseq (ob # obs') (ob # rest)" using subseq_order.trans [OF obs'(1) assms(2)] by simp
  moreover have "list_all2 (fresh_notification k) (ob # obs') (y # new)" using fresh_marked [OF assms(1) o(3)] obs'(2) by simp
  ultimately show ?thesis unfolding notified_def L' o(1) using o(2) by (intro exI [of _ old1] exI [of _ "y # new"] exI [of _ "ob # obs'"]) simp
qed

lemma next_observers_subseq: "next_observers s k rest = Some rest' \<Longrightarrow> subseq rest' rest"
  by (auto simp: next_observers_def Let_def subseq_filter_left split: if_splits)

lemma one_each_marked: "list_all2 (marked k) L M \<Longrightarrow> one_each k M \<longleftrightarrow> one_each k L"
  unfolding one_each_def
proof (induction L M rule: list_all2_induct)
  case (Cons x L y M)
  have s: "Role y = Role x" "pRes y = pRes x" "ia_ifID y = ia_ifID x" "RemoteEp y = RemoteEp x" if "marked k x y" for x y
    using that by (auto simp: marked_def)
  have "list_all P M \<longleftrightarrow> list_all P L" if "\<And>x y. marked k x y \<Longrightarrow> P y \<longleftrightarrow> P x" for P
    using Cons.hyps(2) that by (induction L M rule: list_all2_induct) auto
  then show ?case using Cons s unfolding sorted_wrt.simps list_all_iff [symmetric] by (simp add: s)
qed simp

lemma one_each_new:
  assumes "mark_pending k ob L = (False, L')" "fresh_notification k ob x"
  shows "one_each k (L @ [x]) \<longleftrightarrow> one_each k L"
proof -
  have "\<forall>y \<in> set L. \<not> to_observer k ob y"
    using assms(1) by (induction k ob L arbitrary: L' rule: mark_pending.induct) (auto simp: to_observer_def split: if_splits prod.splits)
  then show ?thesis using assms(2) by (auto simp: one_each_def sorted_wrt_append to_observer_def fresh_notification_def)
qed

text \<open>One turn of the loop adds at most one interaction.\<close>

lemma notify_observer_turn:
  assumes "notify_observer E s k R ob = Some (r, s')"
  obtains "pInteractions s' = pInteractions s"
  | x where "pInteractions s' = pInteractions s @ [x]" "fresh_notification k ob x"
proof -
  obtain x s1 where alloc: "CoAP_AllocNewInteraction E s = (x, s1)" by fastforce
  obtain mid s2 where mid: "next_mid s1 = (mid, s2)" by fastforce
  have s2: "same_ia s s2" using same_ia_alloc [OF alloc] same_ia_mid [OF mid] by (rule same_ia_trans)
  have s3: "same_ia s (s2\<lparr>mem := m\<rparr>)" for m using s2 same_ia_mem(1) by (rule same_ia_trans)
  show thesis
  proof (cases x)
    case None
    then show thesis using assms alloc same_ia_alloc [OF alloc] that(1) by (simp add: notify_observer_def dest_same_ia)
  next
    case (Some y)
    from assms alloc [unfolded Some] mid show thesis
    proof (cases rule: notify_observer_outcome)
      case (1 m z)
      then show thesis using that(1) dest_same_ia(2) [OF same_ia_trans [OF s3 same_ia_FreeInteraction]] by blast
    next
      case (2 m z tok)
      then show thesis using that(1) dest_same_ia(2) [OF same_ia_trans [OF s3 same_ia_RemoveObserver]] by blast
    next
      case (3 fn M m)
      have "fresh_notification k ob (new_notification y ob k M)"
        using alloc_fields [OF alloc [unfolded Some]] by (simp add: fresh_notification_def)
      then show thesis using that(2) 3(2) dest_same_ia(2) [OF s2] by simp
    qed
  qed
qed

lemma notify_loop_notified:
  assumes "notify_loop E s k obs = Some (r, s')"
  shows "notified k obs (pInteractions s) (pInteractions s') \<and> (one_each k (pInteractions s) \<longrightarrow> one_each k (pInteractions s'))"
  using assms
proof (induction E s k obs rule: notify_loop.induct)
  case (1 E s k)
  then show ?case by (simp add: notify_loop.simps notified_refl)
next
  case (2 E s k ob rest)
  obtain b L where mp: "mark_pending k ob (pInteractions s) = (b, L)" by fastforce
  note step = "2.prems"(1) [unfolded notify_loop.simps mp prod.case] and m = mark_pending_marked [OF mp]
  show ?case
  proof (cases b)
    case True
    then show ?thesis using "2.IH"(1) [OF mp [symmetric]] step notified_mark [OF m] one_each_marked [OF m] by auto
  next
    case False
    obtain r1 s1 where one: "notify_observer E s k (pResList s ! k) ob = Some (r1, s1)"
      using step False by (auto split: option.splits)
    have *: "notified k (ob # rest) (pInteractions s) (pInteractions s') \<and> (one_each k (pInteractions s) \<longrightarrow> one_each k (pInteractions s'))"
      if "subseq rest' rest" and n: "notified k rest' (pInteractions s1) (pInteractions s')"
        "one_each k (pInteractions s1) \<longrightarrow> one_each k (pInteractions s')" for rest'
      using one
    proof (cases rule: notify_observer_turn)
      case 1
      then show ?thesis using that notified_skip by simp
    next
      case (2 x)
      then show ?thesis using that notified_new [OF 2(2)] one_each_new [OF _ 2(2), of "pInteractions s"] mp False by simp
    qed
    show ?thesis
    proof (cases "r1 = COAP_ERR_OUT_OF_MEMORY")
      case True
      then have "s' = s1" using step False one by simp
      then show ?thesis using * [of "[]"] notified_refl by simp
    next
      case go: False
      then obtain rest' where nx: "next_observers s1 k rest = Some rest'"
        using step False one by (auto split: option.splits)
      then show ?thesis
        using * [OF next_observers_subseq [OF nx]] "2.IH"(2) [OF mp [symmetric] _ one refl go nx] step False one go nx by simp
    qed
  qed
qed


section \<open>Every observer is told\<close>

definition told :: "nat \<Rightarrow> CoAP_Observer_t \<Rightarrow> CoAP_Interaction_t \<Rightarrow> bool" where
  "told k ob x \<longleftrightarrow> to_observer k ob x \<and> (UpdatePendingNotification x \<or> State x = COAP_STATE_READY_TO_NOTIFY)"

lemma mark_pending_told: "mark_pending k ob L = (True, L') \<Longrightarrow> \<exists>x \<in> set L'. told k ob x"
  by (induction k ob L arbitrary: L' rule: mark_pending.induct) (auto simp: told_def to_observer_def split: if_splits prod.splits)

lemma notified_told:
  assumes "notified k obs L L'" "\<exists>x \<in> set L. told k ob x"
  shows "\<exists>y \<in> set L'. told k ob y"
proof -
  obtain old new where L': "L' = old @ new" and old: "list_all2 (marked k) L old" using assms(1) by (auto simp: notified_def)
  obtain x where "x \<in> set L" "told k ob x" using assms(2) by blast
  then obtain y where "y \<in> set old" "marked k x y" using old by (metis list_all2_conv_all_nth in_set_conv_nth)
  moreover from this have "told k ob y" using \<open>told k ob x\<close> by (auto simp: told_def to_observer_def marked_def)
  ultimately show ?thesis by (auto simp: L')
qed

text \<open>The observers for which a notification is started: those, in order, for whose interface and endpoint there is
  neither a pending notification nor one for an earlier observer. The token does not count.\<close>

definition same_target :: "CoAP_Observer_t \<Rightarrow> CoAP_Observer_t \<Rightarrow> bool" where
  "same_target ob ob' \<longleftrightarrow> IfID ob' = IfID ob \<and> EpAreEqual (Some (Ep ob)) (Some (Ep ob'))"

fun due :: "nat \<Rightarrow> CoAP_Interaction_t list \<Rightarrow> CoAP_Observer_t list \<Rightarrow> CoAP_Observer_t list" where
  "due k L [] = []"
| "due k L (ob # obs) =
     (if list_ex (to_observer k ob) L then due k L obs
      else ob # due k L (filter (\<lambda>ob'. \<not> same_target ob ob') obs))"

lemma due_filter:
  assumes "\<And>ob. to_observer k ob x \<longleftrightarrow> P ob"
  shows "due k (L @ [x]) obs = due k L (filter (\<lambda>ob. \<not> P ob) obs)"
proof (induction "length obs" arbitrary: obs rule: less_induct)
  case less
  show ?case
  proof (cases obs)
    case (Cons ob rest)
    have "due k (L @ [x]) (filter Q rest) = due k L (filter (\<lambda>ob. \<not> P ob) (filter Q rest))" for Q
      by (rule less) (use Cons in \<open>simp add: less_Suc_eq_le\<close>)
    moreover have "due k (L @ [x]) rest = due k L (filter (\<lambda>ob. \<not> P ob) rest)" by (rule less) (simp add: Cons)
    ultimately show ?thesis by (simp add: Cons assms conj_commute)
  qed simp
qed

lemma due_marked: "list_all2 (marked k) L M \<Longrightarrow> due k M obs = due k L obs"
proof -
  assume m: "list_all2 (marked k) L M"
  have "list_ex (to_observer k ob) M = list_ex (to_observer k ob) L" for ob
    using m by (induction L M rule: list_all2_induct) (auto simp: marked_def to_observer_def)
  then show ?thesis by (induction k L obs rule: due.induct) simp_all
qed

lemma mark_pending_ex: "fst (mark_pending k ob L) = list_ex (to_observer k ob) L"
  by (induction k ob L rule: mark_pending.induct) (auto simp: to_observer_def split: prod.splits)

text \<open>A notification of its own: for this observer, with the token of the observation.\<close>

definition own_notification :: "nat \<Rightarrow> CoAP_Observer_t \<Rightarrow> CoAP_Interaction_t \<Rightarrow> bool" where
  "own_notification k ob x \<longleftrightarrow> fresh_notification k ob x \<and> (\<exists>M. pRespMsg x = Some M \<and> Token64 M = Token ob)"

lemma own_marked: "own_notification k ob x \<Longrightarrow> marked k x y \<Longrightarrow> own_notification k ob y"
  using fresh_marked by (auto simp: own_notification_def marked_def)

text \<open>A notifier that accepts, keeps the code below 4.00 and the token, and needs at most 245 bytes of a free buffer.\<close>

definition willing :: "(int \<Rightarrow> 'm \<Rightarrow> bool) \<Rightarrow> 'm env \<Rightarrow> nat \<Rightarrow> bool" where
  "willing room E fn \<longleftrightarrow> (\<forall>b m ob M. 0 \<le> b \<and> room (245 + b) m \<and> Code M = RESP_SUCCESS_CONTENT_2_05 \<longrightarrow>
     (\<exists>M' m'. user_notifier E fn m ob M = Some (HANDLER_OK, M', m') \<and> Code M' < RESP_ERROR_BAD_REQUEST_4_00 \<and>
        Token64 M' = Token64 M \<and> room b m'))"

context allocator_room
begin

lemma room_AllocInteraction:
  assumes "ops E = A" "room (116 + b) (mem s)" "0 \<le> b"
  obtains x m where "CoAP_AllocNewInteraction E s = (Some x, s\<lparr>mem := m\<rparr>)" "room b m"
proof -
  obtain p m where g: "coap_mem_get0 A (mem s) sizeof_CoAP_Interaction_t = (p, m)" by fastforce
  then have "p \<noteq> NULL \<and> room b m"
    by (intro room_get0 [OF _ _ _ assms(3) g]) (use assms(2) in \<open>simp_all add: sizeof_CoAP_Interaction_t_def ROOM_COST_def MAX_REQ_def\<close>)
  then show thesis using that assms(1) g by (simp add: CoAP_AllocNewInteraction_def)
qed

lemma room_CreateMessage:
  assumes "room (120 + b) m" "0 \<le> b"
  obtains M m' where "CoAP_CreateMessage A m ty code mid None 0 PREFERED_PAYLOAD_SIZE tok = (Some M, m')" "room b m'"
    "Code M = code" "Token64 M = tok"
proof -
  obtain p m' where g: "coap_mem_get0 A m 104 = (p, m')" by fastforce
  then have "p \<noteq> NULL \<and> room b m'"
    by (intro room_get0 [OF _ _ _ assms(2) g]) (use assms(1) in \<open>simp_all add: ROOM_COST_def MAX_REQ_def\<close>)
  moreover have "s16 104 = 104" by (rule s16_id) simp_all
  ultimately show thesis using that g by (simp add: CoAP_CreateMessage_def sizeof_CoAP_Message_t_def Let_def)
qed

lemma room_append_to_msg:
  assumes "room (31 + b) m" "0 \<le> b" "uint len \<le> 3" "append_to_msg A m msg num buf len = (r, msg', m')"
  shows "room b m'"
proof -
  have "room (28 + uint len + b) m" by (rule room_less [OF assms(1)]) (use assms(3) in simp)
  then obtain p m1 where "CoAP_AppendOptionToList A m (pOptionsList msg) num buf len =
      (COAP_OK, insert_option (fill_option p num buf len) (pOptionsList msg), m1)" "room b m1"
    by (rule room_append) (use assms(2,3) in \<open>simp_all add: sizeof_CoAP_option_t_def MAX_REQ_def\<close>)
  then show ?thesis using assms(4) by (simp add: append_to_msg_def)
qed

lemma room_AddObserve:
  "room (31 + b) m \<Longrightarrow> 0 \<le> b \<Longrightarrow> AddObserveOptionToMsg A m msg val = (r, msg', m') \<Longrightarrow> room b m'"
  by (auto simp: AddObserveOptionToMsg_def dest: room_append_to_msg [rotated 3] split: if_splits)

lemma notify_observer_roomy:
  assumes "ops E = A" "Notifier R = Some fn" "willing room E fn" "room (512 + b) (mem s)" "0 \<le> b"
  obtains x s' where "notify_observer E s k R ob = Some (COAP_OK, s')" "pInteractions s' = pInteractions s @ [x]"
    "pResList s' = pResList s" "room b (mem s')" "own_notification k ob x"
proof -
  have "room (116 + (396 + b)) (mem s)" using assms(4) by simp
  then obtain y m1 where al: "CoAP_AllocNewInteraction E s = (Some y, s\<lparr>mem := m1\<rparr>)" "room (396 + b) m1"
    by (rule room_AllocInteraction [OF assms(1)]) (use assms(5) in simp_all)
  obtain mid s2 where mid: "next_mid (s\<lparr>mem := m1\<rparr>) = (mid, s2)" by fastforce
  have s2: "mem s2 = m1" "pResList s2 = pResList s" "pInteractions s2 = pInteractions s"
    using mid by (auto simp: next_mid_def split: prod.splits)
  have "room (120 + (276 + b)) m1" using al(2) by simp
  then obtain M m2 where cr: "CoAP_CreateMessage A m1 CON RESP_SUCCESS_CONTENT_2_05 mid None 0 PREFERED_PAYLOAD_SIZE (Token ob) = (Some M, m2)"
    "room (276 + b) m2" "Code M = RESP_SUCCESS_CONTENT_2_05" "Token64 M = Token ob"
    by (rule room_CreateMessage) (use assms(5) in simp_all)
  have "0 \<le> 31 + b" "room (245 + (31 + b)) m2" using cr(2) assms(5) by simp_all
  then obtain M' m3 where nt: "user_notifier E fn m2 ob M = Some (HANDLER_OK, M', m3)" "Code M' < RESP_ERROR_BAD_REQUEST_4_00"
    "Token64 M' = Token64 M" "room (31 + b) m3"
    using assms(3) cr(3) unfolding willing_def by blast
  obtain r M2 m4 where ao: "AddObserveOptionToMsg A m3 M' (UpdateCnt R) = (r, M2, m4)" by (metis prod_cases3)
  have tok: "Token64 M2 = Token64 M'" using ao by (auto simp: AddObserveOptionToMsg_def append_to_msg_def split: if_splits prod.splits)
  define M3 where "M3 = (if Type M2 = NON \<and> UpdateCnt R mod 20 = 0 then M2\<lparr>Type := CON\<rparr> else M2)"
  define s' where "s' = s2\<lparr>mem := m4, pInteractions := pInteractions s2 @ [new_notification y ob k M3]\<rparr>"
  have n: "notify_observer E s k R ob = Some (COAP_OK, s')"
    using nt(2) [unfolded not_le [symmetric]] unfolding notify_observer_def al(1) mid prod.case Let_def assms(1,2) s2(1) cr(1) option.case s'_def
    by (simp add: nt(1) ao handler_code_def CoAP_AppendInteractionToList_def M3_def)
  have "fresh_notification k ob (new_notification y ob k M3)"
    using n by (cases rule: notify_observer_turn) (simp_all add: s'_def s2)
  then have "own_notification k ob (new_notification y ob k M3)" using tok nt(3) cr(4) by (simp add: own_notification_def M3_def)
  then show thesis using that n room_AddObserve [OF nt(4) assms(5) ao] s2 by (simp add: s'_def)
qed

lemma notify_loop_roomy:
  assumes "ops E = A" "Notifier (pResList s ! k) = Some fn" "willing room E fn" "room (512 * int (length obs)) (mem s)"
    and "set obs \<subseteq> set (pListObservers (pResList s ! k))"
  shows "\<exists>s' old new. notify_loop E s k obs = Some (COAP_OK, s') \<and> pResList s' = pResList s \<and>
    pInteractions s' = old @ new \<and> list_all2 (marked k) (pInteractions s) old \<and>
    list_all2 (own_notification k) (due k (pInteractions s) obs) new \<and>
    (\<forall>ob \<in> set obs. \<exists>x \<in> set (pInteractions s'). told k ob x)"
  using assms(2,4,5)
proof (induction obs arbitrary: s)
  case Nil
  then show ?case by (simp add: notify_loop.simps)
next
  case (Cons ob obs)
  obtain b L where mp: "mark_pending k ob (pInteractions s) = (b, L)" by fastforce
  have b: "b = list_ex (to_observer k ob) (pInteractions s)" using mark_pending_ex [of k ob "pInteractions s"] mp by simp
  have go: "\<exists>s' old new. notify_loop E s1 k obs = Some (COAP_OK, s') \<and> pResList s' = pResList s \<and> pInteractions s' = old @ new \<and>
      list_all2 (marked k) (pInteractions s1) old \<and> list_all2 (own_notification k) (due k (pInteractions s1) obs) new \<and>
      (\<forall>ob \<in> set (ob # obs). \<exists>x \<in> set (pInteractions s'). told k ob x)"
    if s1: "pResList s1 = pResList s" "room (512 * int (length obs)) (mem s1)" and t: "\<exists>x \<in> set (pInteractions s1). told k ob x" for s1
  proof -
    obtain s' old new where s': "notify_loop E s1 k obs = Some (COAP_OK, s')" "pResList s' = pResList s" "pInteractions s' = old @ new"
      "list_all2 (marked k) (pInteractions s1) old" "list_all2 (own_notification k) (due k (pInteractions s1) obs) new"
      "\<forall>ob \<in> set obs. \<exists>x \<in> set (pInteractions s'). told k ob x"
      using Cons.IH [of s1] Cons.prems s1 by auto
    moreover have "\<exists>x \<in> set (pInteractions s'). told k ob x" using notified_told [OF conjunct1 [OF notify_loop_notified [OF s'(1)]] t] .
    ultimately show ?thesis by (intro exI [of _ s'] exI [of _ old] exI [of _ new]) simp
  qed
  show ?case
  proof (cases b)
    case True
    note m = mark_pending_marked [OF mp]
    have "room (512 * int (length obs)) (mem s)" by (rule room_less [OF Cons.prems(2)]) simp
    then have "\<exists>s' old new. notify_loop E (s\<lparr>pInteractions := L\<rparr>) k obs = Some (COAP_OK, s') \<and> pResList s' = pResList s \<and>
      pInteractions s' = old @ new \<and> list_all2 (marked k) L old \<and> list_all2 (own_notification k) (due k L obs) new \<and>
      (\<forall>ob \<in> set (ob # obs). \<exists>x \<in> set (pInteractions s'). told k ob x)"
      using go [of "s\<lparr>pInteractions := L\<rparr>"] mark_pending_told [of k ob "pInteractions s" L] mp True by simp
    moreover have "notify_loop E s k (ob # obs) = notify_loop E (s\<lparr>pInteractions := L\<rparr>) k obs" using mp True by (simp add: notify_loop.simps)
    moreover have "due k (pInteractions s) (ob # obs) = due k L obs" using b True due_marked [OF m] by simp
    ultimately show ?thesis using list_marked_trans [OF m] by metis
  next
    case False
    have "room (512 + 512 * int (length obs)) (mem s)" using Cons.prems(2) by (simp add: algebra_simps)
    then obtain x s1 where one: "notify_observer E s k (pResList s ! k) ob = Some (COAP_OK, s1)" "pInteractions s1 = pInteractions s @ [x]"
      "pResList s1 = pResList s" "room (512 * int (length obs)) (mem s1)" "own_notification k ob x"
      by (rule notify_observer_roomy [OF assms(1) Cons.prems(1) assms(3)]) simp_all
    have "next_observers s1 k obs = Some obs"
      using Cons.prems(3) one(3) by (auto simp: next_observers_def Let_def filter_id_conv neq_Nil_conv)
    then have step: "notify_loop E s k (ob # obs) = notify_loop E s1 k obs" using mp False one(1) by (simp add: notify_loop.simps)
    have f: "fresh_notification k ob x" using one(5) by (simp add: own_notification_def)
    then have "told k ob x" by (simp add: told_def to_observer_def fresh_notification_def)
    then have "\<exists>y \<in> set (pInteractions s1). told k ob y" unfolding one(2) by auto
    from go [OF one(3,4) this, unfolded one(2)] obtain s' old new where s': "notify_loop E s1 k obs = Some (COAP_OK, s')" "pResList s' = pResList s" "pInteractions s' = old @ new"
      "list_all2 (marked k) (pInteractions s @ [x]) old" "list_all2 (own_notification k) (due k (pInteractions s @ [x]) obs) new"
      "\<forall>ob \<in> set (ob # obs). \<exists>x \<in> set (pInteractions s'). told k ob x"
      by blast
    from s'(4) obtain old1 y where o: "old = old1 @ [y]" "list_all2 (marked k) (pInteractions s) old1" "marked k x y"
      by (auto simp: list_all2_append1 list_all2_Cons1)
    have "to_observer k ob' x \<longleftrightarrow> same_target ob ob'" for ob' using f by (auto simp: to_observer_def fresh_notification_def same_target_def)
    then have "due k (pInteractions s) (ob # obs) = ob # due k (pInteractions s @ [x]) obs"
      using b False due_filter [of k x "same_target ob" "pInteractions s" obs] by simp
    then have "list_all2 (own_notification k) (due k (pInteractions s) (ob # obs)) (y # new)" using s'(5) own_marked [OF one(5) o(3)] by simp
    then show ?thesis using step s'(1-3,6) o(1,2) by (intro exI [of _ s'] exI [of _ old1] exI [of _ "y # new"]) simp
  qed
qed

end


section \<open>The properties of a notification\<close>

text \<open>C16. Starting notifications, with any allocator and any notifier. The interactions that are there stay
  in order and change in nothing but the update mark of pending notifications of this resource; behind them
  come new notifications, ready to be sent, each with its message, to observers of the resource in the
  order of their list. If there was at most one notification of the resource to each endpoint before, then
  so there is afterwards.\<close>

theorem notifications_started:
  assumes "CoAP_NotifyResourceObservers E s k = Some (r, s')"
  shows "r = COAP_OK \<and>
    (\<exists>old new obs'. pInteractions s' = old @ new \<and> list_all2 (marked k) (pInteractions s) old \<and>
       subseq obs' (pListObservers (pResList s ! k)) \<and> list_all2 (fresh_notification k) obs' new) \<and>
    (one_each k (pInteractions s) \<longrightarrow> one_each k (pInteractions s'))"
proof -
  let ?R = "pResList s ! k"
  let ?s = "s\<lparr>pResList := (pResList s)[k := ?R\<lparr>UpdateCnt := UpdateCnt ?R + 1\<rparr>]\<rparr>"
  have k: "k < length (pResList s)" using assms by (auto simp: CoAP_NotifyResourceObservers_def get_res_def split: if_splits)
  then obtain r1 where "r = COAP_OK" "notify_loop E ?s k (pListObservers ?R) = Some (r1, s')"
    using assms by (auto simp: CoAP_NotifyResourceObservers_def CoAP_StartNotifyInteractions_def get_res_def Let_def)
  then show ?thesis using notify_loop_notified [of E ?s k "pListObservers ?R" r1 s'] by (simp add: notified_def)
qed

definition demo_notifying :: "bget_state env" where
  "demo_notifying = demo_benv\<lparr>user_notifier := (\<lambda>fn m ob M. Some (HANDLER_OK, M, m))\<rparr>"

definition demo_publisher :: "bget_state stack" where
  "demo_publisher = (stack0 demo_pool demo_sockets)\<lparr>pResList := [demo_observed]\<rparr>"

theorem notifications_started_witness:
  "\<exists>s'. CoAP_NotifyResourceObservers demo_notifying demo_publisher 0 = Some (COAP_OK, s') \<and>
    (\<exists>old new obs'. pInteractions s' = old @ new \<and> list_all2 (marked 0) (pInteractions demo_publisher) old \<and>
       subseq obs' (pListObservers (pResList demo_publisher ! 0)) \<and> list_all2 (fresh_notification 0) obs' new) \<and>
    one_each 0 (pInteractions s')"
proof -
  have "CoAP_NotifyResourceObservers demo_notifying demo_publisher 0 \<noteq> None" by code_simp
  then obtain r s' where s': "CoAP_NotifyResourceObservers demo_notifying demo_publisher 0 = Some (r, s')" by auto
  have "one_each 0 (pInteractions demo_publisher)" by (simp add: one_each_def demo_publisher_def stack0_def)
  with s' notifications_started [OF s'] show ?thesis by blast
qed

text \<open>C15. Which observers are told. On the BGET allocator, with a free buffer of 512 bytes per observer and a notifier that
  accepts, keeps the code below 4.00 and the token, and needs at most 245 bytes, the notification of a resource returns,
  keeps all observers, and starts exactly one notification, ready to be sent and with the token of the
  observation, for each observer whose interface and endpoint neither have a pending notification of
  the resource nor belong to an earlier observer (\<open>due\<close>), in this order. The other interactions stay as they are, apart from the
  update mark of notifications of this resource. For the endpoint of every observer there is then a notification
  under way that is new or marked for update. It is one per endpoint, not one per token: a second observation of
  the same client, with another token, gets none of its own.\<close>

theorem observing_endpoints_notified:
  assumes "ops E = bget_ops" "k < length (pResList s)" "Notifier (pResList s ! k) = Some fn"
    and "\<forall>b m ob M. 0 \<le> b \<and> bget_room (245 + b) m \<and> Code M = RESP_SUCCESS_CONTENT_2_05 \<longrightarrow>
      (\<exists>M' m'. user_notifier E fn m ob M = Some (HANDLER_OK, M', m') \<and> Code M' < RESP_ERROR_BAD_REQUEST_4_00 \<and>
        Token64 M' = Token64 M \<and> bget_room b m')"
    and "bget_room (512 * int (length (pListObservers (pResList s ! k)))) (mem s)"
  shows "\<exists>s' old new. CoAP_NotifyResourceObservers E s k = Some (COAP_OK, s') \<and>
    pResList s' = (pResList s)[k := (pResList s ! k)\<lparr>UpdateCnt := UpdateCnt (pResList s ! k) + 1\<rparr>] \<and>
    pInteractions s' = old @ new \<and> list_all2 (marked k) (pInteractions s) old \<and>
    list_all2 (own_notification k) (due k (pInteractions s) (pListObservers (pResList s ! k))) new \<and>
    (\<forall>ob \<in> set (pListObservers (pResList s ! k)). \<exists>x \<in> set (pInteractions s'). to_observer k ob x \<and>
       (UpdatePendingNotification x \<or> State x = COAP_STATE_READY_TO_NOTIFY))"
proof -
  let ?R = "pResList s ! k"
  let ?s = "s\<lparr>pResList := (pResList s)[k := ?R\<lparr>UpdateCnt := UpdateCnt ?R + 1\<rparr>]\<rparr>"
  have "willing bget_room E fn" unfolding willing_def by (rule assms(4))
  then obtain s' old new where "notify_loop E ?s k (pListObservers ?R) = Some (COAP_OK, s')" "pResList s' = pResList ?s"
    "pInteractions s' = old @ new" "list_all2 (marked k) (pInteractions s) old"
    "list_all2 (own_notification k) (due k (pInteractions s) (pListObservers ?R)) new"
    "\<forall>ob \<in> set (pListObservers ?R). \<exists>x \<in> set (pInteractions s'). told k ob x"
    using bget_space.notify_loop_roomy [of E ?s k fn "pListObservers ?R"] assms by auto
  then show ?thesis
    using assms(2) by (intro exI [of _ s'] exI [of _ old] exI [of _ new])
      (simp add: CoAP_NotifyResourceObservers_def CoAP_StartNotifyInteractions_def get_res_def Let_def told_def)
qed

text \<open>Two observers on different interfaces: each gets its own notification.\<close>

theorem observing_endpoints_notified_witness:
  "\<exists>s'. CoAP_NotifyResourceObservers demo_notifying demo_publisher 0 = Some (COAP_OK, s') \<and>
    list_all2 (own_notification 0) (pListObservers demo_observed) (pInteractions s') \<and> length (pInteractions s') = 2"
proof -
  have d: "due 0 [] (pListObservers demo_observed) = pListObservers demo_observed" "length (pListObservers demo_observed) = 2" by code_simp+
  have f: "pResList demo_publisher = [demo_observed]" "pInteractions demo_publisher = []" "mem demo_publisher = demo_pool" "Notifier demo_observed = Some 0"
    by (simp_all add: demo_publisher_def stack0_def demo_observed_def)
  have "\<exists>s' old new. CoAP_NotifyResourceObservers demo_notifying demo_publisher 0 = Some (COAP_OK, s') \<and>
    pResList s' = (pResList demo_publisher)[0 := (pResList demo_publisher ! 0)\<lparr>UpdateCnt := UpdateCnt (pResList demo_publisher ! 0) + 1\<rparr>] \<and>
    pInteractions s' = old @ new \<and> list_all2 (marked 0) (pInteractions demo_publisher) old \<and>
    list_all2 (own_notification 0) (due 0 (pInteractions demo_publisher) (pListObservers (pResList demo_publisher ! 0))) new \<and>
    (\<forall>ob \<in> set (pListObservers (pResList demo_publisher ! 0)). \<exists>x \<in> set (pInteractions s'). to_observer 0 ob x \<and>
       (UpdatePendingNotification x \<or> State x = COAP_STATE_READY_TO_NOTIFY))"
  proof (rule observing_endpoints_notified [where fn = 0])
    show "\<forall>b m ob M. 0 \<le> b \<and> bget_room (245 + b) m \<and> Code M = RESP_SUCCESS_CONTENT_2_05 \<longrightarrow>
      (\<exists>M' m'. user_notifier demo_notifying 0 m ob M = Some (HANDLER_OK, M', m') \<and> Code M' < RESP_ERROR_BAD_REQUEST_4_00 \<and>
        Token64 M' = Token64 M \<and> bget_room b m')"
      by (auto simp: demo_notifying_def intro: bget_space.room_less)
    show "bget_room (512 * int (length (pListObservers (pResList demo_publisher ! 0)))) (mem demo_publisher)"
      using demo_room [of 1024] by (simp add: f d(2))
  qed (simp_all add: demo_notifying_def demo_benv_def f)
  then show ?thesis using d list_all2_lengthD [of "own_notification 0" "pListObservers demo_observed"] by (auto simp: f)
qed

end
