(* ===== verification/Memory_Properties.thy ===== *)
theory Memory_Properties
  imports Examples
begin

text \<open>
  Properties of the allocator: every sequence of requests and releases keeps the pool consistent,
  allocation is best fit, and a pool from which everything has been released is one free buffer
  again.
\<close>

section \<open>Runs of the allocator\<close>

text \<open>A run starts with an initialised pool; the client requests buffers, resizes and releases the
  live ones, in any order. The heap records the live buffers.\<close>

inductive mem_run :: "bget_state \<Rightarrow> heap \<Rightarrow> bool" where
  init: "0 < buf \<Longrightarrow> 16 \<le> n \<Longrightarrow> n \<le> 32767 \<Longrightarrow> mem_run (coap_mem_init bget_init buf n) Map.empty"
| get: "mem_run m h \<Longrightarrow> 0 < n \<Longrightarrow> n \<le> MAX_REQ \<Longrightarrow> bget m n = Some (p, m') \<Longrightarrow>
    mem_run m' (if p = NULL then h else h(p \<mapsto> mem_size m' p))"
| getz: "mem_run m h \<Longrightarrow> 0 < n \<Longrightarrow> n \<le> MAX_REQ \<Longrightarrow> bgetz m n = Some (p, m') \<Longrightarrow>
    mem_run m' (if p = NULL then h else h(p \<mapsto> mem_size m' p))"
| release: "mem_run m h \<Longrightarrow> p \<in> dom h \<Longrightarrow> mem_run (mem_release m p) (h(p := None))"
| resize: "mem_run m h \<Longrightarrow> 0 < n \<Longrightarrow> n \<le> MAX_REQ \<Longrightarrow> q \<in> dom h \<Longrightarrow> bgetr m q n = Some (c, p, m') \<Longrightarrow>
    mem_run m' (if p = NULL then h else (h(p \<mapsto> mem_size m' p))(q := None))"

lemma release_op: "coap_mem_release bget_ops = mem_release"
  by (simp add: bget_ops_def)

lemma bget_rep_total:
  assumes "bget_rep m h" "0 < n" "n \<le> MAX_REQ" "bget m n = Some (p, m')"
  shows "bget_rep m' (if p = NULL then h else h(p \<mapsto> mem_size m' p)) \<and> (p \<noteq> NULL \<longrightarrow> h p = None \<and> n \<le> mem_size m' p)"
proof -
  have g: "coap_mem_get bget_ops m n = (p, m')" using assms(4) by (simp add: bget_ops_def returned_def)
  from assms(1-3) g show ?thesis
  proof (cases rule: bget.get_cases)
    case fail
    then show ?thesis by simp
  next
    case (ok k)
    have "mem_size m' p = k" using bget.size_law [OF ok(4), of p k] by (simp add: bget_ops_def)
    with ok show ?thesis by simp
  qed
qed

lemma bget_rep_resize:
  assumes "bget_rep m h" "0 < n" "n \<le> MAX_REQ" "q \<in> dom h" "bgetr m q n = Some (c, p, m')"
  shows "bget_rep m' (if p = NULL then h else (h(p \<mapsto> mem_size m' p))(q := None))"
proof -
  obtain p1 m1 where b: "bget m n = Some (p1, m1)"
    using assms(5) by (auto simp: bgetr_def split: option.splits)
  note r = bget_rep_total [OF assms(1-3) b]
  obtain k where k: "h q = Some k" using assms(4) by blast
  have q: "q \<noteq> NULL" using bget.NULL_law [OF assms(1)] k by auto
  show ?thesis
  proof (cases "p1 = NULL")
    case True
    then show ?thesis using assms(5) b r by (simp add: bgetr_def)
  next
    case False
    let ?h = "h(p1 \<mapsto> mem_size m1 p1)"
    have rep: "bget_rep m1 ?h" and new: "h p1 = None" using r False by auto
    have pq: "p1 \<noteq> q" using new k by auto
    then have live: "?h q = Some k" using k by simp
    have osz: "bsize m1 (q - 4) = - k - 4" "8 \<le> k" "k \<le> 32767"
    proof -
      show "bsize m1 (q - 4) = - k - 4" "8 \<le> k" using bget_rep_live [OF rep live] by simp_all
      obtain bs fs where pool: "pool m1 bs fs" using rep by (auto simp: bget_rep_def)
      show "k \<le> 32767"
        using bget_rep_live [OF rep live] poolD(6) [OF pool] by linarith
    qed
    have pos: "s16 (s16 (- bsize m1 (q - sizeof_bhead)) - sizeof_bhead) = k"
    proof -
      have "bsize m1 (q - sizeof_bhead) = - k - 4" using osz(1) by (simp add: bget_consts)
      moreover have "k + 4 \<le> 32767"
        using bget_rep_live(3,4) [OF rep live] rep by (auto simp: bget_rep_def dest: poolD(6))
      ultimately show ?thesis using osz(2) by (simp add: bget_consts s16_id)
    qed
    have "m' = brel m1 q" "p = p1"
      using assms(5) b False q pos osz(2) by (auto simp: bgetr_def bget_assert_def Let_def)
    moreover have "bget_rep (brel m1 q) (?h(q := None))"
      using bget_rep_release [OF rep live] q unfolding release_op mem_release_def by (simp del: fun_upd_apply)
    moreover have "mem_size (brel m1 q) p1 = mem_size m1 p1"
    proof -
      have "(?h(q := None)) p1 = Some (mem_size m1 p1)" using pq by simp
      then show ?thesis
        using bget.size_law [OF \<open>bget_rep (brel m1 q) (?h(q := None))\<close>] by (simp add: bget_ops_def)
    qed
    ultimately show ?thesis using False by simp
  qed
qed

lemma mem_run_rep: "mem_run m h \<Longrightarrow> bget_rep m h"
proof (induction rule: mem_run.induct)
  case (init buf n)
  then show ?case by (rule init_rep)
next
  case (get m h n p m')
  then show ?case using bget_rep_total by blast
next
  case (getz m h n p m')
  obtain bs fs where "pool m bs fs" using getz.IH by (auto simp: bget_rep_def)
  then have "bget m n = Some (p, m')" using bgetz_total getz.hyps by metis
  then show ?case using bget_rep_total getz by blast
next
  case (release m h p)
  then obtain k where k: "h p = Some k" by blast
  show ?case using bget_rep_release [OF release.IH k] unfolding release_op .
next
  case (resize m h n q c p m')
  then show ?case using bget_rep_resize by blast
qed

section \<open>Bytes in use\<close>

lemma heap_of_sum:
  assumes "big bs"
  shows "finite (dom (heap_of a bs)) \<and> (\<Sum>p \<in> dom (heap_of a bs). the (heap_of a bs p) + 4) = alloc_sum bs"
  using assms
proof (induction bs arbitrary: a)
  case (Cons s bs)
  let ?h = "heap_of (a + \<bar>s\<bar>) bs"
  have IH: "finite (dom ?h)" "(\<Sum>p \<in> dom ?h. the (?h p) + 4) = alloc_sum bs" using Cons by simp_all
  show ?case
  proof (cases "s < 0")
    case True
    have new: "a + 4 \<notin> dom ?h"
      using heap_of_range [of bs "a + \<bar>s\<bar>" "a + 4"] Cons.prems True by fastforce
    have "(\<Sum>p \<in> dom ?h. the ((?h(a + 4 \<mapsto> - s - 4)) p) + 4) = (\<Sum>p \<in> dom ?h. the (?h p) + 4)"
      using new by (intro sum.cong) auto
    with True IH new show ?thesis by (simp add: sum.insert del: fun_upd_apply) simp
  next
    case False
    then show ?thesis using IH by simp
  qed
qed simp

lemma no_live_single:
  assumes "tiles p z a pf bs" "heap_of a bs = Map.empty"
  shows "length bs \<le> 1"
proof -
  have pos: "0 < s" if "bs = s # ss" "tiles p z a pf bs" "heap_of a bs = Map.empty" for a pf s ss and bs
    using that by (auto simp: tiles_Cons fun_eq_iff split: if_splits)
  show ?thesis
  proof (cases bs)
    case (Cons s ss)
    have s: "0 < s" using pos [OF Cons] assms by simp
    have rest: "tiles p z (a + s) s ss" "heap_of (a + s) ss = Map.empty"
      using assms Cons s by (auto simp: tiles_Cons)
    have "ss = []"
    proof (cases ss)
      case (Cons s' ss')
      then have "0 < s'" using pos [OF Cons rest] by simp
      with rest Cons s show ?thesis by (auto simp: tiles_Cons)
    qed
    with Cons show ?thesis by simp
  qed simp
qed

lemma foldl_max: "foldl max (mx :: int) xs \<le> max mx (sum_list xs)" if "\<forall>x \<in> set xs. 0 \<le> x" "- 1 \<le> mx"
  using that
proof (induction xs arbitrary: mx)
  case (Cons x xs)
  have "0 \<le> sum_list xs" using Cons.prems(1) by (intro sum_list_nonneg) auto
  moreover have "foldl max (max mx x) xs \<le> max (max mx x) (sum_list xs)" using Cons by (intro Cons.IH) auto
  moreover have "0 \<le> x" using Cons.prems(1) by simp
  ultimately show ?case by simp
qed simp

text \<open>A run in which a buffer is live.\<close>

lemma demo_run: obtains m h where "mem_run m h" "h \<noteq> Map.empty"
proof -
  have run: "mem_run demo_pool Map.empty" unfolding demo_pool_def by (rule mem_run.init) simp_all
  obtain p k m' where g: "coap_mem_get bget_ops demo_pool 100 = (p, m')" "p \<noteq> NULL"
    by (rule demo_get [of 100]) auto
  then have "bget demo_pool 100 = Some (p, m')"
    by (auto simp: bget_ops_def returned_def split: option.splits)
  then have "mem_run m' (if p = NULL then Map.empty else [p \<mapsto> mem_size m' p])"
    by (intro mem_run.get [OF run]) (simp_all add: MAX_REQ_def)
  then show thesis using that [of m' "[p \<mapsto> mem_size m' p]"] g(2) by simp
qed

text \<open>C4. Consistency of the allocator. After any run, none of its assertions has ever failed, the pool
  validation \<open>bpoolv\<close> succeeds, every live buffer lies inside the memory area and is at least 8 bytes
  big, and live buffers do not overlap.\<close>

theorem allocator_consistent:
  assumes "mem_run m h"
  shows "assert_fails m = 0 \<and> bpoolv m (pMemArea m) = Some True \<and>
    (\<forall>p k. h p = Some k \<longrightarrow> mem_size m p = k \<and> 8 \<le> k \<and> mem_lowEnd m \<le> p \<and> p + k \<le> mem_highEnd m) \<and>
    (\<forall>p q k l. h p = Some k \<and> h q = Some l \<and> p < q \<longrightarrow> p + k < q)"
proof -
  have rep: "bget_rep m h" using assms by (rule mem_run_rep)
  then obtain bs fs where pool: "pool m bs fs" by (auto simp: bget_rep_def)
  have "mem_size m p = k \<and> 8 \<le> k \<and> mem_lowEnd m \<le> p \<and> p + k \<le> mem_highEnd m" if p: "h p = Some k" for p k
    using bget.size_law [OF rep p] bget.bounds_law [OF rep p] bget_rep_live(2) [OF rep p] by (simp add: bget_ops_def)
  then show ?thesis
    using poolD(8) [OF pool] bpoolv_ok [OF pool] bget.apart_law [OF rep] by blast
qed

theorem allocator_consistent_witness:
  "\<exists>m h. mem_run m h \<and> h \<noteq> Map.empty \<and> assert_fails m = 0 \<and> bpoolv m (pMemArea m) = Some True \<and>
    (\<forall>p k. h p = Some k \<longrightarrow> mem_size m p = k \<and> 8 \<le> k \<and> mem_lowEnd m \<le> p \<and> p + k \<le> mem_highEnd m) \<and>
    (\<forall>p q k l. h p = Some k \<and> h q = Some l \<and> p < q \<longrightarrow> p + k < q)"
proof -
  obtain m h where run: "mem_run m h" "h \<noteq> Map.empty" by (rule demo_run)
  with allocator_consistent [OF run(1)] show ?thesis by blast
qed

text \<open>C21. Accounting and coalescing. After any run, \<open>bstats\<close> reports as bytes in use exactly the live
  buffers with their headers. When everything has been released again, no byte is in use and all
  free memory is one single buffer: neighbours have been joined, nothing is fragmented.\<close>

theorem allocator_accounting:
  assumes "mem_run m h"
  shows "\<exists>used free mx. bstats m = Some (used, free, mx, numget m, numrel m) \<and>
    used = (\<Sum>p \<in> dom h. the (h p) + 4) \<and> 0 \<le> free \<and> mx \<le> free \<and> (h = Map.empty \<and> 0 < free \<longrightarrow> used = 0 \<and> mx = free)"
proof -
  obtain bs fs where pool: "pool m bs fs" and h: "h = heap_of (pMemArea m) bs"
    using mem_run_rep [OF assms] by (auto simp: bget_rep_def)
  let ?mx = "foldl max (- 1) (map (bsize m) fs)" and ?free = "tot bs - alloc_sum bs"
  note stats = bstats_ok [OF pool]
  have sum: "(\<Sum>p \<in> dom h. the (h p) + 4) = alloc_sum bs" using heap_of_sum poolD(10) [OF pool] h by simp
  have free: "sum_list (map (bsize m) fs) = ?free"
  proof -
    have "sum_list (map (bsize m) fs) = sum_list (map (bsize m) (frees (pMemArea m) bs))"
      using poolD(3) [OF pool] by (metis mset_map sum_mset_sum_list)
    then show ?thesis
      using sum_frees [of "prevfree m" "bsize m" "pMemArea m" 0 bs] poolD(1) [OF pool] by (simp add: tiles_def)
  qed
  have pos: "0 < bsize m b" if "b \<in> set fs" for b by (rule pool_free [OF pool that]) simp
  have nonneg: "0 \<le> ?free" using alloc_sum_bounds(2) [of bs] by simp
  have "?mx \<le> max (- 1) (sum_list (map (bsize m) fs))" using pos by (intro foldl_max) fastforce+
  then have le: "?mx \<le> ?free" using free nonneg by simp
  have one: "?mx = ?free" if e: "h = Map.empty" "0 < ?free"
  proof -
    have "length bs \<le> 1" by (rule no_live_single [OF poolD(1) [OF pool] h [symmetric, unfolded e(1)]])
    then obtain s where bs: "bs = [s]" using e(2) by (cases bs) auto
    then have "s > 0" using e(2) by (auto simp: max_def split: if_splits)
    then have "mset fs = {#pMemArea m#}" using poolD(3) [OF pool] bs by simp
    then have "fs = [pMemArea m]" by (simp add: mset_single_iff)
    then show ?thesis using free nonneg by simp
  qed
  then show ?thesis using stats sum nonneg le by auto
qed

theorem allocator_accounting_witness:
  "\<exists>m h. mem_run m h \<and> h \<noteq> Map.empty \<and> (\<exists>used free mx. bstats m = Some (used, free, mx, numget m, numrel m) \<and>
    used = (\<Sum>p \<in> dom h. the (h p) + 4) \<and> 0 \<le> free \<and> mx \<le> free \<and> (h = Map.empty \<and> 0 < free \<longrightarrow> used = 0 \<and> mx = free))"
proof -
  obtain m h where run: "mem_run m h" "h \<noteq> Map.empty" by (rule demo_run)
  with allocator_accounting [OF run(1)] show ?thesis by blast
qed

text \<open>C20. Allocation is total and best fit. On a consistent pool \<open>bget\<close> always returns; it returns
  \<open>NULL\<close> only if every free buffer is smaller than the rounded request, and otherwise takes the
  new buffer from a smallest free buffer that is big enough.\<close>

theorem allocation_best_fit:
  assumes "pool m bs fs" "0 < n" "n \<le> MAX_REQ"
  shows "\<exists>p m'. bget m n = Some (p, m') \<and>
    (if p = NULL then m' = m \<and> (\<forall>b \<in> set fs. bsize m b < alloc_size n)
     else (\<exists>b \<in> set fs. best_fit m (alloc_size n) = Some b \<and> alloc_size n \<le> bsize m b \<and>
       (\<forall>b' \<in> set fs. alloc_size n \<le> bsize m b' \<longrightarrow> bsize m b \<le> bsize m b') \<and> b + 4 \<le> p \<and> p + n \<le> b + bsize m b))"
proof -
  note al = alloc_size_le [OF assms(2,3)]
  have best: "\<forall>b' \<in> set fs. alloc_size n \<le> bsize m b' \<longrightarrow> bsize m b \<le> bsize m b'"
    if "best_fit m (alloc_size n) = Some b" "b \<in> set fs" "alloc_size n \<le> bsize m b" for b
    using assms(1) that by (cases rule: best_fit_cases [where sz = "alloc_size n"]) auto
  have pos: "0 < pMemArea m + tot xs" for xs using poolD(4) [OF assms(1)] tot_nonneg [of xs] by linarith
  from assms show ?thesis
  proof (cases rule: bget_cases)
    case none
    then show ?thesis by simp
  next
    case (part b xs s ys m')
    then show ?thesis using best [OF part(4,5)] pos [of xs] al(1) by (auto intro!: bexI [of _ b])
  next
    case (whole b xs s ys m' us vs)
    then show ?thesis using best [OF whole(4,5)] pos [of xs] al(1) by (auto intro!: bexI [of _ b])
  qed
qed

theorem allocation_best_fit_witness:
  "\<exists>p m'. bget demo_pool 100 = Some (p, m') \<and>
    (if p = NULL then m' = demo_pool \<and> (\<forall>b \<in> set [4096]. bsize demo_pool b < alloc_size 100)
     else (\<exists>b \<in> set [4096]. best_fit demo_pool (alloc_size 100) = Some b \<and> alloc_size 100 \<le> bsize demo_pool b \<and>
       (\<forall>b' \<in> set [4096]. alloc_size 100 \<le> bsize demo_pool b' \<longrightarrow> bsize demo_pool b \<le> bsize demo_pool b') \<and>
       b + 4 \<le> p \<and> p + 100 \<le> b + bsize demo_pool b))"
  by (rule allocation_best_fit [OF demo_pool_shape(1)]) (simp_all add: MAX_REQ_def)

end
