(* ===== verification/Message_Properties.thy ===== *)
theory Message_Properties
  imports Examples
begin

text \<open>
  Properties of the option list, the option codec and the message operations, stated for the
  allocator of the repository.
\<close>

section \<open>Truncated datagrams\<close>

text \<open>A header that announces a token of two bytes, the first of them, and what follows in the buffer.\<close>

definition truncated :: "u8 list \<Rightarrow> bytes" where
  "truncated bs = write_at (\<lambda>_. 0) 0 ([0x42, 1, 0, 9, 0xAA] @ bs)"

lemma truncated_header:
  shows "header_ok (truncated bs)" "token_end (truncated bs) = 6"
    "parse_OptionsFromRaw A m (sub_at (truncated bs) 6) (- 1) [] = Some (r, None, L, m1) \<Longrightarrow> r \<noteq> COAP_OK \<Longrightarrow>
      CoAP_ParseMessageFromDatagram A m now (truncated bs) 5 = Some (r, None, snd (snd (CoAP_FreeOptionList A m1 L)))"
    "parse_OptionsFromRaw A m (sub_at (truncated bs) 6) (- 1) [] = Some (COAP_OK, Some 2, L, m1) \<Longrightarrow>
      CoAP_ParseMessageFromDatagram A m now (truncated bs) 5 =
        Some (COAP_PARSE_TOO_MUCH_PAYLOAD, None, snd (snd (CoAP_FreeOptionList A m1 L)))"
proof -
  have b: "truncated bs 0 = 0x42" "truncated bs 1 = 1" "truncated bs (Suc 0) = 1" by (simp_all add: truncated_def write_at_def)
  show "header_ok (truncated bs)" "token_end (truncated bs) = 6" by (simp_all add: header_ok_def token_end_def b)
  have "(\<lambda>i. truncated bs (6 + i)) = sub_at (truncated bs) 6" by (simp_all add: sub_at_def)
  then show "parse_OptionsFromRaw A m (sub_at (truncated bs) 6) (- 1) [] = Some (r, None, L, m1) \<Longrightarrow> r \<noteq> COAP_OK \<Longrightarrow>
      CoAP_ParseMessageFromDatagram A m now (truncated bs) 5 = Some (r, None, snd (snd (CoAP_FreeOptionList A m1 L)))"
    "parse_OptionsFromRaw A m (sub_at (truncated bs) 6) (- 1) [] = Some (COAP_OK, Some 2, L, m1) \<Longrightarrow>
      CoAP_ParseMessageFromDatagram A m now (truncated bs) 5 =
        Some (COAP_PARSE_TOO_MUCH_PAYLOAD, None, snd (snd (CoAP_FreeOptionList A m1 L)))"
    by (simp_all add: CoAP_ParseMessageFromDatagram_def b case_prod_unfold Let_def)
qed

lemma truncated_results:
  "header_ok (truncated [0, 255]) \<and> token_end (truncated [0, 255]) = 6 \<and>
   CoAP_ParseMessageFromDatagram bget_ops demo_pool now (truncated [0, 255]) 5 = Some (COAP_PARSE_MESSAGE_FORMAT_ERROR, None, demo_pool) \<and>
   (\<exists>m'. CoAP_ParseMessageFromDatagram bget_ops demo_pool now (truncated [0, 0, 255]) 5 = Some (COAP_PARSE_TOO_MUCH_PAYLOAD, None, m'))"
proof -
  have m1: "(65535 :: u16) = - 1" by simp
  have 1: "parse_OptionsFromRaw bget_ops demo_pool (sub_at (truncated [0, 255]) 6) 65535 [] =
      Some (COAP_PARSE_MESSAGE_FORMAT_ERROR, None, [], demo_pool)"
    by (simp add: parse_OptionsFromRaw_def sub_at_def truncated_def write_at_def)
  let ?s = "sub_at (truncated [0, 0, 255]) 6"
  have s: "?s 0 = 0" "?s 1 = 255" by (simp_all add: sub_at_def truncated_def write_at_def)
  have hd: "parse_head ?s 65535 0 = Some (0, 0, 1)"
    by (simp add: parse_head_def parse_ext_def s)
  obtain p m' where ap: "CoAP_AppendOptionToList bget_ops demo_pool [] 0 [] 0 = (COAP_OK, insert_option (fill_option p 0 [] 0) [], m')"
    by (rule bget_space.room_append [of 0 0 demo_pool "[]" 0 "[]"])
      (use demo_room in \<open>simp_all add: sizeof_CoAP_option_t_def MAX_REQ_def\<close>)
  have "options_end ?s 65535 (unat (1 :: u16)) (Some 2)" using s(2) by (simp add: options_end_def)
  from parse_loop_end [OF this] have "parse_OptionsFromRaw_loop 65535 bget_ops m' ?s 65535 1 0 L = Some (COAP_OK, Some 2, L, m')" for L
    by (simp add: numeral_eq_Suc)
  then have "parse_OptionsFromRaw_loop (Suc 65535) bget_ops demo_pool ?s 65535 0 0 [] =
      Some (COAP_OK, Some 2, insert_option (fill_option p 0 [] 0) [], m')"
    unfolding parse_loop_step by (simp add: s hd ap)
  then have 2: "parse_OptionsFromRaw bget_ops demo_pool ?s 65535 [] = Some (COAP_OK, Some 2, insert_option (fill_option p 0 [] 0) [], m')"
    by (simp add: parse_OptionsFromRaw_def s)
  show ?thesis using truncated_header(1,2) truncated_header(3) [OF 1 [unfolded m1]] truncated_header(4) [OF 2 [unfolded m1]] by simp
qed

section \<open>Datagrams\<close>

text \<open>C23. What the parser looks at. If the token that the header announces lies inside the datagram, the result
  of parsing is a function of the datagram alone: two receive buffers that agree on the \<open>n\<close> bytes of the
  datagram give the same result, so no byte behind its end is used. The parser does not check this
  condition, and it is needed: a datagram of five bytes that announces a token of two bytes is refused
  with one result or another depending on what the buffer holds behind it.\<close>

theorem parse_within_datagram:
  "((\<forall>i < unat n. src i = src' i) \<and> (header_ok src \<longrightarrow> token_end src \<le> unat n) \<longrightarrow>
     CoAP_ParseMessageFromDatagram A m now src n = CoAP_ParseMessageFromDatagram A m now src' n) \<and>
   (\<exists>d d'. (\<forall>i < 5. d i = d' i) \<and> header_ok d \<and> token_end d = 6 \<and>
     CoAP_ParseMessageFromDatagram bget_ops demo_pool now d 5 = Some (COAP_PARSE_MESSAGE_FORMAT_ERROR, None, demo_pool) \<and>
     (\<exists>m'. CoAP_ParseMessageFromDatagram bget_ops demo_pool now d' 5 = Some (COAP_PARSE_TOO_MUCH_PAYLOAD, None, m')))"
proof
  show "(\<forall>i < unat n. src i = src' i) \<and> (header_ok src \<longrightarrow> token_end src \<le> unat n) \<longrightarrow>
     CoAP_ParseMessageFromDatagram A m now src n = CoAP_ParseMessageFromDatagram A m now src' n"
    using parse_message_cong [of n src src' A m now] by blast
  have "\<forall>i < 5. (truncated [0, 255]) i = truncated [0, 0, 255] i" by (auto simp: truncated_def write_at_def less_Suc_eq numeral_eq_Suc)
  then show "\<exists>d d'. (\<forall>i < 5. d i = d' i) \<and> header_ok d \<and> token_end d = 6 \<and>
     CoAP_ParseMessageFromDatagram bget_ops demo_pool now d 5 = Some (COAP_PARSE_MESSAGE_FORMAT_ERROR, None, demo_pool) \<and>
     (\<exists>m'. CoAP_ParseMessageFromDatagram bget_ops demo_pool now d' 5 = Some (COAP_PARSE_TOO_MUCH_PAYLOAD, None, m'))"
    using truncated_results by blast
qed

theorem parse_within_datagram_witness:
  "CoAP_ParseMessageFromDatagram bget_ops demo_pool 7 demo_bytes 11 =
   CoAP_ParseMessageFromDatagram bget_ops demo_pool 7 (demo_bytes(11 := 200, 12 := 0xFF)) 11"
proof -
  have "token_end demo_bytes \<le> unat (11 :: u16)" by code_simp
  then show ?thesis using parse_within_datagram [of 11 demo_bytes "demo_bytes(11 := 200, 12 := 0xFF)" bget_ops demo_pool 7] by simp
qed

lemma type_bits: "bits_of_type (type_of_bits (drop_bit 4 (b AND 0x30))) = drop_bit 4 (b AND 0x30)"
proof -
  have "drop_bit 4 (b AND 0x30) = drop_bit 4 b AND 3" by (simp add: drop_bit_and)
  moreover have "drop_bit 4 b AND 3 \<in> {0, 1, 2, 3 :: u8}"
  proof -
    have "drop_bit 4 b AND 3 \<le> 3" by (rule word_and_le1)
    then have "unat (drop_bit 4 b AND 3) \<le> 3" by (simp add: word_le_nat_alt)
    then have "unat (drop_bit 4 b AND 3) \<in> {0, 1, 2, 3}" by auto
    then show ?thesis by (auto simp: word_unat_eq_iff)
  qed
  ultimately show ?thesis by (auto simp: type_of_bits_def)
qed

lemma parsed_token_bits:
  assumes "k \<le> 8"
  shows "bit (parse_token src off k) j \<longleftrightarrow> j < 8 * k \<and> bit (src (off + j div 8)) (j mod 8)"
  using assms
proof (induction k)
  case (Suc k)
  have "parse_token src off (Suc k) = parse_token src off k OR push_bit (8 * k) (ucast (src (off + k)))"
    by (simp add: parse_token_def)
  then have eq: "bit (parse_token src off (Suc k)) j \<longleftrightarrow>
      j < 8 * k \<and> bit (src (off + j div 8)) (j mod 8) \<or> 8 * k \<le> j \<and> j < 64 \<and> bit (src (off + k)) (j - 8 * k)"
    using Suc by (auto simp: bit_simps)
  have "j div 8 = k \<and> j mod 8 = j - 8 * k" if "8 * k \<le> j" "j < 8 * Suc k"
    using that by (simp add: div_nat_eqI modulo_nat_def mult.commute)
  moreover have "\<not> bit (src (off + k)) (j - 8 * k)" if "8 * Suc k \<le> j"
    using that by (auto dest: bit_imp_le_length)
  ultimately show ?case unfolding eq using Suc.prems by (cases "j < 8 * k"; cases "j < 8 * Suc k") auto
qed (simp add: parse_token_def)

text \<open>C33. The header. A datagram of less than four bytes, with a version other than 1, with a token length
  above 8 or with a reserved code class is refused with the result code of the first check that fails,
  without a message and without touching the allocator. A datagram that consists of a good header and
  its token gives a message with exactly the type, code, message id and token of these bytes, no options
  and no payload, which owns its buffer; the only other outcome is exhausted memory, which leaves the heap
  alone and does not happen while there is a free buffer of more than 68 bytes.\<close>

theorem parse_header_checks:
  assumes "bget_rep m h"
  shows "if n < 4 then CoAP_ParseMessageFromDatagram bget_ops m now src n = Some (COAP_PARSE_DATAGRAM_TOO_SHORT, None, m)
   else if drop_bit 6 (src 0) \<noteq> 1 then
     CoAP_ParseMessageFromDatagram bget_ops m now src n = Some (COAP_PARSE_UNKOWN_COAP_VERSION, None, m)
   else if src 0 AND 15 > 8 \<or> drop_bit 5 (src 1) \<in> {1, 6, 7} then
     CoAP_ParseMessageFromDatagram bget_ops m now src n = Some (COAP_PARSE_MESSAGE_FORMAT_ERROR, None, m)
   else unat n = 4 + unat (src 0 AND 15) \<longrightarrow>
     (\<exists>res M m' h'. CoAP_ParseMessageFromDatagram bget_ops m now src n = Some (res, M, m') \<and> bget_rep m' h' \<and>
       (case M of
          Some N \<Rightarrow> res = COAP_OK \<and> msg_owned (mem_area bget_ops m') h N h' \<and> Timestamp N = now \<and>
            bits_of_type (Type N) = drop_bit 4 (src 0 AND 0x30) \<and> Code N = src 1 \<and>
            MessageID N = push_bit 8 (ucast (src 2)) OR ucast (src 3) \<and>
            (\<forall>j. bit (Token64 N) j \<longleftrightarrow> j < 8 * unat (src 0 AND 15) \<and> bit (src (4 + j div 8)) (j mod 8)) \<and>
            pOptionsList N = [] \<and> PayloadLength N = 0
        | None \<Rightarrow> res = COAP_ERR_OUT_OF_MEMORY \<and> h' = h \<and> \<not> bget_room 56 m))"
proof (cases "header_ok src \<and> unat n = token_end src")
  case False
  then show ?thesis
    using parse_bad_header [of src n _ bget_ops m now] by (auto simp: header_ok_def header_error_def token_end_def not_le)
next
  case True
  then have hd: "header_ok src" "token_end src \<le> unat n" by simp_all
  let ?P = "parsed_header src"
  have P: "pOptionsList ?P = []" "PayloadLength ?P = 0" "Code ?P = src 1" "MessageID ?P = push_bit 8 (ucast (src 2)) OR ucast (src 3)"
    "Type ?P = type_of_bits (drop_bit 4 (src 0 AND 0x30))" "Token64 ?P = parse_token src 4 (unat (src 0 AND 15))" "Payload ?P = NULL"
    by (simp_all add: parsed_header_def CoAP_InitToEmptyResetMsg_def)
  have k: "unat (src 0 AND 15) \<le> 8" using hd(1) by (simp add: header_ok_def word_le_nat_alt)
  have eq: "CoAP_ParseMessageFromDatagram bget_ops m now src n = Some (START_MSG_COPY bget_ops m now src ?P None)"
    using parse_good_header [OF hd, of bget_ops m now] True by (simp add: Let_def)
  have ext: "heap_ext h (opt_ptrs (pOptionsList ?P)) h" "PayloadLength ?P \<le> 256" by (simp_all add: P(1,2))
  have main: "\<exists>res M m' h'. CoAP_ParseMessageFromDatagram bget_ops m now src n = Some (res, M, m') \<and> bget_rep m' h' \<and>
       (case M of
          Some N \<Rightarrow> res = COAP_OK \<and> msg_owned (mem_area bget_ops m') h N h' \<and> Timestamp N = now \<and>
            bits_of_type (Type N) = drop_bit 4 (src 0 AND 0x30) \<and> Code N = src 1 \<and>
            MessageID N = push_bit 8 (ucast (src 2)) OR ucast (src 3) \<and>
            (\<forall>j. bit (Token64 N) j \<longleftrightarrow> j < 8 * unat (src 0 AND 15) \<and> bit (src (4 + j div 8)) (j mod 8)) \<and>
            pOptionsList N = [] \<and> PayloadLength N = 0
        | None \<Rightarrow> res = COAP_ERR_OUT_OF_MEMORY \<and> h' = h \<and> \<not> bget_room 56 m)"
    using assms ext
  proof (cases rule: bget.msg_copy_cases [where now = now and src = src and pl = None])
    case (fail m')
    have "\<not> bget_room 56 m"
    proof
      assume "bget_room 56 m"
      then have "bget_room (56 + uint (PayloadLength ?P) + 0) m" by (simp add: P(2))
      then show False by (rule bget_space.msg_copy_room [where now = now and src = src and pl = None]) (use fail P(2) in simp_all)
    qed
    then show ?thesis using eq fail by auto
  next
    case (ok p l m' N)
    have "msg_owned (mem_area bget_ops m') h N (h(p \<mapsto> l))"
      using ok P ext(1) by (intro bget.embedded_payload_owned) auto
    then show ?thesis using eq ok P parsed_token_bits [OF k] type_bits [of "src 0"] by auto
  qed
  have t: "unat n = 4 + unat (src 0 AND 15)" using True by (simp add: token_end_def)
  then have "\<not> n < 4" by (simp add: word_less_nat_alt)
  with main hd(1) show ?thesis by (auto simp: header_ok_def not_less)
qed

theorem parse_header_checks_witness:
  "CoAP_ParseMessageFromDatagram bget_ops demo_pool 7 demo_bytes 3 = Some (COAP_PARSE_DATAGRAM_TOO_SHORT, None, demo_pool)
   \<and> CoAP_ParseMessageFromDatagram bget_ops demo_pool 7 (demo_bytes(0 := 0x81)) 11 = Some (COAP_PARSE_UNKOWN_COAP_VERSION, None, demo_pool)
   \<and> CoAP_ParseMessageFromDatagram bget_ops demo_pool 7 (demo_bytes(0 := 0x49)) 11 = Some (COAP_PARSE_MESSAGE_FORMAT_ERROR, None, demo_pool)
   \<and> (\<exists>N m'. CoAP_ParseMessageFromDatagram bget_ops demo_pool 7 demo_bytes 5 = Some (COAP_OK, Some N, m') \<and>
        Code N = 1 \<and> MessageID N = 9 \<and> pOptionsList N = [] \<and> PayloadLength N = 0)"
proof -
  have hd: "demo_bytes 0 = 0x41" "demo_bytes (Suc 0) = 1" "demo_bytes 1 = 1" "demo_bytes 2 = 0" "demo_bytes 3 = 9"
    by (simp_all add: demo_bytes_def write_at_def)
  have "\<exists>N m'. CoAP_ParseMessageFromDatagram bget_ops demo_pool 7 demo_bytes 5 = Some (COAP_OK, Some N, m') \<and>
        Code N = 1 \<and> MessageID N = 9 \<and> pOptionsList N = [] \<and> PayloadLength N = 0"
    using parse_header_checks [OF demo_rep, of 5 7 demo_bytes] demo_room [of 56] by (auto simp: hd split: option.splits)
  then show ?thesis
    using parse_header_checks [OF demo_rep, of 3 7 demo_bytes]
      parse_header_checks [OF demo_rep, of 11 7 "demo_bytes(0 := 0x81)"]
      parse_header_checks [OF demo_rep, of 11 7 "demo_bytes(0 := 0x49)"] by simp
qed

text \<open>C13. Serialisation. \<open>CoAP_BuildDatagram\<close> stores exactly the reference encoding of the message at
  the start of the buffer and leaves every other byte alone, reports its length, and that length
  is the one \<open>CoAP_GetRawSizeOfMessage\<close> computes beforehand, so the buffer that
  \<open>CoAP_SendMsg\<close> allocates from it is never overrun.\<close>

theorem build_datagram:
  assumes "msg_wf Msg" "length (encode_message Msg) < 65536"
  shows "\<exists>n buf Msg'. CoAP_BuildDatagram d Msg = (COAP_OK, n, buf, Msg') \<and>
    int (unat n) = CoAP_GetRawSizeOfMessage Msg \<and> bytes_at buf 0 (unat n) = encode_message Msg \<and>
    (\<forall>i \<ge> unat n. buf i = d i)"
proof -
  have n: "unat (of_nat (length (encode_message Msg)) :: u16) = length (encode_message Msg)"
    by (rule unat_of_nat16 [OF assms(2)])
  then have "uint (of_nat (length (encode_message Msg)) :: u16) = int (length (encode_message Msg))"
    by (simp add: uint_nat del: of_nat_unat)
  with n show ?thesis
    by (simp add: BuildDatagram_write [OF assms] RawSize_length [OF assms] write_at_outside)
qed

theorem build_datagram_witness:
  "\<exists>n buf Msg'. CoAP_BuildDatagram (\<lambda>_. 0) demo_msg = (COAP_OK, n, buf, Msg') \<and>
    int (unat n) = CoAP_GetRawSizeOfMessage demo_msg \<and> bytes_at buf 0 (unat n) = encode_message demo_msg \<and>
    (\<forall>i \<ge> unat n. buf i = 0)"
proof -
  show ?thesis using demo_msg_wf(1) build_datagram [of demo_msg "\<lambda>_. 0"] demo_length by simp
qed

section \<open>Message operations\<close>

text \<open>C6. Sending. For a message whose encoding fits into an allocator buffer and an interface with a
  transmit function, \<open>CoAP_SendMsg\<close> hands over exactly one packet whose data are the reference
  encoding and whose addresses are the local endpoint and the receiver, and reports the result of
  the transmit function; or, when the temporary buffer cannot be allocated, nothing is sent and
  the result is \<open>COAP_ERR_OUT_OF_MEMORY\<close>. In every case the heap is the same as before.\<close>

theorem send_exact_packet:
  assumes "bget_rep m h" "msg_wf Msg" "int (length (encode_message Msg)) \<le> MAX_REQ"
    "RetrieveSocket2 S i = Some k" "Tx (SocketMemory S ! k) = Some tx"
  shows "\<exists>res Msg' pk m'. CoAP_SendMsg bget_ops m now S buf pked Msg i Rcv = Some (res, Msg', pk, m') \<and> bget_rep m' h \<and>
    (case pk of
       None \<Rightarrow> res = COAP_ERR_OUT_OF_MEMORY \<and> Msg' = Msg
     | Some p \<Rightarrow> pData p = encode_message Msg \<and> unat (pk_size p) = length (encode_message Msg) \<and>
         Receiver p = Rcv \<and> Sender p = EpLocal (SocketMemory S ! k) \<and>
         res = (if tx i p then COAP_OK else COAP_ERR_NETWORK) \<and>
         Timestamp Msg' = (if tx i p then now else Timestamp Msg))"
proof (rule bget.send_msg [OF assms, where now = now and buf = buf and pked = pked and Rcv = Rcv])
  fix m' pk
  assume pk: "pk = packet_of pked (SocketMemory S ! k) Rcv Msg"
    and s: "CoAP_SendMsg bget_ops m now S buf pked Msg i Rcv =
         Some (if tx i pk then COAP_OK else COAP_ERR_NETWORK, sent_msg now (tx i pk) Msg, Some pk, m')"
      "bget_rep m' h" "mem_area bget_ops m' = mem_area bget_ops m"
  have "unat (pk_size pk) = length (encode_message Msg)"
    using assms(3) by (simp add: pk packet_of_def MAX_REQ_def unat_of_nat16)
  then show ?thesis
    using s pk by (simp add: packet_of_def sent_msg_def Let_def)
next
  fix m'
  assume "CoAP_SendMsg bget_ops m now S buf pked Msg i Rcv = Some (COAP_ERR_OUT_OF_MEMORY, Msg, None, m')" "bget_rep m' h"
  then show ?thesis by simp
qed

theorem send_exact_packet_witness:
  "\<exists>res Msg' pk m'. CoAP_SendMsg bget_ops demo_pool 7 demo_sockets (\<lambda>_. 0) demo_packet demo_msg 2 demo_ep = Some (res, Msg', pk, m') \<and>
    bget_rep m' Map.empty \<and>
    (case pk of
       None \<Rightarrow> res = COAP_ERR_OUT_OF_MEMORY \<and> Msg' = demo_msg
     | Some p \<Rightarrow> pData p = encode_message demo_msg \<and> unat (pk_size p) = length (encode_message demo_msg) \<and>
         Receiver p = demo_ep \<and> Sender p = EpLocal (SocketMemory demo_sockets ! 0) \<and>
         res = (if (\<lambda>_ _. True) (2::u8) p then COAP_OK else COAP_ERR_NETWORK) \<and>
         Timestamp Msg' = (if (\<lambda>_ _. True) (2::u8) p then 7 else Timestamp demo_msg))"
proof (rule send_exact_packet [OF demo_rep])
  show "msg_wf demo_msg" by (rule demo_msg_wf)
  show "int (length (encode_message demo_msg)) \<le> MAX_REQ" by (simp add: demo_length MAX_REQ_def)
qed (simp_all add: demo_socket)

text \<open>C32. Creating a message. If the initial content fits into the payload buffer, \<open>CoAP_CreateMessage\<close> returns a
  well-formed message with the given header fields, no options and the initial payload, which owns the new
  buffer, so that \<open>CoAP_free_Message\<close> restores the heap; or it returns \<open>NULL\<close> and the heap is unchanged, which
  happens only without a free buffer for it. If the initial content is longer than the payload buffer it
  returns \<open>NULL\<close>, but the check comes too late: the buffer that was allocated is lost.\<close>

theorem create_message_owned:
  assumes "bget_rep m h" "uint mx \<le> 32720" "unat n \<le> length bs"
  shows "\<exists>M m' h'. CoAP_CreateMessage bget_ops m ty code mid (Some bs) n mx tok = (M, m') \<and> bget_rep m' h' \<and>
    (case M of
       None \<Rightarrow> h' = h \<and> \<not> bget_room (uint mx + 56) m \<or> n > mx \<and> (\<exists>p. heap_ext h [p] h')
     | Some N \<Rightarrow> n \<le> mx \<and> msg_wf N \<and> Type N = ty \<and> Code N = code \<and> MessageID N = mid \<and> Token64 N = tok \<and>
         pOptionsList N = [] \<and> PayloadLength N = n \<and> (mx \<noteq> 0 \<longrightarrow> take (unat n) (PayloadData N) = take (unat n) bs) \<and>
         (\<exists>m''. CoAP_free_Message bget_ops m' (Some N) = (COAP_OK, None, m'') \<and> bget_rep m'' h))"
proof -
  let ?sz = "sizeof_CoAP_Message_t + uint mx"
  have max: "0 < ?sz" "?sz \<le> MAX_REQ" "s16 ?sz = ?sz"
    using assms(2) by (auto simp: sizeof_CoAP_Message_t_def MAX_REQ_def intro!: s16_id add_pos_nonneg)
  obtain p m1 where get: "coap_mem_get0 bget_ops m ?sz = (p, m1)" by fastforce
  have null: "p \<noteq> NULL" if "bget_room (uint mx + 56) m"
    using bget_space.room_get0 [OF _ max(1,2) _ get, of 0] that by (simp add: sizeof_CoAP_Message_t_def ROOM_COST_def add.commute)
  show ?thesis
  proof (cases "n \<le> mx")
    case True
    show ?thesis
    proof (rule bget.create_message [OF assms(1) max(2) True, of "Some bs" ty code mid tok])
      fix M m' h'
      assume ok: "CoAP_CreateMessage bget_ops m ty code mid (Some bs) n mx tok = (Some M, m')"
        "bget_rep m' h'" "msg_owned (mem_area bget_ops m') h M h'" "msg_wf M" "pOptionsList M = []"
        "Type M = ty" "Code M = code" "MessageID M = mid" "Token64 M = tok" "PayloadLength M = n"
        "mx \<noteq> 0 \<Longrightarrow> take (unat n) (PayloadData M) = (case Some bs of None \<Rightarrow> replicate (unat n) 0 | Some bs \<Rightarrow> take (unat n) bs)"
      obtain m'' where "CoAP_free_Message bget_ops m' (Some M) = (COAP_OK, None, m'')" "bget_rep m'' h"
        by (rule bget.free_message [OF ok(2,3)])
      with ok True show ?thesis by (intro exI [of _ "Some M"] exI [of _ m'] exI [of _ h']) simp
    next
      fix m'
      assume oom: "CoAP_CreateMessage bget_ops m ty code mid (Some bs) n mx tok = (None, m')" "bget_rep m' h"
      have "p = NULL" using oom(1) get max(3) True by (auto simp: CoAP_CreateMessage_def Let_def split: if_splits)
      with oom null show ?thesis by (intro exI [of _ None] exI [of _ m'] exI [of _ h]) auto
    qed (use assms(3) in simp)
  next
    case False
    then have c: "CoAP_CreateMessage bget_ops m ty code mid (Some bs) n mx tok = (None, m1)"
      using get max(3) by (simp add: CoAP_CreateMessage_def not_le)
    from assms(1) max(1,2) get show ?thesis
    proof (cases rule: bget.get0_cases)
      case fail
      with c null show ?thesis by (intro exI [of _ None] exI [of _ m1] exI [of _ h]) auto
    next
      case (ok l)
      have "heap_ext h [p] (h(p \<mapsto> l))" using heap_ext_alloc [of h "[]" h p l] ok(2) by simp
      with c ok(4) False show ?thesis by (intro exI [of _ None] exI [of _ m1] exI [of _ "h(p \<mapsto> l)"]) auto
    qed
  qed
qed

theorem create_message_owned_witness:
  "\<exists>N m'. CoAP_CreateMessage bget_ops demo_pool CON REQ_GET 9 (Some [1, 2, 3]) 2 64 0xAB = (Some N, m') \<and>
    PayloadLength N = 2 \<and> take 2 (PayloadData N) = [1, 2] \<and>
    (\<exists>m''. CoAP_free_Message bget_ops m' (Some N) = (COAP_OK, None, m'') \<and> bget_rep m'' Map.empty)"
  using create_message_owned [OF demo_rep, of 64 2 "[1, 2, 3]", where ty = CON and code = REQ_GET and mid = 9 and tok = "0xAB"] demo_room [of 120]
  by (auto simp del: CoAP_free_Message.simps split: option.splits)

lemma add_payload_header:
  "CoAP_addNewPayloadToMessage A m Msg data sz = Some (r, M, m1) \<Longrightarrow>
    Type M = Type Msg \<and> Code M = Code Msg \<and> MessageID M = MessageID Msg \<and> Token64 M = Token64 Msg"
  by (auto simp: CoAP_addNewPayloadToMessage_def CoAP_free_MsgPayload_def Let_def split: if_splits prod.splits)

text \<open>C31. Replacing the payload. More than 256 bytes are refused without any effect. Otherwise the payload is
  afterwards the given data, the header and the options are untouched and the message still owns exactly its
  buffers, so that an earlier payload buffer has been given back and \<open>CoAP_free_Message\<close> restores the
  heap. The only other outcome is the unchecked failure of the allocation of a new payload buffer, where the
  code copies to \<open>NULL\<close>.\<close>

theorem add_payload_owned:
  assumes "bget_rep m h'" "msg_owned (mem_area bget_ops m) h Msg h'" "unat sz \<le> length data"
  shows "if sz > 256 then CoAP_addNewPayloadToMessage bget_ops m Msg data sz = Some (COAP_ERR_OUT_OF_MEMORY, Msg, m)
    else case CoAP_addNewPayloadToMessage bget_ops m Msg data sz of
      None \<Rightarrow> PayloadBufSize Msg < sz \<and> fst (coap_mem_get bget_ops (snd (CoAP_free_MsgPayload bget_ops m Msg)) (uint sz)) = NULL
    | Some (r, M, m1) \<Rightarrow>
        r = COAP_OK \<and> PayloadLength M = sz \<and> take (unat sz) (PayloadData M) = take (unat sz) data \<and>
        pOptionsList M = pOptionsList Msg \<and> Type M = Type Msg \<and> Code M = Code Msg \<and> MessageID M = MessageID Msg \<and>
        Token64 M = Token64 Msg \<and>
        (\<exists>m''. CoAP_free_Message bget_ops m1 (Some M) = (COAP_OK, None, m'') \<and> bget_rep m'' h)"
proof (cases "sz > 256")
  case True
  then show ?thesis by (simp add: CoAP_addNewPayloadToMessage_def)
next
  case False
  show ?thesis
  proof (rule bget.add_payload [OF assms])
    fix M m1 h1
    assume ok: "CoAP_addNewPayloadToMessage bget_ops m Msg data sz = Some (COAP_OK, M, m1)"
        "bget_rep m1 h1" "msg_owned (mem_area bget_ops m1) h M h1" "PayloadLength M = sz"
        "take (unat sz) (PayloadData M) = take (unat sz) data" "pOptionsList M = pOptionsList Msg"
    obtain m'' where "CoAP_free_Message bget_ops m1 (Some M) = (COAP_OK, None, m'')" "bget_rep m'' h"
      by (rule bget.free_message [OF ok(2,3)])
    with ok add_payload_header [OF ok(1)] False show ?thesis by simp
  next
    assume oom: "CoAP_addNewPayloadToMessage bget_ops m Msg data sz = None" "PayloadBufSize Msg < sz"
    have "uint sz \<le> 256" using False by (simp add: word_less_def)
    then have "s16 (uint sz) = uint sz" using uint_ge_0 [of sz] by (intro s16_id) linarith+
    then show ?thesis using oom False
      by (auto simp: CoAP_addNewPayloadToMessage_def Let_def split: if_splits prod.splits)
  qed (use False in simp)
qed

theorem add_payload_owned_witness:
  "\<exists>m Msg h' M m1. bget_rep m h' \<and> msg_owned (mem_area bget_ops m) Map.empty Msg h' \<and>
    CoAP_addNewPayloadToMessage bget_ops m Msg [] 0 = Some (COAP_OK, M, m1) \<and> PayloadLength M = 0 \<and>
    (\<exists>m''. CoAP_free_Message bget_ops m1 (Some M) = (COAP_OK, None, m'') \<and> bget_rep m'' Map.empty) \<and>
    CoAP_addNewPayloadToMessage bget_ops m Msg (replicate 300 7) 300 = Some (COAP_ERR_OUT_OF_MEMORY, Msg, m)"
proof -
  obtain Msg m h where M: "bget_rep m h" "msg_owned (mem_area bget_ops m) Map.empty Msg h"
    using demo_message by metis
  then show ?thesis
    using add_payload_owned [OF M, of 0 "[]"] add_payload_owned [OF M, of 300 "replicate 300 7"]
    by (cases "CoAP_addNewPayloadToMessage bget_ops m Msg [] 0")
      (auto simp del: CoAP_free_Message.simps intro!: exI [of _ m] exI [of _ Msg])
qed

section \<open>Option lists\<close>

text \<open>C22. Inserting an option. On success the list keeps its order by option number, the new option
  stands behind all options with a number that is not greater (so repeated options keep the order
  in which they were added), nothing else changes, and the list owns one more buffer. When memory
  is exhausted the heap is unchanged and the list too, except that the pointer to a list whose
  first number is greater than the new one is lost.\<close>

theorem option_insertion:
  assumes "bget_rep m h'" "heap_ext h (opt_ptrs L) h'" "opts_wf L" "uint len \<le> 32736" "unat len \<le> length buf"
  shows "\<exists>r L' m'. CoAP_AppendOptionToList bget_ops m L n buf len = (r, L', m') \<and>
    (if r = COAP_OK then
       (\<exists>x h''. opt_view x = (n, take (unat len) buf) \<and>
         L' = takeWhile (\<lambda>p. Number p \<le> n) L @ x # dropWhile (\<lambda>p. Number p \<le> n) L \<and>
         opts_wf L' \<and> bget_rep m' h'' \<and> heap_ext h (opt_ptrs L') h'')
     else r = COAP_ERR_OUT_OF_MEMORY \<and> bget_rep m' h' \<and> (L' = L \<or> L' = [] \<and> n < Number (hd L)))"
proof -
  obtain r L' m' where app: "CoAP_AppendOptionToList bget_ops m L n buf len = (r, L', m')" by (metis prod_cases3)
  have len: "sizeof_CoAP_option_t + uint len \<le> MAX_REQ"
    using assms(4) by (simp add: sizeof_CoAP_option_t_def MAX_REQ_def)
  from assms(1) len app show ?thesis
  proof (cases rule: bget.append_spec)
    case fail
    then show ?thesis using app by auto
  next
    case (ok p k)
    let ?x = "fill_option p n buf len"
    have "heap_ext h (opt_ptrs L') (h'(p \<mapsto> k))" "opts_wf L'"
      using heap_ext_insert_option [OF assms(2), of ?x k] opts_wf_insert [OF assms(3), of ?x] ok(3,5) assms(5) by simp_all
    moreover have "opt_view ?x = (n, take (unat len) buf)" by (simp add: opt_view_def)
    ultimately show ?thesis
      using app ok(1,4,5) unfolding insert_option_def by fastforce
  qed
qed

theorem option_insertion_witness:
  "\<exists>r L' m'. CoAP_AppendOptionToList bget_ops demo_pool [] 11 [97, 98] 2 = (r, L', m') \<and>
    (if r = COAP_OK then
       (\<exists>x h''. opt_view x = (11, take (unat (2::u16)) [97, 98]) \<and>
         L' = takeWhile (\<lambda>p. Number p \<le> 11) [] @ x # dropWhile (\<lambda>p. Number p \<le> 11) [] \<and>
         opts_wf L' \<and> bget_rep m' h'' \<and> heap_ext Map.empty (opt_ptrs L') h'')
     else r = COAP_ERR_OUT_OF_MEMORY \<and> bget_rep m' Map.empty \<and> (L' = [] \<or> L' = [] \<and> 11 < Number (hd ([] :: CoAP_option_t list))))"
  by (rule option_insertion [OF demo_rep]) (simp_all add: opts_wf_def)

lemma filter_remove1:
  "distinct (map f L) \<Longrightarrow> x \<in> set L \<Longrightarrow> filter (\<lambda>y. f y \<noteq> f x) L = remove1 x L"
proof (induction L)
  case (Cons a L)
  show ?case
  proof (cases "a = x")
    case True
    then have "filter (\<lambda>y. f y \<noteq> f x) L = L" using distinct_map_hd [OF Cons.prems(1)] by (intro filter_True) blast
    with True show ?thesis by simp
  next
    case False
    then have "f a \<noteq> f x" using Cons.prems by force
    with False Cons show ?thesis by simp
  qed
qed simp

text \<open>Removing an option by its node and freeing a list. The removed option's buffer, and nothing
  else, goes back to the heap; the other options keep their order. Freeing the whole list gives
  back exactly its buffers.\<close>

lemma option_removal:
  assumes "bget_rep m h'" "heap_ext h (opt_ptrs L) h'" "x \<in> set L"
  shows "\<exists>L' m' h''. CoAP_RemoveOptionFromList bget_ops m L (opt_at x) = (COAP_OK, L', m') \<and>
    L' = remove1 x L \<and> bget_rep m' h'' \<and> heap_ext h (opt_ptrs L') h'' \<and>
    (\<exists>m''. CoAP_FreeOptionList bget_ops m' L' = (COAP_OK, [], m'') \<and> bget_rep m'' h)"
proof -
  have dist: "distinct (opt_ptrs L)" using assms(2) by (simp add: heap_ext_def)
  obtain k where k: "h' (opt_at x) = Some k" using heap_ext_live [OF assms(2), of "opt_at x"] assms(3) by auto
  have L': "filter (\<lambda>y. opt_at y \<noteq> opt_at x) L = remove1 x L"
    using dist assms(3) by (rule filter_remove1)
  have "mset L = mset (x # remove1 x L)" using assms(3) by simp
  then have perm: "mset (opt_ptrs L) = mset (opt_at x # opt_ptrs (remove1 x L))"
    by (metis list.simps(9) mset_map)
  then have "heap_ext h (opt_at x # opt_ptrs (remove1 x L)) h'"
    using assms(2) heap_ext_mset by blast
  then have ext: "heap_ext h (opt_ptrs (remove1 x L)) (h'(opt_at x := None))" by (rule heap_ext_free)
  have rep: "bget_rep (coap_mem_release bget_ops m (opt_at x)) (h'(opt_at x := None))"
    by (rule bget.release_law [OF assms(1) k])
  obtain m'' where "CoAP_FreeOptionList bget_ops (coap_mem_release bget_ops m (opt_at x)) (remove1 x L) = (COAP_OK, [], m'')"
    "bget_rep m'' h" by (rule bget.free_option_list [OF rep ext])
  moreover have "CoAP_RemoveOptionFromList bget_ops m L (opt_at x) =
      (COAP_OK, remove1 x L, coap_mem_release bget_ops m (opt_at x))"
    using RemoveOption_eq [OF dist, of bget_ops m "opt_at x"] assms(3) unfolding L' by simp
  ultimately show ?thesis using rep ext by blast
qed

text \<open>The check for critical options returns the number of the first option that is odd and not
  one of the six known numbers, and 0 exactly when there is none.\<close>

lemma critical_option_check:
  "CoAP_CheckForUnknownCriticalOption L =
     (case filter (\<lambda>n. odd n \<and> n \<notin> set KNOWN_OPTIONS) (map Number L) of [] \<Rightarrow> 0 | n # _ \<Rightarrow> n) \<and>
   (CoAP_CheckForUnknownCriticalOption L = 0 \<longleftrightarrow> (\<nexists>p. p \<in> set L \<and> odd (Number p) \<and> Number p \<notin> set KNOWN_OPTIONS))"
proof -
  have "CoAP_CheckForUnknownCriticalOption L =
     (case filter (\<lambda>n. odd n \<and> n \<notin> set KNOWN_OPTIONS) (map Number L) of [] \<Rightarrow> 0 | n # _ \<Rightarrow> n)"
    unfolding CheckForUnknownCriticalOption_find by (induction L) auto
  moreover have "CoAP_CheckForUnknownCriticalOption L = 0 \<longleftrightarrow> (\<nexists>p. p \<in> set L \<and> odd (Number p) \<and> Number p \<notin> set KNOWN_OPTIONS)"
    unfolding CheckForUnknownCriticalOption_find by (induction L) auto
  ultimately show ?thesis by blast
qed

section \<open>The option codec\<close>

text \<open>C19. The option codec. Packing a well-formed list of options, each of at most 1034 bytes, writes exactly the
  reference encoding (RFC 7252 deltas and lengths with their extended bytes), of the length that
  \<open>CoAP_NeededMem4PackOptions\<close> announces, and no other byte. With a payload put behind it, the parser reads
  the same options back, in order, and finds the payload behind the marker, unless memory is exhausted, which
  it is not while there is a free buffer of 28 bytes for each byte read. The exception is a payload
  behind an empty list: the parser refuses the marker in the place of the first option. In all cases the list
  it returns owns exactly the new buffers.\<close>

theorem options_roundtrip:
  assumes "bget_rep m h" "encodable L" "length (encode_options 0 L) + 1 + length pl < 65536"
  shows "\<exists>buf. pack_OptionsFromList d L = (COAP_OK, CoAP_NeededMem4PackOptions L, buf) \<and>
    bytes_at buf 0 (unat (CoAP_NeededMem4PackOptions L)) = encode_options 0 L \<and>
    (\<forall>i \<ge> unat (CoAP_NeededMem4PackOptions L). buf i = d i) \<and>
    (\<exists>r b L' m' h'. parse_OptionsFromRaw bget_ops m (write_at buf (unat (CoAP_NeededMem4PackOptions L)) (encode_payload pl))
        (CoAP_NeededMem4PackOptions L + of_nat (length (encode_payload pl))) [] = Some (r, b, L', m') \<and>
      bget_rep m' h' \<and> heap_ext h (opt_ptrs L') h' \<and>
      (if L = [] \<and> pl \<noteq> [] then r = COAP_PARSE_MESSAGE_FORMAT_ERROR \<and> L' = []
       else r = COAP_OK \<and> map opt_view L' = map opt_view L \<and>
           b = (if pl = [] then None else Some (unat (CoAP_NeededMem4PackOptions L) + 1)) \<or>
         r = COAP_ERR_OUT_OF_MEMORY \<and> \<not> bget_room (28 * int (length (encode_options 0 L @ encode_payload pl))) m))"
proof -
  let ?e = "encode_options 0 L"
  let ?src = "write_at (write_at d 0 ?e) (length ?e) (encode_payload pl)"
  have wf: "list_all opt_wf L" using assms(2) by (simp add: encodable_def opts_wf_def)
  have n: "CoAP_NeededMem4PackOptions L = of_nat (length ?e)" by (rule NeededMem_length [OF wf])
  have un: "unat (CoAP_NeededMem4PackOptions L) = length ?e" unfolding n by (rule unat_of_nat16) (use assms(3) in simp)
  have pack: "pack_OptionsFromList d L = (COAP_OK, CoAP_NeededMem4PackOptions L, write_at d 0 ?e)"
    unfolding n by (rule pack_OptionsFromList_write [OF wf]) (use assms(3) in simp)
  let ?len = "CoAP_NeededMem4PackOptions L + of_nat (length (encode_payload pl))"
  have total: "unat ?len = length ?e + length (encode_payload pl)"
    unfolding n of_nat_add [symmetric] by (rule unat_of_nat16) (use assms(3) in \<open>simp add: encode_payload_def\<close>)
  let ?b = "if pl = [] then None else Some (length ?e + 1)"
  have "\<exists>r b L' m' h'. parse_OptionsFromRaw bget_ops m ?src ?len [] = Some (r, b, L', m') \<and>
      bget_rep m' h' \<and> heap_ext h (opt_ptrs L') h' \<and>
      (if L = [] \<and> pl \<noteq> [] then r = COAP_PARSE_MESSAGE_FORMAT_ERROR \<and> L' = []
       else r = COAP_OK \<and> map opt_view L' = map opt_view L \<and> b = ?b \<or>
         r = COAP_ERR_OUT_OF_MEMORY \<and> \<not> bget_room (28 * int (length (?e @ encode_payload pl))) m)"
  proof (cases "L = []")
    case True
    have "?len = 0 \<longleftrightarrow> pl = []" using total True unfolding unat_eq_zero [symmetric] by (simp add: encode_payload_def)
    then have "parse_OptionsFromRaw bget_ops m ?src ?len [] = Some (if pl = [] then COAP_OK else COAP_PARSE_MESSAGE_FORMAT_ERROR, None, [], m)"
      using True by (auto simp: parse_OptionsFromRaw_def encode_payload_def write_at_def)
    then show ?thesis using True assms(1) by auto
  next
    case False
    have src: "?src = write_at d 0 (?e @ encode_payload pl)" using write_at_append [of d 0 ?e "encode_payload pl"] by simp
    have bytes: "bytes_at ?src 0 (length ?e) = ?e"
      unfolding src by (rule nth_equalityI) (simp_all add: write_at_def nth_append)
    have last: "options_end ?src ?len (length ?e) ?b"
      unfolding options_end_def total by (simp add: encode_payload_def write_at_def neq_Nil_conv)
    have fits: "length ?e \<le> unat ?len" unfolding total by simp
    obtain r b L' m' h' where p: "parse_OptionsFromRaw bget_ops m ?src ?len [] = Some (r, b, L', m')" "bget_rep m' h'"
      "heap_ext h (opt_ptrs L') h'" "r = COAP_OK \<and> b = ?b \<and> map opt_view L' = map opt_view L \<or> r = COAP_ERR_OUT_OF_MEMORY"
      by (rule bget.parse_options_encoded [OF assms(1,2) False bytes fits last])
    have "r \<noteq> COAP_ERR_OUT_OF_MEMORY" if room: "bget_room (28 * int (unat ?len)) m"
    proof -
      have "unat ?len \<le> 65531" using bget_room_small [OF room] by linarith
      then have "?len \<le> 65531" by (simp add: word_le_nat_alt)
      then show ?thesis using bget_space.parse_options_room [of ?len 0 m ?src r b L' m'] room p(1) by simp
    qed
    with p False show ?thesis unfolding length_append total [symmetric] by auto
  qed
  moreover have "bytes_at (write_at d 0 ?e) 0 (length ?e) = ?e" "\<forall>i \<ge> length ?e. write_at d 0 ?e i = d i"
    by (simp_all add: write_at_outside)
  ultimately show ?thesis unfolding un using pack by (intro exI [of _ "write_at d 0 ?e"] conjI)
qed

theorem options_roundtrip_witness:
  "\<exists>buf. pack_OptionsFromList (\<lambda>_. 0) (pOptionsList demo_msg) = (COAP_OK, CoAP_NeededMem4PackOptions (pOptionsList demo_msg), buf) \<and>
    (\<exists>b L' m'. parse_OptionsFromRaw bget_ops demo_pool
        (write_at buf (unat (CoAP_NeededMem4PackOptions (pOptionsList demo_msg))) (encode_payload [1, 2, 3]))
        (CoAP_NeededMem4PackOptions (pOptionsList demo_msg) + of_nat (length (encode_payload [1, 2, 3]))) [] = Some (COAP_OK, b, L', m') \<and>
      map opt_view L' = map opt_view (pOptionsList demo_msg))"
proof -
  have l: "length (encode_options 0 (pOptionsList demo_msg)) = 29" by code_simp
  have demo_options: "(pOptionsList demo_msg = []) = False" by (simp add: demo_msg_def)
  have "length (encode_options 0 (pOptionsList demo_msg)) + 1 + length [1, 2, 3 :: u8] < 65536" using l by simp
  from options_roundtrip [OF demo_rep demo_msg_wf(2) this, of "\<lambda>_. 0"] show ?thesis
    using demo_room [of "28 * int (length (encode_options 0 (pOptionsList demo_msg) @ encode_payload [1, 2, 3]))"] l demo_options
    by (auto simp: encode_payload_def)
qed

text \<open>C35. The option parser ends on every input of up to 65531 bytes, whatever the bytes are and
  however the allocator behaves.\<close>

theorem parse_options_terminates:
  assumes "srcLength \<le> 65531"
  shows "\<exists>r. parse_OptionsFromRaw A m srcArr srcLength L = Some r"
  unfolding parse_OptionsFromRaw_def
  using parse_loop_terminates [OF assms, of 0 "Suc (unat srcLength)" A m srcArr 0 L] by auto

theorem parse_options_terminates_witness:
  "\<exists>r. parse_OptionsFromRaw bget_ops demo_pool demo_bytes 500 [] = Some r"
  by (rule parse_options_terminates) simp

section \<open>Endpoints and sockets\<close>

text \<open>Two endpoints with full address fields are equal for the stack exactly when type and port
  agree and the significant address bytes agree: four for IPv4, all sixteen otherwise.\<close>

lemma endpoint_equality:
  assumes "length (NetAddr a) = 16" "length (NetAddr b) = 16"
  shows "EpAreEqual (Some a) (Some b) \<longleftrightarrow> NetType a = NetType b \<and> NetPort a = NetPort b \<and>
    (if NetType a = IPV4 then take 4 (NetAddr a) = take 4 (NetAddr b) else NetAddr a = NetAddr b)"
  using ep_eq_iff [of a b] assms by (auto simp: ep_wf_def ep_key_def)

text \<open>C39. Opening an interface, for any socket pool, whether it has been initialised or not (the first allocation
  marks all slots dead). A number that a live socket has gives \<open>NULL\<close> and changes nothing; a pool
  without a dead slot gives \<open>NULL\<close> too. Otherwise the first dead slot, and no other one, is changed: it
  becomes a live socket with that number, the packet handler as receive callback, the given transmit function and
  the local IPv4 port 5683. From then on it is found under its number, and every other number is looked up
  as before.\<close>

theorem create_interface:
  "let mem = (if initDone S then SocketMemory S else map (\<lambda>s. s\<lparr>Alive := False\<rparr>) (SocketMemory S))
   in case CoAP_CreateInterfaceSocket tx S i of
      (None, S') \<Rightarrow> RetrieveSocket2 S i \<noteq> None \<and> S' = S \<or>
        RetrieveSocket2 S i = None \<and> list_all Alive mem \<and> SocketMemory S' = mem \<and> initDone S'
    | (Some k, S') \<Rightarrow> RetrieveSocket2 S i = None \<and> k < length mem \<and> \<not> Alive (mem ! k) \<and> list_all Alive (take k mem) \<and>
        (\<exists>s. SocketMemory S' = mem[k := s] \<and> initDone S' \<and> Alive s \<and> ifID s = i \<and>
          RxCB s = RxCB_CoAP_onNewPacketHandler \<and> Tx s = Some tx \<and> NetType (EpLocal s) = IPV4 \<and> NetPort (EpLocal s) = 5683) \<and>
        RetrieveSocket2 S' i = Some k \<and>
        (\<forall>j. j \<noteq> i \<longrightarrow> RetrieveSocket2 S' j = RetrieveSocket2 (S\<lparr>SocketMemory := mem\<rparr>) j)"
proof (cases "RetrieveSocket2 S i")
  case (Some k)
  then show ?thesis by (simp add: CoAP_CreateInterfaceSocket_def)
next
  case None
  define T where "T = init_sockets S"
  have T: "(if initDone S then SocketMemory S else map (\<lambda>s. s\<lparr>Alive := False\<rparr>) (SocketMemory S)) = SocketMemory T" "initDone T"
    by (simp_all add: T_def init_sockets_def)
  have free: "RetrieveSocket2 T i = None" using None
    by (auto simp: T_def init_sockets_def RetrieveSocket2_def find_socket_None list_all_iff)
  have other: "RetrieveSocket2 (S\<lparr>SocketMemory := SocketMemory T\<rparr>) j = RetrieveSocket2 T j" for j
    by (simp add: RetrieveSocket2_def)
  show ?thesis
  proof (cases "find_socket (\<lambda>s. Alive s = False) (SocketMemory T) 0")
    case nofree: None
    then have "list_all Alive (SocketMemory T)" by (simp add: find_socket_None)
    with nofree None T(2) show ?thesis unfolding Let_def T(1)
      by (simp add: CoAP_CreateInterfaceSocket_def AllocSocket_def T_def [symmetric])
  next
    case (Some k)
    then have k: "k < length (SocketMemory T)" "\<not> Alive (SocketMemory T ! k)" "list_all Alive (take k (SocketMemory T))"
      using find_socket_Some [OF Some] find_socket_first [OF Some] by auto
    let ?s = "(SocketMemory T ! k)\<lparr>EpLocal := (EpLocal (SocketMemory T ! k))\<lparr>NetType := IPV4, NetPort := 5683\<rparr>, ifID := i,
      RxCB := RxCB_CoAP_onNewPacketHandler, Tx := Some tx, Alive := True\<rparr>"
    have c: "CoAP_CreateInterfaceSocket tx S i = (Some k, T\<lparr>SocketMemory := (SocketMemory T)[k := ?s]\<rparr>)"
      using None Some by (simp add: CoAP_CreateInterfaceSocket_def AllocSocket_def Let_def T_def [symmetric])
    show ?thesis
      unfolding Let_def T(1) c other using RetrieveSocket2_open [OF free k(1,2), of ?s] k None T(2)
      by (auto intro!: exI [of _ ?s])
  qed
qed

text \<open>The first interface of a pool that has not been initialised.\<close>

theorem create_interface_witness:
  "\<exists>S'. CoAP_CreateInterfaceSocket (\<lambda>_ _. False) demo_raw_sockets 7 = (Some 0, S') \<and> \<not> initDone demo_raw_sockets \<and>
    RetrieveSocket2 S' 7 = Some 0 \<and> RetrieveSocket2 S' 2 = None \<and> Tx (SocketMemory S' ! 0) = Some (\<lambda>_ _. False)"
proof -
  have five: "replicate 5 s = [s, s, s, s, s]" for s :: NetSocket_t by (simp add: numeral_eq_Suc)
  obtain k S' where c: "CoAP_CreateInterfaceSocket (\<lambda>_ _. False) demo_raw_sockets 7 = (k, S')" by fastforce
  have "case k of None \<Rightarrow> False | Some k \<Rightarrow> list_all Alive (take k (replicate 5 (SocketMemory demo_raw_sockets ! 0)))"
    using create_interface [where S = demo_raw_sockets and tx = "\<lambda>_ _. False" and i = 7] unfolding c
    by (auto simp: demo_raw_sockets_def RetrieveSocket2_def Let_def map_replicate find_socket_None list_all_iff split: option.splits)
  then have "k = Some 0" by (cases k; cases "the k") (auto simp: demo_raw_sockets_def)
  then show ?thesis using create_interface [where S = demo_raw_sockets and tx = "\<lambda>_ _. False" and i = 7] unfolding c
    by (auto simp: demo_raw_sockets_def RetrieveSocket2_def Let_def five)
qed

end
