(* ===== verification/Option_Properties.thy ===== *)
theory Option_Properties
  imports Examples Option_Types_Correct
begin

text \<open>
  Properties of the typed options: the ETag, Observe and Block options are read back as they were
  written, and a representation that is served block by block arrives complete.
\<close>

section \<open>A successful insertion\<close>

lemma demo_append:
  assumes "uint len \<le> 900"
  obtains msg' m' where "append_to_msg bget_ops demo_pool msg n buf len = (COAP_OK, msg', m')"
proof -
  let ?k = "sizeof_CoAP_option_t + uint len"
  have k: "0 < ?k" "?k \<le> 1024" "s16 ?k = ?k"
    using assms uint_ge_0 [of len] by (simp_all add: sizeof_CoAP_option_t_def add_pos_nonneg s16_id)
  obtain p k m' where "coap_mem_get bget_ops demo_pool ?k = (p, m')" "p \<noteq> NULL"
    by (rule demo_get [OF k(1,2)])
  then show thesis using that k(3) by (simp add: append_to_msg_eq)
qed

section \<open>Round trips\<close>

text \<open>A 64-bit entity tag that was added to a message without one is read back unchanged, for
  every value.\<close>

lemma etag_option_roundtrip:
  assumes "Add64BitETagOptionToMsg A m msg val = (COAP_OK, msg', m')" "OPT_NUM_ETAG \<notin> Number ` set (pOptionsList msg)"
  shows "Get64BitETagOptionFromMsg msg' = (COAP_OK, Some val)"
  using etag64_roundtrip [OF assms(1)] assms(2) by (simp add: opt_find_none_iff)

text \<open>C38. An Observe sequence number is read back modulo \<open>2 ^ 24\<close>, the width of the option; smaller
  values are unchanged.\<close>

theorem observe_option_roundtrip:
  assumes "AddObserveOptionToMsg A m msg val = (COAP_OK, msg', m')" "OPT_NUM_OBSERVE \<notin> Number ` set (pOptionsList msg)"
  shows "\<exists>v. GetObserveOptionFromMsg msg' = (COAP_OK, v) \<and> unat v = unat val mod 2 ^ 24"
proof -
  have "unat (take_bit 24 val) = unat val mod 2 ^ 24"
    by (simp only: unsigned_take_bit_eq) (simp add: take_bit_eq_mod)
  then show ?thesis
    using observe_roundtrip [OF assms(1)] assms(2) by (simp add: opt_find_none_iff)
qed

theorem observe_option_roundtrip_witness:
  "\<exists>msg' m'. AddObserveOptionToMsg bget_ops demo_pool demo_msg 0x1000203 = (COAP_OK, msg', m') \<and>
    (\<exists>v. GetObserveOptionFromMsg msg' = (COAP_OK, v) \<and> unat v = unat (0x1000203 :: u32) mod 2 ^ 24)"
proof -
  obtain msg' m' where "append_to_msg bget_ops demo_pool demo_msg OPT_NUM_OBSERVE [0, 2, 3] 3 = (COAP_OK, msg', m')"
    by (rule demo_append [of 3]) simp_all
  then have add: "AddObserveOptionToMsg bget_ops demo_pool demo_msg 0x1000203 = (COAP_OK, msg', m')"
    by (simp add: AddObserveOptionToMsg_def)
  have "OPT_NUM_OBSERVE \<notin> Number ` set (pOptionsList demo_msg)" by (simp add: demo_msg_def demo_opt_def)
  from add observe_option_roundtrip [OF add this] show ?thesis by blast
qed

text \<open>C36. A Block option with one of the seven block sizes and a block number below \<open>2 ^ 20\<close> is read
  back with the same type, size, number and more flag.\<close>

theorem block_option_roundtrip:
  assumes "AddBlkOptionToMsg A m msg B = (COAP_OK, msg', m')" "BlkType B \<notin> Number ` set (pOptionsList msg)"
    "BlockSize B \<in> {16, 32, 64, 128, 256, 512, 1024}" "BlockNum B < 0x100000"
  shows "GetBlockOptionFromList (pOptionsList msg') (BlkType B) B0 = (COAP_OK, B)"
  using block_roundtrip [OF assms(1) _ _ assms(4)] assms(2,3) by (simp add: opt_find_none_iff BLOCK_SIZES_def)

theorem block_option_roundtrip_witness:
  "\<exists>msg' m'. AddBlkOptionToMsg bget_ops demo_pool demo_msg \<lparr>BlkType = BLOCK_2, BlockSize = 64, MoreFlag = True, BlockNum = 300\<rparr>
      = (COAP_OK, msg', m') \<and>
    GetBlockOptionFromList (pOptionsList msg') (BlkType \<lparr>BlkType = BLOCK_2, BlockSize = 64, MoreFlag = True, BlockNum = 300\<rparr>)
      \<lparr>BlkType = 0, BlockSize = 0, MoreFlag = False, BlockNum = 0\<rparr> =
      (COAP_OK, \<lparr>BlkType = BLOCK_2, BlockSize = 64, MoreFlag = True, BlockNum = 300\<rparr>)"
proof -
  let ?B = "\<lparr>BlkType = BLOCK_2, BlockSize = 64, MoreFlag = True, BlockNum = 300\<rparr>"
  have v: "blk_value ?B = 4810" by code_simp
  obtain msg' m' where "append_to_msg bget_ops demo_pool demo_msg BLOCK_2 [18, 202] 2 = (COAP_OK, msg', m')"
    by (rule demo_append [of 2]) simp_all
  then have add: "AddBlkOptionToMsg bget_ops demo_pool demo_msg ?B = (COAP_OK, msg', m')"
    by (simp add: AddBlkOptionToMsg_def v [unfolded BLOCK_2_def] Let_def)
  have "BlkType ?B \<notin> Number ` set (pOptionsList demo_msg)" by (simp add: demo_msg_def demo_opt_def)
  from add block_option_roundtrip [OF add this, of "\<lparr>BlkType = 0, BlockSize = 0, MoreFlag = False, BlockNum = 0\<rparr>"] show ?thesis by simp
qed

text \<open>C37. Whatever bytes a Block option has, an accepted option has one of the seven block sizes and a
  block number below \<open>2 ^ 20\<close>, so that position \<open>size * number\<close> fits into 31 bits.\<close>

theorem block_option_bounds:
  assumes "GetBlockOptionFromList L ty B0 = (COAP_OK, B)"
  shows "BlkType B = ty \<and> BlockSize B \<in> {16, 32, 64, 128, 256, 512, 1024} \<and> unat (BlockNum B) < 2 ^ 20 \<and>
    unat (BlockSize B * BlockNum B) = unat (BlockSize B) * unat (BlockNum B) \<and> unat (BlockSize B * BlockNum B) < 2 ^ 31"
proof -
  have r: "BlockSize B \<in> set BLOCK_SIZES" "unat (BlockNum B) < 2 ^ 20" using GetBlock_range [OF assms] by simp_all
  then have "unat (BlockSize B) \<le> 1024" by (auto simp: BLOCK_SIZES_def)
  then have "unat (BlockSize B) * unat (BlockNum B) \<le> 1024 * (2 ^ 20 - 1)"
    using r(2) by (intro mult_le_mono) simp_all
  then have b: "unat (BlockSize B) * unat (BlockNum B) < 2 ^ 31" by simp
  then have "unat (BlockSize B * BlockNum B) = unat (BlockSize B) * unat (BlockNum B)"
    by (simp add: unat_word_ariths)
  moreover have "BlkType B = ty"
    using assms by (induction L ty B0 rule: GetBlockOptionFromList.induct) (auto simp: Let_def split: if_splits)
  ultimately show ?thesis using r b by (simp add: BLOCK_SIZES_def)
qed

theorem block_option_bounds_witness:
  "\<exists>B. GetBlockOptionFromList [demo_opt 23 [0x12, 0xCA]] 23 \<lparr>BlkType = 0, BlockSize = 0, MoreFlag = False, BlockNum = 0\<rparr> = (COAP_OK, B) \<and>
    BlkType B = 23 \<and> BlockSize B \<in> {16, 32, 64, 128, 256, 512, 1024} \<and> unat (BlockNum B) < 2 ^ 20 \<and>
    unat (BlockSize B * BlockNum B) = unat (BlockSize B) * unat (BlockNum B) \<and> unat (BlockSize B * BlockNum B) < 2 ^ 31"
proof -
  have g: "GetBlockOptionFromList [demo_opt 23 [0x12, 0xCA]] 23 \<lparr>BlkType = 0, BlockSize = 0, MoreFlag = False, BlockNum = 0\<rparr> =
    (COAP_OK, \<lparr>BlkType = 23, BlockSize = 64, MoreFlag = True, BlockNum = 300\<rparr>)" by code_simp
  from g block_option_bounds [OF g] show ?thesis by blast
qed

section \<open>Block-wise transfer\<close>

text \<open>C7. Reassembly. A client that asks for the blocks 0 to \<open>K - 1\<close> of a representation with one block
  size, however the response messages and the allocator look for each of them, receives payloads
  whose concatenation is exactly the representation, provided that the requested blocks cover it
  and every response is produced (the only failure is the unchecked allocation for the payload).\<close>

theorem blockwise_reassembly:
  assumes "length data < 65536" "sz * (K - 1) < length data" "length data \<le> sz * K"
    and "\<forall>k < K. block_of (req k) = Some (B k) \<and> used_size (B k) = sz \<and> unat (BlockNum (B k)) = k"
    and "\<forall>k < K. pp \<noteq> Payload (resp k)"
    and "\<forall>k < K. CoAP_SetPayload A (mm k) (Some (req k)) (resp k) pp data (of_nat (length data)) vol = Some (r k, resp' k, m' k)"
  shows "concat (map (\<lambda>k. take (unat (PayloadLength (resp' k))) (PayloadData (resp' k))) [0..<K]) = data \<and> (\<forall>k < K. r k = COAP_OK)"
proof -
  have blk: "r k = COAP_OK \<and> take (unat (PayloadLength (resp' k))) (PayloadData (resp' k)) = block_slice sz k data" if k: "k < K" for k
  proof -
    have "sz * k \<le> sz * (K - 1)" using k by (intro mult_le_mono2) simp
    from le_less_trans [OF this assms(2)]
    have "used_size (B k) * unat (BlockNum (B k)) < length data" using assms(4) k by simp
    then show ?thesis
      using set_payload_slice [of "req k" "B k" data pp "resp k" A "mm k" vol "r k" "resp' k" "m' k"] assms(1,4-6) k by simp
  qed
  then have c: "map (\<lambda>k. take (unat (PayloadLength (resp' k))) (PayloadData (resp' k))) [0..<K] = map (\<lambda>k. block_slice sz k data) [0..<K]"
    by simp
  show ?thesis unfolding c concat_block_slices using assms(3) blk by simp
qed

text \<open>Forty bytes in blocks of sixteen, from memory that need not be copied.\<close>

definition demo_req :: "nat \<Rightarrow> CoAP_Message_t" where
  "demo_req k = demo_msg\<lparr>pOptionsList := [demo_opt 23 [of_nat (16 * k)]]\<rparr>"

definition demo_block :: "nat \<Rightarrow> CoAP_blockwise_option_t" where
  "demo_block k = \<lparr>BlkType = BLOCK_2, BlockSize = 16, MoreFlag = False, BlockNum = of_nat k\<rparr>"

definition demo_answer :: "nat \<Rightarrow> (CoAP_Result_t \<times> CoAP_Message_t \<times> bget_state) option" where
  "demo_answer k = CoAP_SetPayload bget_ops demo_pool (Some (demo_req k)) demo_msg 8 (map of_nat [0..<40]) (of_nat 40) False"

lemma demo_blocks:
  assumes "k < 3"
  shows "block_of (demo_req k) = Some (demo_block k)" "used_size (demo_block k) = 16" "unat (BlockNum (demo_block k)) = k"
    "demo_answer k \<noteq> None"
proof -
  consider "k = 0" | "k = 1" | "k = 2" using assms by linarith
  then show blk: "block_of (demo_req k) = Some (demo_block k)"
    by cases (simp_all, code_simp+)
  show us: "used_size (demo_block k) = 16" "unat (BlockNum (demo_block k)) = k"
    using assms by (simp_all add: used_size_def demo_block_def unat_of_nat)
  have pos: "used_size (demo_block k) * unat (BlockNum (demo_block k)) < length (map of_nat [0..<40] :: u8 list)"
    using us assms by simp
  show "demo_answer k \<noteq> None"
    unfolding demo_answer_def
    using set_payload_block2 [OF blk _ _ refl pos refl, of 8 demo_msg bget_ops demo_pool False]
    by (simp add: use_payload_def Let_def demo_msg_def CoAP_InitToEmptyResetMsg_def split: prod.splits)
qed

theorem blockwise_reassembly_witness:
  "concat (map (\<lambda>k. take (unat (PayloadLength (fst (snd (the (demo_answer k)))))) (PayloadData (fst (snd (the (demo_answer k)))))) [0..<3])
     = map of_nat [0..<40] \<and> map (\<lambda>k. fst (the (demo_answer k))) [0..<3] = [COAP_OK, COAP_OK, COAP_OK]"
proof -
  let ?d = "map of_nat [0..<40] :: u8 list"
  have b: "\<forall>k < 3. block_of (demo_req k) = Some (demo_block k) \<and> used_size (demo_block k) = 16 \<and> unat (BlockNum (demo_block k)) = k"
    using demo_blocks by simp
  have p: "\<forall>k < (3::nat). (8 :: ptr) \<noteq> Payload demo_msg" by (simp add: demo_msg_def CoAP_InitToEmptyResetMsg_def)
  have a: "\<forall>k < 3. CoAP_SetPayload bget_ops demo_pool (Some (demo_req k)) demo_msg 8 ?d (of_nat (length ?d)) False =
      Some (fst (the (demo_answer k)), fst (snd (the (demo_answer k))), snd (snd (the (demo_answer k))))"
    using demo_blocks(4) by (fastforce simp: demo_answer_def)
  have l: "length ?d < 65536" "16 * (3 - 1) < length ?d" "length ?d \<le> 16 * 3" by simp_all
  note re = blockwise_reassembly [OF l b p a]
  show ?thesis using re by (simp add: upt_rec)
qed






text \<open>A Block2 option with the size exponent 7, which the source says must lead to 4.00, is treated as if it was not
  there: the answer is the first 256 bytes with result \<open>COAP_OK\<close>.\<close>

lemma malformed_block_ignored:
  assumes "opt_find BLOCK_2 (pOptionsList req) = Some p" "Length p = 1" "Value p ! 0 AND 7 = 7"
    and "data \<noteq> []" "length data < 65536" "pp \<noteq> Payload resp"
    and "CoAP_SetPayload A m (Some req) resp pp data (of_nat (length data)) vol = Some (r, resp', m')"
  shows "r = COAP_OK" "take (unat (PayloadLength resp')) (PayloadData resp') = take 256 data"
proof -
  have "(ucast (Value p ! 0) :: u32) AND 7 = ucast (Value p ! 0 AND 7)" by (rule bit_word_eqI) (auto simp: bit_simps dest: bit_imp_le_length)
  then have "(ucast (Value p ! 0) :: u32) AND 7 = 7" using assms(3) by simp
  then have "fst (GetBlockOptionFromList L BLOCK_2 B) = COAP_PARSE_MESSAGE_FORMAT_ERROR" if "opt_find BLOCK_2 L = Some p" for L B
    using that assms(2) by (induction L) (auto split: if_splits)
  from this [OF assms(1)] have "block_of req = None"
    by (auto simp: block_of_def GetBlock2OptionFromMsg_def split: prod.splits) (metis CoAP_Result_t.distinct fst_conv)
  from set_payload_first [OF this assms(4-7)]
  show "r = COAP_OK" "take (unat (PayloadLength resp')) (PayloadData resp') = take 256 data" by simp_all
qed

text \<open>Removing all Block options of a type, however often the loop starts again, leaves exactly the
  other options in their order, gives the buffers of the removed ones back and says whether there
  was one.\<close>

lemma remove_all_block_options:
  assumes "bget_rep m h'" "heap_ext h (opt_ptrs (pOptionsList msg)) h'"
  shows "\<exists>m' h''. RemoveAllBlockOptionsFromMsg bget_ops m msg ty =
      (if ty \<in> Number ` set (pOptionsList msg) then COAP_OK else COAP_NOT_FOUND,
       msg\<lparr>pOptionsList := filter (\<lambda>p. Number p \<noteq> ty) (pOptionsList msg)\<rparr>, m') \<and>
    bget_rep m' h'' \<and> heap_ext h (opt_ptrs (filter (\<lambda>p. Number p \<noteq> ty) (pOptionsList msg))) h''"
proof -
  let ?L = "pOptionsList msg"
  let ?ps = "opt_ptrs (filter (\<lambda>p. Number p = ty) ?L)" and ?qs = "opt_ptrs (filter (\<lambda>p. Number p \<noteq> ty) ?L)"
  have dist: "distinct (opt_ptrs ?L)" using assms(2) by (simp add: heap_ext_def)
  have "mset (opt_ptrs L) = mset (opt_ptrs (filter (\<lambda>p. Number p = ty) L) @ opt_ptrs (filter (\<lambda>p. Number p \<noteq> ty) L))" for L
    by (induction L) auto
  then have "heap_ext h (?ps @ ?qs) h'" using assms(2) heap_ext_mset by blast
  then obtain h'' where h'': "heap_ext h ?qs h''" "heap_ext h'' ?ps h'" by (auto simp: heap_ext_append)
  then have "bget_rep (foldl (coap_mem_release bget_ops) m ?ps) h''" using bget.release_ext [OF assms(1)] by blast
  with h''(1) show ?thesis
    by (auto simp: RemoveAllBlockOptionsFromMsg_def remove_blocks_eq [OF dist])
qed

end
