(* ===== verification/Resource_NV.thy ===== *)
theory Resource_NV
  imports Resource
begin

text \<open>
  Saving and loading the observers, \<open>CoAP_NVsaveObservers\<close> and \<open>CoAP_NVloadObservers\<close> of
  \<open>coap_resource.c\<close>. Each observer becomes one list of options in the format of the wire, closed by
  a payload marker: the endpoint in Uri-Host, the interface in Uri-Port, the path of the resource,
  the options of the observer, and the token. The non volatile memory itself belongs to the
  platform: the bytes handed to \<open>hal_nonVolatile_WriteBuf\<close> are a result, the memory behind
  \<open>hal_nonVolatile_GetBufPtr\<close> an argument (\<open>None\<close> for \<open>NULL\<close>).
\<close>

section \<open>Memory images\<close>

definition sizeof_NetEp_t :: nat where [simp]: "sizeof_NetEp_t = 24"

definition NetType_code :: "NetInterfaceType_t \<Rightarrow> u8" where
  "NetType_code t = (case t of IPV6 \<Rightarrow> 0 | IPV4 \<Rightarrow> 1 | BTLE \<Rightarrow> 2 | UART \<Rightarrow> 3)"

text \<open>An endpoint as it lies in memory: the enumeration as a 4-byte integer, the address, the port,
  two bytes of padding; all integers have their low byte first.\<close>

definition ep_bytes :: "NetEp_t \<Rightarrow> u8 list" where
  "ep_bytes ep = [NetType_code (NetType ep), 0, 0, 0] @ NetAddr ep @
     [ucast (NetPort ep), ucast (drop_bit 8 (NetPort ep)), 0, 0]"

text \<open>The copy of such bytes into an endpoint. A number that is not in the enumeration has no
  defined meaning.\<close>

definition ep_of_bytes :: "u8 list \<Rightarrow> NetEp_t option" where
  "ep_of_bytes bs =
     (let mk = (\<lambda>t. Some \<lparr>NetType = t, NetAddr = take 16 (drop 4 bs),
                   NetPort = ucast (bs ! 20) OR push_bit 8 (ucast (bs ! 21))\<rparr>)
      in if length bs < sizeof_NetEp_t \<or> take 3 (drop 1 bs) \<noteq> [0, 0, 0] then None
         else if bs ! 0 = 0 then mk IPV6 else if bs ! 0 = 1 then mk IPV4
         else if bs ! 0 = 2 then mk BTLE else if bs ! 0 = 3 then mk UART else None)"

definition token_bytes :: "u64 \<Rightarrow> u8 list" where
  "token_bytes t = map (\<lambda>i. ucast (drop_bit (8 * i) t)) [0..<8]"

definition token_of_bytes :: "u8 list \<Rightarrow> u64 option" where
  "token_of_bytes bs =
     (if length bs < 8 then None
      else Some (foldl (\<lambda>t i. t OR push_bit (8 * i) (ucast (bs ! i))) 0 [0..<8]))"

section \<open>Saving\<close>

text \<open>The results of the single insertions are ignored.\<close>

fun copy_options :: "'m mem_ops \<Rightarrow> 'm \<Rightarrow> CoAP_option_t list \<Rightarrow> CoAP_option_t list \<Rightarrow> CoAP_option_t list \<times> 'm" where
  "copy_options A m opts [] = (opts, m)"
| "copy_options A m opts (pOptionsTemp # next) =
     (let (_, L, m') = CoAP_CopyOptionToList A m opts pOptionsTemp in copy_options A m' L next)"

definition observer_options :: "'m mem_ops \<Rightarrow> 'm \<Rightarrow> CoAP_option_t list \<Rightarrow> bool \<Rightarrow> CoAP_Observer_t
    \<Rightarrow> CoAP_option_t list \<times> 'm" where
  "observer_options A m uri UriPathHasBeenEncoded ob =
     (let (_, L1, m1) = CoAP_AppendOptionToList A m [] OPT_NUM_URI_HOST (ep_bytes (Ep ob)) (of_nat sizeof_NetEp_t);
          (_, L2, m2) = CoAP_AppendOptionToList A m1 L1 OPT_NUM_URI_PORT [IfID ob] 1;
          (L3, m3) = (if UriPathHasBeenEncoded = False then copy_options A m2 L2 uri else (L2, m2));
          (L4, m4) = copy_options A m3 L3 (pOptList ob);
          (_, L5, m5) = CoAP_AppendOptionToList A m4 L4 OPT_NUM_LOBARO_TOKEN_SAVE (token_bytes (Token ob)) 8
      in (L5, m5))"

text \<open>The page, the index of \<open>pTempPage\<close> in it, and \<open>TotalPageBytes\<close>. The new index is the old one
  plus the total number of bytes. More than the 2048 bytes of the page must not be written
  (\<open>None\<close>).\<close>

type_synonym page_state = "bytes \<times> nat \<times> u32"

definition write_record :: "page_state \<Rightarrow> CoAP_option_t list \<Rightarrow> page_state option" where
  "write_record P opts =
     (let (TempPage, pos, TotalPageBytes) = P;
          (_, BytesWritten, d) = pack_OptionsFromList (sub_at TempPage pos) opts;
          page = (put_sub TempPage pos d)(pos + unat BytesWritten := 0xff);
          total = TotalPageBytes + (ucast BytesWritten + 1)
      in if pos + unat BytesWritten + 1 > 2048 then None else Some (page, pos + unat total, total))"

fun save_observers :: "'m mem_ops \<Rightarrow> 'm \<Rightarrow> CoAP_option_t list \<Rightarrow> bool \<Rightarrow> page_state \<Rightarrow> CoAP_Observer_t list
    \<Rightarrow> (page_state \<times> 'm) option" where
  "save_observers A m uri UriPathHasBeenEncoded P [] = Some (P, m)"
| "save_observers A m uri UriPathHasBeenEncoded P (pObserverList # next) =
     (let (L, m1) = observer_options A m uri UriPathHasBeenEncoded pObserverList in
      case write_record P L of
        None \<Rightarrow> None
      | Some P' \<Rightarrow>
          let (_, _, m2) = CoAP_FreeOptionList A m1 L in save_observers A m2 uri True P' next)"

fun save_resources :: "'m mem_ops \<Rightarrow> 'm \<Rightarrow> page_state \<Rightarrow> CoAP_Res_t list \<Rightarrow> (page_state \<times> 'm) option" where
  "save_resources A m P [] = Some (P, m)"
| "save_resources A m P (pList # next) =
     (case save_observers A m (pUri pList) False P (pListObservers pList) of
        None \<Rightarrow> None
      | Some (P', m') \<Rightarrow> save_resources A m' P' next)"

text \<open>Returns the bytes that are written to the non volatile memory, and the page.\<close>

definition CoAP_NVsaveObservers :: "'m mem_ops \<Rightarrow> 'm \<Rightarrow> bytes \<Rightarrow> CoAP_Res_t list
    \<Rightarrow> (CoAP_Result_t \<times> u8 list \<times> bytes \<times> 'm) option" where
  "CoAP_NVsaveObservers A m TempPage pResList =
     (case save_resources A m (TempPage, 0, 0) pResList of
        None \<Rightarrow> None
      | Some ((page, _, TotalPageBytes), m') \<Rightarrow> Some (COAP_OK, bytes_at page 0 (unat TotalPageBytes), page, m'))"

section \<open>Loading\<close>

text \<open>The copies read as many bytes as the field has; an option that is too short has no defined
  outcome.\<close>

fun load_fields :: "'m mem_ops \<Rightarrow> 'm \<Rightarrow> CoAP_Observer_t \<Rightarrow> CoAP_option_t list \<Rightarrow> (CoAP_Observer_t \<times> 'm) option" where
  "load_fields A m pNewObserver [] = Some (pNewObserver, m)"
| "load_fields A m pNewObserver (pOpt # next) =
     (if Number pOpt = OPT_NUM_URI_HOST then
        (case ep_of_bytes (Value pOpt) of
           None \<Rightarrow> None | Some ep \<Rightarrow> load_fields A m (pNewObserver\<lparr>Ep := ep\<rparr>) next)
      else if Number pOpt = OPT_NUM_URI_PORT then
        (case Value pOpt of [] \<Rightarrow> None | i # _ \<Rightarrow> load_fields A m (pNewObserver\<lparr>IfID := i\<rparr>) next)
      else if Number pOpt = OPT_NUM_URI_PATH then load_fields A m pNewObserver next
      else if Number pOpt = OPT_NUM_LOBARO_TOKEN_SAVE then
        (case token_of_bytes (Value pOpt) of
           None \<Rightarrow> None | Some t \<Rightarrow> load_fields A m (pNewObserver\<lparr>Token := t\<rparr>) next)
      else
        let (_, L, m') = CoAP_CopyOptionToList A m (pOptList pNewObserver) pOpt
        in load_fields A m' (pNewObserver\<lparr>pOptList := L\<rparr>) next)"

text \<open>The loop: \<open>pRawPage\<close> is an index into the page, or \<open>NULL\<close> behind a record without marker; the
  parser always gets a length of 2048. An unknown resource, or an observer without memory, leaves
  the parsed options in \<open>pOptList\<close> (\<open>opts\<close>), which makes the next call of the parser fail.\<close>

partial_function (option) load_loop :: "'m mem_ops \<Rightarrow> bytes \<Rightarrow> nat option \<Rightarrow> CoAP_option_t list \<Rightarrow> CoAP_Res_t list \<Rightarrow> 'm
    \<Rightarrow> (CoAP_Res_t list \<times> 'm) option" where
  "load_loop A page pRawPage opts pResList m =
     (case pRawPage of
        None \<Rightarrow> None
      | Some off \<Rightarrow>
          (case parse_OptionsFromRaw A m (sub_at page off) 2048 opts of
             None \<Rightarrow> None
           | Some (r, pl, L, m1) \<Rightarrow>
               let pRawPage' = map_option (\<lambda>b. off + b) pl in
               if r \<noteq> COAP_OK then Some (pResList, m1)
               else
                 (case CoAP_FindResourceByUri pResList L of
                    None \<Rightarrow> load_loop A page pRawPage' L pResList m1
                  | Some k \<Rightarrow>
                      (case CoAP_AllocNewObserver A m1 of
                         (None, m2) \<Rightarrow> load_loop A page pRawPage' L pResList m2
                       | (Some pNewObserver, m2) \<Rightarrow>
                           (case load_fields A m2 pNewObserver L of
                              None \<Rightarrow> None
                            | Some (ob, m3) \<Rightarrow>
                                let R = pResList ! k;
                                    (_, obs) = CoAP_AppendObserverToList (pListObservers R) (Some ob);
                                    (_, _, m4) = CoAP_FreeOptionList A m3 L
                                in load_loop A page pRawPage' [] (pResList[k := R\<lparr>pListObservers := obs\<rparr>]) m4)))))"

definition CoAP_NVloadObservers :: "'m mem_ops \<Rightarrow> 'm \<Rightarrow> bytes option \<Rightarrow> CoAP_Res_t list
    \<Rightarrow> (CoAP_Result_t \<times> CoAP_Res_t list \<times> 'm) option" where
  "CoAP_NVloadObservers A m nv pResList =
     (case nv of
        None \<Rightarrow> None
      | Some page \<Rightarrow>
          (case load_loop A page (Some 0) [] pResList m of
             None \<Rightarrow> None | Some (L, m') \<Rightarrow> Some (COAP_OK, L, m')))"

end
