(* ===== verification/Resource_NV_Properties.thy ===== *)
theory Resource_NV_Properties
  imports Resource_NV Resource_Properties
begin

text \<open>
  What is saved of an observer is loaded again: the memory images of endpoint and token, the options
  of a record by their numbers, the bytes of the page, and the round trip through the non volatile
  memory; and what becomes of a second observer of the same resource.
\<close>

section \<open>Memory images\<close>

lemma token_roundtrip: "token_of_bytes (token_bytes t) = Some t"
proof -
  have "token_bytes t = le_bytes 8 t" by (simp add: token_bytes_def le_bytes_def)
  moreover have "drop_bit (8 * 8) t = 0" by (rule bit_word_eqI) (simp add: bit_simps)
  ultimately show ?thesis using le_bytes_decode [of 8 t] by (simp add: token_of_bytes_def mult.commute)
qed

lemma port_bytes: "ucast (ucast (p :: u16) :: u8) OR push_bit 8 (ucast (ucast (drop_bit 8 p) :: u8)) = p"
  by (rule bit_word_eqI) (auto simp: bit_simps)

lemma ep_roundtrip:
  assumes "length (NetAddr ep) = 16"
  shows "ep_of_bytes (ep_bytes ep) = Some ep"
proof -
  have l: "length (ep_bytes ep) = 24" using assms by (simp add: ep_bytes_def)
  have n: "ep_bytes ep ! 0 = NetType_code (NetType ep)" "take 3 (drop 1 (ep_bytes ep)) = [0, 0, 0]"
    "take 16 (drop 4 (ep_bytes ep)) = NetAddr ep" "ep_bytes ep ! 20 = ucast (NetPort ep)" "ep_bytes ep ! 21 = ucast (drop_bit 8 (NetPort ep))"
    using assms by (simp_all add: ep_bytes_def nth_append nth_Cons')
  show ?thesis
    unfolding ep_of_bytes_def Let_def n
    by (cases "NetType ep") (use l in \<open>simp_all add: NetType_code_def port_bytes\<close>)
qed

section \<open>Lists of options by number\<close>

definition vals :: "u16 \<Rightarrow> CoAP_option_t list \<Rightarrow> u8 list list" where
  "vals n L = map Value (filter (\<lambda>p. Number p = n) L)"

lemma vals_simps [simp]: "vals n [] = []" "vals n (x # L) = (if Number x = n then [Value x] else []) @ vals n L"
  "vals n (L @ M) = vals n L @ vals n M"
  by (simp_all add: vals_def)

lemma vals_none: "n \<notin> Number ` set L \<Longrightarrow> vals n L = []"
  by (auto simp: vals_def filter_empty_conv)

lemma vals_insert:
  assumes "sorted (map Number L)"
  shows "vals n (insert_option x L) = vals n L @ (if Number x = n then [Value x] else [])"
proof -
  let ?P = "\<lambda>p. Number p \<le> Number x"
  have "vals n L = vals n (takeWhile ?P L) @ vals n (dropWhile ?P L)"
    by (metis takeWhile_dropWhile_id vals_simps(3))
  moreover have "vals n (dropWhile ?P L) = []" if "n = Number x"
  proof (rule vals_none)
    have "\<forall>p \<in> set (dropWhile ?P L). Number x < Number p"
    proof (cases "dropWhile ?P L")
      case Nil
      show ?thesis unfolding Nil by simp
    next
      case (Cons y ys)
      have "sorted (map Number (dropWhile ?P L))"
        using assms by (metis sorted_append takeWhile_dropWhile_id map_append)
      moreover have "\<not> ?P y" using Cons by (metis hd_dropWhile list.discI list.sel(1))
      ultimately show ?thesis using Cons by auto
    qed
    then show "n \<notin> Number ` set (dropWhile ?P L)" using that by auto
  qed
  ultimately show ?thesis by (auto simp: insert_option_def)
qed

lemma vals_view: "map opt_view L = map opt_view M \<Longrightarrow> vals n L = vals n M"
proof -
  have "vals n L = map snd (filter (\<lambda>v. fst v = n) (map opt_view L))" for L
    by (simp add: vals_def opt_view_def filter_map comp_def)
  then show "map opt_view L = map opt_view M \<Longrightarrow> vals n L = vals n M" by simp
qed

text \<open>An insertion that has memory is visible in the length of the list.\<close>

lemma append_length:
  assumes "CoAP_AppendOptionToList A m L n buf len = (r, L', m')"
  shows "length L' \<le> Suc (length L) \<and>
    (length L' = Suc (length L) \<longrightarrow> (\<exists>p. L' = insert_option (fill_option p n buf len) L))"
proof -
  have "length (insert_option x L) = Suc (length L)" for x
    by (metis mset_insert_option size_add_mset size_mset)
  then show ?thesis
    using assms by (auto simp: append_cases split: prod.splits if_splits)
qed

lemma append_complete:
  assumes "CoAP_AppendOptionToList A m L n buf len = (r, L', m')" "length L' = Suc (length L)" "opts_wf L" "length buf = unat len"
  shows "opts_wf L'" "vals k L' = vals k L @ (if n = k then [buf] else [])"
proof -
  obtain p where p: "L' = insert_option (fill_option p n buf len) L" using append_length [OF assms(1)] assms(2) by auto
  have x: "Number (fill_option p n buf len) = n" "Value (fill_option p n buf len) = buf"
    using assms(4) by (simp_all add: fill_option_def)
  show "opts_wf L'" unfolding p using assms(3,4) by (intro opts_wf_insert) simp_all
  show "vals k L' = vals k L @ (if n = k then [buf] else [])"
    unfolding p using vals_insert [of L k "fill_option p n buf len"] assms(3) x by (simp add: opts_wf_def)
qed

lemma copy_length: "copy_options A m L os = (L', m') \<Longrightarrow> length L' \<le> length L + length os"
proof (induction os arbitrary: m L)
  case (Cons x os)
  obtain r L1 m1 where a: "CoAP_CopyOptionToList A m L x = (r, L1, m1)" by (cases "CoAP_CopyOptionToList A m L x")
  then have "length L1 \<le> Suc (length L)" using append_length by (fastforce simp: CoAP_CopyOptionToList_def)
  with Cons.IH [of m1 L1] Cons.prems a show ?case by simp
qed simp

lemma copy_complete:
  assumes "copy_options A m L os = (L', m')" "length L' = length L + length os" "opts_wf L" "list_all opt_wf os"
  shows "opts_wf L' \<and> (\<forall>k. vals k L' = vals k L @ vals k os)"
  using assms
proof (induction os arbitrary: m L)
  case (Cons x os)
  obtain r L1 m1 where a: "CoAP_AppendOptionToList A m L (Number x) (Value x) (Length x) = (r, L1, m1)"
    by (cases "CoAP_AppendOptionToList A m L (Number x) (Value x) (Length x)")
  have c: "copy_options A m1 L1 os = (L', m')" using Cons.prems(1) a by (simp add: CoAP_CopyOptionToList_def)
  have l: "length L1 = Suc (length L)"
    using append_length [OF a] copy_length [OF c] Cons.prems(2) by simp
  note w = append_complete [OF a l Cons.prems(3)]
  have "opts_wf L' \<and> (\<forall>k. vals k L' = vals k L1 @ vals k os)"
    by (rule Cons.IH [OF c]) (use l Cons.prems w in \<open>simp_all add: opt_wf_def\<close>)
  then show ?case using w(2) Cons.prems(4) by (simp add: opt_wf_def)
qed simp

section \<open>One saved observer\<close>

lemma observer_options_complete:
  assumes "observer_options A m uri False ob = (L, m')" "length L = length uri + length (pOptList ob) + 3"
    and "list_all opt_wf uri" "list_all opt_wf (pOptList ob)" "length (NetAddr (Ep ob)) = 16"
  shows "opts_wf L" "vals k L = (if k = OPT_NUM_URI_HOST then [ep_bytes (Ep ob)] else []) @ (if k = OPT_NUM_URI_PORT then [[IfID ob]] else []) @
    vals k uri @ vals k (pOptList ob) @ (if k = OPT_NUM_LOBARO_TOKEN_SAVE then [token_bytes (Token ob)] else [])"
proof -
  obtain r1 L1 m1 where 1: "CoAP_AppendOptionToList A m [] OPT_NUM_URI_HOST (ep_bytes (Ep ob)) (of_nat sizeof_NetEp_t) = (r1, L1, m1)"
    by (metis prod_cases3)
  obtain r2 L2 m2 where 2: "CoAP_AppendOptionToList A m1 L1 OPT_NUM_URI_PORT [IfID ob] 1 = (r2, L2, m2)" by (metis prod_cases3)
  obtain L3 m3 where 3: "copy_options A m2 L2 uri = (L3, m3)" by fastforce
  obtain L4 m4 where 4: "copy_options A m3 L3 (pOptList ob) = (L4, m4)" by fastforce
  obtain r5 L5 m5 where 5: "CoAP_AppendOptionToList A m4 L4 OPT_NUM_LOBARO_TOKEN_SAVE (token_bytes (Token ob)) 8 = (r5, L5, m5)"
    by (metis prod_cases3)
  have L: "L = L5" using assms(1) 1 2 3 4 5 by (simp add: observer_options_def)
  note l = append_length [OF 1] append_length [OF 2] copy_length [OF 3] copy_length [OF 4] append_length [OF 5]
  have n: "length L1 = 1" "length L2 = 2" "length L3 = 2 + length uri" "length L4 = 2 + length uri + length (pOptList ob)"
    "length L5 = Suc (length L4)" using l assms(2) L by auto
  have b: "length (ep_bytes (Ep ob)) = unat (of_nat sizeof_NetEp_t :: u16)" "length (token_bytes (Token ob)) = unat (8 :: u16)"
    using assms(5) by (simp_all add: ep_bytes_def token_bytes_def)
  have w0: "opts_wf []" by (simp add: opts_wf_def)
  note c1 = append_complete [OF 1 _ w0 b(1)]
  have w1: "opts_wf L1" "vals k L1 = (if k = OPT_NUM_URI_HOST then [ep_bytes (Ep ob)] else [])" for k
    using c1 n(1) by auto
  have w2: "opts_wf L2" "vals k L2 = vals k L1 @ (if k = OPT_NUM_URI_PORT then [[IfID ob]] else [])" for k
    using append_complete(1) [OF 2] append_complete(2) [OF 2, of k] n(1,2) w1(1) by auto
  have w3: "opts_wf L3 \<and> (\<forall>k. vals k L3 = vals k L2 @ vals k uri)" by (rule copy_complete [OF 3]) (use n w2 assms(3) in simp_all)
  have w4: "opts_wf L4 \<and> (\<forall>k. vals k L4 = vals k L3 @ vals k (pOptList ob))" by (rule copy_complete [OF 4]) (use n w3 assms(4) in simp_all)
  show "opts_wf L" "vals k L = (if k = OPT_NUM_URI_HOST then [ep_bytes (Ep ob)] else []) @ (if k = OPT_NUM_URI_PORT then [[IfID ob]] else []) @
    vals k uri @ vals k (pOptList ob) @ (if k = OPT_NUM_LOBARO_TOKEN_SAVE then [token_bytes (Token ob)] else [])"
    using append_complete [OF 5 n(5) conjunct1 [OF w4] b(2)] w1 w2 w3 w4 by (auto simp: L)
qed

text \<open>What a record gives back. The copied options are those that are none of the four fields.\<close>

definition plain :: "CoAP_option_t \<Rightarrow> bool" where
  "plain p \<longleftrightarrow> Number p \<notin> {OPT_NUM_URI_HOST, OPT_NUM_URI_PORT, OPT_NUM_URI_PATH, OPT_NUM_LOBARO_TOKEN_SAVE}"

lemma load_fields_copy:
  assumes "load_fields A m ob L = Some (ob', m')"
  shows "\<exists>m''. copy_options A m (pOptList ob) (filter plain L) = (pOptList ob', m'')"
  using assms
proof (induction L arbitrary: m ob)
  case (Cons p L)
  then show ?case
    by (auto simp: plain_def Let_def split: if_splits option.splits list.splits prod.splits) fastforce+
qed simp

lemma load_fields_sets:
  assumes "load_fields A m ob L = Some (ob', m')"
  shows "Ep ob' = foldl (\<lambda>_ v. the (ep_of_bytes v)) (Ep ob) (vals OPT_NUM_URI_HOST L) \<and>
    IfID ob' = foldl (\<lambda>_ v. hd v) (IfID ob) (vals OPT_NUM_URI_PORT L) \<and>
    Token ob' = foldl (\<lambda>_ v. the (token_of_bytes v)) (Token ob) (vals OPT_NUM_LOBARO_TOKEN_SAVE L)"
  using assms
proof (induction L arbitrary: m ob)
  case (Cons p L)
  from Cons.prems show ?case
    by (auto simp: Let_def split: if_splits option.splits list.splits prod.splits dest!: Cons.IH)
qed simp

lemma load_fields_total:
  assumes "\<forall>v \<in> set (vals OPT_NUM_URI_HOST L). ep_of_bytes v \<noteq> None" "[] \<notin> set (vals OPT_NUM_URI_PORT L)"
    "\<forall>v \<in> set (vals OPT_NUM_LOBARO_TOKEN_SAVE L). token_of_bytes v \<noteq> None"
  shows "load_fields A m ob L \<noteq> None"
  using assms
proof (induction L arbitrary: m ob)
  case (Cons p L)
  have ih: "\<exists>a b. load_fields A m1 ob1 L = Some (a, b)" for m1 ob1
    using Cons.IH [of m1 ob1] Cons.prems by (auto split: if_splits)
  from Cons.prems show ?case
    by (auto simp: Let_def ih split: option.splits list.splits prod.splits)
qed simp

lemma sorted_vals_eq:
  assumes "sorted (map Number L)" "sorted (map Number M)" "\<And>k. vals k L = vals k M"
  shows "map opt_view L = map opt_view M"
  using assms
proof (induction L arbitrary: M)
  case Nil
  then have none: "vals (Number y) M = []" for y by simp
  show ?case
  proof (cases M)
    case (Cons y M')
    then show ?thesis using none [of y] by simp
  qed simp
next
  case (Cons x L)
  have "vals (Number x) M \<noteq> []" using Cons.prems(3) [of "Number x", symmetric] by simp
  then obtain y M' where M: "M = y # M'" by (cases M) auto
  have "Number x \<in> Number ` set M" using \<open>vals (Number x) M \<noteq> []\<close> vals_none by blast
  moreover have "vals (Number y) (x # L) \<noteq> []" using Cons.prems(3) [of "Number y"] M by simp
  then have "Number y \<in> Number ` set (x # L)" using vals_none by blast
  ultimately have n: "Number x = Number y" using Cons.prems(1,2) M by (force intro: order.antisym)
  have v: "Value x = Value y" using Cons.prems(3) [of "Number x"] M n by simp
  have "vals k L = vals k M'" for k using Cons.prems(3) [of k] M n v by (auto split: if_splits)
  then have "map opt_view L = map opt_view M'" using Cons.IH [of M'] Cons.prems(1,2) M by simp
  then show ?case using M n v by (simp add: opt_view_def [of x] opt_view_def [of y])
qed

section \<open>Enough memory\<close>

text \<open>The options of a record, in the order in which they are inserted.\<close>

definition observer_record :: "CoAP_option_t list \<Rightarrow> CoAP_Observer_t \<Rightarrow> (u16 \<times> u8 list) list" where
  "observer_record uri ob = (OPT_NUM_URI_HOST, ep_bytes (Ep ob)) # (OPT_NUM_URI_PORT, [IfID ob]) #
     map opt_view uri @ map opt_view (pOptList ob) @ [(OPT_NUM_LOBARO_TOKEN_SAVE, token_bytes (Token ob))]"

abbreviation storable :: "CoAP_option_t list \<Rightarrow> bool" where
  "storable L \<equiv> list_all (\<lambda>p. opt_wf p \<and> Length p \<le> 1034) L"

lemma sum_list_views: "(\<Sum>x \<leftarrow> xs. f x) = (\<Sum>x \<in># mset xs. f x)"
  by (induction xs) simp_all

lemma insert_option_views:
  assumes "length v = unat len"
  shows "mset (map opt_view (insert_option (fill_option p n v len) L)) = add_mset (n, v) (mset (map opt_view L))"
  using assms by (simp add: mset_map mset_insert_option opt_view_def fill_option_def)

context allocator_room
begin

lemma append_room_views:
  assumes "room (28 + int (length v) + b) m" "0 \<le> b" "length v \<le> 1034" "length v = unat len"
  obtains L' m' where "CoAP_AppendOptionToList A m L n v len = (COAP_OK, L', m')" "room b m'"
    "mset (map opt_view L') = add_mset (n, v) (mset (map opt_view L))"
proof -
  have len: "uint len = int (length v)" using assms(4) by (simp add: uint_nat del: of_nat_unat)
  obtain p m' where "CoAP_AppendOptionToList A m L n v len = (COAP_OK, insert_option (fill_option p n v len) L, m')" "room b m'"
    by (rule room_append [where len = len and b = b and m = m])
      (use assms(1-3) in \<open>simp_all add: len sizeof_CoAP_option_t_def MAX_REQ_def\<close>)
  then show thesis by (rule that [OF _ _ insert_option_views [OF assms(4)]])
qed

lemma copy_room:
  assumes "room (opts_need os + b) m" "0 \<le> b" "storable os"
  shows "\<exists>L' m'. copy_options A m L os = (L', m') \<and> room b m' \<and>
    mset (map opt_view L') = mset (map opt_view L) + mset (map opt_view os)"
  using assms(1,3)
proof (induction os arbitrary: m L)
  case (Cons x os)
  have v: "length (Value x) \<le> 1034" "length (Value x) = unat (Length x)"
    using Cons.prems(2) by (simp_all add: opt_wf_def word_le_nat_alt)
  obtain L1 m1 where a: "CoAP_AppendOptionToList A m L (Number x) (Value x) (Length x) = (COAP_OK, L1, m1)"
    "room (opts_need os + b) m1" "mset (map opt_view L1) = add_mset (Number x, Value x) (mset (map opt_view L))"
    by (rule append_room_views [where v = "Value x" and b = "opts_need os + b" and m = m])
      (use Cons.prems(1) opts_need_nonneg [of os] assms(2) v in \<open>auto simp: add.assoc\<close>)
  from Cons.IH [OF a(2), of L1] Cons.prems(2) a(1,3) v(2) show ?case
    by (auto simp: CoAP_CopyOptionToList_def opt_view_def [of x])
qed simp

lemma observer_options_room:
  assumes "room (opts_need uri + opts_need (pOptList ob) + 117) m" "storable uri" "storable (pOptList ob)" "length (NetAddr (Ep ob)) = 16"
  obtains L m' where "observer_options A m uri False ob = (L, m')" "mset (map opt_view L) = mset (observer_record uri ob)"
proof -
  let ?u = "opts_need uri" and ?o = "opts_need (pOptList ob)"
  have nn: "0 \<le> ?u" "0 \<le> ?o" by (rule opts_need_nonneg)+
  have b: "length (ep_bytes (Ep ob)) = 24" "length (token_bytes (Token ob)) = 8"
    using assms(4) by (simp_all add: ep_bytes_def token_bytes_def)
  have r: "28 + int (length (ep_bytes (Ep ob))) + (?u + ?o + 65) = ?u + ?o + 117"
    "28 + int (length [IfID ob]) + (?u + (?o + 36)) = ?u + ?o + 65" using b by simp_all
  obtain L1 m1 where 1: "CoAP_AppendOptionToList A m [] OPT_NUM_URI_HOST (ep_bytes (Ep ob)) (of_nat sizeof_NetEp_t) = (COAP_OK, L1, m1)"
    "room (?u + ?o + 65) m1" "mset (map opt_view L1) = {#(OPT_NUM_URI_HOST, ep_bytes (Ep ob))#}"
    by (rule append_room_views [where v = "ep_bytes (Ep ob)" and len = 24 and b = "?u + ?o + 65" and m = m and L = "[]"])
      (unfold r(1), use assms(1) nn b in simp_all)
  obtain L2 m2 where 2: "CoAP_AppendOptionToList A m1 L1 OPT_NUM_URI_PORT [IfID ob] 1 = (COAP_OK, L2, m2)"
    "room (?u + (?o + 36)) m2" "mset (map opt_view L2) = add_mset (OPT_NUM_URI_PORT, [IfID ob]) (mset (map opt_view L1))"
    by (rule append_room_views [where v = "[IfID ob]" and len = 1 and b = "?u + (?o + 36)" and m = m1 and L = L1])
      (unfold r(2), use 1(2) nn in simp_all)
  obtain L3 m3 where 3: "copy_options A m2 L2 uri = (L3, m3)" "room (?o + 36) m3"
    "mset (map opt_view L3) = mset (map opt_view L2) + mset (map opt_view uri)"
    using copy_room [OF 2(2) _ assms(2), of L2] nn by auto
  obtain L4 m4 where 4: "copy_options A m3 L3 (pOptList ob) = (L4, m4)" "room 36 m4"
    "mset (map opt_view L4) = mset (map opt_view L3) + mset (map opt_view (pOptList ob))"
    using copy_room [OF 3(2) _ assms(3), of L3] by auto
  obtain L5 m5 where 5: "CoAP_AppendOptionToList A m4 L4 OPT_NUM_LOBARO_TOKEN_SAVE (token_bytes (Token ob)) 8 = (COAP_OK, L5, m5)"
    "mset (map opt_view L5) = add_mset (OPT_NUM_LOBARO_TOKEN_SAVE, token_bytes (Token ob)) (mset (map opt_view L4))"
    by (rule append_room_views [where v = "token_bytes (Token ob)" and len = 8 and b = 0 and m = m4 and L = L4])
      (use 4(2) b in auto)
  have "observer_options A m uri False ob = (L5, m5)" using 1(1) 2(1) 3(1) 4(1) 5(1) by (simp add: observer_options_def)
  moreover have "mset (map opt_view L5) = mset (observer_record uri ob)"
    unfolding 5(2) 4(3) 3(3) 2(3) 1(3) observer_record_def by simp
  ultimately show thesis by (rule that)
qed

lemma alloc_observer_room:
  assumes "room (64 + b) m" "0 \<le> b"
  obtains o0 m' where "CoAP_AllocNewObserver A m = (Some o0, m')" "pOptList o0 = []" "room b m'"
proof -
  obtain p m' where g: "coap_mem_get0 A m sizeof_CoAP_Observer_t = (p, m')" by fastforce
  then have "p \<noteq> NULL \<and> room b m'"
    by (intro room_get0 [OF _ _ _ assms(2) g]) (use assms(1) in \<open>simp_all add: sizeof_CoAP_Observer_t_def ROOM_COST_def MAX_REQ_def\<close>)
  then show thesis using that g by (auto simp: CoAP_AllocNewObserver_def)
qed

end

lemma encode_options_bound:
  "list_all opt_wf L \<Longrightarrow> length (encode_options k L) \<le> (\<Sum>p \<leftarrow> L. 5 + length (Value p))"
proof (induction L arbitrary: k)
  case (Cons p L)
  have "unat (ext_count x) \<le> 2" for x by (simp add: ext_count_def)
  from this [of "Number p - k"] this [of "Length p"] Cons.IH [of "Number p"] Cons.prems
  show ?case by (simp add: length_encode_option opt_wf_def)
qed simp

text \<open>What the options of a record amount to.\<close>

lemma record_sums:
  assumes "mset (map opt_view L) = mset (observer_record uri ob)" "length (NetAddr (Ep ob)) = 16"
    and "storable uri" "storable (pOptList ob)" "opts_wf L"
  shows "length L = length uri + length (pOptList ob) + 3" "encodable L"
    "opts_need L = opts_need uri + opts_need (pOptList ob) + 117"
    "length (encode_options 0 L) \<le> (\<Sum>p \<leftarrow> uri @ pOptList ob. 5 + length (Value p)) + 48"
proof -
  have b: "length (ep_bytes (Ep ob)) = 24" "length (token_bytes (Token ob)) = 8"
    using assms(2) by (simp_all add: ep_bytes_def token_bytes_def)
  have sum: "(\<Sum>p \<leftarrow> L. f (Value p)) = (\<Sum>(n, v) \<leftarrow> observer_record uri ob. f v)" for f :: "u8 list \<Rightarrow> 'a :: comm_monoid_add"
  proof -
    have "(\<Sum>p \<leftarrow> L. f (Value p)) = (\<Sum>x \<leftarrow> map opt_view L. f (snd x))" by (simp add: opt_view_def comp_def)
    also have "\<dots> = (\<Sum>x \<leftarrow> observer_record uri ob. f (snd x))"
      unfolding sum_list_views assms(1) ..
    finally show ?thesis by (simp add: case_prod_unfold)
  qed
  have views: "(\<Sum>(n, v) \<leftarrow> map opt_view M. f v) = (\<Sum>p \<leftarrow> M. f (Value p))" for M and f :: "u8 list \<Rightarrow> 'a :: comm_monoid_add"
    by (simp add: opt_view_def comp_def)
  show "length L = length uri + length (pOptList ob) + 3"
    using arg_cong [OF assms(1), of size] by (simp add: observer_record_def)
  have "set (map opt_view L) = set (observer_record uri ob)" using assms(1) by (metis set_mset_mset)
  then have "\<forall>p \<in> set L. opt_view p \<in> set (observer_record uri ob)" by auto
  then have "\<forall>p \<in> set L. length (Value p) \<le> 1034"
    using assms(3,4) b by (auto simp: observer_record_def opt_view_def list_all_iff opt_wf_def word_le_nat_alt)
  then show "encodable L" using assms(5) by (auto simp: encodable_def opts_wf_def list_all_iff opt_wf_def word_le_nat_alt)
  show "opts_need L = opts_need uri + opts_need (pOptList ob) + 117"
    unfolding sum [of "\<lambda>v. 28 + int (length v)"] observer_record_def using b
    by (simp add: views [of "\<lambda>v. 28 + int (length v)", simplified])
  have "(\<Sum>p \<leftarrow> L. 5 + length (Value p)) = (\<Sum>p \<leftarrow> uri @ pOptList ob. 5 + length (Value p)) + 48"
    unfolding sum [of "\<lambda>v. 5 + length v"] observer_record_def using b
    by (simp add: views [of "\<lambda>v. 5 + length v", simplified])
  then show "length (encode_options 0 L) \<le> (\<Sum>p \<leftarrow> uri @ pOptList ob. 5 + length (Value p)) + 48"
    using encode_options_bound [of L 0] assms(5) by (simp add: opts_wf_def)
qed

section \<open>Saving one observer\<close>

lemma save_nothing: "list_all (\<lambda>R. pListObservers R = []) Rs \<Longrightarrow> save_resources A m P Rs = Some (P, m)"
  by (induction Rs) simp_all

lemma unat_of_nat32: "n < 4294967296 \<Longrightarrow> unat (of_nat n :: u32) = n"
  by (simp add: unat_of_nat)

lemma write_record_bytes:
  assumes "opts_wf L" "pos + length (encode_options 0 L) \<le> 2047" "unat n0 \<le> 2048"
  shows "write_record (page, pos, n0) L = Some (write_at page pos (encode_options 0 L @ [0xff]),
    pos + (unat n0 + length (encode_options 0 L) + 1), of_nat (unat n0 + length (encode_options 0 L) + 1))"
proof -
  let ?n = "length (encode_options 0 L)"
  have w: "pack_OptionsFromList (sub_at page pos) L = (COAP_OK, of_nat ?n, write_at (sub_at page pos) 0 (encode_options 0 L))"
    using assms(1,2) by (intro pack_OptionsFromList_write) (simp_all add: opts_wf_def)
  have u: "unat (of_nat ?n :: u16) = ?n" using assms(2) by (intro unat_of_nat16) simp
  have p: "(put_sub page pos (write_at (sub_at page pos) 0 (encode_options 0 L)))(pos + ?n := 0xff) =
      write_at page pos (encode_options 0 L @ [0xff])"
    unfolding put_sub_write by (rule write_at_snoc)
  have s: "(ucast (of_nat ?n :: u16) :: u32) = of_nat ?n"
    using u by (metis unsigned_of_nat unsigned_ucast_eq of_nat_unat)
  have t: "n0 + (ucast (of_nat ?n :: u16) + 1) = of_nat (unat n0 + ?n + 1)"
    unfolding s by (simp add: algebra_simps)
  have "unat (of_nat (unat n0 + ?n + 1) :: u32) = unat n0 + ?n + 1"
    using assms(2,3) by (intro unat_of_nat32) simp
  then show ?thesis using assms(2) by (simp add: write_record_def w u p t del: of_nat_add of_nat_Suc)
qed

lemma save_others:
  "list_all (\<lambda>R. pListObservers R = []) us \<Longrightarrow> save_resources A m P (us @ Rs) = save_resources A m P Rs"
  by (induction us) simp_all

lemma write_at_read: "bytes_at (write_at page 0 bs) 0 (length bs) = bs"
  using bytes_at_eq_iff [of "write_at page 0 bs" 0 bs] by (simp add: write_at_def)

lemma save_single:
  assumes "list_all (\<lambda>R. pListObservers R = []) (us @ vs)" "pListObservers R = [ob]"
    and "observer_options A m (pUri R) False ob = (L, m1)" "opts_wf L" "length (encode_options 0 L) \<le> 2047"
  shows "\<exists>page' m'. CoAP_NVsaveObservers A m page (us @ R # vs) = Some (COAP_OK, encode_options 0 L @ [0xff], page', m')"
proof -
  let ?n = "length (encode_options 0 L)" and ?p = "write_at page 0 (encode_options 0 L @ [0xff])"
  have "\<exists>m'. save_resources A m (page, 0, 0) (us @ R # vs) = Some ((?p, ?n + 1, of_nat (?n + 1)), m')"
    using assms by (simp add: save_others save_nothing write_record_bytes split: prod.splits)
  moreover have "unat (of_nat (?n + 1) :: u32) = ?n + 1" using assms(5) by (intro unat_of_nat32) simp
  ultimately show ?thesis
    using write_at_read [of page "encode_options 0 L @ [0xff]"]
    by (auto simp: CoAP_NVsaveObservers_def simp del: of_nat_add of_nat_Suc)
qed

section \<open>Loading one observer\<close>

lemma load_erased:
  assumes "page off = 0xff"
  shows "load_loop A page (Some off) L Rs m = Some (Rs, m)"
  by (subst load_loop.simps) (simp add: parse_OptionsFromRaw_def sub_at_def assms)

lemma load_single:
  assumes "parse_OptionsFromRaw A m page 2048 [] = Some (COAP_OK, Some b, L, m1)" "page b = 0xff"
    and "CoAP_FindResourceByUri Rs L = Some k" "CoAP_AllocNewObserver A m1 = (Some o0, m2)" "load_fields A m2 o0 L = Some (ob, m3)"
  shows "\<exists>m'. CoAP_NVloadObservers A m (Some page) Rs =
    Some (COAP_OK, Rs[k := (Rs ! k)\<lparr>pListObservers := pListObservers (Rs ! k) @ [ob]\<rparr>], m')"
proof -
  have "sub_at page 0 = page" by (simp add: sub_at_def)
  then have "load_loop A page (Some 0) [] Rs m = load_loop A page (Some b) []
      (Rs[k := (Rs ! k)\<lparr>pListObservers := pListObservers (Rs ! k) @ [ob]\<rparr>]) (snd (snd (CoAP_FreeOptionList A m3 L)))"
    by (subst load_loop.simps) (use assms in \<open>simp add: CoAP_AppendObserverToList_def FreeOptionList_eq Let_def\<close>)
  then show ?thesis by (simp add: CoAP_NVloadObservers_def load_erased assms(2))
qed

section \<open>The round trip\<close>

lemma vals_plain: "vals k (filter plain L) = (if k \<in> {OPT_NUM_URI_HOST, OPT_NUM_URI_PORT, OPT_NUM_URI_PATH, OPT_NUM_LOBARO_TOKEN_SAVE}
    then [] else vals k L)"
proof -
  have "filter (\<lambda>p. plain p \<and> Number p = k) L = (if k \<in> {OPT_NUM_URI_HOST, OPT_NUM_URI_PORT, OPT_NUM_URI_PATH, OPT_NUM_LOBARO_TOKEN_SAVE}
      then [] else filter (\<lambda>p. Number p = k) L)"
    by (auto simp: plain_def filter_empty_conv intro: filter_cong)
  then show ?thesis by (simp add: vals_def filter_filter conj_commute)
qed

text \<open>A stored observer is well formed when its address is complete and its options, in order, are
  those that the registration of an observer copies.\<close>

definition observer_wf :: "CoAP_Observer_t \<Rightarrow> bool" where
  "observer_wf ob \<longleftrightarrow> length (NetAddr (Ep ob)) = 16 \<and> opts_wf (pOptList ob) \<and>
     list_all (\<lambda>p. Number p \<in> {OPT_NUM_OBSERVE, OPT_NUM_URI_QUERY}) (pOptList ob)"

lemma record_loaded:
  assumes "observer_wf ob" "opts_wf L" "load_fields A m o0 L = Some (ob', m')" "pOptList o0 = []"
    and "\<forall>j. j \<noteq> OPT_NUM_URI_PATH \<longrightarrow> vals j L = (if j = OPT_NUM_URI_HOST then [ep_bytes (Ep ob)] else []) @
      (if j = OPT_NUM_URI_PORT then [[IfID ob]] else []) @ vals j (pOptList ob) @
      (if j = OPT_NUM_LOBARO_TOKEN_SAVE then [token_bytes (Token ob)] else [])"
  shows "Ep ob' = Ep ob" "IfID ob' = IfID ob" "Token ob' = Token ob"
    "map opt_view (filter plain L) = map opt_view (pOptList ob)"
    "length (pOptList ob') = length (pOptList ob) \<Longrightarrow> map opt_view (pOptList ob') = map opt_view (pOptList ob)"
proof -
  have ob: "length (NetAddr (Ep ob)) = 16" "opts_wf (pOptList ob)" "j \<notin> {OPT_NUM_OBSERVE, OPT_NUM_URI_QUERY} \<Longrightarrow> vals j (pOptList ob) = []" for j
    using assms(1) by (auto simp: observer_wf_def list_all_iff intro: vals_none)
  have srt: "sorted (map Number (filter plain L))" "list_all opt_wf (filter plain L)"
    using assms(2) by (simp_all add: opts_wf_def sorted_filter list_all_iff)
  have "vals j (filter plain L) = vals j (pOptList ob)" for j
    using assms(5) [rule_format, of j] ob(3) [of j] by (auto simp: vals_plain)
  then show v: "map opt_view (filter plain L) = map opt_view (pOptList ob)"
    using srt(1) ob(2) by (intro sorted_vals_eq) (simp_all add: opts_wf_def)
  obtain m1 where c: "copy_options A m [] (filter plain L) = (pOptList ob', m1)"
    using load_fields_copy [OF assms(3)] assms(4) by auto
  show "map opt_view (pOptList ob') = map opt_view (pOptList ob)" if len: "length (pOptList ob') = length (pOptList ob)"
  proof -
    have "opts_wf (pOptList ob') \<and> (\<forall>j. vals j (pOptList ob') = vals j [] @ vals j (filter plain L))"
      by (rule copy_complete [OF c]) (use len map_eq_imp_length_eq [OF v] srt(2) in \<open>simp_all add: opts_wf_def\<close>)
    then show ?thesis unfolding v [symmetric] using srt(1) by (intro sorted_vals_eq) (simp_all add: opts_wf_def)
  qed
  show "Ep ob' = Ep ob" "IfID ob' = IfID ob" "Token ob' = Token ob"
    using load_fields_sets [OF assms(3)] ob by (simp_all add: assms(5) ep_roundtrip token_roundtrip)
qed

text \<open>The page behind a saved record, on erased memory.\<close>

lemma record_on_page:
  assumes "bytes_at nv 0 (length e + 2) = e @ [0xff, 0xff :: u8]"
  shows "bytes_at nv 0 (length e) = e" "nv (length e) = 0xff" "nv (length e + 1) = 0xff"
proof -
  have "bytes_at nv (length e) 2 = [nv (length e), nv (length e + 1)]" by (simp add: bytes_at_def numeral_2_eq_2)
  then have "bytes_at nv 0 (length e) @ [nv (length e), nv (length e + 1)] = e @ [0xff, 0xff]"
    using assms unfolding bytes_at_add by simp
  then show "bytes_at nv 0 (length e) = e" "nv (length e) = 0xff" "nv (length e + 1) = 0xff" by simp_all
qed

text \<open>Loading a record into a pool with enough room copies the options too.\<close>

lemma opts_need_views: "map opt_view L = map opt_view M \<Longrightarrow> opts_need L = opts_need M"
proof -
  have "opts_need K = (\<Sum>(n, v) \<leftarrow> map opt_view K. 28 + int (length v))" for K by (simp add: opt_view_def comp_def)
  then show "map opt_view L = map opt_view M \<Longrightarrow> opts_need L = opts_need M" by metis
qed

lemma storable_views: "map opt_view L = map opt_view M \<Longrightarrow> list_all opt_wf L \<Longrightarrow> storable M \<Longrightarrow> storable L"
proof -
  assume eq: "map opt_view L = map opt_view M" and L: "list_all opt_wf L" and M: "storable M"
  have "opt_view ` set L = opt_view ` set M" using arg_cong [OF eq, of set] by simp
  then have "\<forall>p \<in> set L. \<exists>q \<in> set M. Value p = Value q" by (fastforce simp: opt_view_def)
  with L M show "storable L" by (fastforce simp: list_all_iff opt_wf_def word_le_nat_alt)
qed

lemma load_record:
  fixes L uri :: "CoAP_option_t list"
  defines "e \<equiv> encode_options 0 L"
  assumes wfs: "observer_wf ob" "encodable L" "L \<noteq> []" "length e \<le> 2046" "storable (pOptList ob)"
    and uri: "list_all (\<lambda>p. opt_wf p \<and> Number p = OPT_NUM_URI_PATH) uri"
    and L: "\<And>j. vals j L = (if j = OPT_NUM_URI_HOST then [ep_bytes (Ep ob)] else []) @ (if j = OPT_NUM_URI_PORT then [[IfID ob]] else []) @
      vals j uri @ vals j (pOptList ob) @ (if j = OPT_NUM_LOBARO_TOKEN_SAVE then [token_bytes (Token ob)] else [])"
    and nv0: "bytes_at nv 0 (length (e @ [0xff]) + 1) = (e @ [0xff]) @ [0xff]" and rep: "bget_rep n h"
    and room: "bget_room (opts_need L + (64 + opts_need (pOptList ob))) n"
    and Rs: "list_all res_wf Rs" "CoAP_FindResourceByUri Rs uri = Some k"
  shows "\<exists>ob' n'. CoAP_NVloadObservers bget_ops n (Some nv) Rs =
      Some (COAP_OK, Rs[k := (Rs ! k)\<lparr>pListObservers := pListObservers (Rs ! k) @ [ob']\<rparr>], n') \<and>
    Ep ob' = Ep ob \<and> IfID ob' = IfID ob \<and> Token ob' = Token ob \<and> map opt_view (pOptList ob') = map opt_view (pOptList ob)"
proof -
  let ?o = "opts_need (pOptList ob)"
  have ob: "length (NetAddr (Ep ob)) = 16" "j \<notin> {OPT_NUM_OBSERVE, OPT_NUM_URI_QUERY} \<Longrightarrow> vals j (pOptList ob) = []" for j
    using wfs(1) by (auto simp: observer_wf_def list_all_iff intro: vals_none)
  have nouri: "j \<noteq> OPT_NUM_URI_PATH \<Longrightarrow> vals j uri = []" "list_all opt_wf uri" for j
    using uri by (auto simp: list_all_iff intro: vals_none)
  have "bytes_at nv 0 (length e + 2) = e @ [0xff, 0xff]" using nv0 by simp
  note nv = record_on_page [OF this]
  have last: "options_end nv 2048 (length e) (Some (length e + 1))" using nv(2) wfs(4) by (simp add: options_end_def)
  have nonneg: "0 \<le> 64 + ?o" using opts_need_nonneg [of "pOptList ob"] by simp
  obtain L' n1 where parse: "parse_OptionsFromRaw bget_ops n nv 2048 [] = Some (COAP_OK, Some (length e + 1), L', n1)"
    "bget_room (64 + ?o) n1"
    using bget_space.parse_options_encoded_room [OF room nonneg wfs(2,3) nv(1) [unfolded e_def] _ last [unfolded e_def]] wfs(4) by (auto simp: e_def)
  have view: "map opt_view L' = map opt_view L"
    by (rule bget.parse_options_encoded [OF rep wfs(2,3) nv(1) [unfolded e_def] _ last [unfolded e_def]]) (use wfs(4) parse(1) in \<open>auto simp: e_def\<close>)
  have V: "vals j L' = vals j L" for j by (rule vals_view [OF view])
  have wf: "opts_wf L'" by (rule bget.parse_options_owns [OF rep, of 2048 nv]) (use parse(1) in simp_all)
  have "uri_path L' = uri_path (uri)"
    using V [of OPT_NUM_URI_PATH] L [of OPT_NUM_URI_PATH] ob(2) [of OPT_NUM_URI_PATH] by (simp add: uri_path_def vals_def)
  then have find: "CoAP_FindResourceByUri Rs L' = Some k"
    using Rs(2) find_resource_iff [OF Rs(1)] wf nouri(2) by (simp add: CoAP_FindResourceByUri_def opts_wf_def)
  obtain o0 n2 where o0: "CoAP_AllocNewObserver bget_ops n1 = (Some o0, n2)" "pOptList o0 = []" "bget_room ?o n2"
    by (rule bget_space.alloc_observer_room [OF parse(2) opts_need_nonneg])
  have "load_fields bget_ops n2 o0 L' \<noteq> None"
    by (rule load_fields_total) (use ob nouri in \<open>simp_all add: V L ep_roundtrip token_roundtrip\<close>)
  then obtain ob' n3 where lf: "load_fields bget_ops n2 o0 L' = Some (ob', n3)" by auto
  have "\<forall>j. j \<noteq> OPT_NUM_URI_PATH \<longrightarrow> vals j L' = (if j = OPT_NUM_URI_HOST then [ep_bytes (Ep ob)] else []) @ (if j = OPT_NUM_URI_PORT then [[IfID ob]] else []) @
      vals j (pOptList ob) @ (if j = OPT_NUM_LOBARO_TOKEN_SAVE then [token_bytes (Token ob)] else [])"
    using nouri(1) by (simp add: V L)
  note restored = record_loaded [OF wfs(1) wf lf o0(2) this]
  have "list_all opt_wf (filter plain L')" using wf by (simp add: opts_wf_def list_all_iff)
  note plain = storable_views [OF restored(4) this wfs(5)]
  have "bget_room (opts_need (filter plain L') + 0) n2" using o0(3) opts_need_views [OF restored(4)] by simp
  then have "mset (map opt_view (pOptList ob')) = mset (map opt_view (filter plain L'))"
    using bget_space.copy_room [OF _ _ plain, of 0 n2 "[]"] load_fields_copy [OF lf] o0(2) by auto
  from mset_eq_length [OF this] have "length (pOptList ob') = length (pOptList ob)"
    using map_eq_imp_length_eq [OF restored(4)] by simp
  note restored(1-3) restored(5) [OF this]
  with load_single [OF parse(1) nv(3) find o0(1) lf] show ?thesis by blast
qed

text \<open>C29. An observer survives a restart. Let \<open>ob\<close> be the only observer, of a resource \<open>R\<close> (records of further
  observers are not loaded; see \<open>further_observer_lost\<close>), let the options of path and observer have at most
  1034 bytes each, let the pool have a free buffer for the options of the record and the page be large enough for
  them. Then saving succeeds. From a memory that begins with the saved bytes and an erased byte, and a pool with
  enough room, loading attaches exactly one observer to the first resource with the path of \<open>R\<close>
  and changes no other resource; this observer has the endpoint, the interface, the token and all options, in
  order, of the saved one.\<close>

theorem observer_saved_and_loaded:
  assumes "list_all (\<lambda>R. pListObservers R = []) (us @ vs)" "pListObservers R = [ob]" "observer_wf ob"
    "list_all (\<lambda>p. opt_wf p \<and> Number p = OPT_NUM_URI_PATH) (pUri R)"
    "list_all (\<lambda>p. Length p \<le> 1034) (pUri R @ pOptList ob)"
    "(\<Sum>p \<leftarrow> pUri R @ pOptList ob. 5 + length (Value p)) \<le> 1998"
    and "bget_room ((\<Sum>p \<leftarrow> pUri R. 28 + int (length (Value p))) + (\<Sum>p \<leftarrow> pOptList ob. 28 + int (length (Value p))) + 117) m"
  shows "\<exists>saved page' m'. CoAP_NVsaveObservers bget_ops m page (us @ R # vs) = Some (COAP_OK, saved, page', m') \<and>
    (\<forall>nv n h Rs k. bytes_at nv 0 (length saved + 1) = saved @ [0xff] \<and> bget_rep n h \<and>
       bget_room ((\<Sum>p \<leftarrow> pUri R. 28 + int (length (Value p))) + 2 * (\<Sum>p \<leftarrow> pOptList ob. 28 + int (length (Value p))) + 181) n \<and>
       list_all res_wf Rs \<and> CoAP_FindResourceByUri Rs (pUri R) = Some k \<longrightarrow>
     (\<exists>ob' n'. CoAP_NVloadObservers bget_ops n (Some nv) Rs =
        Some (COAP_OK, Rs[k := (Rs ! k)\<lparr>pListObservers := pListObservers (Rs ! k) @ [ob']\<rparr>], n') \<and>
      Ep ob' = Ep ob \<and> IfID ob' = IfID ob \<and> Token ob' = Token ob \<and>
      map opt_view (pOptList ob') = map opt_view (pOptList ob)))"
proof -
  let ?u = "opts_need (pUri R)" and ?o = "opts_need (pOptList ob)"
  have ob: "length (NetAddr (Ep ob)) = 16" "list_all opt_wf (pOptList ob)"
    "j \<notin> {OPT_NUM_OBSERVE, OPT_NUM_URI_QUERY} \<Longrightarrow> vals j (pOptList ob) = []" for j
    using assms(3) by (auto simp: observer_wf_def opts_wf_def list_all_iff intro: vals_none)
  have uri: "j \<noteq> OPT_NUM_URI_PATH \<Longrightarrow> vals j (pUri R) = []" "list_all opt_wf (pUri R)" for j
    using assms(4) by (auto simp: list_all_iff intro: vals_none)
  have st: "storable (pUri R)" "storable (pOptList ob)" using assms(5) ob(2) uri(2) by (auto simp: list_all_iff)
  obtain L m1 where rec: "observer_options bget_ops m (pUri R) False ob = (L, m1)"
    "mset (map opt_view L) = mset (observer_record (pUri R) ob)"
    by (rule bget_space.observer_options_room [OF assms(7) st ob(1)])
  have len: "length L = length (pUri R) + length (pOptList ob) + 3"
    using arg_cong [OF rec(2), of size] by (simp add: observer_record_def)
  note L = observer_options_complete [OF rec(1) len uri(2) ob(2,1)]
  note sums = record_sums [OF rec(2) ob(1) st L(1)]
  let ?e = "encode_options 0 L"
  have e: "length ?e \<le> 2046" using sums(4) assms(6) by simp
  have ne: "L \<noteq> []" using len by auto
  obtain page' m' where save: "CoAP_NVsaveObservers bget_ops m page (us @ R # vs) = Some (COAP_OK, ?e @ [0xff], page', m')"
    using save_single [OF assms(1,2) rec(1) L(1), of page] e by auto
  have eq: "opts_need L + (64 + ?o) = ?u + 2 * ?o + 181" unfolding sums(3) by simp
  note load = load_record [OF assms(3) sums(2) ne e st(2) assms(4) L(2), unfolded eq]
  show ?thesis
    by (rule exI [of _ "?e @ [0xff]"], rule exI [of _ page'], rule exI [of _ m'], intro conjI allI impI, rule save, elim conjE, rule load)
qed

text \<open>An observer with one option, saved from and restored into a fresh pool.\<close>

definition nv_observer :: CoAP_Observer_t where
  "nv_observer = \<lparr>ob_at = 8, Ep = demo_ep, IfID = 2, FailCount = 0, Token = 0xABCD, pOptList = [demo_opt 15 [97, 61, 49]]\<rparr>"

definition nv_resource :: "CoAP_Observer_t list \<Rightarrow> CoAP_Res_t" where
  "nv_resource obs = \<lparr>res_at = 12, pDescription = None, UpdateCnt = 0, Options = \<lparr>Cf = 0, Flags = RES_OPT_GET, ETag = 0\<rparr>,
     pUri = [demo_opt 11 [116, 49]], pListObservers = obs, Handler = Some (User_handler 0), Notifier = Some 0\<rparr>"

lemma nv_wf: "observer_wf nv_observer"
  "list_all (\<lambda>p. opt_wf p \<and> Number p = OPT_NUM_URI_PATH) (pUri (nv_resource []))"
  "res_wf (nv_resource [])"
  "CoAP_FindResourceByUri [nv_resource []] (pUri (nv_resource [])) = Some 0"
  by code_simp+

lemma write_erased: "bytes_at (write_at (\<lambda>_. 0xff) 0 bs) 0 (length bs + 1) = bs @ [0xff]"
  by (rule nth_equalityI) (auto simp: write_at_def nth_append)

theorem observer_saved_and_loaded_witness:
  "\<exists>saved page' m' ob' n'. CoAP_NVsaveObservers bget_ops demo_pool (\<lambda>_. 0) [nv_resource [nv_observer]] = Some (COAP_OK, saved, page', m') \<and>
    CoAP_NVloadObservers bget_ops demo_pool (Some (write_at (\<lambda>_. 0xff) 0 saved)) [nv_resource []] =
      Some (COAP_OK, [nv_resource [ob']], n') \<and>
    Ep ob' = demo_ep \<and> IfID ob' = 2 \<and> Token ob' = 0xABCD \<and> map opt_view (pOptList ob') = [(15, [97, 61, 49])]"
proof -
  have uri: "pUri (nv_resource obs) = [demo_opt 11 [116, 49]]" for obs by (simp add: nv_resource_def)
  have ob: "pOptList nv_observer = [demo_opt 15 [97, 61, 49]]" by (simp add: nv_observer_def)
  obtain saved page' m' where s: "CoAP_NVsaveObservers bget_ops demo_pool (\<lambda>_. 0) ([] @ nv_resource [nv_observer] # []) = Some (COAP_OK, saved, page', m')"
    "\<forall>nv n h Rs k. bytes_at nv 0 (length saved + 1) = saved @ [0xff] \<and> bget_rep n h \<and> bget_room (30 + 2 * 31 + 181) n \<and>
       list_all res_wf Rs \<and> CoAP_FindResourceByUri Rs (pUri (nv_resource [])) = Some k \<longrightarrow>
     (\<exists>ob' n'. CoAP_NVloadObservers bget_ops n (Some nv) Rs =
        Some (COAP_OK, Rs[k := (Rs ! k)\<lparr>pListObservers := pListObservers (Rs ! k) @ [ob']\<rparr>], n') \<and>
      Ep ob' = Ep nv_observer \<and> IfID ob' = IfID nv_observer \<and> Token ob' = Token nv_observer \<and>
      map opt_view (pOptList ob') = map opt_view (pOptList nv_observer))"
    using observer_saved_and_loaded [of "[]" "[]" "nv_resource [nv_observer]" nv_observer demo_pool "\<lambda>_. 0"] nv_wf(1,2) demo_room [of 178]
    by (auto simp: uri ob demo_opt_def nv_resource_def)
  from s(2) [rule_format, of "write_at (\<lambda>_. 0xff) 0 saved" demo_pool Map.empty "[nv_resource []]" 0]
  have "\<exists>ob' n'. CoAP_NVloadObservers bget_ops demo_pool (Some (write_at (\<lambda>_. 0xff) 0 saved)) [nv_resource []] =
        Some (COAP_OK, [nv_resource []\<lparr>pListObservers := [ob']\<rparr>], n') \<and>
      Ep ob' = Ep nv_observer \<and> IfID ob' = IfID nv_observer \<and> Token ob' = Token nv_observer \<and>
      map opt_view (pOptList ob') = map opt_view (pOptList nv_observer)"
    using write_erased [of saved] demo_rep demo_room [of 273] nv_wf(3,4) by (simp add: nv_resource_def)
  with s(1) show ?thesis by (auto simp: nv_resource_def nv_observer_def demo_opt_def opt_view_def)
qed

section \<open>Further observers of a resource\<close>

text \<open>Without memory an insertion leaves the list as it is, so no step adds another number.\<close>

lemma append_numbers:
  assumes "CoAP_AppendOptionToList A m L n buf len = (r, L', m')"
  shows "Number ` set L' \<subseteq> insert n (Number ` set L)"
proof -
  have "set (insert_option x L) = insert x (set L)" for x by (metis mset_insert_option set_mset_add_mset_insert set_mset_mset)
  then show ?thesis
    using assms by (auto simp: append_cases fill_option_def split: prod.splits if_splits)
qed

lemma copy_numbers: "copy_options A m L os = (L', m') \<Longrightarrow> Number ` set L' \<subseteq> Number ` set L \<union> Number ` set os"
proof (induction os arbitrary: m L)
  case (Cons x os)
  obtain r L1 m1 where a: "CoAP_AppendOptionToList A m L (Number x) (Value x) (Length x) = (r, L1, m1)" by (metis prod_cases3)
  with Cons.prems have "copy_options A m1 L1 os = (L', m')" by (simp add: CoAP_CopyOptionToList_def)
  from Cons.IH [OF this] append_numbers [OF a] show ?case by (simp add: image_Un subset_iff) blast
qed simp

lemma further_observer_pathless:
  assumes "observer_options A m uri True ob = (L, m')" "OPT_NUM_URI_PATH \<notin> Number ` set (pOptList ob)"
  shows "vals OPT_NUM_URI_PATH L = []"
proof -
  obtain r1 L1 m1 where 1: "CoAP_AppendOptionToList A m [] OPT_NUM_URI_HOST (ep_bytes (Ep ob)) (of_nat sizeof_NetEp_t) = (r1, L1, m1)"
    by (metis prod_cases3)
  obtain r2 L2 m2 where 2: "CoAP_AppendOptionToList A m1 L1 OPT_NUM_URI_PORT [IfID ob] 1 = (r2, L2, m2)" by (metis prod_cases3)
  obtain L4 m4 where 4: "copy_options A m2 L2 (pOptList ob) = (L4, m4)" by fastforce
  have "\<exists>r5 m5. CoAP_AppendOptionToList A m4 L4 OPT_NUM_LOBARO_TOKEN_SAVE (token_bytes (Token ob)) 8 = (r5, L, m5)"
    using assms(1) 1 2 4 by (simp add: observer_options_def split: prod.splits)
  then obtain r5 m5 where 5: "CoAP_AppendOptionToList A m4 L4 OPT_NUM_LOBARO_TOKEN_SAVE (token_bytes (Token ob)) 8 = (r5, L, m5)" by auto
  have "OPT_NUM_URI_PATH \<notin> Number ` set L1" by (rule contra_subsetD [OF append_numbers [OF 1]]) simp
  then have "OPT_NUM_URI_PATH \<notin> Number ` set L2" by (intro contra_subsetD [OF append_numbers [OF 2]]) simp
  then have "OPT_NUM_URI_PATH \<notin> Number ` set L4" by (intro contra_subsetD [OF copy_numbers [OF 4]]) (use assms(2) in simp)
  then have "OPT_NUM_URI_PATH \<notin> Number ` set L" by (intro contra_subsetD [OF append_numbers [OF 5]]) simp
  then show ?thesis by (rule vals_none)
qed

text \<open>The record of a further observer of a resource ends the loading: no resource is found for it,
  and the options that stay in the list make the next call of the parser fail. The observer, and
  all that are stored behind it, are lost.\<close>

theorem further_observer_lost:
  assumes "observer_options A m (pUri R) True ob = (L, m')" "observer_wf ob" "L \<noteq> []"
    and "parse_OptionsFromRaw B n (sub_at page off) 2048 [] = Some (COAP_OK, Some b, L', n')"
    "map opt_view L' = map opt_view L" "opts_wf L'"
    and "list_all res_wf Rs" "list_all (\<lambda>R. uri_path (pUri R) \<noteq> []) Rs"
  shows "load_loop B page (Some off) [] Rs n = Some (Rs, n')"
proof -
  have "vals OPT_NUM_URI_PATH L = []"
    by (rule further_observer_pathless [OF assms(1)]) (use assms(2) in \<open>auto simp: observer_wf_def list_all_iff\<close>)
  then have "uri_path L' = []" using vals_view [OF assms(5)] by (simp add: uri_path_def vals_def)
  then have "CoAP_FindResourceByUri Rs L' = None"
    using find_resource_iff [OF assms(7), of L'] assms(6,8) unfolding CoAP_FindResourceByUri_def opts_wf_def list_all_length
    by (metis not_None_eq)
  moreover have "L' \<noteq> []" using assms(3,5) by auto
  then have "load_loop B page (Some (off + b)) L' Rs n' = Some (Rs, n')"
    by (subst load_loop.simps) (simp add: parse_OptionsFromRaw_def)
  ultimately show ?thesis
    by (subst load_loop.simps) (simp add: assms(4))
qed

end
