(* ===== verification/Printing.thy ===== *)
theory Printing
  imports Resource Examples
begin

text \<open>
  Debug output: the macros of \<open>interface/debug/coap_debug.h\<close> and the functions that print messages,
  options, resources, endpoints, packets and the state of the allocator. A print function is the list
  of the strings it formats, one for each use of \<open>INFO\<close>; \<open>PRINTF\<close> writes such a string into the buffer
  \<open>dbgBuf\<close> and hands it to \<open>hal_debug_puts\<close>. The uses of \<open>INFO\<close> inside other functions are not part of
  the model of those functions.
\<close>

section \<open>The buffer\<close>

definition DEBUG_BUF_SIZE :: nat where "DEBUG_BUF_SIZE = 500"

record dbg =
  dbgBuf :: string
  uart :: string

text \<open>\<open>sprintf\<close> writes the string and its end mark, \<open>hal_debug_puts\<close> prints up to the first end mark.
  A longer string would be written behind the buffer (\<open>None\<close>).\<close>

definition cstr :: "string \<Rightarrow> string" where
  "cstr s = takeWhile (\<lambda>c. c \<noteq> CHR 0x00) s"

definition hal_debug_puts :: "string \<Rightarrow> dbg \<Rightarrow> dbg" where
  "hal_debug_puts s d = d\<lparr>uart := uart d @ cstr s\<rparr>"

definition PRINTF :: "string \<Rightarrow> dbg \<Rightarrow> dbg option" where
  "PRINTF s d =
     (if length s < DEBUG_BUF_SIZE
      then Some (hal_debug_puts s (d\<lparr>dbgBuf := s @ CHR 0x00 # drop (length s + 1) (dbgBuf d)\<rparr>))
      else None)"

fun prints :: "string list \<Rightarrow> dbg \<Rightarrow> dbg option" where
  "prints [] d = Some d"
| "prints (s # ss) d = (case PRINTF s d of None \<Rightarrow> None | Some d' \<Rightarrow> prints ss d')"

definition ERROR :: "string \<Rightarrow> string list" where
  "ERROR s = [''- (!) ERROR (!) :'', s]"

section \<open>Conversions of \<open>sprintf\<close>\<close>

definition digit :: "nat \<Rightarrow> char" where
  "digit n = char_of (if n < 10 then 48 + n else 87 + n)"

fun decimal :: "nat \<Rightarrow> string" where
  "decimal n = (if n < 10 then [digit n] else decimal (n div 10) @ [digit (n mod 10)])"

declare decimal.simps [simp del]

definition fmt_d :: "int \<Rightarrow> string" where
  "fmt_d i = (if i < 0 then CHR ''-'' # decimal (nat (- i)) else decimal (nat i))"

definition fmt_02d :: "nat \<Rightarrow> string" where
  "fmt_02d n = (if n < 10 then CHR ''0'' # decimal n else decimal n)"

definition fmt_02x :: "u8 \<Rightarrow> string" where
  "fmt_02x b = [digit (unat b div 16), digit (unat b mod 16)]"

definition fmt_c :: "u8 \<Rightarrow> string" where
  "fmt_c b = [char_of (unat b)]"

abbreviation fmt_u :: "'a::len word \<Rightarrow> string" where
  "fmt_u x \<equiv> decimal (unat x)"

definition int32 :: "int \<Rightarrow> int" where
  "int32 i = sint (word_of_int i :: 32 word)"

definition crlf :: string where
  "crlf = [CHR 0x0D, CHR 0x0A]"

section \<open>Options\<close>

definition print_bytes :: "string \<Rightarrow> u8 list \<Rightarrow> string list" where
  "print_bytes zero bs =
     concat (map (\<lambda>b. if b \<noteq> 0 then ['' '' @ fmt_c b @ ''['', fmt_02x b @ '']''] else [zero]) bs)"

primrec CoAP_printOptionsList :: "CoAP_option_t list \<Rightarrow> string list" where
  "CoAP_printOptionsList [] = []"
| "CoAP_printOptionsList (p # next) =
     (''-Option #'' @ fmt_u (Number p) @ '' (Length='' @ fmt_u (Length p) @ '') ->'') #
     print_bytes ''  [0x00]'' (take (unat (Length p)) (Value p)) @ [crlf] @ CoAP_printOptionsList next"

fun print_uri_loop :: "bool \<Rightarrow> CoAP_option_t list \<Rightarrow> string list" where
  "print_uri_loop queryPos [] = []"
| "print_uri_loop queryPos (p # next) =
     (if Number p = OPT_NUM_URI_PATH then
        map fmt_c (take (unat (Length p)) (Value p)) @ [[CHR 0x5C]] @ print_uri_loop queryPos next
      else if Number p = OPT_NUM_URI_QUERY then
        (if \<not> queryPos then [''?''] else [''&'']) @ map fmt_c (take (unat (Length p)) (Value p)) @ print_uri_loop True next
      else print_uri_loop queryPos next)"

definition CoAP_printUriOptionsList :: "CoAP_option_t list \<Rightarrow> string list" where
  "CoAP_printUriOptionsList L = print_uri_loop False L @ [crlf]"

definition dbgBlkOption :: "CoAP_blockwise_option_t \<Rightarrow> CoAP_Result_t \<times> string list" where
  "dbgBlkOption B =
     (COAP_OK,
      (if BlkType B = BLOCK_1 then [crlf @ ''>>Block1 (#'' @ fmt_u (BlkType B) @ '') Option found'' @ crlf] else []) @
      (if BlkType B = BLOCK_2 then [crlf @ ''>>Block2 (#'' @ fmt_u (BlkType B) @ '') Option found'' @ crlf] else []) @
      [''- BlockSize: '' @ fmt_d (sint (BlockSize B)) @ crlf,
       ''- BlockNum: '' @ fmt_d (sint (BlockNum B)) @ crlf,
       ''- MoreFlag: '' @ decimal (if MoreFlag B then 1 else 0) @ crlf])"

section \<open>Endpoints and packets\<close>

definition NetType_number :: "NetInterfaceType_t \<Rightarrow> nat" where
  "NetType_number t = (case t of IPV6 \<Rightarrow> 0 | IPV4 \<Rightarrow> 1 | BTLE \<Rightarrow> 2 | UART \<Rightarrow> 3)"

definition PRINT_IPV6 :: "u8 list \<Rightarrow> string list" where
  "PRINT_IPV6 ip =
     [concat (map (\<lambda>k. (if k = 0 then [] else '':'') @ fmt_02x (ip ! (2 * k)) @ fmt_02x (ip ! (2 * k + 1))) [0..<8])]"

definition PrintEndpoint :: "NetEp_t \<Rightarrow> string list" where
  "PrintEndpoint ep =
     (if NetType ep = IPV6 then
        [''IPv6, ''] @ PRINT_IPV6 (NetAddr ep) @ ['' at Port: '' @ fmt_u (NetPort ep) @ crlf]
      else if NetType ep = IPV4 then
        [''IPv4, '' @ fmt_u (NetAddr ep ! 0) @ ''.'' @ fmt_u (NetAddr ep ! 1) @ ''.'' @ fmt_u (NetAddr ep ! 2) @ ''.'' @
         fmt_u (NetAddr ep ! 3) @ '':'' @ fmt_u (NetPort ep) @ crlf]
      else ERROR (''- Unknown Endpoint Type ('' @ decimal (NetType_number (NetType ep)) @ '')'' @ crlf))"

text \<open>The signal strength and the hop count are read whatever the type of the meta information is; for
  \<open>META_INFO_NONE\<close> they are the arguments.\<close>

definition PrintRawPacket :: "int \<Rightarrow> u8 \<Rightarrow> NetPacket_t \<Rightarrow> string list" where
  "PrintRawPacket rssi hops pckt =
     (let (rssi, hops) = (case MetaInfo pckt of META_INFO_NONE \<Rightarrow> (rssi, hops) | META_INFO_RF_PATH h r \<Rightarrow> (r, h));
          data = take (unat (pk_size pckt)) (pData pckt)
      in [''Packet size:'' @ fmt_u (pk_size pckt) @ '' rssi:'' @ fmt_d (int32 rssi) @ '' hops: '' @ fmt_u hops @ '' '' @ crlf @ ''RawData (hex) :''] @
         map (\<lambda>b. ''0x'' @ fmt_02x b @ '', '') data @ [crlf @ ''RawData (char):''] @ map fmt_c data @
         [crlf @ ''EP Sender: ''] @ PrintEndpoint (Sender pckt) @ [''EP Receiver: ''] @ PrintEndpoint (Receiver pckt))"

section \<open>Messages\<close>

definition print_type :: "CoAP_MessageType_t \<Rightarrow> string list" where
  "print_type ty =
     (case ty of
        CON \<Rightarrow> [''*Type: CON (0x00)'' @ crlf]
      | NON \<Rightarrow> [''*Type: NON (0x01)'' @ crlf]
      | ACK \<Rightarrow> [''*Type: ACK (0x02)'' @ crlf]
      | RST \<Rightarrow> [''*Type: RST (0x03)'' @ crlf])"

definition TOKEN_BYTE :: "nat \<Rightarrow> u64 \<Rightarrow> u8" where
  "TOKEN_BYTE i token = ucast (drop_bit (8 * i) token)"

definition print_token :: "u64 \<Rightarrow> string list" where
  "print_token token =
     (let tokenBytes = getTokenByteCount token in
      if tokenBytes > 0 then
        (''*Token: '' @ fmt_u tokenBytes @ '' Byte -> 0x'') # map (\<lambda>i. fmt_02x (TOKEN_BYTE i token)) [0..<unat tokenBytes]
      else [''*Token: '' @ fmt_u tokenBytes @ '' Byte -> 0''])"

definition print_code :: "u8 \<Rightarrow> string list" where
  "print_code code =
     [crlf @ ''*Code: '' @ fmt_u (drop_bit 5 code) @ ''.'' @ fmt_02d (unat (code AND 31)) @ '' (0x'' @ fmt_02x code @ '') '',
      if code = EMPTY then ''[EMPTY]'' @ crlf
      else if code = REQ_GET then ''[REQ_GET]'' @ crlf
      else if code = REQ_POST then ''[REQ_POST]'' @ crlf
      else if code = REQ_PUT then ''[REQ_PUT]'' @ crlf
      else if code = REQ_DELETE then ''[REQ_DELETE]'' @ crlf
      else crlf]"

primrec print_msg_options :: "CoAP_option_t list \<Rightarrow> string list" where
  "print_msg_options [] = []"
| "print_msg_options (p # next) =
     (''*Option #'' @ fmt_u (Number p) @ '' (Length='' @ fmt_u (Length p) @ '') ->'') #
     print_bytes ''  [00]'' (take (unat (Length p)) (Value p)) @ [crlf] @ print_msg_options next"

definition print_payload :: "CoAP_Message_t \<Rightarrow> string list" where
  "print_payload msg =
     (if PayloadLength msg \<noteq> 0 then
        [''*Payload ('' @ fmt_u (PayloadLength msg) @ '' Byte): '' @ [CHR 0x22]] @
        (if PayloadLength msg > MAX_PAYLOAD_SIZE then [''too much payload!'']
         else map fmt_c (take (unat (PayloadLength msg)) (PayloadData msg))) @
        [CHR 0x22 # crlf]
      else [])"

definition CoAP_PrintMsg :: "CoAP_Message_t \<Rightarrow> string list" where
  "CoAP_PrintMsg msg =
     [''----------------------------'' @ crlf] @ print_type (Type msg) @ print_token (Token64 msg) @
     print_code (Code msg) @ [''*MessageId: '' @ fmt_u (MessageID msg) @ crlf] @
     print_msg_options (pOptionsList msg) @ print_payload msg @
     [''*Timestamp: '' @ fmt_d (sint (Timestamp msg)) @ crlf, ''----------------------------'' @ crlf]"

definition CoAP_PrintResultValue :: "CoAP_Result_t \<Rightarrow> string list" where
  "CoAP_PrintResultValue res =
     [(case res of
         COAP_OK \<Rightarrow> ''COAP_OK''
       | COAP_PARSE_DATAGRAM_TOO_SHORT \<Rightarrow> ''COAP_PARSE_DATAGRAM_TOO_SHORT''
       | COAP_PARSE_UNKOWN_COAP_VERSION \<Rightarrow> ''COAP_PARSE_UNKOWN_COAP_VERSION''
       | COAP_PARSE_MESSAGE_FORMAT_ERROR \<Rightarrow> ''COAP_PARSE_MESSAGE_FORMAT_ERROR''
       | COAP_PARSE_TOO_MANY_OPTIONS \<Rightarrow> ''COAP_PARSE_TOO_MANY_OPTIONS''
       | COAP_PARSE_TOO_LONG_OPTION \<Rightarrow> ''COAP_PARSE_TOO_LONG_OPTION''
       | COAP_PARSE_TOO_MUCH_PAYLOAD \<Rightarrow> ''COAP_PARSE_TOO_MUCH_PAYLOAD''
       | COAP_ERR_OUT_OF_MEMORY \<Rightarrow> ''COAP_ERR_OUT_OF_MEMORY''
       | _ \<Rightarrow> ''UNKNOWN RESULT'') @ crlf]"

section \<open>Resources\<close>

primrec print_observers :: "CoAP_Observer_t list \<Rightarrow> string list" where
  "print_observers [] = []"
| "print_observers (ob # next) =
     [''Token:'' @ fmt_u (Token ob) @ '' - ''] @ PrintEndpoint (Ep ob) @ CoAP_printUriOptionsList (pOptList ob) @
     CoAP_printOptionsList (pOptList ob) @ [''---'' @ crlf] @ print_observers next"

definition CoAP_PrintResource :: "CoAP_Res_t \<Rightarrow> string list" where
  "CoAP_PrintResource pRes =
     CoAP_printUriOptionsList (pUri pRes) @ [''Observers:'' @ crlf] @ print_observers (pListObservers pRes) @ [crlf]"

primrec CoAP_PrintAllResources :: "CoAP_Res_t list \<Rightarrow> string list" where
  "CoAP_PrintAllResources [] = []"
| "CoAP_PrintAllResources (pRes # next) = CoAP_PrintResource pRes @ CoAP_PrintAllResources next"

section \<open>The allocator\<close>

text \<open>The bytes in use that are marked as static.\<close>

definition coap_mem_determinateStaticMem :: "bget_state \<Rightarrow> int option" where
  "coap_mem_determinateStaticMem m = map_option (\<lambda>(curalloc, _). curalloc) (bstats m)"

definition coap_mem_stats :: "int \<Rightarrow> bget_state \<Rightarrow> string list option" where
  "coap_mem_stats StaticAllocation m =
     map_option (\<lambda>(curalloc, totfree, maxfree, nget, nrel).
       [''- CoAP mem usage: dynamic: ['' @ fmt_d (int32 (curalloc - StaticAllocation)) @ ''] dynamic+static: ['' @ fmt_d (int32 curalloc) @
        ''] free: ['' @ fmt_d (int32 totfree) @ ''] biggest shunk: ['' @ fmt_d (int32 maxfree) @ ''] get/releases: ['' @
        fmt_d (int32 nget) @ ''|'' @ fmt_d (int32 nrel) @ '']'' @ crlf]) (bstats m)"

section \<open>No string is too long for the buffer\<close>

lemma length_decimal: "n < 10 ^ k \<Longrightarrow> 0 < k \<Longrightarrow> length (decimal n) \<le> k"
proof (induction k arbitrary: n)
  case (Suc k)
  show ?case
  proof (cases "n < 10")
    case False
    then have "0 < k" using Suc.prems(1) by (cases k) auto
    moreover have "n div 10 < 10 ^ k" using Suc.prems(1) by (simp add: less_mult_imp_div_less mult.commute)
    ultimately have "length (decimal (n div 10)) \<le> k" by (rule Suc.IH [rotated])
    then show ?thesis using False by (subst decimal.simps) simp
  qed (simp add: decimal.simps [of n])
qed simp

lemma decimal_small: "n < 10 \<Longrightarrow> decimal n = [digit n]" "n < 10 \<Longrightarrow> fmt_02d n = [CHR ''0'', digit n]"
  by (simp_all add: decimal.simps [of n] fmt_02d_def)

lemma length_fmt_u: "length (fmt_u (x :: 'a::len word)) \<le> LENGTH('a)"
proof -
  have "unat x < 2 ^ LENGTH('a)" by (rule unsigned_less)
  also have "\<dots> \<le> (10 :: nat) ^ LENGTH('a)" by (rule power_mono) simp_all
  finally show ?thesis by (intro length_decimal) simp_all
qed

lemma length_fmt_d: "- (10 ^ k) < i \<Longrightarrow> i < 10 ^ k \<Longrightarrow> 0 < k \<Longrightarrow> length (fmt_d i) \<le> k + 1"
  using length_decimal [of "nat i" k] length_decimal [of "nat (- i)" k] by (auto simp: fmt_d_def nat_less_iff)

lemma length_fmt_sint: "length (fmt_d (sint (x :: 32 word))) \<le> 11"
  using sint_ge [of x] sint_lt [of x] by (intro length_fmt_d [of 10, simplified]) simp_all

definition fits :: "string list \<Rightarrow> bool" where
  "fits ss \<longleftrightarrow> list_all (\<lambda>s. length s < DEBUG_BUF_SIZE) ss"

lemma strings_fit_simps [simp]:
  "fits []" "fits (s # ss) \<longleftrightarrow> length s < 500 \<and> fits ss" "fits (ss @ ts) \<longleftrightarrow> fits ss \<and> fits ts"
  by (simp_all add: fits_def DEBUG_BUF_SIZE_def)

lemma strings_fit_map [simp]: "(\<And>x. length (f x) < 500) \<Longrightarrow> fits (map f xs)"
  by (simp add: fits_def DEBUG_BUF_SIZE_def list_all_iff)

lemma length_simps [simp]: "length (fmt_c b) = 1" "length (fmt_02x b) = 2" "length crlf = 2"
  by (simp_all add: fmt_c_def fmt_02x_def crlf_def)

lemma fits_bytes: "length zero < 500 \<Longrightarrow> fits (print_bytes zero bs)"
  by (induction bs) (simp_all add: print_bytes_def)

lemma fits_OptionsList: "fits (CoAP_printOptionsList L)"
proof (induction L)
  case (Cons p L)
  then show ?case using length_fmt_u [of "Number p"] length_fmt_u [of "Length p"] fits_bytes by simp
qed simp

lemma fits_msg_options: "fits (print_msg_options L)"
proof (induction L)
  case (Cons p L)
  then show ?case using length_fmt_u [of "Number p"] length_fmt_u [of "Length p"] fits_bytes by simp
qed simp

lemma fits_uri_loop: "fits (print_uri_loop q L)"
  by (induction q L rule: print_uri_loop.induct) simp_all

lemma fits_UriOptions: "fits (CoAP_printUriOptionsList L)"
  by (simp add: CoAP_printUriOptionsList_def fits_uri_loop)

lemma fits_Endpoint: "fits (PrintEndpoint ep)"
proof -
  have "[0..<8] = [0, 1, 2, 3, 4, 5, 6, 7 :: nat]" by code_simp
  then have "fits (PRINT_IPV6 ip)" for ip by (simp add: PRINT_IPV6_def)
  moreover have "length (decimal (NetType_number (NetType ep))) \<le> 1"
    by (rule length_decimal) (cases "NetType ep"; simp add: NetType_number_def)+
  ultimately show ?thesis
    using length_fmt_u [of "NetPort ep"] length_fmt_u [of "NetAddr ep ! 0"] length_fmt_u [of "NetAddr ep ! 1"]
      length_fmt_u [of "NetAddr ep ! 2"] length_fmt_u [of "NetAddr ep ! 3"]
    by (simp add: PrintEndpoint_def ERROR_def)
qed

lemma length_fmt_int32: "length (fmt_d (int32 i)) \<le> 11"
  unfolding int32_def by (rule length_fmt_sint)

lemma fits_RawPacket: "fits (PrintRawPacket r h pk)"
proof (cases "MetaInfo pk")
  case META_INFO_NONE
  then show ?thesis using length_fmt_u [of "pk_size pk"] length_fmt_u [of h] length_fmt_int32 [of r] fits_Endpoint
    by (simp add: PrintRawPacket_def Let_def)
next
  case (META_INFO_RF_PATH h r)
  then show ?thesis using length_fmt_u [of "pk_size pk"] length_fmt_u [of h] length_fmt_int32 [of r] fits_Endpoint
    by (simp add: PrintRawPacket_def Let_def)
qed

lemma fits_Msg: "fits (CoAP_PrintMsg M)"
proof -
  have "fits (print_type ty)" for ty by (cases ty) (simp_all add: print_type_def)
  moreover have "fits (print_token tok)" for tok
    using length_fmt_u [of "getTokenByteCount tok"] by (simp add: print_token_def Let_def)
  moreover have "fits (print_code c)" for c
  proof -
    have "length (fmt_02d (unat (c AND 31))) \<le> 9" using length_fmt_u [of "c AND 31"] by (simp add: fmt_02d_def)
    then show ?thesis using length_fmt_u [of "drop_bit 5 c"] by (simp add: print_code_def decimal_small)
  qed
  moreover have "fits (print_payload M)" using length_fmt_u [of "PayloadLength M"] by (simp add: print_payload_def)
  ultimately show ?thesis
    using length_fmt_u [of "MessageID M"] length_fmt_sint [of "Timestamp M"] fits_msg_options by (simp add: CoAP_PrintMsg_def)
qed

lemma fits_ResultValue: "fits (CoAP_PrintResultValue r)"
  by (cases r) (simp_all add: CoAP_PrintResultValue_def)

lemma fits_observers: "fits (print_observers obs)"
proof (induction obs)
  case (Cons ob obs)
  then show ?case using length_fmt_u [of "Token ob"] fits_Endpoint fits_UriOptions fits_OptionsList by simp
qed simp

lemma fits_AllResources: "fits (CoAP_PrintAllResources Rs)"
  by (induction Rs) (simp_all add: CoAP_PrintResource_def fits_UriOptions fits_observers)

lemma fits_BlkOption: "fits (snd (dbgBlkOption B))"
proof -
  have "length (decimal (if MoreFlag B then 1 else 0)) \<le> 1" by (rule length_decimal) simp_all
  then show ?thesis
    using length_fmt_u [of "BlkType B"] length_fmt_sint [of "BlockSize B"] length_fmt_sint [of "BlockNum B"]
    by (simp add: dbgBlkOption_def decimal.simps [of 23] decimal.simps [of 27] decimal_small)
qed

lemma fits_mem_stats: "coap_mem_stats st m = Some ss \<Longrightarrow> fits ss"
proof -
  assume "coap_mem_stats st m = Some ss"
  then obtain a b c d e where "ss = [''- CoAP mem usage: dynamic: ['' @ fmt_d (int32 (a - st)) @ ''] dynamic+static: ['' @ fmt_d (int32 a) @
        ''] free: ['' @ fmt_d (int32 b) @ ''] biggest shunk: ['' @ fmt_d (int32 c) @ ''] get/releases: ['' @
        fmt_d (int32 d) @ ''|'' @ fmt_d (int32 e) @ '']'' @ crlf]"
    by (auto simp: coap_mem_stats_def)
  then show ?thesis
    using length_fmt_int32 [of "a - st"] length_fmt_int32 [of a] length_fmt_int32 [of b] length_fmt_int32 [of c]
      length_fmt_int32 [of d] length_fmt_int32 [of e] by simp
qed

lemma prints_fits:
  assumes "fits ss" "length (dbgBuf d) = DEBUG_BUF_SIZE"
  shows "\<exists>b. length b = DEBUG_BUF_SIZE \<and> prints ss d = Some (d\<lparr>dbgBuf := b, uart := uart d @ concat (map cstr ss)\<rparr>)"
  using assms
proof (induction ss arbitrary: d)
  case Nil
  then show ?case by (intro exI [of _ "dbgBuf d"]) simp
next
  case (Cons s ss)
  let ?d = "hal_debug_puts s (d\<lparr>dbgBuf := s @ CHR 0x00 # drop (length s + 1) (dbgBuf d)\<rparr>)"
  have s: "length s < DEBUG_BUF_SIZE" using Cons.prems(1) by (simp add: fits_def)
  then have "length (dbgBuf ?d) = DEBUG_BUF_SIZE" using Cons.prems(2) by (simp add: hal_debug_puts_def)
  then obtain b where "length b = DEBUG_BUF_SIZE" "prints ss ?d = Some (?d\<lparr>dbgBuf := b, uart := uart ?d @ concat (map cstr ss)\<rparr>)"
    using Cons.IH [of ?d] Cons.prems(1) by auto
  then show ?case using s by (intro exI [of _ b]) (simp add: PRINTF_def hal_debug_puts_def)
qed

section \<open>What is printed of a URI\<close>

fun join_with :: "'a list \<Rightarrow> 'a list list \<Rightarrow> 'a list" where
  "join_with sep [] = []"
| "join_with sep [x] = x"
| "join_with sep (x # y # xs) = x @ sep @ join_with sep (y # xs)"

lemma cstr_chars: "0 \<notin> set v \<Longrightarrow> concat (map cstr (map fmt_c v)) = map (\<lambda>b. char_of (unat b)) v"
proof (induction v)
  case (Cons b v)
  have "char_of (unat b) \<noteq> CHR 0x00"
  proof
    assume "char_of (unat b) = CHR 0x00"
    then have "of_char (char_of (unat b) :: char) = (0 :: nat)" by simp
    then have "unat b mod 256 = 0" by simp
    moreover have "unat b < 256" using unsigned_less [of b] by simp
    ultimately have "unat b = 0" by simp
    then show False using Cons.prems by (simp add: unat_eq_0)
  qed
  then show ?case using Cons by (simp add: fmt_c_def cstr_def)
qed simp

definition chars :: "u8 list \<Rightarrow> string" where
  "chars v = map (\<lambda>b. char_of (unat b)) v"

definition printed :: "string list \<Rightarrow> string" where
  "printed ss = concat (map cstr ss)"

lemma printed_simps [simp]:
  "printed [] = []" "printed (s # ss) = cstr s @ printed ss" "printed (ss @ ts) = printed ss @ printed ts"
  by (simp_all add: printed_def)

lemma cstr_lits [simp]: "cstr [CHR 0x5C] = [CHR 0x5C]" "cstr ''?'' = ''?''" "cstr ''&'' = ''&''" "cstr crlf = crlf"
  by (simp_all add: cstr_def crlf_def)

definition printable :: "CoAP_option_t \<Rightarrow> bool" where
  "printable p \<longleftrightarrow> opt_wf p \<and> 0 \<notin> set (Value p)"

lemma printed_value: "printable p \<Longrightarrow> printed (map fmt_c (take (unat (Length p)) (Value p))) = chars (Value p)"
  using cstr_chars [of "Value p"] by (simp add: printable_def opt_wf_def printed_def chars_def)

abbreviation values_of :: "u16 \<Rightarrow> CoAP_option_t list \<Rightarrow> u8 list list" where
  "values_of n L \<equiv> map Value (filter (\<lambda>p. Number p = n) L)"

lemma print_queries:
  assumes "list_all printable L" "\<forall>p \<in> set L. Number p \<noteq> OPT_NUM_URI_PATH"
  shows "printed (print_uri_loop True L) = concat (map (\<lambda>v. ''&'' @ chars v) (values_of OPT_NUM_URI_QUERY L))"
  using assms by (induction L) (auto simp: printed_value)

lemma join_queries: "v @ concat (map (\<lambda>w. sep @ w) vs) = join_with sep (v # vs)"
proof (induction vs arbitrary: v)
  case (Cons w vs)
  have "v @ concat (map (\<lambda>x. sep @ x) (w # vs)) = v @ sep @ (w @ concat (map (\<lambda>x. sep @ x) vs))" by simp
  then show ?case by (simp only: Cons.IH join_with.simps)
qed simp

lemma print_uri:
  assumes "list_all printable L" "sorted (map Number L)"
  shows "printed (print_uri_loop False L) =
    concat (map (\<lambda>v. chars v @ [CHR 0x5C]) (values_of OPT_NUM_URI_PATH L)) @
    (let qs = values_of OPT_NUM_URI_QUERY L in if qs = [] then [] else ''?'' @ join_with ''&'' (map chars qs))"
  using assms
proof (induction L)
  case (Cons p L)
  show ?case
  proof (cases "Number p = OPT_NUM_URI_QUERY")
    case True
    have np: "\<forall>q \<in> set L. Number q \<noteq> OPT_NUM_URI_PATH"
    proof
      fix q
      assume "q \<in> set L"
      then have "Number p \<le> Number q" using Cons.prems(2) by simp
      then show "Number q \<noteq> OPT_NUM_URI_PATH" using True by auto
    qed
    then have nil: "values_of OPT_NUM_URI_PATH L = []" by simp
    have "printed (print_uri_loop True L) = concat (map (\<lambda>v. ''&'' @ chars v) (values_of OPT_NUM_URI_QUERY L))"
      using print_queries [OF _ np] Cons.prems(1) by simp
    then show ?thesis
      using Cons.prems(1) True nil join_queries [of "chars (Value p)" "''&''" "map chars (values_of OPT_NUM_URI_QUERY L)"]
      by (simp add: printed_value Let_def comp_def)
  next
    case False
    then show ?thesis using Cons by (auto simp: printed_value Let_def)
  qed
qed simp


section \<open>Properties\<close>

text \<open>C40. Debug output stays in its buffer. Whatever message, result, resource list, packet, block option or
  state of the allocator is printed, no string that is formatted is longer than \<open>dbgBuf\<close>: the buffer keeps its
  size and the output is exactly the strings one after the other.\<close>

theorem debug_output_fits:
  assumes "length (dbgBuf d) = DEBUG_BUF_SIZE"
    and "ss \<in> {CoAP_PrintMsg M, CoAP_PrintResultValue r, CoAP_PrintAllResources Rs, PrintRawPacket rssi hops pk, snd (dbgBlkOption B)} \<union>
      set_option (coap_mem_stats st m)"
  shows "\<exists>b. length b = DEBUG_BUF_SIZE \<and> prints ss d = Some (d\<lparr>dbgBuf := b, uart := uart d @ concat (map cstr ss)\<rparr>)"
  by (rule prints_fits [OF _ assms(1)])
    (use assms(2) in \<open>auto simp: fits_Msg fits_ResultValue fits_AllResources fits_RawPacket fits_BlkOption dest: fits_mem_stats\<close>)

theorem debug_output_fits_witness:
  "\<exists>b. length b = DEBUG_BUF_SIZE \<and>
    prints (CoAP_PrintMsg demo_msg) \<lparr>dbgBuf = replicate 500 CHR 0x00, uart = []\<rparr> =
    Some \<lparr>dbgBuf = b, uart = concat (map cstr (CoAP_PrintMsg demo_msg))\<rparr>"
  using debug_output_fits [of "\<lparr>dbgBuf = replicate 500 CHR 0x00, uart = []\<rparr>" "CoAP_PrintMsg demo_msg" demo_msg]
  by (simp add: DEBUG_BUF_SIZE_def)

text \<open>The text printed for a list of options: the segments of the path, each followed by a backslash, then
  the query parameters with their separators.\<close>

lemma printed_uri_options:
  assumes "list_all printable L" "sorted (map Number L)"
  shows "printed (CoAP_printUriOptionsList L) =
    concat (map (\<lambda>v. chars v @ [CHR 0x5C]) (values_of OPT_NUM_URI_PATH L)) @
    (let qs = values_of OPT_NUM_URI_QUERY L in if qs = [] then [] else ''?'' @ join_with ''&'' (map chars qs)) @ crlf"
  by (simp add: CoAP_printUriOptionsList_def print_uri [OF assms])

end
