(* ===== verification/Spec2Isabelle.thy ===== *)
theory Spec2Isabelle
  imports Safety_Properties Exchange_Properties Observe_Properties Memory_Properties Message_Properties Option_Properties Resource_NV_Properties Printing
begin

text \<open>
  A verification development of the CoAP stack of this repository, the C sources under
  \<open>src/coap-old\<close>: a server and client for the Constrained Application Protocol (RFC 7252) with
  observers (RFC 7641) and block-wise transfer (RFC 7959), with its own memory allocator, driven
  through a small adapter for Go (\<open>go_adapter.c\<close>).

  \<^bold>\<open>How the program works.\<close> The adapter passes a received UDP datagram to
  \<open>CoAP_onNewPacketHandler\<close> (\<open>coap_main.c\<close>). The datagram is parsed into a message
  (\<open>coap_message.c\<close>, \<open>coap_options.c\<close>); empty messages, unknown resources and unknown critical
  options are answered at once; an acknowledgement, reset or response is applied to the interaction
  it belongs to; a request starts a new server interaction (\<open>coap_interaction.c\<close>) unless it is a
  duplicate. \<open>CoAP_doWork\<close> takes the first interaction and makes one step of its state machine:
  it calls the handler of a resource, sends or repeats a response, a notification or a request,
  hands a response to its callback, or deletes the interaction. Resources (\<open>coap_resource.c\<close>) are
  found by their Uri-Path options and keep a list of observers. Messages, options, interactions,
  resources and observers are buffers of the BGET allocator (\<open>interface/mem/coap_mem.c\<close>).

  \<^bold>\<open>The model.\<close> Each C function that changes state is one definition of the same name; a function
  that is long or has labels is a few definitions, one per part. Integers are words of their C
  width, except for the allocator, whose sizes are integers with the conversion \<open>s16\<close> to
  \<open>int16_t\<close> written out. A pointer is an address (an integer); an object is a record with the
  address of its buffer. Linked lists are HOL lists of such records in the order of the list.
  Operations return \<open>None\<close> where the sources have no defined outcome: a \<open>NULL\<close> pointer or a
  freed object is dereferenced, or a loop does not end. Sizes of structs are those of a machine
  with 4-byte pointers.

  \<^item> \<open>Prelude\<close>: integer types, byte arrays, result codes (\<open>coap.h\<close>), shared lemmas on words,
    lists and options.
  \<^item> \<open>Mem_Spec\<close>: the interface of the allocator (\<open>coap_mem.h\<close>), the locale \<open>coap_allocator\<close> with
    its laws, the locale \<open>allocator_room\<close> (requests up to a total size are sure to succeed), and the
    notion of ownership \<open>heap_ext\<close>. All operations of the stack take the allocator
    as a record of functions, and their memory lemmas are proved in this locale.
  \<^item> \<open>Coap_Mem\<close>, \<open>Coap_Mem_Correct\<close>: BGET as in \<open>coap_mem.c\<close> (headers, boundary tags, the doubly
    linked free list, best fit), its pool invariant, and the interpretations \<open>bget\<close> of
    \<open>coap_allocator\<close> and \<open>bget_space\<close> of \<open>allocator_room\<close> on it, through which every memory property
    below is about this allocator.
  \<^item> \<open>Options\<close>, \<open>Option_Codec\<close>: \<open>coap_options.c\<close>: option lists, and the option codec against the
    reference encoding \<open>encode_options\<close>.
  \<^item> \<open>Network\<close>: endpoints, packets, sockets (\<open>interface/network\<close>, \<open>go_adapter.c\<close>).
  \<^item> \<open>Message\<close>, \<open>Message_Codec\<close>, \<open>Message_Ops\<close>: \<open>coap_message.c\<close>: creation, payload, parser,
    serialiser, sending, release.
  \<^item> \<open>Option_Types\<close>, \<open>Option_Types_Correct\<close>: ETag, Content-Format, Observe and Block options and
    \<open>CoAP_SetPayload\<close> (\<open>option-types\<close>).
  \<^item> \<open>Uri\<close>, \<open>Uri_Correct\<close>: \<open>coap_option_uri.c\<close>.
  \<^item> \<open>Resource\<close>, \<open>Resource_NV\<close>: \<open>coap_resource.c\<close>, with the directory resource
    \<open>/.well-known/core\<close>; saving and loading of observers (\<open>CoAP_NVsaveObservers\<close>,
    \<open>CoAP_NVloadObservers\<close>).
  \<^item> \<open>Interaction\<close>, \<open>Exchange\<close>: \<open>coap_interaction.c\<close>; the globals of the stack are the record
    \<open>stack\<close>, what is outside of it (allocator, handlers, notifiers, uninitialised memory) the
    record \<open>env\<close>.
  \<^item> \<open>Stack\<close>, \<open>Stack_Inv\<close>: \<open>coap_main.c\<close> and the receive functions of \<open>go_adapter.c\<close>; the relation
    \<open>step\<close> with the reachable states and their invariant \<open>stack_ok\<close>.
  \<^item> \<open>Ownership\<close>, \<open>Stack_Owned\<close>: ownership of several objects at once (\<open>owns\<close>, with rules to split,
    join and frame), and what sending, repeating and deleting do to the buffers of an interaction.
  \<^item> \<open>Holding\<close>, \<open>Holding_Resource\<close>: ownership as a multiset of objects that the allocator holds, one
    rule per operation on options, messages, observers, payloads and resources.
  \<^item> \<open>Stack_Safe\<close>, \<open>Stack_Safe_Work\<close>, \<open>Stack_Safe_Receive\<close>: the invariant \<open>stack_safe\<close> (the stack owns
    the objects in its lists) and that every step of the work loop and of reception keeps it;
    \<open>working\<close> describes the stack while a function changes one interaction.
  \<^item> \<open>Printing\<close>: the debug output: the buffer \<open>dbgBuf\<close> and the print functions of all components.
  \<^item> \<open>Examples\<close> and the \<open>_Properties\<close> theories: concrete objects, and the properties C1 to C40.

  \<^bold>\<open>What is shown.\<close> Of the allocator: no assertion of the sources ever fails, live buffers do
  not overlap, allocation is best fit, freed memory is coalesced. Of the codecs: what is written is
  the reference encoding and is read back unchanged, apart from the messages that the parser refuses, which are
  named; the option parser terminates on any input, and the result of parsing depends on the bytes of the datagram only, if the
  token that the header announces lies inside the datagram (which the code does not check). Of ownership: which buffers every message
  operation allocates and releases, with the case of exhausted memory. Of the options, URIs and
  block-wise transfer: equivalence with reference definitions, round trips and bounds. Of the state
  machine: the invariant of all reachable states, under any order of steps, any handler and any
  allocator, and with it that the searches follow no missing pointer, retransmission with
  exponential back-off at most four times, detection of duplicates, fairness, progress of client
  exchanges. Of observation: what a registration changes, and that a change of a resource starts one
  notification per observing endpoint while there is memory (\<open>Observe_Properties\<close>). Of whole exchanges: which answer a received message gets, the piggybacked response of
  a handler, the delivery of a response, and that all buffers are given back at their end. Of whole
  runs: the stack owns the objects in its lists, each one alone, and no assertion of its allocator fails, as long as every step has a defined
  outcome (\<open>stack_memory_safe\<close>). The pointer of a notification to its observer is not an owned object: it can be left
  behind when the observer registers again, and the work step that then follows it has no outcome in the model. Of the debug output: no
  string is longer than the buffer it is written to.

  \<^bold>\<open>Bounds and loops.\<close> The option parser gets fuel \<open>srcLength + 1\<close>; each turn consumes a byte, so
  the fuel is never used up (\<open>parse_options_terminates\<close>). The list walks of the allocator are
  \<open>while_option\<close>; they are shown to return in every consistent pool. Requests of up to
  \<open>MAX_REQ\<close> = 32760 bytes are those whose size computation stays within \<open>int16_t\<close>; a pool is at
  most 32767 bytes for the same reason. \<open>HANDLER_WEIGHT\<close> and \<open>MAX_WEIGHT\<close> bound the messages of a
  running stack, so that the size of every datagram is such a request. Exhausted memory is excluded
  with the predicate \<open>bget_room b\<close>: some free buffer is more than \<open>b\<close> + 12 bytes long, from which requests can be
  served whose sizes, with \<open>ROOM_COST\<close> = 16 bytes for each, add up to at most \<open>b\<close>. So an option needs 28 bytes and its
  value, a parsed datagram at most 29 bytes per byte and 56 more, and a notification 512 bytes (116 for the
  interaction, 120 for the message, 31 for the Observe option, 245 for the notifier).

  \<^bold>\<open>Not modelled.\<close> The progress messages that the functions print on the way; the branches of
  \<open>coap_mem.c\<close> that its configuration switches off (\<open>BECtl\<close>, \<open>FreeWipe\<close>, \<open>BufDump\<close>, the test
  program); the transmit function, which is on the Go side and a parameter; the
  non volatile memory of the platform, whose contents are an argument; the later, prebuilt
  version of the library that \<open>src/liblobarocoap\<close> only declares. The response callback of a client is recorded
  in \<open>Delivered\<close> and does not call the stack again. The assertions on the size of a
  free buffer in \<open>bstats\<close> and on the arguments of \<open>bufferIsPartOfMsg\<close>, which do not change a result, are left out. \<open>CoAP_FindResourceByUri\<close> is
  modelled for the list it is called with, the list of all resources. The clock stands still during one
  call. The contents of uninitialised memory are parameters.
\<close>

section \<open>Messages on the wire\<close>

text \<open>C1. Round trip of the message codec, for every well-formed message with options of up to 1034 bytes and an
  encoding below 64 KiB. \<open>CoAP_BuildDatagram\<close> succeeds. \<open>receiver_refuses\<close> names the messages that can
  be built but that the parser does not accept: those with a reserved code class or a payload without any option
  are a format error for it, and more than 256 bytes of payload are too much. It answers these with exactly that
  result, no message and an unchanged heap. Every other message comes back with the same type, code, id, token,
  options (in order) and payload, except that the token of an empty message is not transmitted
  (\<open>wire_view\<close>), and owns exactly the new buffers. The only further outcome is exhausted memory; it leaves the heap
  unchanged and does not occur while a free buffer has more than 29 bytes per byte of the datagram and 68 more.\<close>

theorem datagram_roundtrip:
  assumes "bget_rep m h" "msg_wf Msg" "encodable (pOptionsList Msg)" "length (encode_message Msg) < 65536"
    "CoAP_BuildDatagram d Msg = (r, n, buf, Msg')"
  shows "r = COAP_OK \<and> (\<exists>res M m' h'. CoAP_ParseMessageFromDatagram bget_ops m now buf n = Some (res, M, m') \<and>
    bget_rep m' h' \<and>
    (case M of
       Some N \<Rightarrow> receiver_refuses Msg = None \<and> res = COAP_OK \<and> msg_view N = wire_view Msg \<and>
         msg_owned (mem_area bget_ops m') h N h'
     | None \<Rightarrow> h' = h \<and> (receiver_refuses Msg = Some res \<or>
         res = COAP_ERR_OUT_OF_MEMORY \<and> \<not> bget_room (29 * int (length (encode_message Msg)) + 56) m)))"
proof -
  have res: "r = COAP_OK" "n = of_nat (length (encode_message Msg))" "buf = write_at d 0 (encode_message Msg)"
    using assms(5) BuildDatagram_write [OF assms(2,4), of d] by auto
  have enc: "bytes_at buf 0 (length (encode_message Msg)) = encode_message Msg" by (simp add: res)
  have un: "unat n = length (encode_message Msg)" unfolding res(2) by (rule unat_of_nat16 [OF assms(4)])
  have tok: "token_end buf \<le> unat n" using parsed_header_encoded(3) [OF enc] un by (simp add: encode_message_def msg_header_def)
  have room: "\<not> bget_room (29 * int (length (encode_message Msg)) + 56) m"
    if "CoAP_ParseMessageFromDatagram bget_ops m now buf n = Some (COAP_ERR_OUT_OF_MEMORY, None, m')" for m'
    using bget_space.parse_message_room [OF tok _ that] un by auto
  from assms(1-4) enc res(2) show ?thesis
    by (cases rule: bget.parse_encoded [where now = now]) (use res(1) room in \<open>auto intro!: exI\<close>)
qed

theorem datagram_roundtrip_witness:
  "\<exists>n buf Msg'. CoAP_BuildDatagram (\<lambda>_. 0) demo_msg = (COAP_OK, n, buf, Msg') \<and>
    (\<exists>N m' h'. CoAP_ParseMessageFromDatagram bget_ops demo_pool 7 buf n = Some (COAP_OK, Some N, m') \<and>
      bget_rep m' h' \<and> msg_view N = msg_view demo_msg \<and> msg_owned (mem_area bget_ops m') Map.empty N h')"
proof -
  obtain r n buf Msg' where b: "CoAP_BuildDatagram (\<lambda>_. 0) demo_msg = (r, n, buf, Msg')"
    using prod_cases4 by blast
  have l: "length (encode_message demo_msg) < 65536" by (simp add: demo_length)
  show ?thesis
    using b datagram_roundtrip [OF demo_rep demo_msg_wf(1,2) l b, of 7] demo_room [of 1187]
    by (auto simp: demo_length demo_views demo_msg_wf(3) split: option.splits)
qed

text \<open>C5. What the parser returns for the bytes of a datagram that contains the token its header announces (the
  parser does not check this condition; without it, it reads on behind the datagram), whatever else the bytes are. It
  returns (its loops end); a message comes with result \<open>COAP_OK\<close>, is well formed with sorted options and owns
  exactly the newly allocated buffers, so that \<open>CoAP_free_Message\<close> gives all of them back; after an error other
  than exhausted memory the heap is unchanged. Exhausted memory may lose buffers, but touches no live one, and it
  does not occur while a free buffer has more than 29 bytes per byte of the datagram and 68 more.\<close>

theorem parse_ownership:
  assumes "bget_rep m h" "header_ok src \<Longrightarrow> token_end src \<le> unat n"
  shows "\<exists>res M m' h'. CoAP_ParseMessageFromDatagram bget_ops m now src n = Some (res, M, m') \<and> bget_rep m' h' \<and>
    (case M of
       Some N \<Rightarrow> res = COAP_OK \<and> msg_wf N \<and> msg_owned (mem_area bget_ops m') h N h' \<and>
         (\<exists>m''. CoAP_free_Message bget_ops m' (Some N) = (COAP_OK, None, m'') \<and> bget_rep m'' h)
     | None \<Rightarrow> res \<noteq> COAP_OK \<and> (\<exists>lost. heap_ext h lost h' \<and> (res \<noteq> COAP_ERR_OUT_OF_MEMORY \<longrightarrow> lost = [] \<and> h' = h)) \<and>
         (res = COAP_ERR_OUT_OF_MEMORY \<longrightarrow> \<not> bget_room (29 * int (unat n) + 56) m))"
proof (rule bget.parse_owns [OF assms, where now = now])
  fix M m' h'
  assume ok: "CoAP_ParseMessageFromDatagram bget_ops m now src n = Some (COAP_OK, Some M, m')"
    "bget_rep m' h'" "msg_owned (mem_area bget_ops m') h M h'" "msg_wf M" "Timestamp M = now"
  obtain m'' where "CoAP_free_Message bget_ops m' (Some M) = (COAP_OK, None, m'')" "bget_rep m'' h"
    by (rule bget.free_message [OF ok(2,3)])
  with ok show ?thesis by (intro exI [of _ COAP_OK] exI [of _ "Some M"] exI [of _ m'] exI [of _ h']) auto
next
  fix r m'
  assume "CoAP_ParseMessageFromDatagram bget_ops m now src n = Some (r, None, m')"
    "r \<notin> {COAP_OK, COAP_ERR_OUT_OF_MEMORY}" "bget_rep m' h"
  then show ?thesis by (intro exI [of _ r] exI [of _ None] exI [of _ m'] exI [of _ h]) (auto intro!: exI [of _ "[]"])
next
  fix m' h' lost
  assume oom: "CoAP_ParseMessageFromDatagram bget_ops m now src n = Some (COAP_ERR_OUT_OF_MEMORY, None, m')"
    "bget_rep m' h'" "heap_ext h lost h'"
  have "\<not> bget_room (29 * int (unat n) + 56) m" using bget_space.parse_message_room [OF assms(2) _ oom(1)] by blast
  with oom show ?thesis
    by (intro exI [of _ COAP_ERR_OUT_OF_MEMORY] exI [of _ None] exI [of _ m'] exI [of _ h']) auto
qed

theorem parse_ownership_witness:
  "\<exists>res M m' h'. CoAP_ParseMessageFromDatagram bget_ops demo_pool 7 demo_bytes 11 = Some (res, M, m') \<and> bget_rep m' h' \<and>
    (case M of
       Some N \<Rightarrow> res = COAP_OK \<and> msg_wf N \<and> msg_owned (mem_area bget_ops m') Map.empty N h' \<and>
         (\<exists>m''. CoAP_free_Message bget_ops m' (Some N) = (COAP_OK, None, m'') \<and> bget_rep m'' Map.empty)
     | None \<Rightarrow> res \<notin> {COAP_OK, COAP_ERR_OUT_OF_MEMORY} \<and> h' = Map.empty)"
proof -
  have tok: "token_end demo_bytes \<le> unat (11 :: u16)" by code_simp
  have "\<not> \<not> bget_room (29 * int (unat (11 :: u16)) + 56) demo_pool" using demo_room [of 375] by simp
  then show ?thesis using parse_ownership [OF demo_rep tok, of 7] by (auto simp del: CoAP_free_Message.simps split: option.split_asm intro!: exI)
qed

end
